(* ===== verification/Prelude.thy ===== *)
theory Prelude
  imports Main "HOL-Library.Word"
begin

text \<open>
  The vocabulary the component theories share: Go's byte slices and fixed-width integers, the
  byte order codecs of \<^verbatim>\<open>encoding/binary\<close> and of \<^verbatim>\<open>big.Int.Bytes\<close>, and the generic facts on
  lists, options and maps that the component proofs use. A Go \<^verbatim>\<open>string\<close> that is a cast of a byte
  slice is a \<open>bytes\<close> value too; a slice that the code compares with \<^verbatim>\<open>nil\<close> is a \<open>bytes option\<close>.
\<close>

section \<open>Bytes and machine integers\<close>

type_synonym byte = "8 word"
type_synonym bytes = "8 word list"
type_synonym u8 = "8 word"
type_synonym u16 = "16 word"
type_synonym u32 = "32 word"
type_synonym u64 = "64 word"
type_synonym ('e, 'a) result = "'e + 'a"

named_theorems bytes_simps "lengths and round trips of the byte codecs"

text \<open>\<^verbatim>\<open>binary.LittleEndian.PutUintN\<close> and \<^verbatim>\<open>binary.LittleEndian.UintN\<close> on \<open>k\<close> bytes.\<close>

fun le_bytes :: "nat \<Rightarrow> nat \<Rightarrow> bytes" where
  "le_bytes 0 n = []"
| "le_bytes (Suc k) n = of_nat n # le_bytes k (n div 256)"

fun le_nat :: "bytes \<Rightarrow> nat" where
  "le_nat [] = 0"
| "le_nat (b # bs) = unat b + 256 * le_nat bs"

text \<open>The big-endian pair.\<close>

definition be_bytes :: "nat \<Rightarrow> nat \<Rightarrow> bytes" where
  "be_bytes k n = rev (le_bytes k n)"

definition be_nat :: "bytes \<Rightarrow> nat" where
  "be_nat bs = le_nat (rev bs)"

text \<open>\<^verbatim>\<open>big.Int.Bytes\<close>: the big-endian bytes of the absolute value without leading zeros.\<close>

fun nat_le_min :: "nat \<Rightarrow> bytes" where
  "nat_le_min n = (if n = 0 then [] else of_nat n # nat_le_min (n div 256))"

declare nat_le_min.simps [simp del]

definition big_bytes :: "nat \<Rightarrow> bytes" where
  "big_bytes n = rev (nat_le_min n)"

lemma mult_add_div: "(r :: nat) < b \<Longrightarrow> (q * b + r) div b = q"
  by (subst div_mult_self3) auto

lemma mult_add_mod: "(r :: nat) < b \<Longrightarrow> (q * b + r) mod b = r"
  by simp

lemma unat_of_nat_byte [simp]: "unat (of_nat n :: byte) = n mod 256"
  by (simp add: unat_of_nat)

lemma unat_byte_less [simp]: "unat (b :: byte) < 256"
  using unsigned_less [of b] by simp

lemma length_le_bytes [simp, bytes_simps]: "length (le_bytes k n) = k"
  by (induction k arbitrary: n) auto

lemma length_be_bytes [simp, bytes_simps]: "length (be_bytes k n) = k"
  by (simp add: be_bytes_def)

lemma le_nat_le_bytes [bytes_simps]: "le_nat (le_bytes k n) = n mod 256 ^ k"
proof (induction k arbitrary: n)
  case 0
  then show ?case by simp
next
  case (Suc k)
  have "n mod (256 * 256 ^ k) = 256 * (n div 256 mod 256 ^ k) + n mod 256"
    by (simp add: mod_mult2_eq)
  with Suc show ?case by simp
qed

lemma le_nat_bound: "le_nat bs < 256 ^ length bs"
proof (induction bs)
  case Nil
  then show ?case by simp
next
  case (Cons b bs)
  have "unat b < 256" by simp
  with Cons.IH have "unat b + 256 * le_nat bs < 256 + 256 * (256 ^ length bs - 1)"
    by linarith
  also have "\<dots> = 256 ^ length (b # bs)"
    by (simp add: algebra_simps)
  finally show ?case by simp
qed

lemma le_bytes_le_nat [bytes_simps]: "length bs = k \<Longrightarrow> le_bytes k (le_nat bs) = bs"
proof (induction bs arbitrary: k)
  case Nil
  then show ?case by simp
next
  case (Cons b bs)
  then obtain j where k: "k = Suc j" and j: "length bs = j" by auto
  have "of_nat (unat b + 256 * le_nat bs) = b"
    by (rule word_unat_eq_iff [THEN iffD2], subst unat_of_nat) simp
  moreover have "(unat b + 256 * le_nat bs) div 256 = le_nat bs"
    by (simp add: div_eq_dividend_iff)
  ultimately show ?case
    using Cons.IH [OF j] by (simp add: k)
qed

lemma be_nat_be_bytes [bytes_simps]: "be_nat (be_bytes k n) = n mod 256 ^ k"
  by (simp add: be_nat_def be_bytes_def le_nat_le_bytes)

lemma be_bytes_be_nat [bytes_simps]: "length bs = k \<Longrightarrow> be_bytes k (be_nat bs) = bs"
  by (simp add: be_nat_def be_bytes_def le_bytes_le_nat)

lemma be_nat_bound: "be_nat bs < 256 ^ length bs"
  using le_nat_bound [of "rev bs"] by (simp add: be_nat_def)

lemma le_nat_nat_le_min [simp]: "le_nat (nat_le_min n) = n"
proof (induction n rule: nat_le_min.induct)
  case (1 n)
  then show ?case
    by (subst nat_le_min.simps) auto
qed

lemma be_nat_big_bytes [simp, bytes_simps]: "be_nat (big_bytes n) = n"
  by (simp add: be_nat_def big_bytes_def)

lemma big_bytes_inject [simp]: "big_bytes m = big_bytes n \<longleftrightarrow> m = n"
  by (metis be_nat_big_bytes)

lemma big_bytes_eq_Nil [simp]: "big_bytes n = [] \<longleftrightarrow> n = 0"
  by (subst big_bytes_def, subst nat_le_min.simps) auto

lemma big_bytes_0 [simp]: "big_bytes 0 = []"
  by simp

lemma be_bytes_inject:
  "m < 256 ^ k \<Longrightarrow> n < 256 ^ k \<Longrightarrow> be_bytes k m = be_bytes k n \<longleftrightarrow> m = n"
  by (metis be_nat_be_bytes mod_less)

lemma le_bytes_inject:
  "m < 256 ^ k \<Longrightarrow> n < 256 ^ k \<Longrightarrow> le_bytes k m = le_bytes k n \<longleftrightarrow> m = n"
  by (metis le_nat_le_bytes mod_less)

lemma distinct_concat_map:
  assumes "distinct js" and "\<And>j. j \<in> set js \<Longrightarrow> distinct (f j)"
    and "\<And>i j. i \<in> set js \<Longrightarrow> j \<in> set js \<Longrightarrow> i \<noteq> j \<Longrightarrow> set (f i) \<inter> set (f j) = {}"
  shows "distinct (concat (map f js))"
  using assms by (induction js) fastforce+

lemma of_nat_u8_inject:
  assumes "of_nat i = (of_nat j :: u8)" and "i < 256" and "j < 256"
  shows "i = j"
proof -
  have "unat (of_nat k :: u8) = k" if "k < 256" for k
    using that by (simp add: unat_of_nat)
  from this [OF assms(2)] this [OF assms(3)] assms(1) show ?thesis by metis
qed

section \<open>Signed reading and differences of 64-bit words\<close>

lemma sint_neg_iff: "sint (x :: u64) < 0 \<longleftrightarrow> 2 ^ 63 \<le> unat x"
proof -
  have "sint x < 0 \<longleftrightarrow> bit (uint x) 63" by (simp add: bit_last_iff [symmetric] bit_uint_iff)
  also have "\<dots> \<longleftrightarrow> odd (uint x div 2 ^ 63)" by (simp add: bit_iff_odd)
  also have "\<dots> \<longleftrightarrow> 2 ^ 63 \<le> uint x"
  proof (cases "2 ^ 63 \<le> uint x")
    case True
    have "uint x < 2 ^ 64" using unsigned_less [of x] by simp
    with True have "uint x div 2 ^ 63 = 1" by (simp add: div_pos_geq)
    with True show ?thesis by simp
  qed (simp add: div_pos_pos_trivial)
  also have "\<dots> \<longleftrightarrow> 2 ^ 63 \<le> unat x"
  proof -
    have "int (unat x) = uint x" by simp
    then have "9223372036854775808 \<le> uint x \<longleftrightarrow> 9223372036854775808 \<le> unat x" by presburger
    then show ?thesis by simp
  qed
  finally show ?thesis .
qed

lemma unat_diff: "unat (x - y :: u64) = (if unat y \<le> unat x then unat x - unat y else unat x + 2 ^ 64 - unat y)"
  by (simp add: unat_sub_if_size word_le_nat_alt word_size)

section \<open>Fallible computations\<close>

text \<open>A result, if there is one, satisfies \<open>P\<close>; the rules take an operation apart along its binds.\<close>

named_theorems safe_rules "what a fallible operation gives when it returns"

definition safe :: "('a \<Rightarrow> bool) \<Rightarrow> 'a option \<Rightarrow> bool" where
  "safe P m \<longleftrightarrow> (\<forall>x. m = Some x \<longrightarrow> P x)"

lemma safe_simps [simp]: "safe P None" "safe P (Some x) \<longleftrightarrow> P x" "safe P (map_option f m) \<longleftrightarrow> safe (\<lambda>x. P (f x)) m"
  by (auto simp: safe_def)

lemma safe_bind [safe_rules]: "safe (\<lambda>x. safe P (f x)) m \<Longrightarrow> safe P (Option.bind m f)"
  by (auto simp: safe_def bind_eq_Some_conv)

lemma safe_pure: "(\<And>x. m = Some x \<Longrightarrow> P x) \<Longrightarrow> safe P m"
  by (simp add: safe_def)

end
