(* ===== verification/Merkle_Calc.thy ===== *)
theory Merkle_Calc
  imports Prelude
begin

text \<open>
  The arithmetic of the b-ary Merkle tree (\<^verbatim>\<open>src/merkle/tree_calc.go\<close>). A big integer that is never
  negative in the code is a \<open>nat\<close>. The loop of \<^verbatim>\<open>Height\<close> runs forever for branch factor 1, so it is a
  \<open>partial_function\<close> and not returning is \<open>None\<close>. The second half relates the loop to the row sizes
  and to the number of levels above the leaves.
\<close>

section \<open>TreeCalc\<close>

record tree_calc =
  bfactorRaw :: u8
  bfactor :: nat

definition NewTreeCalc :: "u8 \<Rightarrow> tree_calc" where
  "NewTreeCalc bf = \<lparr>bfactorRaw = bf, bfactor = unat bf\<rparr>"

definition BranchFactor :: "tree_calc \<Rightarrow> u8" where
  "BranchFactor tc = bfactorRaw tc"

definition GroupCount :: "tree_calc \<Rightarrow> nat \<Rightarrow> nat" where
  "GroupCount tc nodeCount =
     (let count = nodeCount div bfactor tc; m = nodeCount mod bfactor tc
      in if m > 0 then count + 1 else count)"

partial_function (option) height_loop :: "tree_calc \<Rightarrow> nat \<Rightarrow> u8 \<Rightarrow> u8 option" where [code]:
  "height_loop tc nodeCount h =
     (if nodeCount > 1 then height_loop tc (GroupCount tc nodeCount) (h + 1) else Some h)"

definition Height :: "tree_calc \<Rightarrow> nat \<Rightarrow> u8 option" where
  "Height tc nleaf = height_loop tc nleaf 1"

definition FirstNodeOfGroup :: "tree_calc \<Rightarrow> nat \<Rightarrow> nat" where
  "FirstNodeOfGroup tc blkIdx = blkIdx * bfactor tc"

definition GroupOfNode :: "tree_calc \<Rightarrow> nat \<Rightarrow> nat" where
  "GroupOfNode tc nodeIdx = nodeIdx div bfactor tc"

definition NodeIndexInGroup :: "tree_calc \<Rightarrow> nat \<Rightarrow> nat" where
  "NodeIndexInGroup tc nodeIdx = nodeIdx mod bfactor tc"

section \<open>Row sizes and levels\<close>

text \<open>The invariant of every calculator the tree uses: \<^verbatim>\<open>NewTree\<close> raises the factor to 2.\<close>

definition wf_calc :: "tree_calc \<Rightarrow> bool" where
  "wf_calc tc \<longleftrightarrow> 2 \<le> bfactor tc \<and> bfactor tc = unat (bfactorRaw tc)"

text \<open>The number of nodes of level \<open>l\<close> of a tree with \<open>n\<close> leaves.\<close>

primrec row :: "tree_calc \<Rightarrow> nat \<Rightarrow> nat \<Rightarrow> nat" where
  "row tc n 0 = n"
| "row tc n (Suc l) = row tc (GroupCount tc n) l"

text \<open>The number of levels above the leaves: the least \<open>l\<close> with \<open>n \<le> b ^ l\<close>.\<close>

function levels :: "tree_calc \<Rightarrow> nat \<Rightarrow> nat" where
  "levels tc n =
     (if n > 1 \<and> bfactor tc \<ge> 2 then Suc (levels tc (GroupCount tc n)) else 0)"
  by pat_completeness auto

lemma GroupCount_ceil:
  assumes "0 < bfactor tc"
  shows "GroupCount tc n = (n + bfactor tc - 1) div bfactor tc"
proof -
  let ?b = "bfactor tc"
  have n: "n = n div ?b * ?b + n mod ?b" by simp
  show ?thesis
  proof (cases "n mod ?b = 0")
    case True
    then have "n + ?b - 1 = n div ?b * ?b + (?b - 1)"
      using n assms by linarith
    then have "(n + ?b - 1) div ?b = n div ?b"
      using assms by (simp only: mult_add_div)
    with True show ?thesis by (simp add: GroupCount_def)
  next
    case False
    have "n mod ?b < ?b" using assms by simp
    have "(n div ?b + 1) * ?b = n div ?b * ?b + ?b" by simp
    then have "n + ?b - 1 = (n div ?b + 1) * ?b + (n mod ?b - 1)"
      using n False by linarith
    then have "(n + ?b - 1) div ?b = n div ?b + 1"
      using \<open>n mod ?b < ?b\<close> by (simp only: mult_add_div)
    with False show ?thesis by (simp add: GroupCount_def Let_def)
  qed
qed

lemma GroupCount_less: "2 \<le> bfactor tc \<Longrightarrow> 1 < n \<Longrightarrow> GroupCount tc n < n"
proof -
  assume b: "2 \<le> bfactor tc" and n: "1 < n"
  have "GroupCount tc n * bfactor tc \<le> n + bfactor tc - 1"
    using b by (simp add: GroupCount_ceil)
  moreover have "n + bfactor tc - 1 < n * bfactor tc"
  proof -
    have "(n - 1) * 1 < (n - 1) * bfactor tc"
      using b n by (intro mult_strict_left_mono) auto
    with n b show ?thesis by (simp add: diff_mult_distrib)
  qed
  ultimately have "GroupCount tc n * bfactor tc < n * bfactor tc" by linarith
  then show ?thesis by simp
qed

termination levels
  by (relation "measure snd") (auto simp: GroupCount_less)

declare levels.simps [simp del]

text \<open>A node index is inside the row above exactly when its first child is inside the row.\<close>

lemma less_GroupCount_iff:
  assumes "0 < bfactor tc"
  shows "g < GroupCount tc n \<longleftrightarrow> g * bfactor tc < n"
proof -
  have "g < (n + bfactor tc - 1) div bfactor tc \<longleftrightarrow> (g + 1) * bfactor tc \<le> n + bfactor tc - 1"
    using assms by (simp add: Suc_le_eq [symmetric] less_eq_div_iff_mult_less_eq)
  also have "\<dots> \<longleftrightarrow> g * bfactor tc < n"
    using assms by (simp add: algebra_simps) linarith
  finally show ?thesis by (simp add: GroupCount_ceil [OF assms])
qed

lemma GroupCount_0 [simp]: "GroupCount tc 0 = 0"
  by (simp add: GroupCount_def)

lemma GroupCount_1 [simp]: "2 \<le> bfactor tc \<Longrightarrow> GroupCount tc (Suc 0) = 1"
  by (simp add: GroupCount_def)

lemma less_row_iff:
  assumes "0 < bfactor tc"
  shows "i < row tc n l \<longleftrightarrow> i * bfactor tc ^ l < n"
  using assms
  by (induction l arbitrary: n) (simp_all add: less_GroupCount_iff ac_simps)

lemma row_Suc: "row tc n (Suc l) = GroupCount tc (row tc n l)"
  by (induction l arbitrary: n) simp_all

lemma row_le_1_iff:
  assumes "0 < bfactor tc"
  shows "row tc n l \<le> 1 \<longleftrightarrow> n \<le> bfactor tc ^ l"
  using less_row_iff [OF assms, of 1 n l] by auto

lemma levels_le_iff:
  assumes "2 \<le> bfactor tc"
  shows "levels tc n \<le> l \<longleftrightarrow> n \<le> bfactor tc ^ l"
proof (induction l arbitrary: n)
  case 0
  show ?case using assms by (subst levels.simps) auto
next
  case (Suc l)
  show ?case
  proof (cases "n > 1")
    case True
    then have "levels tc n \<le> Suc l \<longleftrightarrow> GroupCount tc n \<le> bfactor tc ^ l"
      using assms Suc.IH by (subst levels.simps) auto
    also have "\<dots> \<longleftrightarrow> n \<le> bfactor tc ^ Suc l"
      using less_GroupCount_iff [of tc "bfactor tc ^ l" n] assms by (auto simp: ac_simps)
    finally show ?thesis .
  next
    case False
    with assms show ?thesis
      by (subst levels.simps) (auto intro: order_trans [of _ 1] simp: Suc_le_eq)
  qed
qed

lemma less_levels_iff: "2 \<le> bfactor tc \<Longrightarrow> l < levels tc n \<longleftrightarrow> bfactor tc ^ l < n"
  using levels_le_iff [of tc n l] by linarith

lemma levels_mono: "2 \<le> bfactor tc \<Longrightarrow> m \<le> n \<Longrightarrow> levels tc m \<le> levels tc n"
  by (meson levels_le_iff order.refl order_trans)

text \<open>The loop of \<^verbatim>\<open>Height\<close> returns for every branch factor of at least 2.\<close>

lemma height_loop_levels:
  assumes b: "2 \<le> bfactor tc"
  shows "height_loop tc n h = Some (h + of_nat (levels tc n))"
proof (induction n arbitrary: h rule: less_induct)
  case (less n)
  show ?case
  proof (cases "n > 1")
    case True
    have "height_loop tc n h = height_loop tc (GroupCount tc n) (h + 1)"
      using True by (subst height_loop.simps) simp
    also have "\<dots> = Some (h + 1 + of_nat (levels tc (GroupCount tc n)))"
      using less GroupCount_less [OF b True] by blast
    finally show ?thesis
      using True b by (subst levels.simps) simp
  next
    case False
    then show ?thesis
      by (subst height_loop.simps, subst levels.simps) simp
  qed
qed

lemma Height_levels:
  "2 \<le> bfactor tc \<Longrightarrow> Height tc n = Some (of_nat (Suc (levels tc n)))"
  by (simp add: Height_def height_loop_levels)

lemma unat_Height:
  assumes "2 \<le> bfactor tc" and "n \<le> bfactor tc ^ 254"
  shows "unat (of_nat (Suc (levels tc n)) :: u8) = Suc (levels tc n)"
proof -
  have "levels tc n \<le> 254" using assms levels_le_iff by blast
  then show ?thesis by (subst unat_of_nat) simp
qed

end
