(* ===== verification/Merkle_Tree.thy ===== *)
theory Merkle_Tree
  imports Merkle_Calc "HOL-Library.Multiset"
begin

text \<open>
  The Merkle tree engine: positions, nodes and groups (\<^verbatim>\<open>src/merkle/types.go\<close>), the incremental
  \<^verbatim>\<open>Update\<close> and \<^verbatim>\<open>Verify\<close> of \<^verbatim>\<open>src/merkle/tree.go\<close>, and the in-memory store of
  \<^verbatim>\<open>src/merkle/store.go\<close>. The hash function of the configuration is the argument \<open>hash\<close>. A level is
  recomputed by worker goroutines over the groups of a Go map, so the parents arrive in any order: the
  argument \<open>sched\<close> is the permutation of the level's parents that one run happens to produce. A panic
  (an index out of range) and a height loop that does not end are both the value \<open>None\<close>.
\<close>

section \<open>Positions\<close>

record position =
  level :: u8
  index :: nat
  pbytes :: bytes
  pstr :: bytes

definition UnmarshalPosition :: "bytes \<Rightarrow> position option" where
  "UnmarshalPosition b =
     (case b of [] \<Rightarrow> None
      | l # ib \<Rightarrow> Some \<lparr>level = l, index = be_nat ib, pbytes = b, pstr = b\<rparr>)"

definition setBytes :: "u8 \<Rightarrow> nat \<Rightarrow> bytes" where
  "setBytes lvl i = (let ib = big_bytes i; ib = (if ib = [] then [0] else ib) in lvl # ib)"

definition NewPosition :: "u8 \<Rightarrow> nat \<Rightarrow> position" where
  "NewPosition lvl i =
     \<lparr>level = lvl, index = i, pbytes = setBytes lvl i, pstr = setBytes lvl i\<rparr>"

text \<open>\<^verbatim>\<open>UniqueMap\<close> keeps the first position of every key; the pairs stand in order of insertion.\<close>

fun UniqueMap_loop :: "(bytes \<times> position) list \<Rightarrow> position list \<Rightarrow> (bytes \<times> position) list" where
  "UniqueMap_loop pmap [] = pmap"
| "UniqueMap_loop pmap (p # ps) =
     (if map_of pmap (pstr p) = None then UniqueMap_loop (pmap @ [(pstr p, p)]) ps
      else UniqueMap_loop pmap ps)"

definition UniqueMap :: "position list \<Rightarrow> (bytes \<times> position) list" where
  "UniqueMap ps = UniqueMap_loop [] ps"

section \<open>Nodes and groups\<close>

record mnode =
  Position :: position
  Data :: "bytes option"

record group =
  gtc :: tree_calc
  parentPosition :: position
  gnodes :: "mnode option list"

definition NewGroup :: "tree_calc \<Rightarrow> position \<Rightarrow> group" where
  "NewGroup tc pPos =
     \<lparr>gtc = tc, parentPosition = pPos, gnodes = replicate (unat (BranchFactor tc)) None\<rparr>"

definition SetNode :: "group \<Rightarrow> mnode \<Rightarrow> group" where
  "SetNode b n =
     (let i = NodeIndexInGroup (gtc b) (index (Position n))
      in if i < length (gnodes b) then b\<lparr>gnodes := (gnodes b)[i := Some n]\<rparr> else b)"

text \<open>The loop of \<^verbatim>\<open>Load\<close>, from child \<open>i\<close> on; it breaks at the first missing child past the row.\<close>

fun Load_loop :: "(position \<Rightarrow> bytes option) \<Rightarrow> u8 \<Rightarrow> nat \<Rightarrow> nat \<Rightarrow> nat \<Rightarrow> mnode option list
    \<Rightarrow> mnode option list" where
  "Load_loop getNode lvl offset rowSize i [] = []"
| "Load_loop getNode lvl offset rowSize i (Some n # ns) =
     Some n # Load_loop getNode lvl offset rowSize (Suc i) ns"
| "Load_loop getNode lvl offset rowSize i (None # ns) =
     (if \<not> offset + i < rowSize then None # ns
      else let p = NewPosition lvl (offset + i)
           in (case getNode p of
                 None \<Rightarrow> None
               | Some d \<Rightarrow> Some \<lparr>Position = p, Data = Some d\<rparr>)
              # Load_loop getNode lvl offset rowSize (Suc i) ns)"

definition Load :: "(position \<Rightarrow> bytes option) \<Rightarrow> nat \<Rightarrow> group \<Rightarrow> group" where
  "Load getNode rowSize b =
     b\<lparr>gnodes := Load_loop getNode (level (parentPosition b) - 1)
          (FirstNodeOfGroup (gtc b) (index (parentPosition b))) rowSize 0 (gnodes b)\<rparr>"

definition IsEmpty :: "group \<Rightarrow> bool" where
  "IsEmpty b = list_all (\<lambda>n. n = None) (gnodes b)"

definition write_data :: "mnode option \<Rightarrow> bytes" where
  "write_data n = (case n of None \<Rightarrow> [] | Some m \<Rightarrow> (case Data m of None \<Rightarrow> [] | Some d \<Rightarrow> d))"

definition Sum :: "(bytes \<Rightarrow> bytes) \<Rightarrow> group \<Rightarrow> bytes option" where
  "Sum hash b = (if IsEmpty b then None else Some (hash (concat (map write_data (gnodes b)))))"

definition MakeParent :: "(bytes \<Rightarrow> bytes) \<Rightarrow> group \<Rightarrow> mnode" where
  "MakeParent hash b = \<lparr>Position = parentPosition b, Data = Sum hash b\<rparr>"

section \<open>The tree\<close>

record update_result =
  uLeafCount :: nat
  uHeight :: u8
  uLeaves :: "mnode list"
  uBranches :: "mnode list"
  uRoot :: mnode

text \<open>\<^verbatim>\<open>NewTree\<close> builds the calculator of a branch factor of at least 2.\<close>

definition NewTree :: "u8 \<Rightarrow> tree_calc" where
  "NewTree branchFactor = NewTreeCalc (if branchFactor < 2 then 2 else branchFactor)"

definition getGroupPositions :: "tree_calc \<Rightarrow> mnode list \<Rightarrow> position list" where
  "getGroupPositions tc nodes =
     map (\<lambda>n. NewPosition (level (Position n) + 1) (GroupOfNode tc (index (Position n)))) nodes"

definition makeGroups :: "tree_calc \<Rightarrow> (bytes \<times> position) list \<Rightarrow> group list" where
  "makeGroups tc pmap = map (\<lambda>(_, p). NewGroup tc p) pmap"

definition groupNodesByParent ::
    "tree_calc \<Rightarrow> mnode list \<Rightarrow> group list \<times> (bytes \<Rightarrow> mnode list)" where
  "groupNodesByParent tc nodes =
     (let ngmap = getGroupPositions tc nodes
      in (makeGroups tc (UniqueMap ngmap),
          \<lambda>key. map snd (filter (\<lambda>(p, n). pstr p = key) (zip ngmap nodes))))"

definition worker :: "(bytes \<Rightarrow> bytes) \<Rightarrow> (position \<Rightarrow> bytes option) \<Rightarrow> nat \<Rightarrow> group \<Rightarrow> mnode" where
  "worker hash getNode rowSize g = MakeParent hash (Load getNode rowSize g)"

definition updateOneLevel ::
    "(bytes \<Rightarrow> bytes) \<Rightarrow> tree_calc \<Rightarrow> (position \<Rightarrow> bytes option) \<Rightarrow> (mnode list \<Rightarrow> mnode list)
     \<Rightarrow> mnode list \<Rightarrow> nat \<Rightarrow> mnode list" where
  "updateOneLevel hash tc getNode sched nodes rowSize =
     (let (groups, gn) = groupNodesByParent tc nodes
      in sched (map (\<lambda>g. worker hash getNode rowSize
                 (fold (\<lambda>n g. SetNode g n) (gn (pstr (parentPosition g))) g)) groups))"

text \<open>The loop of \<^verbatim>\<open>Update\<close> over the remaining levels, with the branches collected so far.\<close>

fun Update_loop ::
    "(bytes \<Rightarrow> bytes) \<Rightarrow> tree_calc \<Rightarrow> (position \<Rightarrow> bytes option)
     \<Rightarrow> (nat \<Rightarrow> mnode list \<Rightarrow> mnode list) \<Rightarrow> nat \<Rightarrow> nat \<Rightarrow> mnode list \<Rightarrow> nat \<Rightarrow> mnode list
     \<Rightarrow> mnode list" where
  "Update_loop hash tc getNode sched i 0 nodes rowSize branches = branches"
| "Update_loop hash tc getNode sched i (Suc k) nodes rowSize branches =
     (let nodes' = updateOneLevel hash tc getNode (sched i) nodes rowSize
      in Update_loop hash tc getNode sched (Suc i) k nodes' (GroupCount tc rowSize)
           (branches @ nodes'))"

definition Update ::
    "(bytes \<Rightarrow> bytes) \<Rightarrow> tree_calc \<Rightarrow> (position \<Rightarrow> bytes option)
     \<Rightarrow> (nat \<Rightarrow> mnode list \<Rightarrow> mnode list) \<Rightarrow> mnode list \<Rightarrow> nat \<Rightarrow> update_result option" where
  "Update hash tc getNode sched leaves newLeafCount =
     (case Height tc newLeafCount of None \<Rightarrow> None
      | Some h \<Rightarrow>
         let branches = Update_loop hash tc getNode sched 0 (unat (h - 1)) leaves newLeafCount []
         in if h > 1 then
              (if branches = [] then None
               else Some \<lparr>uLeafCount = newLeafCount, uHeight = h, uLeaves = leaves,
                          uBranches = branches, uRoot = last branches\<rparr>)
            else
              (case leaves of [] \<Rightarrow> None
               | n # _ \<Rightarrow> Some \<lparr>uLeafCount = newLeafCount, uHeight = h, uLeaves = leaves,
                          uBranches = branches, uRoot = n\<rparr>))"

definition Root :: "(position \<Rightarrow> bytes option) \<Rightarrow> u8 \<Rightarrow> mnode option" where
  "Root getNode height =
     (let p = NewPosition (height - 1) 0
      in case getNode p of None \<Rightarrow> None | Some d \<Rightarrow> Some \<lparr>Position = p, Data = Some d\<rparr>)"

definition same_data :: "bytes option \<Rightarrow> bytes option \<Rightarrow> bool" where
  "same_data a b = ((case a of None \<Rightarrow> [] | Some x \<Rightarrow> x) = (case b of None \<Rightarrow> [] | Some x \<Rightarrow> x))"

definition Verify ::
    "(bytes \<Rightarrow> bytes) \<Rightarrow> tree_calc \<Rightarrow> (position \<Rightarrow> bytes option) \<Rightarrow> u8 \<Rightarrow> nat
     \<Rightarrow> (nat \<Rightarrow> mnode list \<Rightarrow> mnode list) \<Rightarrow> mnode list \<Rightarrow> bool option" where
  "Verify hash tc getNode height leafCount sched leaves =
     (case Root getNode height of None \<Rightarrow> Some False
      | Some root \<Rightarrow>
         if leaves = [] then Some False
         else if leafCount = 0 then Some False
         else if \<not> list_all (\<lambda>n. level (Position n) = 0 \<and> index (Position n) < leafCount) leaves
           then Some False
         else (case Update hash tc getNode sched leaves leafCount of None \<Rightarrow> None
               | Some res \<Rightarrow> Some (same_data (Data root) (Data (uRoot res)))))"

section \<open>The in-memory store\<close>

record map_store =
  ms_leafCount :: nat
  ms_height :: u8
  ms_nodes :: "bytes \<Rightarrow> bytes option"

definition NewMapStore :: map_store where
  "NewMapStore = \<lparr>ms_leafCount = 0, ms_height = 0, ms_nodes = (\<lambda>_. None)\<rparr>"

definition MapStore_GetLeafCount :: "map_store \<Rightarrow> nat" where
  "MapStore_GetLeafCount ms = ms_leafCount ms"

definition MapStore_GetHeight :: "map_store \<Rightarrow> u8" where
  "MapStore_GetHeight ms = ms_height ms"

definition MapStore_GetNode :: "map_store \<Rightarrow> position \<Rightarrow> bytes option" where
  "MapStore_GetNode ms p = ms_nodes ms (pstr p)"

definition put_node :: "mnode \<Rightarrow> map_store \<Rightarrow> map_store" where
  "put_node n ms = ms\<lparr>ms_nodes := (ms_nodes ms)(pstr (Position n) := Data n)\<rparr>"

definition CommitUpdate :: "map_store \<Rightarrow> update_result \<Rightarrow> map_store" where
  "CommitUpdate ms res =
     fold put_node (uBranches res)
       (fold put_node (uLeaves res)
          (ms\<lparr>ms_leafCount := uLeafCount res, ms_height := uHeight res\<rparr>))"

end
