(* ===== verification/Merkle_Correct.thy ===== *)
theory Merkle_Correct
  imports Merkle_Tree
begin

text \<open>
  Correctness of the incremental Merkle update. The reference is the tree computed from scratch: the
  data of node \<open>i\<close> of level \<open>l\<close> is the hash of the data of its children, down to the leaves. A store
  is well formed for a leaf function when every node inside the tree holds its reference data.
  \<^verbatim>\<open>Update\<close>, in every scheduling of its workers, computes reference data for the new leaves, and
  committing its result keeps the store well formed. The store is an interface (the locale
  \<open>merkle_store\<close>), provided by the in-memory store here and by the LevelDB store of the storage
  component.
\<close>

section \<open>The reference tree\<close>

definition opt_bytes :: "bytes option \<Rightarrow> bytes" where
  "opt_bytes d = (case d of None \<Rightarrow> [] | Some x \<Rightarrow> x)"

primrec ref_node :: "(bytes \<Rightarrow> bytes) \<Rightarrow> nat \<Rightarrow> (nat \<Rightarrow> bytes option) \<Rightarrow> nat \<Rightarrow> nat \<Rightarrow> bytes option" where
  "ref_node h b leaf 0 = leaf"
| "ref_node h b leaf (Suc l) = (\<lambda>i.
     let cs = map (ref_node h b leaf l) [i * b..<i * b + b]
     in if list_all (\<lambda>c. c = None) cs then None else Some (h (concat (map opt_bytes cs))))"

definition canon :: "position \<Rightarrow> bool" where
  "canon p \<longleftrightarrow> p = NewPosition (level p) (index p)"

definition wf_nodes :: "(bytes \<Rightarrow> bytes) \<Rightarrow> tree_calc \<Rightarrow> (position \<Rightarrow> bytes option)
    \<Rightarrow> (nat \<Rightarrow> bytes option) \<Rightarrow> nat \<Rightarrow> bool" where
  "wf_nodes h tc get leaf n \<longleftrightarrow>
     dom leaf = {..<n} \<and>
     (\<forall>l i. l \<le> levels tc n \<longrightarrow> i < row tc n l \<longrightarrow>
        get (NewPosition (of_nat l) i) = ref_node h (bfactor tc) leaf l i)"

lemma NewPosition_sel [simp]:
  "level (NewPosition l i) = l" "index (NewPosition l i) = i"
  by (simp_all add: NewPosition_def)

lemma canon_NewPosition [simp]: "canon (NewPosition l i)"
  by (simp add: canon_def)

lemma setBytes_inject [simp]: "setBytes l i = setBytes l' i' \<longleftrightarrow> l = l' \<and> i = i'"
proof -
  have "be_nat [0] = 0" by (simp add: be_nat_def)
  then have "be_nat (if big_bytes k = [] then [0] else big_bytes k) = k" for k
    by simp
  then show ?thesis
    unfolding setBytes_def Let_def by (metis list.inject)
qed

lemma pstr_NewPosition [simp]:
  "pstr (NewPosition l i) = pstr (NewPosition l' i') \<longleftrightarrow> l = l' \<and> i = i'"
  by (simp add: NewPosition_def)

lemma NewPosition_inject [simp]:
  "NewPosition l i = NewPosition l' i' \<longleftrightarrow> l = l' \<and> i = i'"
  by (metis NewPosition_sel)

lemma canon_pstr_inject: "canon p \<Longrightarrow> canon q \<Longrightarrow> pstr p = pstr q \<longleftrightarrow> p = q"
  unfolding canon_def by (metis pstr_NewPosition)

lemma ref_node_None_iff:
  assumes "dom leaf = {..<n}" and "0 < b"
  shows "ref_node h b leaf l i = None \<longleftrightarrow> n \<le> i * b ^ l"
proof (induction l arbitrary: i)
  case 0
  have "leaf i = None \<longleftrightarrow> i \<notin> {..<n}"
    using assms(1) by (metis domIff)
  then show ?case by auto
next
  case (Suc l)
  have "(\<forall>c \<in> {i * b..<i * b + b}. n \<le> c * b ^ l) \<longleftrightarrow> n \<le> i * (b * b ^ l)"
  proof
    assume "\<forall>c \<in> {i * b..<i * b + b}. n \<le> c * b ^ l"
    then have "n \<le> i * b * b ^ l" using assms(2) by auto
    then show "n \<le> i * (b * b ^ l)" by (simp add: mult.assoc)
  next
    assume n: "n \<le> i * (b * b ^ l)"
    show "\<forall>c \<in> {i * b..<i * b + b}. n \<le> c * b ^ l"
    proof
      fix c assume "c \<in> {i * b..<i * b + b}"
      then have "i * b * b ^ l \<le> c * b ^ l" by (intro mult_le_mono1) simp
      with n show "n \<le> c * b ^ l" by (metis mult.assoc order_trans)
    qed
  qed
  then show ?case
    by (auto simp: list_all_iff Let_def Suc)
qed

lemma ref_node_cong:
  assumes "0 < b" and "\<And>k. k div b ^ l = i \<Longrightarrow> leaf k = leaf' k"
  shows "ref_node h b leaf l i = ref_node h b leaf' l i"
  using assms(2)
proof (induction l arbitrary: i)
  case 0
  then show ?case by simp
next
  case (Suc l)
  have "ref_node h b leaf l c = ref_node h b leaf' l c" if "c \<in> set [i * b..<i * b + b]" for c
  proof (rule Suc.IH)
    fix k assume "k div b ^ l = c"
    moreover have "c div b = i"
      using that assms(1) by (auto simp: div_nat_eqI mult.commute)
    ultimately have "k div b ^ Suc l = i"
      by (metis div_mult2_eq mult.commute power_Suc)
    then show "leaf k = leaf' k" by (rule Suc.prems)
  qed
  then have "map (ref_node h b leaf l) [i * b..<i * b + b] = map (ref_node h b leaf' l) [i * b..<i * b + b]"
    by (rule map_cong [OF refl])
  then show ?case by (simp only: ref_node.simps)
qed

section \<open>Groups\<close>

lemma UniqueMap_loop_spec:
  assumes "\<forall>p \<in> set ps. canon p" and "\<forall>(k, p) \<in> set pm. canon p \<and> k = pstr p"
    and "distinct (map snd pm)"
  shows "snd ` set (UniqueMap_loop pm ps) = snd ` set pm \<union> set ps
       \<and> distinct (map snd (UniqueMap_loop pm ps))"
  using assms
proof (induction ps arbitrary: pm)
  case Nil
  then show ?case by simp
next
  case (Cons p ps)
  show ?case
  proof (cases "map_of pm (pstr p)")
    case None
    then have new: "p \<notin> snd ` set pm"
      using Cons.prems(2) by (force simp: map_of_eq_None_iff)
    have "snd ` set (UniqueMap_loop (pm @ [(pstr p, p)]) ps) = snd ` set (pm @ [(pstr p, p)]) \<union> set ps
        \<and> distinct (map snd (UniqueMap_loop (pm @ [(pstr p, p)]) ps))"
      by (rule Cons.IH) (use Cons.prems new in simp_all)
    with None show ?thesis by simp
  next
    case (Some q)
    then have q: "(pstr p, q) \<in> set pm" by (rule map_of_SomeD)
    with Cons.prems(1,2) have "p = q"
      using canon_pstr_inject [of p q] by auto
    with q have "p \<in> snd ` set pm" by force
    moreover have "snd ` set (UniqueMap_loop pm ps) = snd ` set pm \<union> set ps
        \<and> distinct (map snd (UniqueMap_loop pm ps))"
      by (rule Cons.IH) (use Cons.prems in simp_all)
    ultimately show ?thesis using Some by auto
  qed
qed

lemma UniqueMap_spec:
  assumes "\<forall>p \<in> set ps. canon p"
  shows "snd ` set (UniqueMap ps) = set ps" and "distinct (map snd (UniqueMap ps))"
  using UniqueMap_loop_spec [OF assms, of "[]"] by (simp_all add: UniqueMap_def)

lemma SetNode_sel [simp]:
  "gtc (SetNode g n) = gtc g"
  "parentPosition (SetNode g n) = parentPosition g"
  "gnodes (SetNode g n) =
     (gnodes g)[NodeIndexInGroup (gtc g) (index (Position n)) := Some n]"
  by (simp_all add: SetNode_def Let_def list_update_beyond)

lemma fold_SetNode_sel [simp]:
  "gtc (fold (\<lambda>n g. SetNode g n) ns g) = gtc g"
  "parentPosition (fold (\<lambda>n g. SetNode g n) ns g) = parentPosition g"
  "length (gnodes (fold (\<lambda>n g. SetNode g n) ns g)) = length (gnodes g)"
  by (induction ns arbitrary: g) simp_all

lemma fold_SetNode_other:
  "\<forall>n \<in> set ns. NodeIndexInGroup (gtc g) (index (Position n)) \<noteq> j
     \<Longrightarrow> gnodes (fold (\<lambda>n g. SetNode g n) ns g) ! j = gnodes g ! j"
  by (induction ns rule: rev_induct) simp_all

lemma fold_SetNode_nth:
  assumes "j < length (gnodes g)"
    and "inj_on (\<lambda>n. NodeIndexInGroup (gtc g) (index (Position n))) (set ns)"
    and "n \<in> set ns" and "NodeIndexInGroup (gtc g) (index (Position n)) = j"
  shows "gnodes (fold (\<lambda>n g. SetNode g n) ns g) ! j = Some n"
  using assms(2,3)
proof (induction ns rule: rev_induct)
  case Nil
  then show ?case by simp
next
  case (snoc m ns)
  show ?case
  proof (cases "NodeIndexInGroup (gtc g) (index (Position m)) = j")
    case True
    then have "m = n"
      using inj_onD [OF snoc.prems(1), of m n] snoc.prems(2) assms(4) by simp
    with True assms(1) show ?thesis by simp
  next
    case False
    then have "n \<in> set ns" and "inj_on (\<lambda>n. NodeIndexInGroup (gtc g) (index (Position n))) (set ns)"
      using snoc.prems assms(4) by (auto intro: inj_on_subset)
    with False snoc.IH show ?thesis by simp
  qed
qed

lemma length_Load_loop [simp]: "length (Load_loop get lvl off rs i ns) = length ns"
  by (induction get lvl off rs i ns rule: Load_loop.induct) (simp_all add: Let_def)

definition load_child :: "(position \<Rightarrow> bytes option) \<Rightarrow> u8 \<Rightarrow> nat \<Rightarrow> mnode option" where
  "load_child get lvl i =
     (case get (NewPosition lvl i) of None \<Rightarrow> None
      | Some d \<Rightarrow> Some \<lparr>Position = NewPosition lvl i, Data = Some d\<rparr>)"

lemma Load_loop_nth:
  "j < length ns \<Longrightarrow> Load_loop get lvl off rs i ns ! j =
     (case ns ! j of Some n \<Rightarrow> Some n
      | None \<Rightarrow> if off + i + j < rs then load_child get lvl (off + i + j) else None)"
proof (induction get lvl off rs i ns arbitrary: j rule: Load_loop.induct)
  case 1
  then show ?case by simp
next
  case (2 get lvl off rs i n ns)
  then show ?case by (cases j) (auto split: option.split)
next
  case (3 get lvl off rs i ns)
  show ?case
  proof (cases "off + i < rs")
    case True
    with 3 show ?thesis
      by (cases j) (auto simp: Let_def load_child_def split: option.split)
  next
    case False
    then show ?thesis by (cases j) (simp_all split: option.split)
  qed
qed

section \<open>One level\<close>

text \<open>
  The nodes of level \<open>l\<close> during an update: one node with reference data for every index whose
  subtree holds an updated leaf, and no others.
\<close>

definition touched :: "nat \<Rightarrow> nat set \<Rightarrow> nat \<Rightarrow> nat set" where
  "touched b U l = (\<lambda>k. k div b ^ l) ` U"

definition level_inv :: "(bytes \<Rightarrow> bytes) \<Rightarrow> nat \<Rightarrow> (nat \<Rightarrow> bytes option) \<Rightarrow> nat set \<Rightarrow> nat
    \<Rightarrow> mnode list \<Rightarrow> bool" where
  "level_inv h b leaf U l ns \<longleftrightarrow>
     (\<forall>n \<in> set ns. Position n = NewPosition (of_nat l) (index (Position n))
        \<and> Data n = ref_node h b leaf l (index (Position n)) \<and> Data n \<noteq> None) \<and>
     (\<lambda>n. index (Position n)) ` set ns = touched b U l \<and>
     distinct (map (\<lambda>n. index (Position n)) ns)"

lemma touched_Suc: "touched b U (Suc l) = (\<lambda>i. i div b) ` touched b U l"
  by (simp only: touched_def image_image power_Suc2 div_mult2_eq)

lemma level_inv_perm:
  assumes "mset ns = mset ms"
  shows "level_inv h b leaf U l ns = level_inv h b leaf U l ms"
proof -
  have "set ns = set ms" using assms by (rule mset_eq_setD)
  moreover have "distinct (map (\<lambda>n. index (Position n)) ns) = distinct (map (\<lambda>n. index (Position n)) ms)"
    using assms by (intro mset_eq_imp_distinct_iff) simp
  ultimately show ?thesis by (simp only: level_inv_def)
qed

text \<open>The children that a worker hashes are the reference children.\<close>

lemma worker_Sum:
  assumes tc: "wf_calc tc" and dom: "dom leaf = {..<n}"
    and g: "gtc g = tc" "length (gnodes g) = bfactor tc" "parentPosition g = NewPosition (of_nat (Suc l)) q"
    and set_child: "\<And>j m. j < bfactor tc \<Longrightarrow> gnodes g ! j = Some m
        \<Longrightarrow> Data m = ref_node h (bfactor tc) leaf l (q * bfactor tc + j) \<and> Data m \<noteq> None"
    and unset_child: "\<And>j. j < bfactor tc \<Longrightarrow> gnodes g ! j = None \<Longrightarrow> q * bfactor tc + j < row tc n l
        \<Longrightarrow> get (NewPosition (of_nat l) (q * bfactor tc + j)) = ref_node h (bfactor tc) leaf l (q * bfactor tc + j)"
  shows "worker h get (row tc n l) g =
     \<lparr>Position = NewPosition (of_nat (Suc l)) q, Data = ref_node h (bfactor tc) leaf (Suc l) q\<rparr>"
proof -
  let ?b = "bfactor tc"
  let ?ref = "\<lambda>j. ref_node h ?b leaf l (q * ?b + j)"
  let ?ns = "gnodes (Load get (row tc n l) g)"
  have b: "0 < ?b" using tc by (simp add: wf_calc_def)
  have len: "length ?ns = ?b" using g by (simp add: Load_def)
  have nth: "?ns ! j = (case gnodes g ! j of Some m \<Rightarrow> Some m
      | None \<Rightarrow> if q * ?b + j < row tc n l then load_child get (of_nat l) (q * ?b + j) else None)"
    if "j < ?b" for j
    using that g by (simp add: Load_def Load_loop_nth FirstNodeOfGroup_def split: option.split)
  have child: "write_data (?ns ! j) = opt_bytes (?ref j) \<and> (?ns ! j = None \<longleftrightarrow> ?ref j = None)"
    if j: "j < ?b" for j
  proof (cases "gnodes g ! j")
    case (Some m)
    then obtain d where "Data m = Some d" "?ref j = Some d"
      using set_child [OF j Some] by (metis option.exhaust)
    with nth [OF j] Some show ?thesis by (simp add: write_data_def opt_bytes_def)
  next
    case None
    show ?thesis
    proof (cases "?ref j")
      case ref: None
      then have "\<not> q * ?b + j < row tc n l"
        using ref_node_None_iff [OF dom b] less_row_iff [OF b] by simp
      with nth [OF j] None ref show ?thesis by (simp add: write_data_def opt_bytes_def)
    next
      case ref: (Some d)
      then have row: "q * ?b + j < row tc n l"
        using ref_node_None_iff [OF dom b, of h l "q * ?b + j"] less_row_iff [OF b] by (simp add: not_le)
      have "get (NewPosition (of_nat l) (q * ?b + j)) = Some d"
        using unset_child [OF j None row] ref by simp
      then have "?ns ! j = Some \<lparr>Position = NewPosition (of_nat l) (q * ?b + j), Data = Some d\<rparr>"
        using nth [OF j] None row by (simp add: load_child_def)
      with ref show ?thesis by (simp add: write_data_def opt_bytes_def)
    qed
  qed
  have data: "write_data (?ns ! j) = opt_bytes (?ref j)" and empty: "?ns ! j = None \<longleftrightarrow> ?ref j = None"
    if "j < ?b" for j
    using child [OF that] by blast+
  have "map write_data ?ns = map opt_bytes (map (ref_node h ?b leaf l) [q * ?b..<q * ?b + ?b])"
    by (rule nth_equalityI) (simp_all only: length_map length_upt len nth_map nth_upt data
          add_less_cancel_left diff_add_inverse)
  moreover have "IsEmpty (Load get (row tc n l) g) \<longleftrightarrow>
      list_all (\<lambda>c. c = None) (map (ref_node h ?b leaf l) [q * ?b..<q * ?b + ?b])"
    by (simp add: IsEmpty_def list_all_length len empty)
  moreover have "parentPosition (Load get (row tc n l) g) = NewPosition (of_nat (Suc l)) q"
    using g by (simp add: Load_def)
  ultimately show ?thesis
    by (simp only: worker_def MakeParent_def Sum_def ref_node.simps Let_def)
qed

lemma filter_zip_map:
  "map snd (filter (\<lambda>(p, n). P p) (zip (map f ns) ns)) = filter (\<lambda>n. P (f n)) ns"
  by (induction ns) simp_all

text \<open>A group filled with the nodes of its own index range yields the reference parent.\<close>

lemma worker_group:
  assumes tc: "wf_calc tc" and dom: "dom leaf = {..<n}"
    and inv: "level_inv h (bfactor tc) leaf U l ns"
    and rest: "\<And>i. i < row tc n l \<Longrightarrow> i \<notin> touched (bfactor tc) U l
        \<Longrightarrow> get (NewPosition (of_nat l) i) = ref_node h (bfactor tc) leaf l i"
  shows "worker h get (row tc n l) (fold (\<lambda>n g. SetNode g n)
       (filter (\<lambda>n. index (Position n) div bfactor tc = q) ns) (NewGroup tc (NewPosition (of_nat (Suc l)) q)))
     = \<lparr>Position = NewPosition (of_nat (Suc l)) q, Data = ref_node h (bfactor tc) leaf (Suc l) q\<rparr>"
proof (rule worker_Sum [OF tc dom])
  let ?b = "bfactor tc" and ?idx = "\<lambda>n. index (Position n)"
  let ?ns = "filter (\<lambda>n. ?idx n div ?b = q) ns"
  let ?e = "NewGroup tc (NewPosition (of_nat (Suc l)) q)"
  let ?g = "fold (\<lambda>n g. SetNode g n) ?ns ?e"
  have g0: "gtc ?e = tc" "length (gnodes ?e) = ?b" "\<And>j. j < ?b \<Longrightarrow> gnodes ?e ! j = None"
    using tc by (simp_all add: NewGroup_def wf_calc_def BranchFactor_def)
  show "gtc ?g = tc" "length (gnodes ?g) = ?b" "parentPosition ?g = NewPosition (of_nat (Suc l)) q"
    by (simp_all only: fold_SetNode_sel g0) (simp add: NewGroup_def)
  have in_group: "?idx m = q * ?b + j" if "m \<in> set ?ns" "?idx m mod ?b = j" for m j
    using that div_mult_mod_eq [of "?idx m" ?b] by simp
  have data: "Data m = ref_node h ?b leaf l (?idx m)" "Data m \<noteq> None" if "m \<in> set ns" for m
    using inv that unfolding level_inv_def by blast+
  have img: "?idx ` set ns = touched ?b U l" and inj_ns: "inj_on ?idx (set ns)"
    using inv unfolding level_inv_def distinct_map by blast+
  have inj: "inj_on (\<lambda>n. NodeIndexInGroup (gtc ?e) (?idx n)) (set ?ns)"
  proof (rule inj_onI)
    fix x y assume x: "x \<in> set ?ns" and y: "y \<in> set ?ns"
      and "NodeIndexInGroup (gtc ?e) (?idx x) = NodeIndexInGroup (gtc ?e) (?idx y)"
    then have "?idx x = ?idx y"
      using in_group [OF x refl] in_group [OF y refl] unfolding NodeIndexInGroup_def g0 by argo
    then show "x = y" by (rule inj_onD [OF inj_ns]) (use x y in simp_all)
  qed
  fix j assume j: "j < ?b"
  show "Data m = ref_node h ?b leaf l (q * ?b + j) \<and> Data m \<noteq> None" if m: "gnodes ?g ! j = Some m" for m
  proof -
    obtain m' where m': "m' \<in> set ?ns" "?idx m' mod ?b = j"
      using m fold_SetNode_other [of ?ns ?e j] g0 j by (auto simp: NodeIndexInGroup_def)
    then have "m = m'"
      using fold_SetNode_nth [OF _ inj m'(1), of j] m g0 j by (simp add: NodeIndexInGroup_def)
    moreover have "m' \<in> set ns" using m'(1) by simp
    ultimately show ?thesis using data [of m'] in_group [OF m'] by simp
  qed
  show "get (NewPosition (of_nat l) (q * ?b + j)) = ref_node h ?b leaf l (q * ?b + j)"
    if none: "gnodes ?g ! j = None" and row: "q * ?b + j < row tc n l"
  proof (rule rest [OF row])
    show "q * ?b + j \<notin> touched ?b U l"
    proof
      assume "q * ?b + j \<in> touched ?b U l"
      then obtain m where "m \<in> set ns" "?idx m = q * ?b + j"
        unfolding img [symmetric] by force
      then have "m \<in> set ?ns" "NodeIndexInGroup (gtc ?e) (?idx m) = j"
        using j unfolding NodeIndexInGroup_def g0 by simp_all
      then show False using fold_SetNode_nth [OF _ inj, of j m] none g0 j by simp
    qed
  qed
qed

lemma updateOneLevel_map:
  "updateOneLevel h tc get sched ns rs = sched (map (\<lambda>p. worker h get rs (fold (\<lambda>n g. SetNode g n)
     (snd (groupNodesByParent tc ns) (pstr p)) (NewGroup tc p))) (map snd (UniqueMap (getGroupPositions tc ns))))"
proof -
  have parent: "parentPosition (NewGroup tc p) = p" for p by (simp add: NewGroup_def)
  have groups: "fst (groupNodesByParent tc ns) = map (NewGroup tc) (map snd (UniqueMap (getGroupPositions tc ns)))"
    by (simp add: groupNodesByParent_def makeGroups_def Let_def case_prod_unfold)
  show ?thesis
    by (simp only: updateOneLevel_def case_prod_unfold Let_def groups map_map comp_def parent)
qed

lemma updateOneLevel_inv:
  assumes tc: "wf_calc tc" and dom: "dom leaf = {..<n}" and U: "U \<subseteq> {..<n}"
    and inv: "level_inv h (bfactor tc) leaf U l ns"
    and rest: "\<And>i. i < row tc n l \<Longrightarrow> i \<notin> touched (bfactor tc) U l
        \<Longrightarrow> get (NewPosition (of_nat l) i) = ref_node h (bfactor tc) leaf l i"
    and sched: "\<And>xs. mset (sched xs) = mset xs"
  shows "level_inv h (bfactor tc) leaf U (Suc l) (updateOneLevel h tc get sched ns (row tc n l))"
proof -
  let ?b = "bfactor tc" and ?pos = "NewPosition (of_nat (Suc l))"
  let ?gps = "getGroupPositions tc ns"
  let ?ps = "map snd (UniqueMap ?gps)"
  have b: "0 < ?b" using tc by (simp add: wf_calc_def)
  have lvl: "level (Position m) + 1 = of_nat (Suc l)" if "m \<in> set ns" for m
  proof -
    have "Position m = NewPosition (of_nat l) (index (Position m))"
      using inv that by (simp add: level_inv_def)
    then have "level (Position m) = of_nat l" by (metis NewPosition_sel(1))
    then show ?thesis by simp
  qed
  have gps: "?gps = map (\<lambda>m. ?pos (index (Position m) div ?b)) ns"
    unfolding getGroupPositions_def GroupOfNode_def using lvl by (intro map_cong) simp_all
  have idx: "touched ?b U l = (\<lambda>m. index (Position m)) ` set ns"
    using inv by (simp add: level_inv_def)
  have canon: "\<forall>p \<in> set ?gps. canon p" by (simp add: gps)
  have setps: "set ?ps = ?pos ` touched ?b U (Suc l)"
    using UniqueMap_spec(1) [OF canon] by (simp add: touched_Suc idx gps image_image)
  have dist: "distinct ?ps" by (rule UniqueMap_spec(2) [OF canon])
  have node: "worker h get (row tc n l) (fold (\<lambda>n g. SetNode g n)
        (snd (groupNodesByParent tc ns) (pstr p)) (NewGroup tc p))
      = \<lparr>Position = p, Data = ref_node h ?b leaf (Suc l) (index p)\<rparr>" if p_in: "p \<in> set ?ps" for p
  proof -
    obtain q where p: "p = ?pos q" using p_in unfolding setps by blast
    have "snd (groupNodesByParent tc ns) (pstr p) = filter (\<lambda>m. index (Position m) div ?b = q) ns"
      by (simp add: groupNodesByParent_def Let_def gps filter_zip_map p del: of_nat_Suc)
    then show ?thesis
      using worker_group [OF tc dom inv rest] by (simp add: p del: of_nat_Suc ref_node.simps)
  qed
  let ?out = "map (\<lambda>p. \<lparr>Position = p, Data = ref_node h ?b leaf (Suc l) (index p)\<rparr>) ?ps"
  have "updateOneLevel h tc get sched ns (row tc n l) = sched ?out"
  proof -
    have "map (\<lambda>p. worker h get (row tc n l) (fold (\<lambda>n g. SetNode g n)
        (snd (groupNodesByParent tc ns) (pstr p)) (NewGroup tc p))) ?ps = ?out"
      using node by (intro map_cong) simp_all
    then show ?thesis
      by (simp only: updateOneLevel_map)
  qed
  moreover have "level_inv h ?b leaf U (Suc l) ?out"
    unfolding level_inv_def
  proof (intro conjI ballI)
    fix m assume "m \<in> set ?out"
    then obtain p where "p \<in> set ?ps" and m: "m = \<lparr>Position = p, Data = ref_node h ?b leaf (Suc l) (index p)\<rparr>"
      unfolding set_map [of _ ?ps] by (rule imageE)
    then obtain q where q: "q \<in> touched ?b U (Suc l)" "p = ?pos q"
      unfolding setps by blast
    have "ref_node h ?b leaf (Suc l) q \<noteq> None"
    proof -
      obtain k where "k < n" "q = k div ?b ^ Suc l" using q(1) U unfolding touched_def by blast
      then have "q * ?b ^ Suc l < n" using le_less_trans [OF div_times_less_eq_dividend] by simp
      then show ?thesis unfolding ref_node_None_iff [OF dom b] by simp
    qed
    with m q show "Position m = ?pos (index (Position m))"
      and "Data m = ref_node h ?b leaf (Suc l) (index (Position m))" and "Data m \<noteq> None"
      by (simp_all only: mnode.select_convs NewPosition_sel simp_thms)
  next
    show "(\<lambda>n. index (Position n)) ` set ?out = touched ?b U (Suc l)"
    proof -
      have "(\<lambda>n. index (Position n)) ` set ?out = index ` set ?ps"
        by (simp only: set_map [of _ ?ps] image_image mnode.select_convs)
      then show ?thesis by (simp only: setps image_image NewPosition_sel image_ident)
    qed
    have "inj_on index (set ?ps)" unfolding setps by (simp add: inj_on_def)
    with dist have "distinct (map index ?ps)" unfolding distinct_map [of index ?ps] by blast
    then show "distinct (map (\<lambda>n. index (Position n)) ?out)"
      unfolding map_map [of _ _ ?ps] by (simp only: comp_def mnode.select_convs)
  qed
  ultimately show ?thesis using level_inv_perm [OF sched] by simp
qed

end
