(* ===== verification/Merkle_Store.thy ===== *)
theory Merkle_Store
  imports Merkle_Correct
begin

text \<open>
  The contract of a Merkle store and the update theorem over it. A provider of the locale
  \<open>merkle_store\<close> promises what a node lookup returns after a commit. Under that contract, an update
  of a well-formed store returns in every schedule, its root is the root of the tree built from
  scratch over the new leaves, and committing it leaves the store well formed for them. The in-memory
  store \<^verbatim>\<open>MapStore\<close> is a provider.
\<close>

section \<open>Leaves of an update\<close>

definition leaf_idx :: "mnode list \<Rightarrow> nat set" where
  "leaf_idx leaves = (\<lambda>m. index (Position m)) ` set leaves"

definition set_leaves :: "mnode list \<Rightarrow> (nat \<Rightarrow> bytes option) \<Rightarrow> (nat \<Rightarrow> bytes option)" where
  "set_leaves leaves leaf = fold (\<lambda>m f. f(index (Position m) := Data m)) leaves leaf"

text \<open>
  What a caller of \<^verbatim>\<open>Update\<close> has to provide: at least one leaf node, distinct canonical positions on
  level 0, data present, and every index from the old leaf count up to the new one.
\<close>

definition wf_leaves :: "nat \<Rightarrow> nat \<Rightarrow> mnode list \<Rightarrow> bool" where
  "wf_leaves n n' leaves \<longleftrightarrow>
     leaves \<noteq> [] \<and> n \<le> n' \<and>
     (\<forall>m \<in> set leaves. Position m = NewPosition 0 (index (Position m)) \<and> Data m \<noteq> None
        \<and> index (Position m) < n') \<and>
     distinct (map (\<lambda>m. index (Position m)) leaves) \<and>
     (\<forall>k \<in> {n..<n'}. k \<in> leaf_idx leaves)"

definition result_nodes :: "update_result \<Rightarrow> mnode list" where
  "result_nodes res = uLeaves res @ uBranches res"

text \<open>A result a store can commit: canonical positions, data present, one node per position.\<close>

definition wf_result :: "update_result \<Rightarrow> bool" where
  "wf_result res \<longleftrightarrow>
     (\<forall>m \<in> set (result_nodes res). canon (Position m) \<and> Data m \<noteq> None) \<and>
     distinct (map Position (result_nodes res))"

lemma set_leaves_other: "i \<notin> leaf_idx leaves \<Longrightarrow> set_leaves leaves leaf i = leaf i"
  unfolding set_leaves_def leaf_idx_def by (induction leaves arbitrary: leaf) simp_all

lemma set_leaves_in:
  assumes "distinct (map (\<lambda>m. index (Position m)) leaves)" and "m \<in> set leaves"
  shows "set_leaves leaves leaf (index (Position m)) = Data m"
  using assms
proof (induction leaves arbitrary: leaf)
  case Nil
  then show ?case by simp
next
  case (Cons a leaves)
  show ?case
  proof (cases "m = a")
    case True
    with Cons.prems have "index (Position m) \<notin> leaf_idx leaves" by (auto simp: leaf_idx_def)
    with set_leaves_other True show ?thesis
      unfolding set_leaves_def by (simp add: leaf_idx_def)
  next
    case False
    with Cons show ?thesis by (simp add: set_leaves_def)
  qed
qed

lemma dom_set_leaves:
  assumes "wf_leaves n n' leaves" and "dom leaf = {..<n}"
  shows "dom (set_leaves leaves leaf) = {..<n'}"
proof (rule set_eqI)
  fix i
  show "i \<in> dom (set_leaves leaves leaf) \<longleftrightarrow> i \<in> {..<n'}"
  proof (cases "i \<in> leaf_idx leaves")
    case True
    then obtain m where "m \<in> set leaves" "i = index (Position m)" by (auto simp: leaf_idx_def)
    with assms(1) set_leaves_in show ?thesis by (auto simp: wf_leaves_def domIff)
  next
    case False
    have "i \<in> dom leaf \<longleftrightarrow> i < n'"
      using assms False unfolding wf_leaves_def by auto
    then show ?thesis using set_leaves_other [OF False] by (auto simp: domIff)
  qed
qed

lemma wf_leaves_subset: "wf_leaves n n' leaves \<Longrightarrow> leaf_idx leaves \<subseteq> {..<n'}"
  by (auto simp: wf_leaves_def leaf_idx_def)

lemma level_inv_leaves:
  assumes "wf_leaves n n' leaves"
  shows "level_inv h b (set_leaves leaves leaf) (leaf_idx leaves) 0 leaves"
  using assms set_leaves_in
  by (auto simp: level_inv_def wf_leaves_def touched_def leaf_idx_def image_image)

text \<open>A node whose subtree holds no updated leaf is inside the old tree and keeps its data.\<close>

lemma untouched:
  assumes b: "2 \<le> bfactor tc" and wf: "wf_leaves n n' leaves"
    and row: "i < row tc n' l" and l: "l \<le> levels tc n'"
    and nt: "i \<notin> touched (bfactor tc) (leaf_idx leaves) l"
  shows "l \<le> levels tc n" "i < row tc n l"
    "ref_node h (bfactor tc) (set_leaves leaves leaf) l i = ref_node h (bfactor tc) leaf l i"
proof -
  let ?b = "bfactor tc"
  have b0: "0 < ?b" and bl: "0 < ?b ^ l" using b by simp_all
  have nt': "k \<notin> leaf_idx leaves" if "k div ?b ^ l = i" for k
    using nt that unfolding touched_def by blast
  have new: "k < n" if "k \<notin> leaf_idx leaves" "k < n'" for k
    using wf that unfolding wf_leaves_def by (metis atLeastLessThan_iff not_le)
  have "i * ?b ^ l < n" using nt' new row bl by (simp add: less_row_iff [OF b0])
  then show in_row: "i < row tc n l" by (simp add: less_row_iff [OF b0])
  show "ref_node h ?b (set_leaves leaves leaf) l i = ref_node h ?b leaf l i"
    using nt' by (intro ref_node_cong [OF b0] set_leaves_other)
  show "l \<le> levels tc n"
  proof (rule ccontr)
    assume "\<not> l \<le> levels tc n"
    then have lt: "levels tc n < l" by simp
    then have "n < n'"
      using l levels_mono [OF b, of n' n] by linarith
    have "n \<le> ?b ^ levels tc n" using levels_le_iff [OF b] by blast
    also have "\<dots> < ?b ^ l" using lt b by (intro power_strict_increasing) simp_all
    finally have n: "n < ?b ^ l" .
    with \<open>i * ?b ^ l < n\<close> have "i = 0" by (cases i) simp_all
    with nt' n have "n \<notin> leaf_idx leaves" by simp
    with new \<open>n < n'\<close> show False by blast
  qed
qed

section \<open>The update of a well-formed store\<close>

text \<open>The hypotheses of every update theorem, in one predicate.\<close>

definition update_pre :: "(bytes \<Rightarrow> bytes) \<Rightarrow> tree_calc \<Rightarrow> (position \<Rightarrow> bytes option)
    \<Rightarrow> (nat \<Rightarrow> bytes option) \<Rightarrow> nat \<Rightarrow> nat \<Rightarrow> mnode list \<Rightarrow> bool" where
  "update_pre h tc get leaf n n' leaves \<longleftrightarrow>
     wf_calc tc \<and> wf_nodes h tc get leaf n \<and> wf_leaves n n' leaves \<and> n' \<le> bfactor tc ^ 254"

lemma updateOneLevel_step:
  assumes pre: "update_pre h tc get leaf n n' leaves" and l: "l < levels tc n'"
    and inv: "level_inv h (bfactor tc) (set_leaves leaves leaf) (leaf_idx leaves) l ns"
    and sched: "\<And>xs. mset (sched xs) = mset xs"
  shows "level_inv h (bfactor tc) (set_leaves leaves leaf) (leaf_idx leaves) (Suc l)
     (updateOneLevel h tc get sched ns (row tc n' l))"
proof (rule updateOneLevel_inv [OF _ _ _ inv _ sched])
  show tc: "wf_calc tc" and "leaf_idx leaves \<subseteq> {..<n'}"
    using pre wf_leaves_subset by (auto simp: update_pre_def)
  show "dom (set_leaves leaves leaf) = {..<n'}"
    using pre by (intro dom_set_leaves) (auto simp: update_pre_def wf_nodes_def)
  fix i assume i: "i < row tc n' l" "i \<notin> touched (bfactor tc) (leaf_idx leaves) l"
  have "2 \<le> bfactor tc" "wf_leaves n n' leaves"
    using pre by (simp_all add: update_pre_def wf_calc_def)
  note old = untouched [OF this i(1) less_imp_le [OF l] i(2)]
  have "get (NewPosition (of_nat l) i) = ref_node h (bfactor tc) leaf l i"
    using pre old(1,2) unfolding update_pre_def wf_nodes_def by blast
  with old(3) show "get (NewPosition (of_nat l) i) = ref_node h (bfactor tc) (set_leaves leaves leaf) l i"
    by simp
qed

lemma Update_loop_inv:
  assumes pre: "update_pre h tc get leaf n n' leaves"
    and sched: "\<And>i xs. mset (sched i xs) = mset xs"
  shows "l + k \<le> levels tc n' \<Longrightarrow>
     level_inv h (bfactor tc) (set_leaves leaves leaf) (leaf_idx leaves) l ns \<Longrightarrow>
     \<exists>L. Update_loop h tc get sched l k ns (row tc n' l) br = br @ concat (map L [Suc l..<Suc (l + k)]) \<and>
       (\<forall>j \<in> {Suc l..l + k}. level_inv h (bfactor tc) (set_leaves leaves leaf) (leaf_idx leaves) j (L j))"
proof (induction k arbitrary: l ns br)
  case 0
  then show ?case by simp
next
  case (Suc k)
  let ?inv = "level_inv h (bfactor tc) (set_leaves leaves leaf) (leaf_idx leaves)"
  let ?ns = "updateOneLevel h tc get (sched l) ns (row tc n' l)"
  have inv: "?inv (Suc l) ?ns"
    using Suc.prems sched by (intro updateOneLevel_step [OF pre]) simp_all
  obtain L where L: "Update_loop h tc get sched (Suc l) k ?ns (row tc n' (Suc l)) (br @ ?ns) =
        (br @ ?ns) @ concat (map L [Suc (Suc l)..<Suc (Suc l + k)])"
      and Linv: "\<forall>j \<in> {Suc (Suc l)..Suc l + k}. ?inv j (L j)"
    using Suc.IH [OF _ inv, of "br @ ?ns"] Suc.prems(1) by (metis add_Suc_shift)
  let ?L = "L(Suc l := ?ns)"
  have tl: "map ?L [Suc (Suc l)..<Suc (Suc l + k)] = map L [Suc (Suc l)..<Suc (Suc l + k)]"
    by (rule map_cong [OF refl]) (auto simp del: upt_Suc)
  have "[Suc l..<Suc (l + Suc k)] = Suc l # [Suc (Suc l)..<Suc (Suc l + k)]"
    by (simp add: upt_rec [of "Suc l"])
  then have "concat (map ?L [Suc l..<Suc (l + Suc k)]) = ?ns @ concat (map L [Suc (Suc l)..<Suc (Suc l + k)])"
    using tl by (simp only: list.map concat.simps fun_upd_same)
  moreover have "Update_loop h tc get sched l (Suc k) ns (row tc n' l) br =
      Update_loop h tc get sched (Suc l) k ?ns (row tc n' (Suc l)) (br @ ?ns)"
    by (simp only: Update_loop.simps Let_def row_Suc)
  moreover have "?inv j (?L j)" if "j \<in> {Suc l..l + Suc k}" for j
    using that Linv inv by (cases "j = Suc l") auto
  ultimately show ?case
    using L by (intro exI [of _ ?L]) (simp only: append_assoc, blast)
qed

lemma level_inv_top:
  assumes b: "2 \<le> bfactor tc" and U: "U \<subseteq> {..<n}" "U \<noteq> {}"
    and inv: "level_inv h (bfactor tc) leaf U (levels tc n) ns"
  shows "ns = [\<lparr>Position = NewPosition (of_nat (levels tc n)) 0,
               Data = ref_node h (bfactor tc) leaf (levels tc n) 0\<rparr>]"
proof -
  have "n \<le> bfactor tc ^ levels tc n" using levels_le_iff [OF b] by blast
  with U have "touched (bfactor tc) U (levels tc n) = {0}"
    unfolding touched_def by (force simp: subset_iff)
  then have "set (map (\<lambda>m. index (Position m)) ns) = {0}" and "distinct (map (\<lambda>m. index (Position m)) ns)"
    using inv by (auto simp: level_inv_def)
  then have "map (\<lambda>m. index (Position m)) ns = [0]"
    by (metis distinct_card card_1_singleton_iff length_0_conv length_Suc_conv list.set(1,2) One_nat_def singleton_insert_inj_eq')
  then obtain m where "ns = [m]" "index (Position m) = 0" by auto
  with inv show ?thesis by (cases m) (auto simp: level_inv_def)
qed

lemma of_nat_levels:
  assumes "2 \<le> bfactor tc" and "n \<le> bfactor tc ^ 254"
  shows "unat (of_nat (levels tc n) :: u8) = levels tc n" "levels tc n \<le> 254"
    "(1 :: u8) < of_nat (Suc (levels tc n)) \<longleftrightarrow> 0 < levels tc n"
proof -
  show lv: "levels tc n \<le> 254" using assms levels_le_iff by blast
  then show "unat (of_nat (levels tc n) :: u8) = levels tc n"
    by (subst unat_of_nat) simp
  show "(1 :: u8) < of_nat (Suc (levels tc n)) \<longleftrightarrow> 0 < levels tc n"
    unfolding word_less_nat_alt unat_Height [OF assms] by simp
qed

text \<open>\<open>update_levels\<close> says that \<open>L\<close> lists, level by level, the nodes an update computed.\<close>

definition update_levels :: "(bytes \<Rightarrow> bytes) \<Rightarrow> tree_calc \<Rightarrow> (nat \<Rightarrow> bytes option) \<Rightarrow> nat
    \<Rightarrow> mnode list \<Rightarrow> (nat \<Rightarrow> mnode list) \<Rightarrow> update_result \<Rightarrow> bool" where
  "update_levels h tc leaf n' leaves L res \<longleftrightarrow>
     uLeafCount res = n' \<and> uHeight res = of_nat (Suc (levels tc n')) \<and>
     result_nodes res = concat (map L [0..<Suc (levels tc n')]) \<and>
     (\<forall>j \<le> levels tc n'. level_inv h (bfactor tc) (set_leaves leaves leaf) (leaf_idx leaves) j (L j)) \<and>
     uRoot res = \<lparr>Position = NewPosition (of_nat (levels tc n')) 0,
        Data = ref_node h (bfactor tc) (set_leaves leaves leaf) (levels tc n') 0\<rparr>"

lemma Update_levels:
  assumes pre: "update_pre h tc get leaf n n' leaves"
    and sched: "\<And>i xs. mset (sched i xs) = mset xs"
  shows "\<exists>L res. Update h tc get sched leaves n' = Some res \<and> update_levels h tc leaf n' leaves L res"
proof -
  let ?lv = "levels tc n'" and ?inv = "level_inv h (bfactor tc) (set_leaves leaves leaf) (leaf_idx leaves)"
  have b: "2 \<le> bfactor tc" and n': "n' \<le> bfactor tc ^ 254" and wf: "wf_leaves n n' leaves"
    using pre unfolding update_pre_def wf_calc_def by blast+
  have U: "leaf_idx leaves \<subseteq> {..<n'}" "leaf_idx leaves \<noteq> {}"
    using wf wf_leaves_subset by (auto simp: wf_leaves_def leaf_idx_def)
  have inv0: "?inv 0 leaves" by (rule level_inv_leaves [OF wf])
  obtain L where L: "Update_loop h tc get sched 0 ?lv leaves n' [] = concat (map L [Suc 0..<Suc ?lv])"
      and Linv: "\<forall>j \<in> {Suc 0..?lv}. ?inv j (L j)"
    using Update_loop_inv [OF pre, of sched, OF sched _ inv0, where k = ?lv and br = "[]"] by (auto simp del: upt_Suc)
  let ?L = "L(0 := leaves)"
  have inv: "?inv j (?L j)" if "j \<le> ?lv" for j
    using that Linv inv0 by (cases j) auto
  have top: "?L ?lv = [\<lparr>Position = NewPosition (of_nat ?lv) 0,
      Data = ref_node h (bfactor tc) (set_leaves leaves leaf) ?lv 0\<rparr>]" (is "_ = [?root]")
    by (rule level_inv_top [OF b U]) (rule inv, simp)
  let ?res = "\<lparr>uLeafCount = n', uHeight = of_nat (Suc ?lv), uLeaves = leaves,
      uBranches = concat (map L [Suc 0..<Suc ?lv]), uRoot = ?root\<rparr>"
  have "map L [Suc 0..<Suc ?lv] = map ?L [Suc 0..<Suc ?lv]"
    by (rule map_cong [OF refl]) (auto simp del: upt_Suc)
  moreover have "[0..<Suc ?lv] = 0 # [Suc 0..<Suc ?lv]" by (simp add: upt_conv_Cons del: upt_Suc)
  ultimately have nodes: "result_nodes ?res = concat (map ?L [0..<Suc ?lv])"
    by (simp add: result_nodes_def del: upt_Suc)
  have "Update h tc get sched leaves n' = Some ?res"
  proof (cases "?lv = 0")
    case True
    with top obtain m where m: "leaves = [m]" "?root = m" by simp
    have "Update h tc get sched leaves n' = Some (?res\<lparr>uRoot := m\<rparr>)"
      using L True m(1) by (simp add: Update_def Height_levels [OF b])
    then show ?thesis by (simp only: m(2) update_result.simps)
  next
    case False
    then have "concat (map L [Suc 0..<Suc ?lv]) = concat (map L [Suc 0..<?lv]) @ [?root]"
      using top by simp
    with False show ?thesis
      using L of_nat_levels [OF b n'] by (simp add: Update_def Height_levels [OF b] Let_def)
  qed
  with nodes inv show ?thesis
    by (intro exI [of _ ?L] exI [of _ ?res]) (simp add: update_levels_def del: upt_Suc fun_upd_apply)
qed

lemma update_levels_node:
  assumes ul: "update_levels h tc leaf n' leaves L res"
  shows "m \<in> set (result_nodes res) \<longleftrightarrow>
    (\<exists>j \<le> levels tc n'. \<exists>i \<in> touched (bfactor tc) (leaf_idx leaves) j.
       m = \<lparr>Position = NewPosition (of_nat j) i,
            Data = ref_node h (bfactor tc) (set_leaves leaves leaf) j i\<rparr>)"
    (is "_ \<longleftrightarrow> (\<exists>j \<le> _. \<exists>i \<in> ?T j. m = ?node j i)")
proof -
  have "set (L j) = ?node j ` ?T j" if "j \<le> levels tc n'" for j
  proof -
    have "level_inv h (bfactor tc) (set_leaves leaves leaf) (leaf_idx leaves) j (L j)"
      using ul that by (simp add: update_levels_def)
    then have nodes: "\<forall>x \<in> set (L j). x = ?node j (index (Position x))"
      and T: "?T j = (\<lambda>x. index (Position x)) ` set (L j)"
      by (auto simp: level_inv_def intro!: mnode.equality)
    from nodes show ?thesis unfolding T image_image by force
  qed
  moreover have "m \<in> set (result_nodes res) \<longleftrightarrow> (\<exists>j \<le> levels tc n'. m \<in> set (L j))"
    using ul by (auto simp: update_levels_def less_Suc_eq_le simp del: upt_Suc)
  ultimately show ?thesis by blast
qed

lemma update_levels_wf_result:
  assumes ul: "update_levels h tc leaf n' leaves L res" and lv: "levels tc n' \<le> 254"
  shows "wf_result res"
proof -
  let ?inv = "level_inv h (bfactor tc) (set_leaves leaves leaf) (leaf_idx leaves)"
  have inv: "?inv j (L j)" if "j \<le> levels tc n'" for j
    using ul that by (simp add: update_levels_def)
  have pos: "Position m = NewPosition (of_nat j) (index (Position m)) \<and> Data m \<noteq> None"
    if "j \<le> levels tc n'" "m \<in> set (L j)" for j m
    using inv [OF that(1)] that(2) unfolding level_inv_def by blast
  have inj: "i = j" if "of_nat i = (of_nat j :: u8)" "i \<le> levels tc n'" "j \<le> levels tc n'" for i j
    using that lv by (intro of_nat_u8_inject) simp_all
  have "distinct (concat (map (\<lambda>j. map Position (L j)) [0..<Suc (levels tc n')]))"
  proof (rule distinct_concat_map)
    fix j assume "j \<in> set [0..<Suc (levels tc n')]"
    then have "distinct (map (\<lambda>m. index (Position m)) (L j))"
      using inv by (simp add: level_inv_def del: upt_Suc)
    then show "distinct (map Position (L j))"
      using distinct_map [of index "map Position (L j)"] by (simp add: comp_def)
  next
    fix i j assume "i \<in> set [0..<Suc (levels tc n')]" "j \<in> set [0..<Suc (levels tc n')]" "i \<noteq> j"
    then have le: "i \<le> levels tc n'" "j \<le> levels tc n'" and "i \<noteq> j" by (auto simp del: upt_Suc)
    then have "Position x \<noteq> Position y" if "x \<in> set (L i)" "y \<in> set (L j)" for x y
      using pos [OF le(1) that(1)] pos [OF le(2) that(2)] inj [of i j] by (metis NewPosition_sel(1))
    then show "set (map Position (L i)) \<inter> set (map Position (L j)) = {}" by auto
  qed simp
  moreover have "result_nodes res = concat (map L [0..<Suc (levels tc n')])"
    using ul by (simp add: update_levels_def)
  moreover have "canon (Position m) \<and> Data m \<noteq> None" if "m \<in> set (result_nodes res)" for m
    using that pos ul by (auto simp: update_levels_def less_Suc_eq_le canon_def simp del: upt_Suc)
      (metis NewPosition_sel(1))+
  ultimately show ?thesis
    by (simp add: wf_result_def map_concat comp_def del: upt_Suc)
qed

section \<open>The store interface\<close>

text \<open>
  The well-formedness of a store as its getters show it: every node of the tree over \<open>leaf\<close> is
  present, and the height is that of the leaf count (an empty store has no height yet).
\<close>

definition store_ok :: "(bytes \<Rightarrow> bytes) \<Rightarrow> tree_calc \<Rightarrow> (position \<Rightarrow> bytes option) \<Rightarrow> u8 \<Rightarrow> nat
    \<Rightarrow> (nat \<Rightarrow> bytes option) \<Rightarrow> bool" where
  "store_ok h tc get height n leaf \<longleftrightarrow>
     wf_calc tc \<and> wf_nodes h tc get leaf n \<and> n \<le> bfactor tc ^ 254 \<and>
     (n = 0 \<or> height = of_nat (Suc (levels tc n)))"

lemma wf_nodes_after:
  assumes pre: "update_pre h tc get leaf n n' leaves" and ul: "update_levels h tc leaf n' leaves L res"
    and node: "\<And>m. m \<in> set (result_nodes res) \<Longrightarrow> get' (Position m) = Data m"
    and other: "\<And>p. canon p \<Longrightarrow> p \<notin> Position ` set (result_nodes res) \<Longrightarrow> get' p = get p"
  shows "wf_nodes h tc get' (set_leaves leaves leaf) n'"
  unfolding wf_nodes_def
proof (intro conjI allI impI)
  have wf: "2 \<le> bfactor tc" "wf_leaves n n' leaves" "wf_nodes h tc get leaf n" "n' \<le> bfactor tc ^ 254"
    using pre unfolding update_pre_def wf_calc_def by blast+
  show "dom (set_leaves leaves leaf) = {..<n'}"
    using dom_set_leaves [OF wf(2)] wf(3) by (simp add: wf_nodes_def)
  fix l i assume l: "l \<le> levels tc n'" and i: "i < row tc n' l"
  let ?T = "touched (bfactor tc) (leaf_idx leaves)"
  show "get' (NewPosition (of_nat l) i) = ref_node h (bfactor tc) (set_leaves leaves leaf) l i"
  proof (cases "i \<in> ?T l")
    case True
    let ?m = "\<lparr>Position = NewPosition (of_nat l) i,
               Data = ref_node h (bfactor tc) (set_leaves leaves leaf) l i\<rparr>"
    have "?m \<in> set (result_nodes res)"
      using update_levels_node [OF ul] l True by blast
    from node [OF this] show ?thesis by simp
  next
    case False
    have "NewPosition (of_nat l) i \<notin> Position ` set (result_nodes res)"
    proof
      assume "NewPosition (of_nat l) i \<in> Position ` set (result_nodes res)"
      then obtain j k where jk: "j \<le> levels tc n'" "k \<in> ?T j" "NewPosition (of_nat l) i = NewPosition (of_nat j) k"
        using update_levels_node [OF ul] by force
      then have "l = j" "i = k"
        using of_nat_levels(2) [OF wf(1,4)] l by (auto intro: of_nat_u8_inject)
      with jk False show False by simp
    qed
    then have "get' (NewPosition (of_nat l) i) = get (NewPosition (of_nat l) i)"
      by (intro other) simp_all
    then show ?thesis
      using untouched [OF wf(1,2) i l False] wf(3) by (simp add: wf_nodes_def)
  qed
qed

locale merkle_store =
  fixes get_node :: "'s \<Rightarrow> position \<Rightarrow> bytes option"
    and get_height :: "'s \<Rightarrow> u8"
    and get_count :: "'s \<Rightarrow> nat"
    and commit_update :: "update_result \<Rightarrow> 's \<Rightarrow> 's option"
  assumes commit_node: "commit_update res s = Some s' \<Longrightarrow> wf_result res \<Longrightarrow>
      m \<in> set (result_nodes res) \<Longrightarrow> get_node s' (Position m) = Data m"
    and commit_other: "commit_update res s = Some s' \<Longrightarrow> canon p \<Longrightarrow>
      wf_result res \<Longrightarrow> p \<notin> Position ` set (result_nodes res) \<Longrightarrow> get_node s' p = get_node s p"
    and commit_height: "commit_update res s = Some s' \<Longrightarrow> get_height s' = uHeight res"
    and commit_count: "commit_update res s = Some s' \<Longrightarrow> get_count s' = uLeafCount res"
begin

lemma update_commit:
  assumes ok: "store_ok h tc (get_node s) (get_height s) (get_count s) leaf"
    and leaves: "wf_leaves (get_count s) n' leaves" and n': "n' \<le> bfactor tc ^ 254"
    and sched: "\<And>i xs. mset (sched i xs) = mset xs"
  shows "\<exists>res. Update h tc (get_node s) sched leaves n' = Some res \<and> wf_result res \<and>
      Data (uRoot res) = ref_node h (bfactor tc) (set_leaves leaves leaf) (levels tc n') 0 \<and>
      (\<forall>s'. commit_update res s = Some s' \<longrightarrow>
         get_count s' = n' \<and>
         store_ok h tc (get_node s') (get_height s') (get_count s') (set_leaves leaves leaf) \<and>
         Root (get_node s') (get_height s') = Some (uRoot res))"
proof -
  have pre: "update_pre h tc (get_node s) leaf (get_count s) n' leaves"
    using ok leaves n' by (simp add: update_pre_def store_ok_def)
  have b: "2 \<le> bfactor tc" using ok by (simp add: store_ok_def wf_calc_def)
  obtain L res where res: "Update h tc (get_node s) sched leaves n' = Some res"
      and ul: "update_levels h tc leaf n' leaves L res"
    using Update_levels [OF pre, of sched] sched by blast
  have wfr: "wf_result res" by (rule update_levels_wf_result [OF ul of_nat_levels(2) [OF b n']])
  let ?top = "ref_node h (bfactor tc) (set_leaves leaves leaf) (levels tc n') 0"
  have root: "uRoot res = \<lparr>Position = NewPosition (of_nat (levels tc n')) 0, Data = ?top\<rparr>"
    and hc: "uHeight res = of_nat (Suc (levels tc n'))" "uLeafCount res = n'"
    using ul by (simp_all add: update_levels_def)
  have post: "store_ok h tc (get_node s') (get_height s') (get_count s') (set_leaves leaves leaf) \<and>
       Root (get_node s') (get_height s') = Some (uRoot res) \<and> get_count s' = n'"
    if c: "commit_update res s = Some s'" for s'
  proof -
    have wf: "wf_nodes h tc (get_node s') (set_leaves leaves leaf) n'"
      using wf_nodes_after [OF pre ul] commit_node [OF c wfr] commit_other [OF c _ wfr] by blast
    have "leaves \<noteq> []" "\<forall>m \<in> set leaves. index (Position m) < n'"
      using leaves by (auto simp: wf_leaves_def)
    then have "0 < n'" by (cases leaves) auto
    then have "0 < row tc n' (levels tc n')" using b by (simp add: less_row_iff)
    then have "get_node s' (NewPosition (of_nat (levels tc n')) 0) = ?top"
      using wf by (simp add: wf_nodes_def)
    moreover have "?top \<noteq> None"
      using wf \<open>0 < n'\<close> b by (subst ref_node_None_iff) (auto simp: wf_nodes_def)
    ultimately have "Root (get_node s') (get_height s') = Some (uRoot res)"
      by (auto simp: Root_def Let_def root hc commit_height [OF c])
    with wf n' ok show ?thesis
      by (simp add: store_ok_def commit_height [OF c] commit_count [OF c] hc)
  qed
  from res wfr root post show ?thesis by auto
qed

end

lemma fold_put_node_other:
  "k \<notin> (\<lambda>m. pstr (Position m)) ` set ns \<Longrightarrow> ms_nodes (fold put_node ns ms) k = ms_nodes ms k"
  by (induction ns arbitrary: ms) (simp_all add: put_node_def)

lemma fold_put_node_in:
  assumes "distinct (map (\<lambda>m. pstr (Position m)) ns)" and "m \<in> set ns"
  shows "ms_nodes (fold put_node ns ms) (pstr (Position m)) = Data m"
  using assms
proof (induction ns arbitrary: ms)
  case (Cons a ns)
  then show ?case
    by (cases "m = a") (simp_all add: fold_put_node_other, simp add: put_node_def)
qed simp

lemma fold_put_node_sel [simp]:
  "ms_height (fold put_node ns ms) = ms_height ms"
  "ms_leafCount (fold put_node ns ms) = ms_leafCount ms"
  by (induction ns arbitrary: ms) (simp_all add: put_node_def)

lemma wf_result_distinct_pstr:
  assumes "wf_result res"
  shows "distinct (map (\<lambda>m. pstr (Position m)) (result_nodes res))"
proof -
  have "inj_on pstr (Position ` set (result_nodes res))"
    using assms canon_pstr_inject by (fastforce simp: wf_result_def inj_on_def)
  then have "distinct (map pstr (map Position (result_nodes res)))"
    using assms by (subst distinct_map) (simp add: wf_result_def)
  then show ?thesis by (simp add: comp_def)
qed

lemma canon_pstr_notin:
  assumes "wf_result res" "canon p" "p \<notin> Position ` set (result_nodes res)"
  shows "pstr p \<notin> (\<lambda>m. pstr (Position m)) ` set (result_nodes res)"
  using assms canon_pstr_inject by (fastforce simp: wf_result_def)

lemma CommitUpdate_fold:
  "CommitUpdate ms res =
     fold put_node (result_nodes res) (ms\<lparr>ms_leafCount := uLeafCount res, ms_height := uHeight res\<rparr>)"
  by (simp add: CommitUpdate_def result_nodes_def)

interpretation map_st: merkle_store MapStore_GetNode MapStore_GetHeight MapStore_GetLeafCount
  "\<lambda>res ms. Some (CommitUpdate ms res)"
proof (unfold_locales, goal_cases)
  case (1 res s s' m)
  then show ?case
    using fold_put_node_in [OF wf_result_distinct_pstr]
    by (auto simp: MapStore_GetNode_def CommitUpdate_fold)
next
  case (2 res s s' p)
  then show ?case
    using fold_put_node_other [OF canon_pstr_notin]
    by (auto simp: MapStore_GetNode_def CommitUpdate_fold)
qed (auto simp: MapStore_GetHeight_def MapStore_GetLeafCount_def CommitUpdate_fold)

section \<open>Verification of a leaf\<close>

text \<open>The bytes hashed for node \<open>i\<close> of level \<open>Suc l\<close>.\<close>

definition node_input :: "(bytes \<Rightarrow> bytes) \<Rightarrow> nat \<Rightarrow> (nat \<Rightarrow> bytes option) \<Rightarrow> nat \<Rightarrow> nat \<Rightarrow> bytes" where
  "node_input h b leaf l i = concat (map opt_bytes (map (ref_node h b leaf l) [i * b..<i * b + b]))"

text \<open>
  Two trees that differ in leaf \<open>i\<close> and agree on its ancestor at level \<open>l\<close> show a collision of the
  hash function on the path between them.
\<close>

definition path_collision :: "(bytes \<Rightarrow> bytes) \<Rightarrow> nat \<Rightarrow> (nat \<Rightarrow> bytes option) \<Rightarrow> (nat \<Rightarrow> bytes option)
    \<Rightarrow> nat \<Rightarrow> nat \<Rightarrow> bool" where
  "path_collision h b leaf leaf' i lv \<longleftrightarrow> list_ex (\<lambda>l.
     node_input h b leaf l (i div b ^ Suc l) \<noteq> node_input h b leaf' l (i div b ^ Suc l) \<and>
     h (node_input h b leaf l (i div b ^ Suc l)) = h (node_input h b leaf' l (i div b ^ Suc l))) [0..<lv]"

lemma concat_map_differ:
  assumes "concat (map f xs) = concat (map g xs)" and "distinct xs" and "c \<in> set xs"
    and "\<And>x. x \<in> set xs \<Longrightarrow> x \<noteq> c \<Longrightarrow> f x = g x"
  shows "f c = g c"
proof -
  obtain ys zs where xs: "xs = ys @ c # zs" using assms(3) by (auto simp: in_set_conv_decomp)
  with assms(2,4) have "map f ys = map g ys" "map f zs = map g zs" by auto
  with assms(1) xs show ?thesis by simp
qed

lemma path_child:
  assumes "0 < b"
  shows "i div b ^ l \<in> set [i div b ^ Suc l * b..<i div b ^ Suc l * b + b]"
proof -
  have q: "i div b ^ Suc l = i div b ^ l div b" by (simp only: power_Suc2 div_mult2_eq)
  have "i div b ^ l = i div b ^ l div b * b + i div b ^ l mod b" by simp
  moreover have "i div b ^ l mod b < b" using assms by simp
  ultimately show ?thesis unfolding q set_upt atLeastLessThan_iff by linarith
qed

lemma ref_node_Suc_eq:
  "ref_node h b leaf (Suc l) i \<noteq> None \<Longrightarrow> ref_node h b leaf (Suc l) i = Some (h (node_input h b leaf l i))"
  by (simp add: node_input_def Let_def split: if_splits)

lemma ref_node_path_Some:
  assumes "0 < b" and "leaf i \<noteq> None"
  shows "ref_node h b leaf l (i div b ^ l) \<noteq> None"
proof (induction l)
  case (Suc l)
  with path_child [OF assms(1), of i l] show ?case
    by (auto simp: list_all_iff Let_def simp del: set_upt power_Suc)
qed (use assms in simp)

lemma ref_node_path:
  assumes b: "0 < b" and same: "\<And>k. k \<noteq> i \<Longrightarrow> leaf k = leaf' k"
    and some: "leaf i \<noteq> None" "leaf' i \<noteq> None" and diff: "leaf i \<noteq> leaf' i"
  shows "ref_node h b leaf lv (i div b ^ lv) = ref_node h b leaf' lv (i div b ^ lv)
    \<Longrightarrow> path_collision h b leaf leaf' i lv"
proof (induction lv)
  case 0
  with diff show ?case by simp
next
  case (Suc l)
  let ?q = "i div b ^ Suc l" and ?c = "i div b ^ l"
  let ?x = "node_input h b leaf l ?q" and ?y = "node_input h b leaf' l ?q"
  have "ref_node h b leaf (Suc l) ?q = Some (h ?x)" "ref_node h b leaf' (Suc l) ?q = Some (h ?y)"
    using ref_node_path_Some [OF b] some by (auto intro!: ref_node_Suc_eq simp del: power_Suc ref_node.simps)
  with Suc.prems have hxy: "h ?x = h ?y" by (simp only: option.inject)
  show ?case
  proof (cases "?x = ?y")
    case False
    with hxy show ?thesis by (simp add: path_collision_def del: power_Suc)
  next
    case True
    have "opt_bytes (ref_node h b leaf l ?c) = opt_bytes (ref_node h b leaf' l ?c)"
    proof (rule concat_map_differ [where xs = "[?q * b..<?q * b + b]"])
      show "concat (map (\<lambda>c. opt_bytes (ref_node h b leaf l c)) [?q * b..<?q * b + b]) =
          concat (map (\<lambda>c. opt_bytes (ref_node h b leaf' l c)) [?q * b..<?q * b + b])"
        using True by (simp add: node_input_def comp_def del: power_Suc)
      show "?c \<in> set [?q * b..<?q * b + b]" by (rule path_child [OF b])
      show "opt_bytes (ref_node h b leaf l x) = opt_bytes (ref_node h b leaf' l x)" if "x \<noteq> ?c" for x
      proof -
        have "ref_node h b leaf l x = ref_node h b leaf' l x"
          using that by (intro ref_node_cong [OF b] same) blast
        then show ?thesis by simp
      qed
    qed simp
    then have "ref_node h b leaf l ?c = ref_node h b leaf' l ?c"
      using ref_node_path_Some [of b leaf i h l] ref_node_path_Some [of b leaf' i h l] b some
      by (auto simp: opt_bytes_def)
    from Suc.IH [OF this] show ?thesis by (simp add: path_collision_def del: power_Suc)
  qed
qed

text \<open>The outcome of \<^verbatim>\<open>Verify\<close> on one leaf of a well-formed store.\<close>

lemma Verify_leaf:
  assumes ok: "store_ok h tc get height n leaf" and i: "i < n"
    and sched: "\<And>l xs. mset (sched l xs) = mset xs"
  shows "Verify h tc get height n sched [\<lparr>Position = NewPosition 0 i, Data = Some d\<rparr>] =
    Some (ref_node h (bfactor tc) leaf (levels tc n) 0 =
          ref_node h (bfactor tc) (leaf(i := Some d)) (levels tc n) 0)"
proof -
  let ?m = "\<lparr>Position = NewPosition 0 i, Data = Some d\<rparr>" and ?lv = "levels tc n"
  have b: "2 \<le> bfactor tc" and n: "n \<le> bfactor tc ^ 254" and wf: "wf_nodes h tc get leaf n"
    and hgt: "height - 1 = of_nat ?lv"
    using ok i by (auto simp: store_ok_def wf_calc_def)
  have "0 < row tc n ?lv" using i b by (simp add: less_row_iff)
  then have root: "get (NewPosition (of_nat ?lv) 0) = ref_node h (bfactor tc) leaf ?lv 0"
    using wf by (simp add: wf_nodes_def)
  have dom: "dom leaf = {..<n}" "dom (leaf(i := Some d)) = {..<n}"
    using wf i by (auto simp: wf_nodes_def)
  have some: "ref_node h (bfactor tc) leaf ?lv 0 \<noteq> None"
      "ref_node h (bfactor tc) (leaf(i := Some d)) ?lv 0 \<noteq> None"
    using i b ref_node_None_iff [OF dom(1)] ref_node_None_iff [OF dom(2)] by simp_all
  have "update_pre h tc get leaf n n [?m]"
    using ok i by (auto simp: update_pre_def store_ok_def wf_leaves_def leaf_idx_def)
  from Update_levels [OF this, of sched] sched obtain L res where
    "Update h tc get sched [?m] n = Some res" "update_levels h tc leaf n [?m] L res" by blast
  moreover have "set_leaves [?m] leaf = leaf(i := Some d)" by (simp add: set_leaves_def)
  ultimately have upd: "Update h tc get sched [?m] n = Some res"
      "Data (uRoot res) = ref_node h (bfactor tc) (leaf(i := Some d)) ?lv 0"
    by (simp_all add: update_levels_def)
  from some obtain x y where "ref_node h (bfactor tc) leaf ?lv 0 = Some x"
      "ref_node h (bfactor tc) (leaf(i := Some d)) ?lv 0 = Some y" by auto
  with root upd hgt i show ?thesis
    by (simp add: Verify_def Root_def Let_def same_data_def)
qed

lemma levels_div_0: "2 \<le> bfactor tc \<Longrightarrow> i < n \<Longrightarrow> i div bfactor tc ^ levels tc n = 0"
  using levels_le_iff [of tc n "levels tc n"] by simp

end
