(* ===== verification/Merkle_Props.thy ===== *)
theory Merkle_Props
  imports Merkle_Store
begin

text \<open>
  The properties of the Merkle component, over the tree engine and its in-memory store, each with a
  concrete instance.
\<close>

section \<open>A concrete tree\<close>

text \<open>A binary tree over two one-byte leaves, hashed by appending the length.\<close>

definition ex_hash :: "bytes \<Rightarrow> bytes" where
  "ex_hash x = x @ [of_nat (length x)]"

definition ex_leaf :: "nat \<Rightarrow> bytes option" where
  "ex_leaf i = (if i = 0 then Some [7] else if i = 1 then Some [9] else None)"

definition ex_store :: map_store where
  "ex_store = \<lparr>ms_leafCount = 2, ms_height = 2,
     ms_nodes = [setBytes 0 0 \<mapsto> [7], setBytes 0 1 \<mapsto> [9], setBytes 1 0 \<mapsto> [7, 9, 2]]\<rparr>"

lemma NewTree_wf [simp]: "wf_calc (NewTree bf)"
  by (auto simp: wf_calc_def NewTree_def NewTreeCalc_def word_less_nat_alt)

lemma bfactor_NewTree_2 [simp]: "bfactor (NewTree 2) = 2"
  by (simp add: NewTree_def NewTreeCalc_def)

lemma row_0 [simp]: "row tc 0 l = 0"
  by (induction l) simp_all

lemma empty_store_ok:
  "wf_calc tc \<Longrightarrow> store_ok h tc (MapStore_GetNode NewMapStore) (MapStore_GetHeight NewMapStore)
     (MapStore_GetLeafCount NewMapStore) (\<lambda>_. None)"
  by (auto simp: store_ok_def wf_nodes_def MapStore_GetLeafCount_def NewMapStore_def)

lemma levels_NewTree_2: "levels (NewTree 2) 2 = 1"
  using levels_le_iff [of "NewTree 2" 2 1] less_levels_iff [of "NewTree 2" 0 2] by simp

lemma row_NewTree_2: "i < row (NewTree 2) 2 l \<longleftrightarrow> i * 2 ^ l < 2"
  using less_row_iff [of "NewTree 2"] by simp

lemma ex_store_ok:
  "store_ok ex_hash (NewTree 2) (MapStore_GetNode ex_store) (MapStore_GetHeight ex_store)
     (MapStore_GetLeafCount ex_store) ex_leaf"
proof -
  have ref: "ref_node ex_hash 2 ex_leaf 1 0 = Some [7, 9, 2]"
    by (simp add: ex_leaf_def ex_hash_def opt_bytes_def upt_rec)
  have pstr: "pstr (NewPosition l i) = setBytes l i" for l i by (simp add: NewPosition_def)
  have "ms_nodes ex_store (setBytes (of_nat l) i) = ref_node ex_hash 2 ex_leaf l i"
    if "l \<le> 1" "i * 2 ^ l < 2" for l i
  proof (cases "l = 0")
    case True
    with that have "i = 0 \<or> i = 1" by auto
    with True show ?thesis by (auto simp: ex_store_def ex_leaf_def)
  next
    case False
    with that have "l = 1" by simp
    with that have "i = 0" by simp
    note \<open>l = 1\<close> this
    with ref show ?thesis by (simp add: ex_store_def)
  qed
  moreover have "dom ex_leaf = {..<2}" by (auto simp: ex_leaf_def split: if_splits)
  ultimately have "wf_nodes ex_hash (NewTree 2) (MapStore_GetNode ex_store) ex_leaf 2"
    by (simp add: wf_nodes_def MapStore_GetNode_def pstr levels_NewTree_2 row_NewTree_2)
  moreover have "MapStore_GetHeight ex_store = 2" "MapStore_GetLeafCount ex_store = 2"
    by (simp_all add: MapStore_GetHeight_def MapStore_GetLeafCount_def ex_store_def)
  ultimately show ?thesis by (simp add: store_ok_def levels_NewTree_2)
qed

section \<open>Properties\<close>

text \<open>
  C7. An update of a well-formed in-memory store returns in every scheduling of its workers. Its root
  is the root of the tree built from scratch over the old leaves with the new ones set, and committing
  it gives a store that is well formed for those leaves and whose \<^verbatim>\<open>Root\<close> is the computed root.
\<close>

theorem map_store_update:
  assumes "store_ok h tc (MapStore_GetNode ms) (MapStore_GetHeight ms) (MapStore_GetLeafCount ms) leaf"
    and "wf_leaves (MapStore_GetLeafCount ms) n' leaves" and "n' \<le> bfactor tc ^ 254"
    and "\<And>l xs. mset (sched l xs) = mset xs"
  shows "\<exists>res. Update h tc (MapStore_GetNode ms) sched leaves n' = Some res \<and>
      Data (uRoot res) = ref_node h (bfactor tc) (set_leaves leaves leaf) (levels tc n') 0 \<and>
      (let ms' = CommitUpdate ms res in
         MapStore_GetLeafCount ms' = n' \<and>
         store_ok h tc (MapStore_GetNode ms') (MapStore_GetHeight ms') (MapStore_GetLeafCount ms')
           (set_leaves leaves leaf) \<and>
         Root (MapStore_GetNode ms') (MapStore_GetHeight ms') = Some (uRoot res))"
  using map_st.update_commit [OF assms(1-3), of sched] assms(4) by (auto simp: Let_def)

definition ex_leaves :: "mnode list" where
  "ex_leaves = [\<lparr>Position = NewPosition 0 1, Data = Some [9]\<rparr>, \<lparr>Position = NewPosition 0 0, Data = Some [7]\<rparr>]"

theorem map_store_update_witness:
  "wf_leaves 0 2 ex_leaves \<and>
   (\<exists>res. Update ex_hash (NewTree 2) (MapStore_GetNode NewMapStore) (\<lambda>l. rev) ex_leaves 2 = Some res \<and>
      Data (uRoot res) = ref_node ex_hash 2 (set_leaves ex_leaves (\<lambda>_. None)) (levels (NewTree 2) 2) 0)"
proof -
  have l: "wf_leaves 0 2 ex_leaves"
    by (auto simp: wf_leaves_def ex_leaves_def leaf_idx_def)
  then have "wf_leaves (MapStore_GetLeafCount NewMapStore) 2 ex_leaves"
    by (simp add: MapStore_GetLeafCount_def NewMapStore_def)
  from map_store_update [OF empty_store_ok this, of "NewTree 2" "\<lambda>l. rev" ex_hash] l show ?thesis
    by auto
qed

text \<open>
  C8. \<^verbatim>\<open>Verify\<close> accepts every leaf that a well-formed store holds: a leaf inside the tree with its stored
  data is accepted in every scheduling, whatever the hash function.
\<close>

theorem verify_accepts_stored:
  assumes "store_ok h tc get height n leaf" and "leaf i = Some d"
    and "\<And>l xs. mset (sched l xs) = mset xs"
  shows "Verify h tc get height n sched [\<lparr>Position = NewPosition 0 i, Data = Some d\<rparr>] = Some True"
proof -
  have "i < n" using assms(1,2) by (auto simp: store_ok_def wf_nodes_def)
  moreover have "leaf(i := Some d) = leaf" using assms(2) by auto
  ultimately show ?thesis using Verify_leaf [OF assms(1), of i sched d] assms(3) by simp
qed

theorem verify_accepts_stored_witness:
  "Verify ex_hash (NewTree 2) (MapStore_GetNode ex_store) 2 2 (\<lambda>l. rev)
     [\<lparr>Position = NewPosition 0 1, Data = Some [9]\<rparr>] = Some True"
  using verify_accepts_stored [OF ex_store_ok, of 1 "[9]" "\<lambda>l. rev"]
  by (simp add: ex_leaf_def MapStore_GetHeight_def MapStore_GetLeafCount_def) (simp add: ex_store_def)

text \<open>
  C9. A leaf whose data differs from the stored leaf is accepted only on a hash collision: when \<^verbatim>\<open>Verify\<close>
  answers true for other data, then at some level on the path of the leaf to the root the two trees
  hash different bytes to the same value.
\<close>

theorem verify_sound:
  assumes "store_ok h tc get height n leaf" and "i < n"
    and "\<And>l xs. mset (sched l xs) = mset xs"
    and "Verify h tc get height n sched [\<lparr>Position = NewPosition 0 i, Data = Some d\<rparr>] = Some True"
  shows "leaf i = Some d \<or> path_collision h (bfactor tc) leaf (leaf(i := Some d)) i (levels tc n)"
proof (cases "leaf i = Some d")
  case False
  have b: "2 \<le> bfactor tc" using assms(1) by (simp add: store_ok_def wf_calc_def)
  have "ref_node h (bfactor tc) leaf (levels tc n) 0 = ref_node h (bfactor tc) (leaf(i := Some d)) (levels tc n) 0"
    using assms(4) Verify_leaf [OF assms(1,2), of sched d] assms(3) by simp
  moreover have "leaf i \<noteq> None" using assms(1,2) by (auto simp: store_ok_def wf_nodes_def)
  ultimately show ?thesis
    using ref_node_path [of "bfactor tc" i leaf "leaf(i := Some d)" h "levels tc n"] False b
      levels_div_0 [OF b assms(2)] by simp
qed simp

theorem verify_sound_witness:
  "ex_leaf 1 = Some [9] \<or> path_collision ex_hash 2 ex_leaf (ex_leaf(1 := Some [9])) 1 (levels (NewTree 2) 2)"
proof -
  have same: "ex_leaf(Suc 0 := Some [9]) = ex_leaf" by (auto simp: ex_leaf_def)
  have n: "MapStore_GetLeafCount ex_store = 2" by (simp add: MapStore_GetLeafCount_def ex_store_def)
  have "Verify ex_hash (NewTree 2) (MapStore_GetNode ex_store) (MapStore_GetHeight ex_store) 2
      (\<lambda>l. rev) [\<lparr>Position = NewPosition 0 1, Data = Some [9]\<rparr>] = Some True"
    using Verify_leaf [OF ex_store_ok, of 1 "\<lambda>l. rev" "[9]"]
    by (simp add: n same)
  from verify_sound [OF ex_store_ok, of 1 "\<lambda>l. rev" "[9]", unfolded n, OF _ _ this] show ?thesis
    by simp
qed

text \<open>
  C10. For every tree that \<^verbatim>\<open>NewTree\<close> builds, the loop of \<^verbatim>\<open>Height\<close> returns, and for up to \<open>b ^ 254\<close> leaves the
  8-bit result is exact: \<open>h - 1\<close> is the least number of levels whose top row has one node.
\<close>

theorem height_exact:
  assumes "n \<le> bfactor (NewTree bf) ^ 254"
  shows "\<exists>h. Height (NewTree bf) n = Some h \<and> 1 \<le> unat h \<and> n \<le> bfactor (NewTree bf) ^ (unat h - 1) \<and>
     (\<forall>l. n \<le> bfactor (NewTree bf) ^ l \<longrightarrow> unat h - 1 \<le> l)"
proof -
  have b: "2 \<le> bfactor (NewTree bf)" using NewTree_wf unfolding wf_calc_def by blast
  show ?thesis
    using Height_levels [OF b, of n] unat_Height [OF b assms] levels_le_iff [OF b, of n]
      levels_le_iff [OF b, of n "levels (NewTree bf) n", THEN iffD1, OF order.refl]
    by (intro exI [of _ "of_nat (Suc (levels (NewTree bf) n))"]) (simp del: of_nat_Suc)
qed

theorem height_exact_witness:
  "(9::nat) \<le> 2 ^ 254 \<and> (\<exists>h. Height (NewTree 2) 9 = Some h \<and> 1 \<le> unat h \<and> (9::nat) \<le> 2 ^ (unat h - 1))"
proof -
  have "(9::nat) \<le> 2 ^ 4" by simp
  also have "(2::nat) ^ 4 \<le> 2 ^ 254" by (rule power_increasing) simp_all
  finally have "(9::nat) \<le> 2 ^ 254" .
  with height_exact [of 9 2] show ?thesis by auto
qed

text \<open>
  C11. Reading back the bytes of a position gives the position: the codec of \<^verbatim>\<open>NewPosition\<close> and
  \<^verbatim>\<open>UnmarshalPosition\<close> is a round trip for every level and index, and two positions have the same key
  in a store only if they are equal.
\<close>

theorem position_roundtrip:
  "UnmarshalPosition (pbytes (NewPosition l i)) = Some (NewPosition l i) \<and>
   (pstr (NewPosition l i) = pstr (NewPosition l' i') \<longleftrightarrow> l = l' \<and> i = i')"
proof -
  have "be_nat [0] = 0" by (simp add: be_nat_def)
  then have "UnmarshalPosition (setBytes l i) =
      Some \<lparr>level = l, index = i, pbytes = setBytes l i, pstr = setBytes l i\<rparr>"
    by (simp add: UnmarshalPosition_def setBytes_def Let_def)
  then show ?thesis by (simp add: NewPosition_def)
qed

end
