(* ===== verification/Addr_Codec.thy ===== *)
theory Addr_Codec
  imports Prelude
begin

text \<open>
  The address and balance codecs of \<^verbatim>\<open>src/execution/common/util.go\<close>, with the parts of Go's
  \<^verbatim>\<open>encoding/base64\<close> (\<^verbatim>\<open>StdEncoding\<close>) and \<^verbatim>\<open>encoding/hex\<close> that they call. An index out of range is
  the value \<open>None\<close>; an error is the left side of a sum.
\<close>

section \<open>Base64, standard encoding with padding\<close>

definition b64_alphabet :: string where
  "b64_alphabet = ''ABCDEFGHIJKLMNOPQRSTUVWXYZabcdefghijklmnopqrstuvwxyz0123456789+/''"

definition b64_char :: "nat \<Rightarrow> char" where
  "b64_char k = b64_alphabet ! k"

definition b64_index :: "char \<Rightarrow> nat option" where
  "b64_index c = map_of (zip b64_alphabet [0..<64]) c"

fun b64_encode :: "bytes \<Rightarrow> string" where
  "b64_encode [] = []"
| "b64_encode [a] = (let n = unat a * 16 in [b64_char (n div 64), b64_char (n mod 64), CHR ''='', CHR ''=''])"
| "b64_encode [a, b] =
     (let n = (unat a * 256 + unat b) * 4
      in [b64_char (n div 4096), b64_char (n div 64 mod 64), b64_char (n mod 64), CHR ''=''])"
| "b64_encode (a # b # c # bs) =
     (let n = (unat a * 256 + unat b) * 256 + unat c
      in b64_char (n div 262144) # b64_char (n div 4096 mod 64) # b64_char (n div 64 mod 64)
         # b64_char (n mod 64) # b64_encode bs)"

definition b64_value :: "char list \<Rightarrow> nat option" where
  "b64_value cs = fold (\<lambda>c acc. case acc of None \<Rightarrow> None
      | Some n \<Rightarrow> map_option (\<lambda>k. n * 64 + k) (b64_index c)) cs (Some 0)"

text \<open>Groups of four; only the last group may be padded, and spare bits of it are dropped.\<close>

fun b64_groups :: "string \<Rightarrow> bytes option" where
  "b64_groups [] = Some []"
| "b64_groups (a # b # c # d # cs) =
     (if cs = [] \<and> d = CHR ''='' then
        (if c = CHR ''='' then map_option (\<lambda>n. [of_nat (n div 16)]) (b64_value [a, b])
         else map_option (\<lambda>n. [of_nat (n div 1024), of_nat (n div 4)]) (b64_value [a, b, c]))
      else (case (b64_value [a, b, c, d], b64_groups cs) of
              (Some n, Some bs) \<Rightarrow> Some (of_nat (n div 65536) # of_nat (n div 256) # of_nat n # bs)
            | _ \<Rightarrow> None))"
| "b64_groups _ = None"

definition b64_decode :: "string \<Rightarrow> bytes option" where
  "b64_decode s = b64_groups (filter (\<lambda>c. c \<noteq> CHR 0x0A \<and> c \<noteq> CHR 0x0D) s)"

section \<open>Hexadecimal\<close>

definition hex_alphabet :: string where
  "hex_alphabet = ''0123456789abcdef''"

definition hex_upper :: string where
  "hex_upper = ''0123456789ABCDEF''"

definition hex_index :: "char \<Rightarrow> nat option" where
  "hex_index c = (case map_of (zip hex_alphabet [0..<16]) c of Some k \<Rightarrow> Some k
      | None \<Rightarrow> map_of (zip hex_upper [0..<16]) c)"

fun hex_encode :: "bytes \<Rightarrow> string" where
  "hex_encode [] = []"
| "hex_encode (b # bs) = hex_alphabet ! (unat b div 16) # hex_alphabet ! (unat b mod 16) # hex_encode bs"

fun hex_decode :: "string \<Rightarrow> bytes option" where
  "hex_decode [] = Some []"
| "hex_decode (a # b # cs) =
     (case (hex_index a, hex_index b, hex_decode cs) of
        (Some h, Some l, Some bs) \<Rightarrow> Some (of_nat (h * 16 + l) # bs)
      | _ \<Rightarrow> None)"
| "hex_decode [_] = None"

section \<open>Addresses and balances\<close>

datatype addr_error = ErrAddressLength | ErrDecode

definition DecodeBalance :: "bytes option \<Rightarrow> u64 option" where
  "DecodeBalance b =
     (case b of None \<Rightarrow> Some 0
      | Some bs \<Rightarrow> if length bs < 8 then None else Some (of_nat (be_nat (take 8 bs))))"

definition EncodeBalance :: "u64 \<Rightarrow> bytes" where
  "EncodeBalance value = be_bytes 8 (unat value)"

definition AssertLength :: "bytes \<Rightarrow> nat \<Rightarrow> addr_error option" where
  "AssertLength addr l = (if length addr = 0 \<or> length addr = l then None else Some ErrAddressLength)"

definition ValidLength :: "bytes \<Rightarrow> addr_error option" where
  "ValidLength addr = (if length addr = 20 \<or> length addr = 32 then None else Some ErrAddressLength)"

definition AddressToString :: "bytes \<Rightarrow> string" where
  "AddressToString addr =
     (if length addr = 20 then hex_encode addr
      else if length addr = 32 then b64_encode addr else [])"

definition Address32ToBytes :: "string \<Rightarrow> bytes option" where
  "Address32ToBytes addr = b64_decode addr"

definition Address20ToBytes :: "string \<Rightarrow> bytes option" where
  "Address20ToBytes addr = hex_decode addr"

definition AddressToBytes :: "string \<Rightarrow> (addr_error, bytes) result" where
  "AddressToBytes addr =
     (case Address32ToBytes addr of
        Some res \<Rightarrow>
          if length res = 32 then Inr res
          else (case Address20ToBytes addr of
                  Some res \<Rightarrow> if length res = 20 then Inr res else Inl ErrAddressLength
                | None \<Rightarrow> Inl ErrAddressLength)
      | None \<Rightarrow> (case Address20ToBytes addr of
                  Some res \<Rightarrow> if length res = 20 then Inr res else Inl ErrAddressLength
                | None \<Rightarrow> Inl ErrAddressLength))"

section \<open>Round trips\<close>

lemma b64_alphabet_length [simp]: "length b64_alphabet = 64"
  by (simp add: b64_alphabet_def)

lemma b64_alphabet_distinct: "distinct b64_alphabet"
  by (simp add: b64_alphabet_def)

lemma b64_index_char [simp]: "k < 64 \<Longrightarrow> b64_index (b64_char k) = Some k"
  unfolding b64_index_def b64_char_def
  by (subst map_of_zip_nth) (simp_all add: b64_alphabet_distinct)

lemma b64_char_in: "k < 64 \<Longrightarrow> b64_char k \<in> set b64_alphabet"
  by (simp add: b64_char_def)

lemma b64_char_not [simp]:
  "k < 64 \<Longrightarrow> b64_char k \<noteq> CHR ''=''" "k < 64 \<Longrightarrow> b64_char k \<noteq> CHR 0x0A" "k < 64 \<Longrightarrow> b64_char k \<noteq> CHR 0x0D"
  using b64_char_in [of k] by (auto simp: b64_alphabet_def)

lemma byte_le_255: "unat (a :: byte) \<le> 255"
  using unat_byte_less [of a] by linarith

lemma byte2_le: "unat (a :: byte) * 256 + unat (b :: byte) \<le> 65535"
  using byte_le_255 [of a] byte_le_255 [of b] by linarith

lemma byte3_le: "(unat (a :: byte) * 256 + unat (b :: byte)) * 256 + unat (c :: byte) \<le> 16777215"
  using mult_le_mono1 [OF byte2_le [of a b], of 256] byte_le_255 [of c] by linarith

lemma byte_of_nat_eq: "n mod 256 = unat (a :: byte) \<Longrightarrow> of_nat n = a"
  by (metis unat_of_nat_byte word_unat_eq_iff)

lemma digits64: "(n :: nat) div 64 * 64 + n mod 64 = n"
  by simp

lemma b64_value_4:
  assumes "n < 16777216"
  shows "b64_value [b64_char (n div 262144), b64_char (n div 4096 mod 64), b64_char (n div 64 mod 64),
    b64_char (n mod 64)] = Some n"
proof -
  have "n div 4096 = n div 64 div 64" "n div 262144 = n div 64 div 64 div 64"
    by (simp_all add: div_mult2_eq [symmetric])
  then have "((n div 262144 * 64 + n div 4096 mod 64) * 64 + n div 64 mod 64) * 64 + n mod 64 = n"
    by (simp only: digits64)
  moreover have "n div 262144 < 64" using assms by (simp add: div_less_iff_less_mult)
  ultimately show ?thesis by (simp add: b64_value_def)
qed

lemma b64_value_3:
  assumes "n < 262144"
  shows "b64_value [b64_char (n div 4096), b64_char (n div 64 mod 64), b64_char (n mod 64)] = Some n"
proof -
  have "n div 4096 = n div 64 div 64" by (simp add: div_mult2_eq [symmetric])
  then have "(n div 4096 * 64 + n div 64 mod 64) * 64 + n mod 64 = n" by (simp only: digits64)
  moreover have "n div 4096 < 64" using assms by (simp add: div_less_iff_less_mult)
  ultimately show ?thesis by (simp add: b64_value_def)
qed

lemma b64_value_2: "n < 4096 \<Longrightarrow> b64_value [b64_char (n div 64), b64_char (n mod 64)] = Some n"
  using digits64 [of n] by (simp add: b64_value_def div_less_iff_less_mult)

lemma b64_groups_encode: "b64_groups (b64_encode bs) = Some bs"
proof (induction bs rule: b64_encode.induct)
  case (2 a)
  have "unat a * 16 < 4096" using byte_le_255 [of a] by linarith
  then show ?case using b64_value_2 [of "unat a * 16"] by (simp add: Let_def)
next
  case (3 a b)
  let ?n = "(unat a * 256 + unat b) * 4"
  have n: "?n < 262144" using mult_le_mono1 [OF byte2_le [of a b], of 4] by linarith
  have "?n div 1024 = unat a" "?n div 4 = unat a * 256 + unat b"
    using unat_byte_less [of b] by simp_all
  moreover have "?n mod 64 < 64" by simp
  ultimately show ?case
    using b64_value_3 [OF n] by (auto simp: Let_def intro!: byte_of_nat_eq simp del: of_nat_mult of_nat_add)
next
  case (4 a b c bs)
  let ?n = "(unat a * 256 + unat b) * 256 + unat c"
  have n: "?n < 16777216"
    using byte3_le [of a b c] by linarith
  have d1: "?n div 65536 = unat a"
    using mult_add_div [of "unat b * 256 + unat c" 65536 "unat a"] byte2_le [of b c] by simp
  have d2: "?n div 256 = unat a * 256 + unat b" by (rule mult_add_div) simp
  have "of_nat (?n div 65536) = a" by (simp only: d1) simp
  moreover have "of_nat (?n div 256) = b" unfolding d2 by (rule byte_of_nat_eq) simp
  moreover have "of_nat ?n = c" by (rule byte_of_nat_eq, rule mult_add_mod) simp
  moreover have "b64_char (?n mod 64) \<noteq> CHR ''=''" by simp
  ultimately show ?case
    using b64_value_4 [OF n] 4 by (simp only: b64_encode.simps b64_groups.simps Let_def) simp
qed simp

lemma b64_encode_clean: "filter (\<lambda>c. c \<noteq> CHR 0x0A \<and> c \<noteq> CHR 0x0D) (b64_encode bs) = b64_encode bs"
proof (induction bs rule: b64_encode.induct)
  case (2 a)
  have "unat a * 16 div 64 < 64" using byte_le_255 [of a] by linarith
  then show ?case by (simp add: Let_def)
next
  case (3 a b)
  have "(unat a * 256 + unat b) * 4 div 4096 < 64"
    using mult_le_mono1 [OF byte2_le [of a b], of 4] by linarith
  then show ?case by (simp add: Let_def)
next
  case (4 a b c bs)
  have "((unat a * 256 + unat b) * 256 + unat c) div 262144 < 64"
    using byte3_le [of a b c] by linarith
  with 4 show ?case by (simp add: Let_def)
qed simp

lemma b64_roundtrip [simp]: "b64_decode (b64_encode bs) = Some bs"
  by (simp only: b64_decode_def b64_encode_clean b64_groups_encode)

lemma b64_encode_inject [simp]: "b64_encode x = b64_encode y \<longleftrightarrow> x = y"
  by (metis b64_roundtrip option.inject)

lemma b64_encode_eq_Nil [simp]: "b64_encode x = [] \<longleftrightarrow> x = []"
  by (metis b64_encode.simps(1) b64_encode_inject)

lemma hex_index_digit [simp]: "k < 16 \<Longrightarrow> hex_index (hex_alphabet ! k) = Some k"
proof -
  have "distinct hex_alphabet" "length hex_alphabet = 16" by (simp_all add: hex_alphabet_def)
  then show "k < 16 \<Longrightarrow> hex_index (hex_alphabet ! k) = Some k"
    unfolding hex_index_def by (subst map_of_zip_nth) simp_all
qed

lemma hex_roundtrip [simp]: "hex_decode (hex_encode bs) = Some bs"
  by (induction bs) (simp_all add: div_less_iff_less_mult byte_of_nat_eq del: of_nat_add of_nat_mult)

lemma length_b64_groups: "b64_groups s = Some bs \<Longrightarrow> 4 * length bs \<le> 3 * length s"
  by (induction s arbitrary: bs rule: b64_groups.induct) (fastforce split: if_splits option.splits)+

lemma length_hex_encode [simp]: "length (hex_encode bs) = 2 * length bs"
  by (induction bs) simp_all

lemma b64_hex_length:
  assumes "length addr = 20" and "b64_decode (hex_encode addr) = Some bs"
  shows "length bs \<le> 30"
proof -
  have "4 * length bs \<le> 3 * length (filter (\<lambda>c. c \<noteq> CHR 0x0A \<and> c \<noteq> CHR 0x0D) (hex_encode addr))"
    using assms(2) length_b64_groups unfolding b64_decode_def by blast
  also have "\<dots> \<le> 3 * length (hex_encode addr)" by (intro mult_le_mono2 length_filter_le)
  finally show ?thesis using assms(1) by simp
qed

lemma Balance_roundtrip [simp]: "DecodeBalance (Some (EncodeBalance v)) = Some v"
proof -
  have "unat v < 256 ^ 8" using unsigned_less [of v, where ?'a = nat] by simp
  then show ?thesis by (simp add: DecodeBalance_def EncodeBalance_def be_nat_be_bytes)
qed

lemma EncodeBalance_inject [simp]: "EncodeBalance v = EncodeBalance w \<longleftrightarrow> v = w"
  by (metis Balance_roundtrip option.inject)

section \<open>Properties\<close>

text \<open>
  C27. Printing a 20-byte or a 32-byte address and reading it back gives the address. The reader tries
  base64 first, and the forty hexadecimal digits of a 20-byte address are base64 digits too, but they
  never decode to 32 bytes.
\<close>

theorem address_roundtrip:
  assumes "ValidLength addr = None"
  shows "AddressToBytes (AddressToString addr) = Inr addr"
proof (cases "length addr = 32")
  case True
  then show ?thesis by (simp add: AddressToBytes_def AddressToString_def Address32ToBytes_def)
next
  case False
  with assms have l: "length addr = 20" by (simp add: ValidLength_def split: if_splits)
  have "length bs \<noteq> 32" if "b64_decode (hex_encode addr) = Some bs" for bs
    using b64_hex_length [OF l that] by simp
  with l show ?thesis
    by (auto simp: AddressToBytes_def AddressToString_def Address32ToBytes_def Address20ToBytes_def
        split: option.split)
qed

theorem address_roundtrip_witness:
  "ValidLength (replicate 20 0xAB) = None \<and>
   AddressToBytes (AddressToString (replicate 20 0xAB)) = Inr (replicate 20 0xAB)"
proof -
  have "ValidLength (replicate 20 0xAB) = None" by (simp add: ValidLength_def)
  with address_roundtrip [OF this] show ?thesis by blast
qed

end
