(* ===== verification/Role_Store.thy ===== *)
theory Role_Store
  imports Addr_Codec
begin

text \<open>
  Keys, signatures (\<^verbatim>\<open>src/core/crypto.go\<close>), the peer table (\<^verbatim>\<open>src/p2p/peer_store.go\<close>) and the role
  store (\<^verbatim>\<open>src/node/role_store.go\<close>): the validators, their stake quotas and the majority thresholds.
  The hash function, Ed25519, the derivation of a libp2p peer id and the parser of multiaddresses are
  arguments: the record \<open>crypto\<close> and the functions \<open>get_id\<close> and \<open>parse_addr\<close>. A panic and a fatal
  log message, which ends the process, are \<open>None\<close>.
\<close>

section \<open>Keys and signatures\<close>

record crypto =
  sha3 :: "bytes \<Rightarrow> bytes"
  ed_public :: "bytes \<Rightarrow> bytes"
  ed_sign :: "bytes \<Rightarrow> bytes \<Rightarrow> bytes"
  ed_verify :: "bytes \<Rightarrow> bytes \<Rightarrow> bytes \<Rightarrow> bool"

text \<open>The documented behaviour of Ed25519: a signature made with a key verifies under its public key.\<close>

definition crypto_laws :: "crypto \<Rightarrow> bool" where
  "crypto_laws c \<longleftrightarrow> (\<forall>k m. length k = 64 \<longrightarrow>
     length (ed_public c k) = 32 \<and> ed_verify c (ed_public c k) m (ed_sign c k m))"

datatype core_error =
    ErrInvalidKeySize | ErrInvalidTxHash | ErrNilTx | ErrInvalidBlockHash | ErrNilBlock | ErrNilQC
  | ErrNilSig | ErrNotEnoughSig | ErrDuplicateSig | ErrInvalidSig | ErrInvalidValidator | ErrNilVote

record public_key =
  pub_key :: bytes
  keyStr :: string

definition NewPublicKey :: "bytes \<Rightarrow> (core_error, public_key) result" where
  "NewPublicKey b =
     (if length b \<noteq> 32 then Inl ErrInvalidKeySize
      else Inr \<lparr>pub_key = b, keyStr = b64_encode b\<rparr>)"

definition PublicKey_Equal :: "public_key \<Rightarrow> public_key \<Rightarrow> bool" where
  "PublicKey_Equal pub x = (pub_key pub = pub_key x)"

record private_key =
  priv_key :: bytes
  priv_pubKey :: public_key

text \<open>The public key of an Ed25519 key has 32 bytes, so the inner error, which the code drops, never occurs.\<close>

definition NewPrivateKey :: "crypto \<Rightarrow> bytes \<Rightarrow> (core_error, private_key) result" where
  "NewPrivateKey c b =
     (if length b \<noteq> 64 then Inl ErrInvalidKeySize
      else case NewPublicKey (ed_public c b) of
             Inr p \<Rightarrow> Inr \<lparr>priv_key = b, priv_pubKey = p\<rparr>
           | Inl e \<Rightarrow> Inl e)"

record pb_signature =
  PubKey :: bytes
  sigValue :: bytes

record signature =
  sig_data :: pb_signature
  sig_pubKey :: public_key

definition Signer_Sign :: "crypto \<Rightarrow> private_key \<Rightarrow> bytes \<Rightarrow> signature" where
  "Signer_Sign c priv msg =
     \<lparr>sig_data = \<lparr>PubKey = pub_key (priv_pubKey priv), sigValue = ed_sign c (priv_key priv) msg\<rparr>,
      sig_pubKey = priv_pubKey priv\<rparr>"

definition newSignature :: "pb_signature option \<Rightarrow> (core_error, signature) result" where
  "newSignature data =
     (case data of None \<Rightarrow> Inl ErrNilSig
      | Some d \<Rightarrow> (case NewPublicKey (PubKey d) of Inl e \<Rightarrow> Inl e
                   | Inr p \<Rightarrow> Inr \<lparr>sig_data = d, sig_pubKey = p\<rparr>))"

definition Sig_Verify :: "crypto \<Rightarrow> signature \<Rightarrow> bytes \<Rightarrow> bool" where
  "Sig_Verify c sig msg = ed_verify c (pub_key (sig_pubKey sig)) msg (sigValue (sig_data sig))"

fun newSigList :: "pb_signature option list \<Rightarrow> (core_error, signature list) result" where
  "newSigList [] = Inr []"
| "newSigList (d # ds) =
     (case newSignature d of Inl e \<Rightarrow> Inl e
      | Inr sig \<Rightarrow> (case newSigList ds of Inl e \<Rightarrow> Inl e | Inr sigs \<Rightarrow> Inr (sig # sigs)))"

section \<open>The peer table\<close>

record peer =
  p_pubKey :: public_key
  p_pointAddr :: string
  p_topicAddr :: string

record peer_store =
  ps_peers :: "string \<Rightarrow> peer option"
  ps_idSet :: "bytes list"

definition NewPeerStore :: peer_store where
  "NewPeerStore = \<lparr>ps_peers = (\<lambda>_. None), ps_idSet = []\<rparr>"

definition PeerStore_Load :: "peer_store \<Rightarrow> public_key \<Rightarrow> peer option" where
  "PeerStore_Load s pubKey = ps_peers s (keyStr pubKey)"

definition PeerStore_Store :: "(bytes \<Rightarrow> bytes option) \<Rightarrow> peer_store \<Rightarrow> peer \<Rightarrow> peer_store option" where
  "PeerStore_Store get_id s p =
     (case get_id (pub_key (p_pubKey p)) of None \<Rightarrow> None
      | Some i \<Rightarrow> Some \<lparr>ps_peers = (ps_peers s)(keyStr (p_pubKey p) \<mapsto> p), ps_idSet = List.insert i (ps_idSet s)\<rparr>)"

definition PeerStore_Delete :: "(bytes \<Rightarrow> bytes option) \<Rightarrow> peer_store \<Rightarrow> public_key \<Rightarrow> peer_store option" where
  "PeerStore_Delete get_id s pubKey =
     (case get_id (pub_key pubKey) of None \<Rightarrow> None
      | Some i \<Rightarrow> Some \<lparr>ps_peers = (ps_peers s)(keyStr pubKey := None), ps_idSet = removeAll i (ps_idSet s)\<rparr>)"

definition PeerStore_LoadOrStore ::
    "(bytes \<Rightarrow> bytes option) \<Rightarrow> peer_store \<Rightarrow> peer \<Rightarrow> (peer_store \<times> peer \<times> bool) option" where
  "PeerStore_LoadOrStore get_id s p =
     (case ps_peers s (keyStr (p_pubKey p)) of
        Some actual \<Rightarrow> Some (s, actual, True)
      | None \<Rightarrow> (case get_id (pub_key (p_pubKey p)) of None \<Rightarrow> None
           | Some i \<Rightarrow> Some (\<lparr>ps_peers = (ps_peers s)(keyStr (p_pubKey p) \<mapsto> p),
                             ps_idSet = List.insert i (ps_idSet s)\<rparr>, p, False)))"

definition IsValidID :: "peer_store \<Rightarrow> bytes \<Rightarrow> bool" where
  "IsValidID s i = (i \<in> set (ps_idSet s))"

section \<open>The role store\<close>

record role_store =
  rsPeerStore :: peer_store
  validatorMap :: "string \<Rightarrow> nat option"
  validators :: "public_key list"
  stakeQuotas :: "u64 list"
  quotaCount :: u64
  windowSize :: int
  rsPeers :: "peer option list"
  graceHeight :: int

record genesis =
  gValidators :: "string list"
  gStakeQuotas :: "u64 list"
  gWindowSize :: int

record peer_file =
  pfPubKey :: bytes
  pfPointAddr :: string
  pfTopicAddr :: string

definition MinGraceHeight :: int where
  "MinGraceHeight = 4"

definition StringToPubKey :: "string \<Rightarrow> public_key option" where
  "StringToPubKey v =
     (case NewPublicKey (case Address32ToBytes v of None \<Rightarrow> [] | Some k \<Rightarrow> k) of
        Inl e \<Rightarrow> None | Inr p \<Rightarrow> Some p)"

text \<open>\<^verbatim>\<open>math.Ceil(float64(2n+1)/3)\<close>, exact for every count a double represents exactly.\<close>

definition MajorityCount :: "nat \<Rightarrow> nat" where
  "MajorityCount validatorCount = (2 * validatorCount + 1 + 2) div 3"

fun genesis_loop :: "u64 list \<Rightarrow> nat \<Rightarrow> string list \<Rightarrow> role_store \<Rightarrow> role_store option" where
  "genesis_loop quotas i [] store = Some store"
| "genesis_loop quotas i (v # vs) store =
     (case StringToPubKey v of None \<Rightarrow> None
      | Some p \<Rightarrow>
          if length quotas \<le> i then None
          else genesis_loop quotas (Suc i) vs
                 (store\<lparr>validators := validators store @ [p],
                        validatorMap := (validatorMap store)(v \<mapsto> i),
                        quotaCount := quotaCount store + quotas ! i\<rparr>))"

text \<open>Slot \<open>i\<close> of the peers is set for line \<open>i\<close> of the peers file; the other slots stay nil.\<close>

fun peers_loop :: "(string \<Rightarrow> (string, string) result) \<Rightarrow> nat \<Rightarrow> peer_file list \<Rightarrow> role_store
    \<Rightarrow> role_store option" where
  "peers_loop parse_addr i [] store = Some store"
| "peers_loop parse_addr i (v # vs) store =
     (case (NewPublicKey (pfPubKey v), parse_addr (pfPointAddr v), parse_addr (pfTopicAddr v)) of
        (Inr pk, Inr pa, Inr ta) \<Rightarrow>
          if length (rsPeers store) \<le> i then None
          else peers_loop parse_addr (Suc i) vs
            (store\<lparr>rsPeers := (rsPeers store)[i := Some \<lparr>p_pubKey = pk, p_pointAddr = pa, p_topicAddr = ta\<rparr>]\<rparr>)
      | _ \<Rightarrow> None)"

definition NewRoleStore ::
    "(string \<Rightarrow> (string, string) result) \<Rightarrow> genesis \<Rightarrow> peer_file list \<Rightarrow> role_store option" where
  "NewRoleStore parse_addr g peers =
     (case genesis_loop (gStakeQuotas g) 0 (gValidators g)
        \<lparr>rsPeerStore = NewPeerStore, validatorMap = (\<lambda>_. None), validators = [],
         stakeQuotas = gStakeQuotas g, quotaCount = 0, windowSize = gWindowSize g,
         rsPeers = replicate (length (gValidators g)) None, graceHeight = 0\<rparr> of
        None \<Rightarrow> None
      | Some store \<Rightarrow> peers_loop parse_addr 0 peers store)"

definition ValidatorCount :: "role_store \<Rightarrow> nat" where
  "ValidatorCount store = length (validators store)"

definition MajorityValidatorCount :: "role_store \<Rightarrow> nat" where
  "MajorityValidatorCount store = MajorityCount (length (validators store))"

definition MajorityQuotaCount :: "role_store \<Rightarrow> u64" where
  "MajorityQuotaCount store = (quotaCount store + 1) div 2"

definition IsValidator :: "role_store \<Rightarrow> string \<Rightarrow> bool" where
  "IsValidator store k = (if k = [] then False else validatorMap store k \<noteq> None)"

definition SetWindowSize :: "int \<Rightarrow> role_store \<Rightarrow> role_store" where
  "SetWindowSize sz store = store\<lparr>windowSize := sz\<rparr>"

definition GetValidator :: "role_store \<Rightarrow> int \<Rightarrow> public_key option" where
  "GetValidator store idx =
     (if int (length (validators store)) \<le> idx \<or> idx < 0 then None
      else Some (validators store ! nat idx))"

definition GetValidatorIndex :: "role_store \<Rightarrow> string \<Rightarrow> nat" where
  "GetValidatorIndex store k =
     (if k = [] then 0 else case validatorMap store k of None \<Rightarrow> 0 | Some i \<Rightarrow> i)"

definition GetValidatorQuota :: "role_store \<Rightarrow> string \<Rightarrow> u64 option" where
  "GetValidatorQuota store k =
     (if k = [] then Some 0
      else let i = GetValidatorIndex store k
           in if i < length (stakeQuotas store) then Some (stakeQuotas store ! i) else None)"

fun GetValidatorAddr_loop :: "string \<Rightarrow> peer option list \<Rightarrow> (string \<times> string) option" where
  "GetValidatorAddr_loop k [] = Some ([], [])"
| "GetValidatorAddr_loop k (None # vs) = None"
| "GetValidatorAddr_loop k (Some v # vs) =
     (if keyStr (p_pubKey v) = k then Some (p_pointAddr v, p_topicAddr v) else GetValidatorAddr_loop k vs)"

definition GetValidatorAddr :: "role_store \<Rightarrow> string \<Rightarrow> (string \<times> string) option" where
  "GetValidatorAddr store k = GetValidatorAddr_loop k (rsPeers store)"

fun find_index_from :: "('a \<Rightarrow> bool) \<Rightarrow> nat \<Rightarrow> 'a list \<Rightarrow> nat option" where
  "find_index_from P i [] = None"
| "find_index_from P i (x # xs) = (if P x then Some i else find_index_from P (Suc i) xs)"

definition remove_at :: "nat \<Rightarrow> 'a list \<Rightarrow> 'a list" where
  "remove_at i xs = take i xs @ drop (Suc i) xs"

text \<open>The loop over the peers: it dereferences each slot until it finds the key.\<close>

fun delete_peer :: "(bytes \<Rightarrow> bytes option) \<Rightarrow> string \<Rightarrow> nat \<Rightarrow> peer option list \<Rightarrow> role_store
    \<Rightarrow> role_store option" where
  "delete_peer get_id k i [] store = Some store"
| "delete_peer get_id k i (None # vs) store = None"
| "delete_peer get_id k i (Some v # vs) store =
     (if keyStr (p_pubKey v) = k then
        (case PeerStore_Delete get_id (rsPeerStore store) (p_pubKey v) of None \<Rightarrow> None
         | Some ps \<Rightarrow> Some (store\<lparr>rsPeerStore := ps, rsPeers := remove_at i (rsPeers store)\<rparr>))
      else delete_peer get_id k (Suc i) vs store)"

definition DeleteValidator :: "(bytes \<Rightarrow> bytes option) \<Rightarrow> role_store \<Rightarrow> string
    \<Rightarrow> (role_store \<times> string option) option" where
  "DeleteValidator get_id store k =
     (if validatorMap store k = None then Some (store, Some ''validator not found'')
      else
        let store' =
              (case find_index_from (\<lambda>v. keyStr v = k) 0 (validators store) of
                 None \<Rightarrow> Some store
               | Some i \<Rightarrow>
                   if length (stakeQuotas store) \<le> i then None
                   else Some (store\<lparr>quotaCount := quotaCount store - stakeQuotas store ! i,
                                   validators := remove_at i (validators store),
                                   stakeQuotas := remove_at i (stakeQuotas store),
                                   validatorMap := (validatorMap store)(k := None)\<rparr>))
        in case store' of None \<Rightarrow> None
           | Some store \<Rightarrow> map_option (\<lambda>store. (store, None)) (delete_peer get_id k 0 (rsPeers store) store))"

definition AddValidator :: "(bytes \<Rightarrow> bytes option) \<Rightarrow> (string \<Rightarrow> (string, string) result) \<Rightarrow> role_store
    \<Rightarrow> string \<Rightarrow> string \<Rightarrow> string \<Rightarrow> u64 \<Rightarrow> (role_store \<times> string option) option" where
  "AddValidator get_id parse_addr store k point topic quota =
     (if validatorMap store k \<noteq> None then Some (store, Some ''validator is added repeatedly'')
      else case StringToPubKey k of None \<Rightarrow> None
      | Some pk \<Rightarrow>
         let store = store\<lparr>validatorMap := (validatorMap store)(k \<mapsto> length (validators store)),
                           validators := validators store @ [pk],
                           stakeQuotas := stakeQuotas store @ [quota],
                           quotaCount := quotaCount store + quota\<rparr>
         in (case parse_addr point of Inl e \<Rightarrow> Some (store, Some e)
             | Inr pa \<Rightarrow>
                (case parse_addr topic of Inl e \<Rightarrow> Some (store, Some e)
                 | Inr ta \<Rightarrow>
                     let p = \<lparr>p_pubKey = pk, p_pointAddr = pa, p_topicAddr = ta\<rparr>
                     in (case PeerStore_Store get_id (rsPeerStore store) p of None \<Rightarrow> None
                         | Some ps \<Rightarrow> Some (store\<lparr>rsPeers := rsPeers store @ [Some p], rsPeerStore := ps,
                                                graceHeight := MinGraceHeight\<rparr>, None)))))"

definition DecAndGetGrace :: "role_store \<Rightarrow> role_store \<times> int" where
  "DecAndGetGrace store =
     (let store = (if graceHeight store > 0 then store\<lparr>graceHeight := graceHeight store - 1\<rparr> else store)
      in (store, graceHeight store))"

end
