(* ===== verification/Core_Types.thy ===== *)
theory Core_Types
  imports Role_Store
begin

text \<open>
  Transactions, votes, quorum certificates and blocks (\<^verbatim>\<open>src/core/transaction.go\<close>,
  \<^verbatim>\<open>src/core/vote.go\<close>, \<^verbatim>\<open>src/core/quorum_cert.go\<close>, \<^verbatim>\<open>src/core/block.go\<close>), with the protobuf
  messages they wrap. A pointer that the code compares with nil is an option. The signed 64-bit fields
  are kept as their bit pattern, since they are only written to the hash. A block and a certificate
  always have their data, which both constructors set, so their nil check does not occur here. An
  index out of range is \<open>None\<close> in the outer option of \<^verbatim>\<open>Validate\<close>.
\<close>

section \<open>Transactions\<close>

record pb_transaction =
  txHash :: bytes
  txSignature :: bytes
  txNonce :: u64
  txSender :: bytes
  txCodeAddr :: bytes
  txInput :: bytes
  txExpiry :: u64

record transaction =
  tx_data :: pb_transaction
  tx_sender :: "public_key option"

definition NewTransaction :: transaction where
  "NewTransaction =
     \<lparr>tx_data = \<lparr>txHash = [], txSignature = [], txNonce = 0, txSender = [], txCodeAddr = [],
                 txInput = [], txExpiry = 0\<rparr>,
      tx_sender = None\<rparr>"

definition Tx_Sum :: "crypto \<Rightarrow> pb_transaction \<Rightarrow> bytes" where
  "Tx_Sum c d =
     sha3 c (be_bytes 8 (unat (txNonce d)) @ txSender d @ txCodeAddr d @ txInput d
             @ be_bytes 8 (unat (txExpiry d)))"

definition Tx_Validate :: "crypto \<Rightarrow> pb_transaction option \<Rightarrow> core_error option" where
  "Tx_Validate c data =
     (case data of None \<Rightarrow> Some ErrNilTx
      | Some d \<Rightarrow>
          if Tx_Sum c d \<noteq> txHash d then Some ErrInvalidTxHash
          else case newSignature (Some \<lparr>PubKey = txSender d, sigValue = txSignature d\<rparr>) of
                 Inl e \<Rightarrow> Some e
               | Inr sig \<Rightarrow> if \<not> Sig_Verify c sig (txHash d) then Some ErrInvalidSig else None)"

definition Tx_setData :: "pb_transaction \<Rightarrow> transaction \<times> core_error option" where
  "Tx_setData d =
     (case NewPublicKey (txSender d) of
        Inr p \<Rightarrow> (\<lparr>tx_data = d, tx_sender = Some p\<rparr>, None)
      | Inl e \<Rightarrow> (\<lparr>tx_data = d, tx_sender = None\<rparr>, Some e))"

definition Tx_Sign :: "crypto \<Rightarrow> private_key \<Rightarrow> transaction \<Rightarrow> transaction" where
  "Tx_Sign c signer tx =
     (let d = (tx_data tx)\<lparr>txSender := pub_key (priv_pubKey signer)\<rparr>;
          d = d\<lparr>txHash := Tx_Sum c d\<rparr>;
          d = d\<lparr>txSignature := sigValue (sig_data (Signer_Sign c signer (txHash d)))\<rparr>
      in \<lparr>tx_data = d, tx_sender = Some (priv_pubKey signer)\<rparr>)"

record tx_commit =
  tcHash :: bytes
  tcBlockHash :: bytes
  tcBlockHeight :: u64
  tcError :: string

record state_change =
  scKey :: bytes
  scValue :: "bytes option"
  scPrevValue :: "bytes option"
  scTreeIndex :: "bytes option"
  scPrevTreeIndex :: "bytes option"

record block_commit =
  bcHash :: bytes
  bcOldBlockTxs :: "bytes list"
  bcStateChanges :: "state_change list"
  bcLeafCount :: bytes
  bcMerkleRoot :: "bytes option"

section \<open>Little-endian suffixes\<close>

text \<open>Every value is written at offset 0 of the buffer, as in the code.\<close>

definition appendUint32 :: "bytes \<Rightarrow> u32 list \<Rightarrow> bytes" where
  "appendUint32 hash data =
     hash @ fold (\<lambda>d buf. le_bytes 4 (unat d) @ drop 4 buf) data (replicate (4 * length data) 0)"

definition appendUint64 :: "bytes \<Rightarrow> u64 list \<Rightarrow> bytes" where
  "appendUint64 hash data =
     hash @ fold (\<lambda>d buf. le_bytes 8 (unat d) @ drop 8 buf) data (replicate (8 * length data) 0)"

section \<open>Votes\<close>

record pb_vote =
  vView :: u32
  vQuota :: u64
  vBlockHash :: bytes
  vSignature :: "pb_signature option"

record vote =
  vote_data :: pb_vote
  voter :: signature

definition Vote_Validate :: "crypto \<Rightarrow> role_store \<Rightarrow> pb_vote option \<Rightarrow> core_error option" where
  "Vote_Validate c rs data =
     (case data of None \<Rightarrow> Some ErrNilVote
      | Some d \<Rightarrow>
         (case newSignature (vSignature d) of Inl e \<Rightarrow> Some e
          | Inr sig \<Rightarrow>
              if \<not> IsValidator rs (keyStr (sig_pubKey sig)) then Some ErrInvalidValidator
              else if \<not> Sig_Verify c sig (appendUint64 (appendUint32 (vBlockHash d) [vView d]) [vQuota d])
                then Some ErrInvalidSig
              else None))"

definition Vote_setData :: "pb_vote \<Rightarrow> (core_error, vote) result" where
  "Vote_setData d =
     (case newSignature (vSignature d) of Inl e \<Rightarrow> Inl e
      | Inr sig \<Rightarrow> Inr \<lparr>vote_data = d, voter = sig\<rparr>)"

section \<open>Quorum certificates\<close>

record pb_quorum_cert =
  qcView :: u32
  qcBlockHash :: "bytes option"
  qcQuotas :: "u64 list"
  qcSignatures :: "pb_signature option list"
  qcSignature :: "pb_signature option"

record quorum_cert =
  qc_data :: pb_quorum_cert
  qc_quota :: u64
  qc_sigs :: "signature list"
  qc_signature :: "signature option"

definition NewQuorumCert :: quorum_cert where
  "NewQuorumCert =
     \<lparr>qc_data = \<lparr>qcView = 0, qcBlockHash = None, qcQuotas = [], qcSignatures = [], qcSignature = None\<rparr>,
      qc_quota = 0, qc_sigs = [], qc_signature = None\<rparr>"

definition qc_hash :: "pb_quorum_cert \<Rightarrow> bytes" where
  "qc_hash d = (case qcBlockHash d of None \<Rightarrow> [] | Some h \<Rightarrow> h)"

text \<open>The loop of \<^verbatim>\<open>Validate\<close> over the signatures, from index \<open>i\<close>, with the keys seen so far.\<close>

fun QC_loop :: "crypto \<Rightarrow> role_store \<Rightarrow> pb_quorum_cert \<Rightarrow> nat \<Rightarrow> string list \<Rightarrow> signature list
    \<Rightarrow> core_error option option" where
  "QC_loop c rs d i dmap [] = Some None"
| "QC_loop c rs d i dmap (sig # sigs) =
     (let k = keyStr (sig_pubKey sig)
      in if k \<in> set dmap then Some (Some ErrDuplicateSig)
         else if \<not> IsValidator rs k then Some (Some ErrInvalidValidator)
         else if length (qcQuotas d) \<le> i then None
         else if \<not> Sig_Verify c sig (appendUint64 (appendUint32 (qc_hash d) [qcView d]) [qcQuotas d ! i])
           then Some (Some ErrInvalidSig)
         else QC_loop c rs d (Suc i) (k # dmap) sigs)"

definition QC_Validate :: "crypto \<Rightarrow> role_store \<Rightarrow> quorum_cert \<Rightarrow> (role_store \<times> core_error option) option" where
  "QC_Validate c rs qc =
     (let (rs, grace) = DecAndGetGrace rs; d = qc_data qc
      in if (if grace > 0 then int (length (qc_sigs qc)) < int (MajorityValidatorCount rs) - 1
             else length (qc_sigs qc) < MajorityValidatorCount rs)
         then Some (rs, Some ErrNotEnoughSig)
         else case QC_loop c rs d 0 [] (qc_sigs qc) of
                None \<Rightarrow> None
              | Some (Some e) \<Rightarrow> Some (rs, Some e)
              | Some None \<Rightarrow>
                 (case newSignature (qcSignature d) of Inl e \<Rightarrow> Some (rs, Some e)
                  | Inr sig \<Rightarrow>
                      if \<not> IsValidator rs (keyStr (sig_pubKey sig)) then Some (rs, Some ErrInvalidValidator)
                      else if \<not> Sig_Verify c sig (appendUint32 (qc_hash d) [qcView d])
                        then Some (rs, Some ErrInvalidSig)
                      else Some (rs, None)))"

definition QC_setData :: "pb_quorum_cert \<Rightarrow> (core_error, quorum_cert) result" where
  "QC_setData d =
     (case newSigList (qcSignatures d) of Inl e \<Rightarrow> Inl e
      | Inr sigs \<Rightarrow>
         (case newSignature (qcSignature d) of Inl e \<Rightarrow> Inl e
          | Inr sig \<Rightarrow> Inr \<lparr>qc_data = d, qc_quota = sum_list (qcQuotas d), qc_sigs = sigs,
                            qc_signature = Some sig\<rparr>))"

text \<open>One turn of the loop of \<^verbatim>\<open>Build\<close>; the signature of a vote is there since \<^verbatim>\<open>setData\<close> refuses nil.\<close>

definition Build_step :: "vote \<Rightarrow> quorum_cert \<Rightarrow> quorum_cert" where
  "Build_step v qc =
     (let d = qc_data qc; vd = vote_data v;
          d = (if qcBlockHash d = None then d\<lparr>qcView := vView vd, qcBlockHash := Some (vBlockHash vd)\<rparr> else d);
          d = d\<lparr>qcQuotas := qcQuotas d @ [vQuota vd], qcSignatures := qcSignatures d @ [vSignature vd]\<rparr>
      in qc\<lparr>qc_data := d, qc_quota := qc_quota qc + vQuota vd,
           qc_sigs := qc_sigs qc @
             [\<lparr>sig_data = (case vSignature vd of Some s \<Rightarrow> s | None \<Rightarrow> \<lparr>PubKey = [], sigValue = []\<rparr>),
               sig_pubKey = sig_pubKey (voter v)\<rparr>]\<rparr>)"

definition QC_Build :: "crypto \<Rightarrow> private_key \<Rightarrow> vote list \<Rightarrow> quorum_cert \<Rightarrow> quorum_cert" where
  "QC_Build c signer votes qc =
     (let qc = fold Build_step votes
            (qc\<lparr>qc_data := (qc_data qc)\<lparr>qcQuotas := [], qcSignatures := []\<rparr>, qc_quota := 0, qc_sigs := []\<rparr>);
          sig = Signer_Sign c signer (appendUint32 (qc_hash (qc_data qc)) [qcView (qc_data qc)])
      in qc\<lparr>qc_signature := Some sig, qc_data := (qc_data qc)\<lparr>qcSignature := Some (sig_data sig)\<rparr>\<rparr>)"

fun FindVote_loop :: "string \<Rightarrow> u64 list \<Rightarrow> nat \<Rightarrow> signature list \<Rightarrow> u64 option" where
  "FindVote_loop dst quotas i [] = Some 0"
| "FindVote_loop dst quotas i (v # vs) =
     (if keyStr (sig_pubKey v) = dst then (if i < length quotas then Some (quotas ! i) else None)
      else FindVote_loop dst quotas (Suc i) vs)"

definition FindVote :: "private_key \<Rightarrow> quorum_cert \<Rightarrow> u64 option" where
  "FindVote signer qc = FindVote_loop (keyStr (priv_pubKey signer)) (qcQuotas (qc_data qc)) 0 (qc_sigs qc)"

section \<open>Blocks\<close>

record pb_block =
  blkHash :: bytes
  blkView :: u32
  blkHeight :: u64
  blkParentHash :: bytes
  blkExecHeight :: u64
  blkMerkleRoot :: bytes
  blkTimestamp :: u64
  blkTransactions :: "bytes list"
  blkQuorumCert :: "pb_quorum_cert option"
  blkSignature :: "pb_signature option"

record block =
  blk_data :: pb_block
  blk_qc :: "quorum_cert option"
  blk_sig :: "signature option"

definition Block_Sum :: "crypto \<Rightarrow> pb_block \<Rightarrow> bytes" where
  "Block_Sum c d =
     sha3 c (be_bytes 4 (unat (blkView d)) @ be_bytes 8 (unat (blkHeight d)) @ blkParentHash d
        @ be_bytes 8 (unat (blkExecHeight d)) @ blkMerkleRoot d @ be_bytes 8 (unat (blkTimestamp d))
        @ concat (blkTransactions d)
        @ (case blkQuorumCert d of None \<Rightarrow> []
           | Some q \<Rightarrow> be_bytes 4 (unat (qcView q)) @ qc_hash q))"

definition Block_Validate :: "crypto \<Rightarrow> role_store \<Rightarrow> block \<Rightarrow> (role_store \<times> core_error option) option" where
  "Block_Validate c rs blk =
     (let d = blk_data blk
      in if Block_Sum c d \<noteq> blkHash d then Some (rs, Some ErrInvalidBlockHash)
         else case (case blk_qc blk of None \<Rightarrow> Some (rs, None) | Some qc \<Rightarrow> QC_Validate c rs qc) of
                None \<Rightarrow> None
              | Some (rs, Some e) \<Rightarrow> Some (rs, Some e)
              | Some (rs, None) \<Rightarrow>
                 (case newSignature (blkSignature d) of Inl e \<Rightarrow> Some (rs, Some e)
                  | Inr sig \<Rightarrow>
                      if \<not> IsValidator rs (keyStr (sig_pubKey sig)) then Some (rs, Some ErrInvalidValidator)
                      else if \<not> Sig_Verify c sig (blkHash d) then Some (rs, Some ErrInvalidSig)
                      else Some (rs, None)))"

definition Block_Vote :: "crypto \<Rightarrow> private_key \<Rightarrow> u64 \<Rightarrow> block \<Rightarrow> vote" where
  "Block_Vote c signer quota blk =
     (let d = blk_data blk;
          hash = appendUint64 (appendUint32 (blkHash d) [blkView d]) [quota];
          sig = Signer_Sign c signer hash
      in \<lparr>vote_data = \<lparr>vView = blkView d, vQuota = quota, vBlockHash = blkHash d,
                       vSignature = Some (sig_data sig)\<rparr>,
          voter = sig\<rparr>)"

definition Block_setData :: "pb_block \<Rightarrow> (core_error, block) result" where
  "Block_setData d =
     (case (case blkQuorumCert d of None \<Rightarrow> Inr None
            | Some q \<Rightarrow> (case QC_setData q of Inl e \<Rightarrow> Inl e | Inr qc \<Rightarrow> Inr (Some qc))) of
        Inl e \<Rightarrow> Inl e
      | Inr qc \<Rightarrow> (case newSignature (blkSignature d) of Inl e \<Rightarrow> Inl e
                   | Inr sig \<Rightarrow> Inr \<lparr>blk_data = d, blk_qc = qc, blk_sig = Some sig\<rparr>))"

definition SetQuorumCert :: "quorum_cert \<Rightarrow> block \<Rightarrow> block" where
  "SetQuorumCert qc blk = blk\<lparr>blk_qc := Some qc, blk_data := (blk_data blk)\<lparr>blkQuorumCert := Some (qc_data qc)\<rparr>\<rparr>"

definition Block_Sign :: "crypto \<Rightarrow> private_key \<Rightarrow> block \<Rightarrow> block" where
  "Block_Sign c signer blk =
     (let d = (blk_data blk)\<lparr>blkHash := Block_Sum c (blk_data blk)\<rparr>;
          sig = Signer_Sign c signer (blkHash d)
      in blk\<lparr>blk_data := d\<lparr>blkSignature := Some (sig_data sig)\<rparr>, blk_sig := Some sig\<rparr>)"

end
