(* ===== verification/Core_Props.thy ===== *)
theory Core_Props
  imports Core_Types
begin

text \<open>
  Properties of the role store and of the validation of votes, certificates, blocks and transactions.
  The first part has the invariant of the role store and the arithmetic of its majority; the second
  shows what an accepted certificate proves, and that the constructors produce accepted objects.
\<close>

section \<open>The majority\<close>

lemma MajorityCount_eq: "0 < n \<Longrightarrow> MajorityCount n = n - (n - 1) div 3"
  by (simp add: MajorityCount_def)

lemma MajorityCount_overlap: "0 < n \<Longrightarrow> n + (n - 1) div 3 + 1 \<le> 2 * MajorityCount n"
  by (simp add: MajorityCount_def)

lemma majority_intersect:
  assumes "finite V" and "A \<subseteq> V" and "B \<subseteq> V" and "0 < card V"
    and "MajorityCount (card V) \<le> card A" and "MajorityCount (card V) \<le> card B"
  shows "(card V - 1) div 3 + 1 \<le> card (A \<inter> B)"
proof -
  have fin: "finite A" "finite B" using assms(1-3) finite_subset by auto
  have "card (A \<union> B) \<le> card V" using assms(1-3) by (intro card_mono) auto
  moreover have "card A + card B = card (A \<union> B) + card (A \<inter> B)"
    by (rule card_Un_Int [OF fin])
  ultimately show ?thesis using MajorityCount_overlap [OF assms(4)] assms(5,6) by linarith
qed

section \<open>The invariant of the role store\<close>

definition wf_roles :: "role_store \<Rightarrow> bool" where
  "wf_roles store \<longleftrightarrow>
     length (stakeQuotas store) = length (validators store) \<and>
     quotaCount store = sum_list (stakeQuotas store) \<and>
     (\<forall>v \<in> set (validators store). length (pub_key v) = 32 \<and> keyStr v = b64_encode (pub_key v)) \<and>
     (\<forall>k i. validatorMap store k = Some i \<longleftrightarrow> i < length (validators store) \<and> keyStr (validators store ! i) = k)"

definition validator_keys :: "role_store \<Rightarrow> string set" where
  "validator_keys store = keyStr ` set (validators store)"

lemma wf_roles_distinct: "wf_roles store \<Longrightarrow> distinct (map keyStr (validators store))"
  unfolding wf_roles_def distinct_conv_nth by (metis length_map nth_map option.inject)

lemma card_validator_keys: "wf_roles store \<Longrightarrow> card (validator_keys store) = length (validators store)"
  using distinct_card [OF wf_roles_distinct, of store] by (simp add: validator_keys_def)

lemma IsValidator_iff:
  assumes "wf_roles store"
  shows "IsValidator store k \<longleftrightarrow> k \<in> validator_keys store"
proof -
  have "validatorMap store k \<noteq> None \<longleftrightarrow> k \<in> validator_keys store"
    using assms unfolding wf_roles_def validator_keys_def by (fastforce simp: in_set_conv_nth)
  moreover have "[] \<notin> validator_keys store"
  proof
    assume "[] \<in> validator_keys store"
    then obtain v where v: "v \<in> set (validators store)" "keyStr v = []" by (auto simp: validator_keys_def)
    then have "length (pub_key v) = 32" "b64_encode (pub_key v) = []"
      using assms unfolding wf_roles_def by (blast, metis)
    then show False by simp
  qed
  ultimately show ?thesis by (auto simp: IsValidator_def)
qed

lemma DecAndGetGrace_sel [simp]:
  "validators (fst (DecAndGetGrace store)) = validators store"
  "validatorMap (fst (DecAndGetGrace store)) = validatorMap store"
  "stakeQuotas (fst (DecAndGetGrace store)) = stakeQuotas store"
  "quotaCount (fst (DecAndGetGrace store)) = quotaCount store"
  by (simp_all add: DecAndGetGrace_def Let_def)

lemma wf_roles_grace [simp]: "wf_roles (fst (DecAndGetGrace store)) = wf_roles store"
  by (simp add: wf_roles_def)

lemma IsValidator_grace [simp]: "IsValidator (fst (DecAndGetGrace store)) = IsValidator store"
  by (simp add: IsValidator_def fun_eq_iff)

lemma StringToPubKey_addr:
  "length addr = 32 \<Longrightarrow> StringToPubKey (AddressToString addr) = Some \<lparr>pub_key = addr, keyStr = AddressToString addr\<rparr>"
  by (simp add: StringToPubKey_def AddressToString_def Address32ToBytes_def NewPublicKey_def)

lemma find_index_from_iff:
  "find_index_from P i xs = Some j \<longleftrightarrow>
     i \<le> j \<and> j - i < length xs \<and> P (xs ! (j - i)) \<and> (\<forall>m < j - i. \<not> P (xs ! m))"
proof (induction xs arbitrary: i)
  case (Cons x xs)
  show ?case
  proof (cases "P x")
    case True
    then show ?thesis by (auto simp: nth_Cons' less_Suc_eq_0_disj dest: spec [of _ 0])
  next
    case False
    have "find_index_from P i (x # xs) = Some j \<longleftrightarrow>
        Suc i \<le> j \<and> j - Suc i < length xs \<and> P (xs ! (j - Suc i)) \<and> (\<forall>m < j - Suc i. \<not> P (xs ! m))"
      using False Cons.IH by simp
    also have "\<dots> \<longleftrightarrow> i \<le> j \<and> j - i < length (x # xs) \<and> P ((x # xs) ! (j - i)) \<and>
        (\<forall>m < j - i. \<not> P ((x # xs) ! m))"
    proof (cases "j \<le> i")
      case True
      with False show ?thesis by auto
    next
      case gt: False
      then obtain d where d: "j - i = Suc d" "j - Suc i = d" by (metis Suc_diff_Suc not_le)
      with gt False show ?thesis by (auto simp: All_less_Suc2)
    qed
    finally show ?thesis .
  qed
qed simp

lemma IsValidator_Nil [simp]: "\<not> IsValidator store []"
  by (simp add: IsValidator_def)

section \<open>Signatures\<close>

lemma NewPublicKey_Inr: "NewPublicKey b = Inr p \<longleftrightarrow> length b = 32 \<and> p = \<lparr>pub_key = b, keyStr = b64_encode b\<rparr>"
  by (auto simp: NewPublicKey_def)

lemma NewPrivateKey_Inr:
  "NewPrivateKey c b = Inr priv \<Longrightarrow> length b = 64 \<and> priv_key priv = b \<and>
     NewPublicKey (ed_public c b) = Inr (priv_pubKey priv)"
  by (auto simp: NewPrivateKey_def split: if_splits sum.splits)

lemma newSignature_Inr:
  "newSignature d = Inr sig \<longleftrightarrow> (\<exists>x. d = Some x \<and> sig_data sig = x \<and> NewPublicKey (PubKey x) = Inr (sig_pubKey sig))"
  by (cases sig) (auto simp: newSignature_def split: option.splits sum.splits)

lemma sign_newSignature:
  assumes "NewPrivateKey c b = Inr priv"
  shows "newSignature (Some (sig_data (Signer_Sign c priv msg))) = Inr (Signer_Sign c priv msg)"
proof -
  have "NewPublicKey (pub_key (priv_pubKey priv)) = Inr (priv_pubKey priv)"
    using NewPrivateKey_Inr [OF assms] by (simp add: NewPublicKey_Inr)
  then show ?thesis by (simp add: newSignature_def Signer_Sign_def)
qed

lemma sign_verify:
  assumes "NewPrivateKey c b = Inr priv" and "crypto_laws c"
  shows "Sig_Verify c (Signer_Sign c priv msg) msg"
  using NewPrivateKey_Inr [OF assms(1)] assms(2)
  by (auto simp: crypto_laws_def Sig_Verify_def Signer_Sign_def NewPublicKey_Inr)

lemma sign_pubKey [simp]: "sig_pubKey (Signer_Sign c priv msg) = priv_pubKey priv"
  by (simp add: Signer_Sign_def)

section \<open>What an accepted certificate proves\<close>

definition vote_msg :: "pb_quorum_cert \<Rightarrow> u64 \<Rightarrow> bytes" where
  "vote_msg d q = appendUint64 (appendUint32 (qc_hash d) [qcView d]) [q]"

lemma QC_loop_ok:
  "QC_loop c rs d i dmap sigs = Some None \<longleftrightarrow>
     distinct (map (\<lambda>s. keyStr (sig_pubKey s)) sigs) \<and>
     (\<forall>s \<in> set sigs. keyStr (sig_pubKey s) \<notin> set dmap \<and> IsValidator rs (keyStr (sig_pubKey s))) \<and>
     (\<forall>j < length sigs. i + j < length (qcQuotas d) \<and> Sig_Verify c (sigs ! j) (vote_msg d (qcQuotas d ! (i + j))))"
proof (induction sigs arbitrary: i dmap)
  case (Cons s sigs)
  have split: "(\<forall>j < length (s # sigs). P j) \<longleftrightarrow> P 0 \<and> (\<forall>j < length sigs. P (Suc j))" for P
    by (simp add: All_less_Suc2)
  show ?case
    unfolding split by (auto simp: Let_def Cons vote_msg_def not_le) (metis image_eqI)
qed simp

text \<open>The signers of a certificate, as the key strings of its signatures.\<close>

definition qc_signers :: "quorum_cert \<Rightarrow> string set" where
  "qc_signers qc = (\<lambda>s. keyStr (sig_pubKey s)) ` set (qc_sigs qc)"

lemma QC_Validate_ok:
  "QC_Validate c rs qc = Some (rs', None) \<longleftrightarrow>
     rs' = fst (DecAndGetGrace rs) \<and>
     (if snd (DecAndGetGrace rs) > 0 then int (MajorityValidatorCount rs) - 1 \<le> int (length (qc_sigs qc))
      else MajorityValidatorCount rs \<le> length (qc_sigs qc)) \<and>
     QC_loop c (fst (DecAndGetGrace rs)) (qc_data qc) 0 [] (qc_sigs qc) = Some None \<and>
     (\<exists>sig. newSignature (qcSignature (qc_data qc)) = Inr sig \<and> IsValidator rs (keyStr (sig_pubKey sig)) \<and>
        Sig_Verify c sig (appendUint32 (qc_hash (qc_data qc)) [qcView (qc_data qc)]))"
  by (auto simp: QC_Validate_def Let_def case_prod_unfold MajorityValidatorCount_def
      split: if_splits option.splits sum.splits)

lemma QC_loop_cong: "IsValidator rs = IsValidator rs' \<Longrightarrow> QC_loop c rs d i dmap sigs = QC_loop c rs' d i dmap sigs"
  by (induction sigs arbitrary: i dmap) (simp_all add: Let_def)

lemma accepted_signers:
  assumes "QC_Validate c rs qc = Some (rs', None)" and "wf_roles rs"
  shows "qc_signers qc \<subseteq> validator_keys rs" "card (qc_signers qc) = length (qc_sigs qc)"
    "graceHeight rs \<le> 1 \<Longrightarrow> MajorityCount (card (validator_keys rs)) \<le> card (qc_signers qc)"
proof -
  note ok = assms(1) [unfolded QC_Validate_ok QC_loop_ok IsValidator_grace]
  show "qc_signers qc \<subseteq> validator_keys rs"
    using ok IsValidator_iff [OF assms(2)] by (auto simp: qc_signers_def)
  have "distinct (map (\<lambda>s. keyStr (sig_pubKey s)) (qc_sigs qc))" using ok by blast
  from distinct_card [OF this] show card: "card (qc_signers qc) = length (qc_sigs qc)"
    by (simp add: qc_signers_def)
  assume "graceHeight rs \<le> 1"
  then have "\<not> snd (DecAndGetGrace rs) > 0" by (simp add: DecAndGetGrace_def Let_def)
  with ok card show "MajorityCount (card (validator_keys rs)) \<le> card (qc_signers qc)"
    by (simp add: MajorityValidatorCount_def card_validator_keys [OF assms(2)])
qed

section \<open>Building a certificate\<close>

lemma Vote_setData_Inr:
  "Vote_setData d = Inr v \<longleftrightarrow> vote_data v = d \<and> newSignature (vSignature d) = Inr (voter v)"
  by (cases v) (auto simp: Vote_setData_def split: sum.splits)

lemma Build_fold:
  "qc_sigs (fold Build_step vs qc) = qc_sigs qc @ map (\<lambda>v. \<lparr>sig_data =
      (case vSignature (vote_data v) of Some s \<Rightarrow> s | None \<Rightarrow> \<lparr>PubKey = [], sigValue = []\<rparr>),
      sig_pubKey = sig_pubKey (voter v)\<rparr>) vs"
  "qc_quota (fold Build_step vs qc) = qc_quota qc + sum_list (map (\<lambda>v. vQuota (vote_data v)) vs)"
  "qcQuotas (qc_data (fold Build_step vs qc)) = qcQuotas (qc_data qc) @ map (\<lambda>v. vQuota (vote_data v)) vs"
  "qcSignatures (qc_data (fold Build_step vs qc)) = qcSignatures (qc_data qc) @ map (\<lambda>v. vSignature (vote_data v)) vs"
  by (induction vs arbitrary: qc) (simp_all add: Build_step_def Let_def)

lemma Build_fold_head:
  assumes "qcBlockHash (qc_data qc) = Some h"
  shows "qcBlockHash (qc_data (fold Build_step vs qc)) = Some h \<and>
     qcView (qc_data (fold Build_step vs qc)) = qcView (qc_data qc)"
  using assms by (induction vs arbitrary: qc) (simp_all add: Build_step_def Let_def)

text \<open>The certificate that \<^verbatim>\<open>Build\<close> makes from an empty one: one entry per vote, in the same order.\<close>

lemma QC_Build_sel:
  fixes votes :: "vote list" and c :: crypto and signer :: private_key
  defines "qc \<equiv> QC_Build c signer votes NewQuorumCert"
  shows "qcQuotas (qc_data qc) = map (\<lambda>v. vQuota (vote_data v)) votes"
    "qcSignatures (qc_data qc) = map (\<lambda>v. vSignature (vote_data v)) votes"
    "qc_quota qc = sum_list (map (\<lambda>v. vQuota (vote_data v)) votes)"
    "\<lbrakk>votes \<noteq> []; \<forall>v \<in> set votes. vBlockHash (vote_data v) = h \<and> vView (vote_data v) = w\<rbrakk>
       \<Longrightarrow> qcBlockHash (qc_data qc) = Some h \<and> qcView (qc_data qc) = w"
    "\<forall>v \<in> set votes. Vote_setData (vote_data v) = Inr v \<Longrightarrow> qc_sigs qc = map voter votes"
    "qc_signature qc = Some (Signer_Sign c signer (appendUint32 (qc_hash (qc_data qc)) [qcView (qc_data qc)]))"
    "qcSignature (qc_data qc) = Some (sig_data (Signer_Sign c signer (appendUint32 (qc_hash (qc_data qc)) [qcView (qc_data qc)])))"
proof -
  show "qcQuotas (qc_data qc) = map (\<lambda>v. vQuota (vote_data v)) votes"
    "qcSignatures (qc_data qc) = map (\<lambda>v. vSignature (vote_data v)) votes"
    "qc_quota qc = sum_list (map (\<lambda>v. vQuota (vote_data v)) votes)"
    by (simp_all add: qc_def QC_Build_def Let_def Build_fold)
  show "qc_signature qc = Some (Signer_Sign c signer (appendUint32 (qc_hash (qc_data qc)) [qcView (qc_data qc)]))"
    "qcSignature (qc_data qc) = Some (sig_data (Signer_Sign c signer (appendUint32 (qc_hash (qc_data qc)) [qcView (qc_data qc)])))"
    by (simp_all add: qc_def QC_Build_def Let_def qc_hash_def)
  show "qcBlockHash (qc_data qc) = Some h \<and> qcView (qc_data qc) = w"
    if "votes \<noteq> []" "\<forall>v \<in> set votes. vBlockHash (vote_data v) = h \<and> vView (vote_data v) = w"
    using that Build_fold_head
    by (cases votes) (auto simp: qc_def QC_Build_def Let_def NewQuorumCert_def Build_step_def)
  show "qc_sigs qc = map voter votes" if all: "\<forall>v \<in> set votes. Vote_setData (vote_data v) = Inr v"
  proof -
    have "\<lparr>sig_data = (case vSignature (vote_data v) of Some s \<Rightarrow> s | None \<Rightarrow> \<lparr>PubKey = [], sigValue = []\<rparr>),
        sig_pubKey = sig_pubKey (voter v)\<rparr> = voter v" if "v \<in> set votes" for v
    proof -
      have "newSignature (vSignature (vote_data v)) = Inr (voter v)"
        using all that by (simp add: Vote_setData_Inr)
      then show ?thesis by (cases "voter v") (auto simp: newSignature_Inr)
    qed
    then show ?thesis by (simp add: qc_def QC_Build_def Let_def Build_fold NewQuorumCert_def)
  qed
qed

lemma Vote_Validate_ok:
  assumes "Vote_setData (vote_data v) = Inr v" and "Vote_Validate c rs (Some (vote_data v)) = None"
  shows "IsValidator rs (keyStr (sig_pubKey (voter v)))"
    "Sig_Verify c (voter v) (appendUint64 (appendUint32 (vBlockHash (vote_data v)) [vView (vote_data v)]) [vQuota (vote_data v)])"
proof -
  have "newSignature (vSignature (vote_data v)) = Inr (voter v)"
    using assms(1) by (simp add: Vote_setData_Inr)
  then show "IsValidator rs (keyStr (sig_pubKey (voter v)))"
    "Sig_Verify c (voter v) (appendUint64 (appendUint32 (vBlockHash (vote_data v)) [vView (vote_data v)]) [vQuota (vote_data v)])"
    using assms(2) by (auto simp: Vote_Validate_def split: if_splits)
qed

lemma newSigList_voters:
  "\<forall>v \<in> set votes. Vote_setData (vote_data v) = Inr v \<Longrightarrow>
     newSigList (map (\<lambda>v. vSignature (vote_data v)) votes) = Inr (map voter votes)"
proof (induction votes)
  case (Cons v votes)
  have "newSignature (vSignature (vote_data v)) = Inr (voter v)"
    using Cons.prems by (simp add: Vote_setData_Inr)
  with Cons show ?case by simp
qed simp

lemma QC_Build_valid:
  assumes "crypto_laws c" and "NewPrivateKey c b = Inr signer" and "IsValidator rs (keyStr (priv_pubKey signer))"
    and "votes \<noteq> []" and "\<forall>v \<in> set votes. vBlockHash (vote_data v) = h \<and> vView (vote_data v) = w"
    and "\<forall>v \<in> set votes. Vote_setData (vote_data v) = Inr v \<and> Vote_Validate c rs (Some (vote_data v)) = None"
    and "distinct (map (\<lambda>v. keyStr (sig_pubKey (voter v))) votes)"
    and "MajorityValidatorCount rs \<le> length votes"
  shows "QC_Validate c rs (QC_Build c signer votes NewQuorumCert) = Some (fst (DecAndGetGrace rs), None) \<and>
    QC_setData (qc_data (QC_Build c signer votes NewQuorumCert)) = Inr (QC_Build c signer votes NewQuorumCert) \<and>
    qc_quota (QC_Build c signer votes NewQuorumCert) = sum_list (map (\<lambda>v. vQuota (vote_data v)) votes)"
proof (intro conjI)
  let ?qc = "QC_Build c signer votes NewQuorumCert"
  have setd: "\<forall>v \<in> set votes. Vote_setData (vote_data v) = Inr v" using assms(6) by blast
  note sel = QC_Build_sel(1-3,6,7) [of c signer votes] QC_Build_sel(4) [OF assms(4,5)] QC_Build_sel(5) [OF setd]
  show "qc_quota ?qc = sum_list (map (\<lambda>v. vQuota (vote_data v)) votes)" by (rule sel(3))
  have hash: "qc_hash (qc_data ?qc) = h" "qcView (qc_data ?qc) = w" using sel by (simp_all add: qc_hash_def)
  have "Sig_Verify c (voter v) (appendUint64 (appendUint32 h [w]) [vQuota (vote_data v)])" "IsValidator rs (keyStr (sig_pubKey (voter v)))"
    if "v \<in> set votes" for v
    using Vote_Validate_ok [of v c rs] that assms(5,6) by auto
  then have "QC_loop c (fst (DecAndGetGrace rs)) (qc_data ?qc) 0 [] (qc_sigs ?qc) = Some None"
    unfolding QC_loop_ok using assms(7) by (simp add: sel hash vote_msg_def comp_def)
  moreover have "newSignature (qcSignature (qc_data ?qc)) = Inr (Signer_Sign c signer (appendUint32 h [w]))"
    using sign_newSignature [OF assms(2)] by (simp add: sel hash)
  moreover note sign_verify [OF assms(2,1)] assms(3,8)
  ultimately show "QC_Validate c rs ?qc = Some (fst (DecAndGetGrace rs), None)"
    unfolding QC_Validate_ok by (simp add: sel hash)
  show "QC_setData (qc_data ?qc) = Inr ?qc"
    using newSigList_voters [OF setd] sign_newSignature [OF assms(2)]
    by (simp add: QC_setData_def sel)
qed

section \<open>A concrete instance\<close>

text \<open>A signature scheme that satisfies the laws, and a network of one validator.\<close>

definition ex_crypto :: crypto where
  "ex_crypto = \<lparr>sha3 = (\<lambda>x. x), ed_public = take 32, ed_sign = (\<lambda>k m. take 32 k @ m),
     ed_verify = (\<lambda>p m s. s = p @ m)\<rparr>"

definition ex_pub :: public_key where
  "ex_pub = \<lparr>pub_key = replicate 32 1, keyStr = b64_encode (replicate 32 1)\<rparr>"

definition ex_priv :: private_key where
  "ex_priv = \<lparr>priv_key = replicate 64 1, priv_pubKey = ex_pub\<rparr>"

definition ex_roles :: role_store where
  "ex_roles = \<lparr>rsPeerStore = NewPeerStore, validatorMap = [keyStr ex_pub \<mapsto> 0], validators = [ex_pub],
     stakeQuotas = [5], quotaCount = 5, windowSize = 4, rsPeers = [], graceHeight = 0\<rparr>"

definition ex_block :: block where
  "ex_block = \<lparr>blk_data = \<lparr>blkHash = [1, 2], blkView = 3, blkHeight = 4, blkParentHash = [9],
     blkExecHeight = 1, blkMerkleRoot = [], blkTimestamp = 0, blkTransactions = [], blkQuorumCert = None,
     blkSignature = None\<rparr>, blk_qc = None, blk_sig = None\<rparr>"

definition ex_vote :: vote where
  "ex_vote = Block_Vote ex_crypto ex_priv 5 ex_block"

definition ex_qc :: quorum_cert where
  "ex_qc = QC_Build ex_crypto ex_priv [ex_vote] NewQuorumCert"

lemma ex_laws: "crypto_laws ex_crypto"
  by (simp add: crypto_laws_def ex_crypto_def)

lemma ex_priv_ok: "NewPrivateKey ex_crypto (replicate 64 1) = Inr ex_priv"
  by (simp add: NewPrivateKey_def NewPublicKey_def ex_crypto_def ex_priv_def ex_pub_def)

lemma ex_roles_wf: "wf_roles ex_roles"
  by (auto simp: wf_roles_def ex_roles_def ex_pub_def)

lemma ex_validator: "IsValidator ex_roles (keyStr (priv_pubKey ex_priv))"
  unfolding IsValidator_iff [OF ex_roles_wf] by (simp add: validator_keys_def ex_roles_def ex_priv_def)

lemma ex_vote_ok:
  "Vote_setData (vote_data ex_vote) = Inr ex_vote" "Vote_Validate ex_crypto ex_roles (Some (vote_data ex_vote)) = None"
  using sign_newSignature [OF ex_priv_ok] sign_verify [OF ex_priv_ok ex_laws] ex_validator
  by (simp_all add: ex_vote_def Block_Vote_def Let_def Vote_Validate_def Vote_setData_def)

lemma ex_majority: "MajorityValidatorCount ex_roles = 1"
  by (simp add: MajorityValidatorCount_def MajorityCount_def ex_roles_def)

lemma ex_qc_sigs: "qc_sigs ex_qc = [voter ex_vote]" "qcQuotas (qc_data ex_qc) = [5]"
  using ex_vote_ok(1) by (simp_all add: ex_qc_def QC_Build_sel) (simp add: ex_vote_def Block_Vote_def Let_def)

lemma ex_qc_ok:
  "QC_Validate ex_crypto ex_roles ex_qc = Some (fst (DecAndGetGrace ex_roles), None)"
  "QC_setData (qc_data ex_qc) = Inr ex_qc"
  using QC_Build_valid [OF ex_laws ex_priv_ok ex_validator, of "[ex_vote]"] ex_vote_ok ex_majority
  by (simp_all add: ex_qc_def)

section \<open>Properties\<close>

text \<open>
  C16. Two certificates that the same validator set accepts, outside the grace period, have more than a
  third of the validators in common: at least \<open>f + 1\<close> of \<open>n\<close> with \<open>f = (n - 1) div 3\<close>, so one honest
  validator signed both whenever at most \<open>f\<close> are faulty. Each signature of an accepted certificate
  verifies for the certificate's block, view and the quota at its index.
\<close>

theorem qc_quorum_intersection:
  assumes "wf_roles rs" and "graceHeight rs \<le> 1"
    and "QC_Validate c rs qc1 = Some (rs1, None)" and "QC_Validate c rs qc2 = Some (rs2, None)"
  shows "(ValidatorCount rs - 1) div 3 + 1 \<le> card (qc_signers qc1 \<inter> qc_signers qc2) \<and>
    (\<forall>i < length (qc_sigs qc1). Sig_Verify c (qc_sigs qc1 ! i) (vote_msg (qc_data qc1) (qcQuotas (qc_data qc1) ! i)))"
proof -
  note q1 = accepted_signers [OF assms(3,1)] and q2 = accepted_signers [OF assms(4,1)]
  have fin: "finite (validator_keys rs)" by (simp add: validator_keys_def)
  have "card (qc_signers qc1) \<le> card (validator_keys rs)" by (rule card_mono [OF fin q1(1)])
  moreover have "1 \<le> MajorityCount (card (validator_keys rs))" by (simp add: MajorityCount_def)
  ultimately have "0 < card (validator_keys rs)" using q1(3) [OF assms(2)] by linarith
  from majority_intersect [OF fin q1(1) q2(1) this q1(3) [OF assms(2)] q2(3) [OF assms(2)]]
  show ?thesis
    using assms(3) by (simp add: ValidatorCount_def card_validator_keys [OF assms(1)] QC_Validate_ok QC_loop_ok)
qed

theorem qc_quorum_intersection_witness:
  "QC_Validate ex_crypto ex_roles ex_qc = Some (fst (DecAndGetGrace ex_roles), None) \<and>
   (ValidatorCount ex_roles - 1) div 3 + 1 \<le> card (qc_signers ex_qc \<inter> qc_signers ex_qc)"
  using qc_quorum_intersection [OF ex_roles_wf _ ex_qc_ok(1) ex_qc_ok(1)] ex_qc_ok(1) by (simp add: ex_roles_def)

text \<open>
  C17. A leader's certificate is accepted: from votes that each validate, for one block and view, by distinct
  validators and at least a majority of them, \<^verbatim>\<open>Build\<close> makes a certificate that every store with the same
  validators accepts, that decoding gives back, and whose quota is the sum of the votes' quotas.
\<close>

theorem qc_build_accepted:
  assumes "crypto_laws c" and "NewPrivateKey c b = Inr signer" and "IsValidator rs (keyStr (priv_pubKey signer))"
    and "votes \<noteq> []" and "\<forall>v \<in> set votes. vBlockHash (vote_data v) = h \<and> vView (vote_data v) = w"
    and "\<forall>v \<in> set votes. Vote_setData (vote_data v) = Inr v \<and> Vote_Validate c rs (Some (vote_data v)) = None"
    and "distinct (map (\<lambda>v. keyStr (sig_pubKey (voter v))) votes)"
    and "MajorityValidatorCount rs \<le> length votes"
  shows "QC_Validate c rs (QC_Build c signer votes NewQuorumCert) = Some (fst (DecAndGetGrace rs), None) \<and>
    QC_setData (qc_data (QC_Build c signer votes NewQuorumCert)) = Inr (QC_Build c signer votes NewQuorumCert) \<and>
    qc_quota (QC_Build c signer votes NewQuorumCert) = sum_list (map (\<lambda>v. vQuota (vote_data v)) votes)"
  by (rule QC_Build_valid [OF assms])

theorem qc_build_accepted_witness:
  "QC_Validate ex_crypto ex_roles (QC_Build ex_crypto ex_priv [ex_vote] NewQuorumCert) =
     Some (fst (DecAndGetGrace ex_roles), None)"
  using qc_build_accepted [OF ex_laws ex_priv_ok ex_validator, of "[ex_vote]"] ex_vote_ok ex_majority by simp

text \<open>
  C18. A vote that a validator makes for a block is accepted, and decoding its message gives the vote.
\<close>

theorem vote_accepted:
  assumes "crypto_laws c" and "NewPrivateKey c b = Inr signer" and "IsValidator rs (keyStr (priv_pubKey signer))"
  shows "Vote_Validate c rs (Some (vote_data (Block_Vote c signer quota blk))) = None \<and>
    Vote_setData (vote_data (Block_Vote c signer quota blk)) = Inr (Block_Vote c signer quota blk)"
  using sign_newSignature [OF assms(2)] sign_verify [OF assms(2,1)] assms(3)
  by (simp add: Block_Vote_def Let_def Vote_Validate_def Vote_setData_def)

theorem vote_accepted_witness:
  "Vote_Validate ex_crypto ex_roles (Some (vote_data (Block_Vote ex_crypto ex_priv 5 ex_block))) = None"
  using vote_accepted [OF ex_laws ex_priv_ok ex_validator] by blast

text \<open>
  C19. A transaction that its sender signs is accepted, and so is every block that a validator signs over
  an accepted certificate.
\<close>

theorem signed_accepted:
  assumes "crypto_laws c" and "NewPrivateKey c b = Inr signer"
  shows "Tx_Validate c (Some (tx_data (Tx_Sign c signer tx))) = None \<and>
    (\<forall>rs rs' qc blk. IsValidator rs (keyStr (priv_pubKey signer)) \<and> QC_Validate c rs qc = Some (rs', None) \<longrightarrow>
       Block_Validate c rs (Block_Sign c signer (SetQuorumCert qc blk)) = Some (rs', None))"
proof (intro conjI allI impI)
  have "Tx_Sum c (d\<lparr>txHash := x\<rparr>) = Tx_Sum c d" "Tx_Sum c (d\<lparr>txHash := x, txSignature := y\<rparr>) = Tx_Sum c d" for d x y
    by (simp_all add: Tx_Sum_def)
  moreover have "newSignature (Some \<lparr>PubKey = pub_key (priv_pubKey signer), sigValue = sigValue (sig_data (Signer_Sign c signer m))\<rparr>)
      = Inr (Signer_Sign c signer m)" for m
    using sign_newSignature [OF assms(2), of m] by (simp add: Signer_Sign_def)
  ultimately show "Tx_Validate c (Some (tx_data (Tx_Sign c signer tx))) = None"
    using sign_verify [OF assms(2,1)] by (simp add: Tx_Validate_def Tx_Sign_def Let_def)
next
  fix rs rs' qc blk
  assume a: "IsValidator rs (keyStr (priv_pubKey signer)) \<and> QC_Validate c rs qc = Some (rs', None)"
  then have "IsValidator rs' = IsValidator rs" by (auto simp: QC_Validate_ok)
  moreover have "Block_Sum c (d\<lparr>blkHash := x, blkSignature := y\<rparr>) = Block_Sum c d" for d x y
    by (simp add: Block_Sum_def)
  ultimately show "Block_Validate c rs (Block_Sign c signer (SetQuorumCert qc blk)) = Some (rs', None)"
    using a sign_newSignature [OF assms(2)] sign_verify [OF assms(2,1)]
    by (simp add: Block_Validate_def Block_Sign_def SetQuorumCert_def Let_def)
qed

theorem signed_accepted_witness:
  "Tx_Validate ex_crypto (Some (tx_data (Tx_Sign ex_crypto ex_priv NewTransaction))) = None"
  using signed_accepted [OF ex_laws ex_priv_ok] by blast

text \<open>
  C28. The hash of a transaction does not separate the code address from the input. From every accepted
  invocation one gets, without any key, a different accepted transaction with the same hash and
  signature: the deployment whose input is the code address followed by the input.
\<close>

theorem tx_hash_ambiguous:
  assumes "Tx_Validate c (Some d) = None" and "txCodeAddr d \<noteq> []"
  shows "let d' = d\<lparr>txCodeAddr := [], txInput := txCodeAddr d @ txInput d\<rparr>
    in d' \<noteq> d \<and> txHash d' = txHash d \<and> Tx_Validate c (Some d') = None"
proof -
  let ?d = "d\<lparr>txCodeAddr := [], txInput := txCodeAddr d @ txInput d\<rparr>"
  have "Tx_Sum c ?d = Tx_Sum c d" by (simp add: Tx_Sum_def)
  then have "Tx_Validate c (Some ?d) = Tx_Validate c (Some d)" by (simp add: Tx_Validate_def split: sum.split)
  moreover have "?d \<noteq> d" using assms(2) by (metis pb_transaction.select_convs(5) pb_transaction.surjective
      pb_transaction.update_convs(5) pb_transaction.update_convs(6))
  ultimately show ?thesis using assms(1) by (simp add: Let_def)
qed

theorem tx_hash_ambiguous_witness:
  "\<exists>d d'. Tx_Validate ex_crypto (Some d) = None \<and> Tx_Validate ex_crypto (Some d') = None \<and>
     txHash d = txHash d' \<and> txCodeAddr d \<noteq> [] \<and> txCodeAddr d' = []"
proof -
  let ?tx = "NewTransaction\<lparr>tx_data := (tx_data NewTransaction)\<lparr>txCodeAddr := [5]\<rparr>\<rparr>"
  let ?d = "tx_data (Tx_Sign ex_crypto ex_priv ?tx)"
  have "Tx_Validate ex_crypto (Some ?d) = None"
    by (simp add: Tx_Validate_def Tx_Sign_def Let_def Tx_Sum_def newSignature_def NewPublicKey_def Sig_Verify_def
        Signer_Sign_def ex_priv_def ex_pub_def ex_crypto_def NewTransaction_def)
  moreover have "txCodeAddr ?d = [5]" by (simp add: Tx_Sign_def Let_def)
  ultimately show ?thesis
    using tx_hash_ambiguous [of ex_crypto ?d] unfolding Let_def
    by (intro exI [of _ ?d] exI [of _ "?d\<lparr>txCodeAddr := [], txInput := txCodeAddr ?d @ txInput ?d\<rparr>"]) simp
qed

text \<open>
  C29. The stake quota of an accepted certificate is not what its signers voted. Appending any number to
  the quota list of an accepted certificate gives a certificate that decodes, is accepted by the same
  store, and whose \<^verbatim>\<open>SumQuota\<close> has grown by that number.
\<close>

theorem qc_unsigned_quota:
  assumes "QC_setData d = Inr qc" and "QC_Validate c rs qc = Some (rs', None)"
  shows "\<exists>qc'. QC_setData (d\<lparr>qcQuotas := qcQuotas d @ [q]\<rparr>) = Inr qc' \<and>
    QC_Validate c rs qc' = Some (rs', None) \<and> qc_sigs qc' = qc_sigs qc \<and> qc_quota qc' = qc_quota qc + q"
proof -
  let ?d = "d\<lparr>qcQuotas := qcQuotas d @ [q]\<rparr>"
  let ?qc = "qc\<lparr>qc_data := ?d, qc_quota := qc_quota qc + q\<rparr>"
  have d: "qc_data qc = d" using assms(1) by (auto simp: QC_setData_def split: sum.splits)
  have hash: "qc_hash ?d = qc_hash d" by (simp add: qc_hash_def)
  have "QC_setData ?d = Inr ?qc"
    using assms(1) by (auto simp: QC_setData_def split: sum.splits)
  moreover have "QC_Validate c rs ?qc = Some (rs', None)"
    using assms(2) unfolding QC_Validate_ok QC_loop_ok d
    by (auto simp: hash vote_msg_def nth_append less_Suc_eq)
  ultimately show ?thesis by (intro exI [of _ ?qc]) simp
qed

theorem qc_unsigned_quota_witness:
  "QC_Validate ex_crypto ex_roles ex_qc = Some (ex_roles, None) \<and>
   (\<exists>qc'. QC_setData ((qc_data ex_qc)\<lparr>qcQuotas := [5, 1000]\<rparr>) = Inr qc' \<and>
      QC_Validate ex_crypto ex_roles qc' = Some (ex_roles, None) \<and> qc_quota qc' = 1005)"
proof -
  have q: "qc_quota ex_qc = 5" "DecAndGetGrace ex_roles = (ex_roles, 0)"
    by (simp_all add: ex_qc_def QC_Build_sel ex_vote_def Block_Vote_def Let_def DecAndGetGrace_def ex_roles_def)
  have ok: "QC_Validate ex_crypto ex_roles ex_qc = Some (ex_roles, None)" and "QC_setData (qc_data ex_qc) = Inr ex_qc"
    using ex_qc_ok by (simp_all add: q)
  from qc_unsigned_quota [OF this(2,1), of 1000] ok show ?thesis by (auto simp: ex_qc_sigs q)
qed



end
