(* ===== verification/Role_Props.thy ===== *)
theory Role_Props
  imports Core_Props
begin

text \<open>
  Properties of the operations that change the validator set (\<^verbatim>\<open>AddValidator\<close>, \<^verbatim>\<open>DeleteValidator\<close>).
\<close>

section \<open>Adding and deleting\<close>

lemma AddValidator_cases:
  assumes "AddValidator get_id pa store k point topic quota = Some (store', e)" and "validatorMap store k = None"
  obtains pk where "StringToPubKey k = Some pk" "validators store' = validators store @ [pk]"
    "stakeQuotas store' = stakeQuotas store @ [quota]" "quotaCount store' = quotaCount store + quota"
    "validatorMap store' = (validatorMap store)(k \<mapsto> length (validators store))"
  using assms that
  by (auto simp: AddValidator_def Let_def split: option.splits sum.splits)

lemma AddValidator_keeps_wf:
  assumes wf: "wf_roles store" and l: "length addr = 32"
    and add: "AddValidator get_id pa store (AddressToString addr) point topic quota = Some (store', e)"
  shows "wf_roles store'"
proof (cases "validatorMap store (AddressToString addr)")
  case (Some i)
  with add wf show ?thesis by (auto simp: AddValidator_def)
next
  case None
  let ?k = "AddressToString addr" and ?n = "length (validators store)"
  obtain pk where pk: "StringToPubKey ?k = Some pk" and vs: "validators store' = validators store @ [pk]"
    and qs: "stakeQuotas store' = stakeQuotas store @ [quota]" "quotaCount store' = quotaCount store + quota"
    and vm: "validatorMap store' = (validatorMap store)(?k \<mapsto> ?n)"
    using AddValidator_cases [OF add None] .
  have pk': "pk = \<lparr>pub_key = addr, keyStr = ?k\<rparr>" using pk StringToPubKey_addr [OF l] by simp
  have new: "i < ?n \<Longrightarrow> keyStr (validators store ! i) \<noteq> ?k" for i
    using wf None unfolding wf_roles_def by (metis option.distinct(1))
  have "validatorMap store' k = Some i \<longleftrightarrow> i < length (validators store') \<and> keyStr (validators store' ! i) = k" for k i
    using wf new unfolding wf_roles_def vm vs
    by (cases "k = ?k") (auto simp: nth_append pk' less_Suc_eq split: if_splits)
  with wf show ?thesis
    by (simp add: wf_roles_def vs qs pk' l AddressToString_def)
qed

lemma DeleteValidator_sel:
  assumes del: "DeleteValidator get_id store k = Some (store', None)"
    and i: "find_index_from (\<lambda>v. keyStr v = k) 0 (validators store) = Some i"
  shows "validatorMap store' = (validatorMap store)(k := None)"
    "validators store' = remove_at i (validators store)" "stakeQuotas store' = remove_at i (stakeQuotas store)"
proof -
  have keep: "delete_peer g k j ps st = Some st' \<Longrightarrow> validatorMap st' = validatorMap st \<and>
      validators st' = validators st \<and> stakeQuotas st' = stakeQuotas st" for g j ps st st'
    by (induction g k j ps st rule: delete_peer.induct) (auto split: if_splits option.splits)
  show "validatorMap store' = (validatorMap store)(k := None)"
    "validators store' = remove_at i (validators store)" "stakeQuotas store' = remove_at i (stakeQuotas store)"
    using del i keep by (auto simp: DeleteValidator_def Let_def split: if_splits option.splits)
qed

section \<open>A concrete store\<close>

definition ex_pub2 :: public_key where
  "ex_pub2 = \<lparr>pub_key = replicate 32 2, keyStr = b64_encode (replicate 32 2)\<rparr>"

definition ex_roles2 :: role_store where
  "ex_roles2 = \<lparr>rsPeerStore = NewPeerStore, validatorMap = [keyStr ex_pub \<mapsto> 0, keyStr ex_pub2 \<mapsto> 1],
     validators = [ex_pub, ex_pub2], stakeQuotas = [5, 7], quotaCount = 12, windowSize = 4, rsPeers = [],
     graceHeight = 0\<rparr>"

lemma ex_pubs_differ: "keyStr ex_pub \<noteq> keyStr ex_pub2"
  by (simp add: ex_pub_def ex_pub2_def)

lemma ex_roles2_wf: "wf_roles ex_roles2"
proof -
  have "validatorMap ex_roles2 k = Some i \<longleftrightarrow> i < 2 \<and> keyStr ([ex_pub, ex_pub2] ! i) = k" for k i
    using ex_pubs_differ by (cases i) (auto simp: ex_roles2_def less_Suc_eq numeral_2_eq_2 nth_Cons')
  moreover have "validators ex_roles2 = [ex_pub, ex_pub2]" "length [ex_pub, ex_pub2] = 2"
    by (simp_all add: ex_roles2_def)
  moreover have "length (stakeQuotas ex_roles2) = 2" "quotaCount ex_roles2 = sum_list (stakeQuotas ex_roles2)"
    by (simp_all add: ex_roles2_def)
  ultimately show ?thesis
    unfolding wf_roles_def by (simp add: ex_pub_def ex_pub2_def numeral_2_eq_2)
qed

section \<open>Properties\<close>

text \<open>
  C26. Adding a validator with a 32-byte address keeps the invariant of the role store, on the success and
  on the error paths: every key maps to its index, quotas and validators have the same length, and the
  quota total is the sum. A new validator is found at its quota.
\<close>

theorem add_validator_wf:
  assumes "wf_roles store" and "length addr = 32"
    and "AddValidator get_id parse_addr store (AddressToString addr) point topic quota = Some (store', e)"
  shows "wf_roles store' \<and> (validatorMap store (AddressToString addr) = None \<longrightarrow>
    IsValidator store' (AddressToString addr) \<and> GetValidatorQuota store' (AddressToString addr) = Some quota)"
proof (intro conjI impI)
  show "wf_roles store'" by (rule AddValidator_keeps_wf [OF assms])
  have ne: "AddressToString addr \<noteq> []" using assms(2) by (auto simp: AddressToString_def)
  assume "validatorMap store (AddressToString addr) = None"
  from AddValidator_cases [OF assms(3) this] obtain pk where
    "stakeQuotas store' = stakeQuotas store @ [quota]"
    "validatorMap store' = (validatorMap store)(AddressToString addr \<mapsto> length (validators store))" by metis
  moreover have "length (stakeQuotas store) = length (validators store)" using assms(1) by (simp add: wf_roles_def)
  ultimately show "IsValidator store' (AddressToString addr)" "GetValidatorQuota store' (AddressToString addr) = Some quota"
    using ne by (simp_all add: IsValidator_def GetValidatorQuota_def GetValidatorIndex_def Let_def nth_append)
qed

theorem add_validator_wf_witness:
  "\<exists>store'. AddValidator (\<lambda>k. Some k) Inr ex_roles (AddressToString (replicate 32 2)) [] [] 7 = Some (store', None) \<and>
     wf_roles store' \<and> GetValidatorQuota store' (AddressToString (replicate 32 2)) = Some 7"
proof -
  have new: "validatorMap ex_roles (AddressToString (replicate 32 2)) = None"
    by (simp add: ex_roles_def ex_pub_def AddressToString_def)
  obtain store' where s: "AddValidator (\<lambda>k. Some k) Inr ex_roles (AddressToString (replicate 32 2)) [] [] 7 = Some (store', None)"
    using new by (simp add: AddValidator_def StringToPubKey_addr Let_def PeerStore_Store_def)
  from add_validator_wf [OF ex_roles_wf _ s] new s show ?thesis by auto
qed

text \<open>
  C34. An error of \<^verbatim>\<open>AddValidator\<close> is not the absence of an effect: with an address that does not parse, the
  call returns the parser's error and the key is a validator afterwards.
\<close>

theorem add_validator_error_adds:
  assumes "length addr = 32" and "validatorMap store (AddressToString addr) = None" and "parse_addr point = Inl e"
  shows "\<exists>store'. AddValidator get_id parse_addr store (AddressToString addr) point topic quota = Some (store', Some e) \<and>
    IsValidator store' (AddressToString addr) \<and> ValidatorCount store' = ValidatorCount store + 1"
proof -
  have "AddressToString addr \<noteq> []" using assms(1) by (auto simp: AddressToString_def)
  with assms StringToPubKey_addr [OF assms(1)] show ?thesis
    by (simp add: AddValidator_def Let_def IsValidator_def ValidatorCount_def)
qed

theorem add_validator_error_adds_witness:
  "\<exists>store'. AddValidator (\<lambda>k. Some k) (\<lambda>s. Inl ''bad address'') ex_roles (AddressToString (replicate 32 2)) [] [] 7 =
     Some (store', Some ''bad address'') \<and> IsValidator store' (AddressToString (replicate 32 2))"
proof -
  have "validatorMap ex_roles (AddressToString (replicate 32 2)) = None"
    by (simp add: ex_roles_def ex_pub_def AddressToString_def)
  from add_validator_error_adds [OF _ this, of "\<lambda>s. Inl ''bad address''" "[]" "''bad address''" "\<lambda>k. Some k" "[]" 7]
  show ?thesis by auto
qed

text \<open>
  C35. Deleting a validator that is not the last leaves stale indices: the last validator is still one,
  but reading its quota then indexes out of range.
\<close>

theorem delete_validator_stale:
  assumes "wf_roles store" and "i + 1 < ValidatorCount store"
    and "DeleteValidator get_id store (keyStr (validators store ! i)) = Some (store', None)"
  shows "IsValidator store' (keyStr (last (validators store))) \<and>
    GetValidatorQuota store' (keyStr (last (validators store))) = None"
proof -
  let ?n = "length (validators store)" and ?k = "keyStr (validators store ! i)"
  let ?l = "keyStr (last (validators store))"
  have n: "i + 1 < ?n" using assms(2) by (simp add: ValidatorCount_def)
  have last: "last (validators store) = validators store ! (?n - 1)" using n by (intro last_conv_nth) auto
  have map: "validatorMap store ?k = Some i" "validatorMap store ?l = Some (?n - 1)"
    using assms(1) n unfolding wf_roles_def last by auto
  then have ne: "?l \<noteq> ?k" using n by auto
  have "keyStr (validators store ! m) \<noteq> ?k" if "m < i" for m
    using that n assms(1) map(1) unfolding wf_roles_def by (metis less_trans add_lessD1 nat_neq_iff option.inject)
  then have "find_index_from (\<lambda>v. keyStr v = ?k) 0 (validators store) = Some i"
    using n by (simp add: find_index_from_iff)
  note sel = DeleteValidator_sel [OF assms(3) this]
  have "length (stakeQuotas store') = ?n - 1"
    using sel(3) n assms(1) by (simp add: remove_at_def wf_roles_def)
  moreover have "validatorMap store' ?l = Some (?n - 1)" using sel(1) map(2) ne by simp
  moreover have "?l \<noteq> []"
    using IsValidator_iff [OF assms(1), of ?l] n last_in_set [of "validators store"]
    by (cases "validators store = []") (auto simp: validator_keys_def)
  ultimately show ?thesis
    by (simp add: IsValidator_def GetValidatorQuota_def GetValidatorIndex_def Let_def)
qed

theorem delete_validator_stale_witness:
  "\<exists>store'. DeleteValidator (\<lambda>k. Some k) ex_roles2 (keyStr ex_pub) = Some (store', None) \<and>
     IsValidator store' (keyStr ex_pub2) \<and> GetValidatorQuota store' (keyStr ex_pub2) = None"
proof -
  obtain store' where s: "DeleteValidator (\<lambda>k. Some k) ex_roles2 (keyStr ex_pub) = Some (store', None)"
    using ex_pubs_differ by (simp add: DeleteValidator_def ex_roles2_def Let_def)
  have "validators ex_roles2 = [ex_pub, ex_pub2]" by (simp add: ex_roles2_def)
  with delete_validator_stale [OF ex_roles2_wf, of 0 "\<lambda>k. Some k" store'] s show ?thesis
    by (auto simp: ValidatorCount_def)
qed

end
