(* ===== verification/State_Tracker.thy ===== *)
theory State_Tracker
  imports Prelude "HOL-Library.AList"
begin

text \<open>
  The state tracker of the execution component (\<^verbatim>\<open>src/execution/common/state_tracker.go\<close>). A tracker
  keeps the changes made through it and the keys read through it, and reads fall through to its base.
  The base of a tracker is a pointer in the code; here a read goes through a stack of trackers, each
  the base of the one before, over the state store. The Go maps are association lists with one pair
  per key; their iteration order is not observable in any lemma below. A nil value is \<open>None\<close>.
\<close>

section \<open>The tracker\<close>

record state_tracker =
  keyPrefix :: bytes
  trackDep :: bool
  dependencies :: "bytes list"
  changes :: "(bytes \<times> bytes option) list"

definition ConcatBytes :: "bytes list \<Rightarrow> bytes" where
  "ConcatBytes srcs = concat srcs"

definition NewStateTracker :: "bytes \<Rightarrow> state_tracker" where
  "NewStateTracker prefix =
     \<lparr>keyPrefix = prefix, trackDep = False, dependencies = [], changes = []\<rparr>"

definition Spawn :: "bytes \<Rightarrow> state_tracker" where
  "Spawn prefix = (NewStateTracker prefix)\<lparr>trackDep := True\<rparr>"

definition setDependency :: "state_tracker \<Rightarrow> bytes \<Rightarrow> state_tracker" where
  "setDependency trk key =
     (if \<not> trackDep trk then trk
      else trk\<lparr>dependencies := List.insert key (dependencies trk)\<rparr>)"

fun getState :: "(bytes \<Rightarrow> bytes option) \<Rightarrow> state_tracker list \<Rightarrow> bytes
    \<Rightarrow> state_tracker list \<times> bytes option" where
  "getState store [] key = ([], store key)"
| "getState store (trk # base) key =
     (let key = ConcatBytes [keyPrefix trk, key]; trk = setDependency trk key
      in case map_of (changes trk) key of
           Some value \<Rightarrow> (trk # base, value)
         | None \<Rightarrow> (let (base, value) = getState store base key in (trk # base, value)))"

definition setState :: "state_tracker \<Rightarrow> bytes \<Rightarrow> bytes option \<Rightarrow> state_tracker" where
  "setState trk key value =
     trk\<lparr>changes := AList.update (ConcatBytes [keyPrefix trk, key]) value (changes trk)\<rparr>"

definition HasDependencyChanges :: "state_tracker \<Rightarrow> state_tracker \<Rightarrow> bool" where
  "HasDependencyChanges trk child =
     list_ex (\<lambda>key. map_of (changes trk) (keyPrefix trk @ key) \<noteq> None) (dependencies child)"

definition Merge :: "state_tracker \<Rightarrow> state_tracker \<Rightarrow> state_tracker" where
  "Merge trk child = fold (\<lambda>(key, value) trk. setState trk key value) (changes child) trk"

definition GetStateChanges :: "state_tracker \<Rightarrow> (bytes \<times> bytes option) list" where
  "GetStateChanges trk = changes trk"

section \<open>Trackers as maps\<close>

text \<open>The value seen through a tracker without prefix over a state.\<close>

definition view :: "state_tracker \<Rightarrow> (bytes \<Rightarrow> bytes option) \<Rightarrow> bytes \<Rightarrow> bytes option" where
  "view trk store key =
     (case map_of (changes trk) key of Some value \<Rightarrow> value | None \<Rightarrow> store key)"

definition keys_of :: "state_tracker \<Rightarrow> bytes set" where
  "keys_of trk = fst ` set (changes trk)"

lemma setDependency_sel [simp]:
  "keyPrefix (setDependency trk k) = keyPrefix trk" "trackDep (setDependency trk k) = trackDep trk"
  "changes (setDependency trk k) = changes trk"
  "set (dependencies (setDependency trk k)) =
     (if trackDep trk then insert k (set (dependencies trk)) else set (dependencies trk))"
  by (auto simp: setDependency_def)

lemma setState_sel [simp]:
  "keyPrefix (setState trk k v) = keyPrefix trk" "trackDep (setState trk k v) = trackDep trk"
  "dependencies (setState trk k v) = dependencies trk"
  "changes (setState trk k v) = AList.update (keyPrefix trk @ k) v (changes trk)"
  by (simp_all add: setState_def ConcatBytes_def)

lemma fold_setState_sel:
  "keyPrefix (fold (\<lambda>(k, v) t. setState t k v) cs trk) = keyPrefix trk"
  "trackDep (fold (\<lambda>(k, v) t. setState t k v) cs trk) = trackDep trk"
  "dependencies (fold (\<lambda>(k, v) t. setState t k v) cs trk) = dependencies trk"
  by (induction cs arbitrary: trk) (auto simp: case_prod_unfold)

lemma Merge_sel [simp]:
  "keyPrefix (Merge trk child) = keyPrefix trk" "trackDep (Merge trk child) = trackDep trk"
  "dependencies (Merge trk child) = dependencies trk"
  by (simp_all add: Merge_def fold_setState_sel)

lemma new_sel [simp]:
  "keyPrefix (NewStateTracker p) = p" "changes (NewStateTracker p) = []"
  "trackDep (NewStateTracker p) = False" "dependencies (NewStateTracker p) = []"
  "keyPrefix (Spawn p) = p" "changes (Spawn p) = []" "trackDep (Spawn p) = True"
  "dependencies (Spawn p) = []"
  by (simp_all add: NewStateTracker_def Spawn_def)

lemma keys_of_None_iff: "k \<notin> keys_of trk \<longleftrightarrow> map_of (changes trk) k = None"
  by (simp add: keys_of_def map_of_eq_None_iff)

lemma view_other: "k \<notin> keys_of trk \<Longrightarrow> view trk store k = store k"
  by (simp add: view_def keys_of_None_iff)

lemma view_new [simp]: "view (NewStateTracker p) store = store" "view (Spawn p) store = store"
  by (simp_all add: view_def fun_eq_iff)

lemma view_setState:
  "view (setState trk k v) store = (view trk store)(keyPrefix trk @ k := v)"
  by (auto simp: view_def update_conv fun_eq_iff)

lemma keys_setState: "keys_of (setState trk k v) = insert (keyPrefix trk @ k) (keys_of trk)"
  by (simp add: keys_of_def dom_update)

text \<open>Merging puts the changes of the child, under the prefix of the parent, over the parent.\<close>

lemma view_fold_setState:
  assumes "keyPrefix trk = []" "distinct (map fst cs)"
  shows "view (fold (\<lambda>(k, v) t. setState t k v) cs trk) store key =
    (case map_of cs key of Some v \<Rightarrow> v | None \<Rightarrow> view trk store key)"
  using assms
proof (induction cs arbitrary: trk)
  case (Cons c cs)
  obtain k v where c: "c = (k, v)" by (cases c)
  have "map_of cs k = None" using Cons.prems c by (simp add: map_of_eq_None_iff)
  with Cons c show ?case by (auto simp: view_setState split: option.split)
qed simp

definition wf_changes :: "state_tracker \<Rightarrow> bool" where
  "wf_changes trk \<longleftrightarrow> distinct (map fst (changes trk))"

lemma wf_changes_new [simp]: "wf_changes (NewStateTracker p)" "wf_changes (Spawn p)"
  by (simp_all add: wf_changes_def)

lemma wf_changes_setDependency [simp]: "wf_changes (setDependency trk k) = wf_changes trk"
  by (simp add: wf_changes_def)

lemma wf_changes_setState [simp]: "wf_changes trk \<Longrightarrow> wf_changes (setState trk k v)"
  by (simp add: wf_changes_def distinct_update)

lemma wf_changes_fold:
  "wf_changes trk \<Longrightarrow> wf_changes (fold (\<lambda>(k, v) t. setState t k v) cs trk)"
  by (induction cs arbitrary: trk) (auto simp: case_prod_unfold)

lemma wf_changes_Merge [simp]: "wf_changes trk \<Longrightarrow> wf_changes (Merge trk child)"
  by (simp add: Merge_def wf_changes_fold)

lemma view_Merge:
  assumes "keyPrefix trk = []" "wf_changes child"
  shows "view (Merge trk child) store = view child (view trk store)"
  using view_fold_setState [OF assms(1), of "changes child"] assms(2)
  by (simp add: Merge_def wf_changes_def fun_eq_iff view_def)

lemma keys_fold_setState:
  "keyPrefix trk = [] \<Longrightarrow> keys_of (fold (\<lambda>(k, v) t. setState t k v) cs trk) = keys_of trk \<union> fst ` set cs"
  by (induction cs arbitrary: trk) (auto simp: keys_setState case_prod_unfold)

lemma keys_Merge: "keyPrefix trk = [] \<Longrightarrow> keys_of (Merge trk child) = keys_of trk \<union> keys_of child"
  using keys_fold_setState [of trk "changes child"] by (simp add: Merge_def keys_of_def [of child])

lemma HasDependencyChanges_iff:
  "keyPrefix trk = [] \<Longrightarrow>
     HasDependencyChanges trk child \<longleftrightarrow> set (dependencies child) \<inter> keys_of trk \<noteq> {}"
  by (simp add: HasDependencyChanges_def list_ex_iff del: not_None_eq flip: keys_of_None_iff) blast

text \<open>A read through a stack: its value is the composed view, and only dependencies change.\<close>

fun stack_view :: "(bytes \<Rightarrow> bytes option) \<Rightarrow> state_tracker list \<Rightarrow> bytes \<Rightarrow> bytes option" where
  "stack_view store [] key = store key"
| "stack_view store (trk # base) key = view trk (stack_view store base) (keyPrefix trk @ key)"

lemma getState_value: "snd (getState store stk key) = stack_view store stk key"
  by (induction store stk key rule: getState.induct)
    (auto simp: Let_def ConcatBytes_def view_def split: option.split prod.split)

end
