(* ===== verification/Chaincode.thy ===== *)
theory Chaincode
  imports State_Tracker Core_Types
begin

text \<open>
  Chaincode as the executor sees it (\<^verbatim>\<open>src/execution/common/interface.go\<close>): a program over the call
  context. The only effects of a program are the reads and writes of the context, so a program is a
  tree of those calls with the code between them as functions; a recovered panic is a leaf. The call
  contexts of \<^verbatim>\<open>src/execution/common/call_context.go\<close> fix the other fields. Programs have two
  semantics: through a stack of state trackers, as in the code, and directly on one map, which is the
  specification.
\<close>

section \<open>Programs\<close>

datatype 'r prog =
    Return 'r
  | Read bytes "bytes option \<Rightarrow> 'r prog"
  | Write bytes "bytes option" "'r prog"
  | Panic string

record call_context =
  cSender :: "bytes option"
  cTransactionHash :: "bytes option"
  cBlockHash :: "bytes option"
  cBlockHeight :: u64
  cInput :: bytes

record call_context_tx =
  ctxBlock :: "block option"
  ctxTransaction :: "transaction option"
  RawSender :: "bytes option"
  RawInput :: bytes

definition CallContextTx_Sender :: "call_context_tx \<Rightarrow> bytes option" where
  "CallContextTx_Sender ctx =
     (case ctxTransaction ctx of None \<Rightarrow> RawSender ctx
      | Some tx \<Rightarrow> (case tx_sender tx of None \<Rightarrow> RawSender ctx | Some pk \<Rightarrow> Some (pub_key pk)))"

definition CallContextTx_TransactionHash :: "call_context_tx \<Rightarrow> bytes option" where
  "CallContextTx_TransactionHash ctx = map_option (\<lambda>tx. txHash (tx_data tx)) (ctxTransaction ctx)"

definition CallContextTx_BlockHash :: "call_context_tx \<Rightarrow> bytes option" where
  "CallContextTx_BlockHash ctx = map_option (\<lambda>blk. blkHash (blk_data blk)) (ctxBlock ctx)"

definition CallContextTx_BlockHeight :: "call_context_tx \<Rightarrow> u64" where
  "CallContextTx_BlockHeight ctx = (case ctxBlock ctx of None \<Rightarrow> 0 | Some blk \<Rightarrow> blkHeight (blk_data blk))"

definition CallContextTx_ctx :: "call_context_tx \<Rightarrow> call_context" where
  "CallContextTx_ctx ctx =
     \<lparr>cSender = CallContextTx_Sender ctx, cTransactionHash = CallContextTx_TransactionHash ctx,
      cBlockHash = CallContextTx_BlockHash ctx, cBlockHeight = CallContextTx_BlockHeight ctx,
      cInput = RawInput ctx\<rparr>"

definition CallContextQuery_ctx :: "bytes option \<Rightarrow> bytes \<Rightarrow> call_context" where
  "CallContextQuery_ctx sender input =
     \<lparr>cSender = sender, cTransactionHash = None, cBlockHash = None, cBlockHeight = 0, cInput = input\<rparr>"

text \<open>A chaincode: the three methods of the interface that run code.\<close>

record chaincode =
  cc_Init :: "call_context \<Rightarrow> string option prog"
  cc_Invoke :: "call_context \<Rightarrow> string option prog"
  cc_Query :: "call_context \<Rightarrow> (string + bytes option) prog"

section \<open>Direct semantics\<close>

text \<open>A program on one map, and with reads only: a query context drops writes.\<close>

primrec run_map :: "'r prog \<Rightarrow> (bytes \<Rightarrow> bytes option) \<Rightarrow> (string + 'r) \<times> (bytes \<Rightarrow> bytes option)" where
  "run_map (Return r) st = (Inr r, st)"
| "run_map (Panic m) st = (Inl m, st)"
| "run_map (Write k v p) st = run_map p (st(k := v))"
| "run_map (Read k f) st = run_map (f (st k)) st"

primrec run_query :: "(bytes \<Rightarrow> bytes option) \<Rightarrow> 'r prog \<Rightarrow> string + 'r" where
  "run_query st (Return r) = Inr r"
| "run_query st (Panic m) = Inl m"
| "run_query st (Write k v p) = run_query st p"
| "run_query st (Read k f) = run_query st (f (st k))"

text \<open>
  The outcome of a transaction on the state: its error, empty when it succeeded, and the new state,
  which is the old one unless it succeeded. A panic is an error too.
\<close>

definition panic_error :: "string \<Rightarrow> string" where
  "panic_error m = ''recovered from panic: '' @ m"

definition prog_error :: "string + string option \<Rightarrow> string option" where
  "prog_error r = (case r of Inl m \<Rightarrow> Some (panic_error m) | Inr e \<Rightarrow> e)"

definition exec_map :: "string option prog \<Rightarrow> (bytes \<Rightarrow> bytes option) \<Rightarrow> string option \<times> (bytes \<Rightarrow> bytes option)" where
  "exec_map p st =
     (let (r, st') = run_map p st in case prog_error r of None \<Rightarrow> (None, st') | Some e \<Rightarrow> (Some e, st))"

section \<open>Tracker semantics\<close>

text \<open>A program whose context is the top of a tracker stack.\<close>

primrec run_stack :: "(bytes \<Rightarrow> bytes option) \<Rightarrow> 'r prog \<Rightarrow> state_tracker \<Rightarrow> state_tracker list
    \<Rightarrow> (string + 'r) \<times> state_tracker \<times> state_tracker list" where
  "run_stack store (Return r) trk base = (Inr r, trk, base)"
| "run_stack store (Panic m) trk base = (Inl m, trk, base)"
| "run_stack store (Write k v p) trk base = run_stack store p (setState trk k v) base"
| "run_stack store (Read k f) trk base =
     (let (stk, v) = getState store (trk # base) k in run_stack store (f v) (hd stk) (tl stk))"

text \<open>The part of a state under a prefix.\<close>

definition sub_state :: "bytes \<Rightarrow> (bytes \<Rightarrow> bytes option) \<Rightarrow> bytes \<Rightarrow> bytes option" where
  "sub_state p st k = st (p @ k)"

text \<open>A read leaves changes, prefixes and values alone: trackers differ only in their dependencies.\<close>

definition same_changes :: "state_tracker \<Rightarrow> state_tracker \<Rightarrow> bool" where
  "same_changes a b \<longleftrightarrow> keyPrefix a = keyPrefix b \<and> trackDep a = trackDep b \<and> changes a = changes b"

lemma same_changes_refl [simp]: "same_changes a a"
  by (simp add: same_changes_def)

lemma same_changes_trans_all:
  "list_all2 same_changes a b \<Longrightarrow> list_all2 same_changes b c \<Longrightarrow> list_all2 same_changes a c"
  by (rule list_all2_trans [of same_changes same_changes]) (simp_all add: same_changes_def [abs_def])

lemma view_same_changes: "same_changes a b \<Longrightarrow> view a = view b"
  by (simp add: same_changes_def view_def fun_eq_iff)

lemma getState_same: "list_all2 same_changes (fst (getState store stk key)) stk"
  by (induction store stk key rule: getState.induct)
    (auto simp: Let_def same_changes_def list.rel_refl split: option.split prod.split)

lemma stack_view_same: "list_all2 same_changes a b \<Longrightarrow> stack_view store a key = stack_view store b key"
proof (induction a arbitrary: b key)
  case (Cons x a)
  then obtain y b' where b: "b = y # b'" "same_changes x y" "list_all2 same_changes a b'"
    by (auto simp: list_all2_Cons1)
  have "stack_view store a = stack_view store b'" using Cons.IH [OF b(3)] by (simp add: fun_eq_iff)
  then show ?case using b(1,2) view_same_changes [of x y] by (simp add: same_changes_def)
qed simp

text \<open>
  Refinement: a program run through a tracker over a base computes what it computes directly on the
  part of the base's state under the tracker's prefix, and the tracker's view is the new state.
\<close>

lemma run_stack_run_map:
  assumes "wf_changes trk"
  shows "fst (run_stack store p trk base) = fst (run_map p (sub_state (keyPrefix trk) (view trk (stack_view store base))))"
    and "sub_state (keyPrefix trk) (view (fst (snd (run_stack store p trk base))) (stack_view store base))
       = snd (run_map p (sub_state (keyPrefix trk) (view trk (stack_view store base))))"
    and "keyPrefix (fst (snd (run_stack store p trk base))) = keyPrefix trk"
    and "wf_changes (fst (snd (run_stack store p trk base)))"
    and "list_all2 same_changes (snd (snd (run_stack store p trk base))) base"
proof -
  let ?spec = "\<lambda>p trk base. fst (run_stack store p trk base) = fst (run_map p (sub_state (keyPrefix trk) (view trk (stack_view store base)))) \<and>
    sub_state (keyPrefix trk) (view (fst (snd (run_stack store p trk base))) (stack_view store base))
       = snd (run_map p (sub_state (keyPrefix trk) (view trk (stack_view store base)))) \<and>
    keyPrefix (fst (snd (run_stack store p trk base))) = keyPrefix trk \<and>
    wf_changes (fst (snd (run_stack store p trk base))) \<and>
    list_all2 same_changes (snd (snd (run_stack store p trk base))) base"
  have "?spec p trk base"
    using assms
  proof (induction p arbitrary: trk base)
    case (Write k v p)
    have "sub_state (keyPrefix trk) (view (setState trk k v) (stack_view store base)) =
        (sub_state (keyPrefix trk) (view trk (stack_view store base)))(k := v)"
      by (auto simp: view_setState sub_state_def fun_eq_iff)
    with Write.IH [of "setState trk k v" base] Write.prems show ?case by (simp add: fun_upd_def)
  next
    case (Read k f)
    obtain trk' base' v where g: "getState store (trk # base) k = (trk' # base', v)"
      using getState_same [of store "trk # base" k]
      by (cases "getState store (trk # base) k") (auto simp: list_all2_Cons2)
    have same: "same_changes trk' trk" "list_all2 same_changes base' base"
      using getState_same [of store "trk # base" k] unfolding g by simp_all
    have v: "v = sub_state (keyPrefix trk) (view trk (stack_view store base)) k"
      using getState_value [of store "trk # base" k] unfolding g by (simp add: sub_state_def)
    have base': "stack_view store base' = stack_view store base"
      by (rule ext) (rule stack_view_same [OF same(2)])
    have trk': "view trk' = view trk" "keyPrefix trk' = keyPrefix trk" "wf_changes trk' = wf_changes trk"
      using view_same_changes [OF same(1)] same(1) by (simp_all add: same_changes_def wf_changes_def)
    have IH: "?spec (f v) trk' base'" by (rule Read.IH) (use Read.prems trk' in simp_all)
    have "list_all2 same_changes (snd (snd (run_stack store (f v) trk' base'))) base"
      using IH same(2) same_changes_trans_all by blast
    with IH show ?case
      by (simp only: run_stack.simps run_map.simps g prod.case Let_def list.sel v [symmetric] trk' base')
  qed (simp_all add: list.rel_refl)
  then show "fst (run_stack store p trk base) = fst (run_map p (sub_state (keyPrefix trk) (view trk (stack_view store base))))"
    "sub_state (keyPrefix trk) (view (fst (snd (run_stack store p trk base))) (stack_view store base))
       = snd (run_map p (sub_state (keyPrefix trk) (view trk (stack_view store base))))"
    "keyPrefix (fst (snd (run_stack store p trk base))) = keyPrefix trk"
    "wf_changes (fst (snd (run_stack store p trk base)))"
    "list_all2 same_changes (snd (snd (run_stack store p trk base))) base"
    by blast+
qed

end
