(* ===== verification/Native.thy ===== *)
theory Native
  imports Chaincode
begin

text \<open>
  The native chaincodes (\<^verbatim>\<open>src/native\<close>): a key-value database, two coins, the address translator, the
  role chaincode and the empty one, with the driver that selects them. Each is a program over the call
  context; the role chaincode works on the process-wide role store instead, so its methods are
  functions of that store. The JSON decoder of an input is the argument \<open>json\<close>, from bytes to an error
  text or the decoded fields. Go map iteration in \<^verbatim>\<open>Init\<close> is the order of the list of pairs.
\<close>

definition str_bytes :: "string \<Rightarrow> bytes" where
  "str_bytes s = map (\<lambda>c. of_nat (of_char c)) s"

definition bytes_of :: "bytes option \<Rightarrow> bytes" where
  "bytes_of b = (case b of None \<Rightarrow> [] | Some x \<Rightarrow> x)"

text \<open>\<^verbatim>\<open>bytes.Equal\<close>: a nil slice equals an empty one.\<close>

definition bytes_Equal :: "bytes option \<Rightarrow> bytes option \<Rightarrow> bool" where
  "bytes_Equal a b = (bytes_of a = bytes_of b)"

definition parse_prog :: "string \<Rightarrow> (bytes \<Rightarrow> string + 'i) \<Rightarrow> bytes \<Rightarrow> ('i \<Rightarrow> 'r prog) \<Rightarrow> (string \<Rightarrow> 'r) \<Rightarrow> 'r prog" where
  "parse_prog what json b k fail =
     (case json b of Inl e \<Rightarrow> Return (fail (what @ e)) | Inr i \<Rightarrow> k i)"

definition addr_error_text :: "addr_error \<Rightarrow> string" where
  "addr_error_text e =
     (case e of ErrAddressLength \<Rightarrow> ''unexpected address length'' | ErrDecode \<Rightarrow> ''illegal base64 data'')"

text \<open>\<^verbatim>\<open>DecodeBalance\<close> in a program: too few bytes are an index out of range.\<close>

definition balance_prog :: "bytes option \<Rightarrow> (u64 \<Rightarrow> 'r prog) \<Rightarrow> 'r prog" where
  "balance_prog b k =
     (case DecodeBalance b of None \<Rightarrow> Panic ''runtime error: index out of range'' | Some v \<Rightarrow> k v)"

section \<open>KVDB\<close>

record kv_input =
  kvMethod :: string
  kvKey :: bytes
  kvValue :: bytes

definition keyOwner :: bytes where
  "keyOwner = str_bytes ''owner''"

definition kvdb_invokeSet :: "call_context \<Rightarrow> kv_input \<Rightarrow> string option prog" where
  "kvdb_invokeSet ctx input =
     Read keyOwner (\<lambda>owner.
       if \<not> bytes_Equal owner (cSender ctx) then Return (Some ''sender must be owner'')
       else if kvKey input = [] \<or> kvValue input = [] then Return (Some ''empty key or value'')
       else Write (kvKey input) (Some (kvValue input)) (Return None))"

definition kvdb_queryGet :: "kv_input \<Rightarrow> (string + bytes option) prog" where
  "kvdb_queryGet input =
     (if kvKey input = [] then Return (Inl ''empty key'')
      else Read (kvKey input) (\<lambda>v. Return (Inr v)))"

definition KVDB_Init :: "call_context \<Rightarrow> string option prog" where
  "KVDB_Init ctx = Write keyOwner (cSender ctx) (Return None)"

definition KVDB_Invoke :: "(bytes \<Rightarrow> string + kv_input) \<Rightarrow> call_context \<Rightarrow> string option prog" where
  "KVDB_Invoke json ctx = parse_prog ''failed to parse input: '' json (cInput ctx) (\<lambda>input.
     if kvMethod input = ''set'' then kvdb_invokeSet ctx input
     else Return (Some ''method not found'')) Some"

definition KVDB_Query :: "(bytes \<Rightarrow> string + kv_input) \<Rightarrow> call_context \<Rightarrow> (string + bytes option) prog" where
  "KVDB_Query json ctx = parse_prog ''failed to parse input: '' json (cInput ctx) (\<lambda>input.
     if kvMethod input = ''owner'' then Read keyOwner (\<lambda>v. Return (Inr v))
     else if kvMethod input = ''get'' then kvdb_queryGet input
     else Return (Inl ''method not found'')) Inl"

section \<open>PCoin\<close>

record coin_input =
  coinMethod :: string
  coinDest :: bytes
  coinValue :: u64

definition keyMinter :: bytes where
  "keyMinter = str_bytes ''minter''"

definition keyTotal :: bytes where
  "keyTotal = str_bytes ''total''"

definition pcoin_invokeMint :: "call_context \<Rightarrow> coin_input \<Rightarrow> string option prog" where
  "pcoin_invokeMint ctx input =
     Read keyMinter (\<lambda>minter.
       if \<not> bytes_Equal minter (cSender ctx) then Return (Some ''sender must be minter'')
       else Read keyTotal (\<lambda>t. balance_prog t (\<lambda>total.
            Read (coinDest input) (\<lambda>b. balance_prog b (\<lambda>balance.
              Write keyTotal (Some (EncodeBalance (total + coinValue input)))
                (Write (coinDest input) (Some (EncodeBalance (balance + coinValue input)))
                  (Return None)))))))"

definition coin_invokeTransfer :: "call_context \<Rightarrow> coin_input \<Rightarrow> string option prog" where
  "coin_invokeTransfer ctx input =
     (if bytes_Equal (cSender ctx) (Some (coinDest input)) then Return (Some ''self-transfer is prohibited'')
      else Read (bytes_of (cSender ctx)) (\<lambda>s. balance_prog s (\<lambda>bsctx.
        if bsctx < coinValue input then Return (Some ''not enough balance'')
        else Read (coinDest input) (\<lambda>d. balance_prog d (\<lambda>bdes.
          Write (bytes_of (cSender ctx)) (Some (EncodeBalance (bsctx - coinValue input)))
            (Write (coinDest input) (Some (EncodeBalance (bdes + coinValue input)))
              (Return None)))))))"

definition pcoin_invokeTransfer :: "call_context \<Rightarrow> coin_input \<Rightarrow> string option prog" where
  "pcoin_invokeTransfer ctx input = coin_invokeTransfer ctx input"

definition PCoin_Init :: "call_context \<Rightarrow> string option prog" where
  "PCoin_Init ctx = Write keyMinter (cSender ctx) (Return None)"

definition PCoin_Invoke :: "(bytes \<Rightarrow> string + coin_input) \<Rightarrow> call_context \<Rightarrow> string option prog" where
  "PCoin_Invoke json ctx = parse_prog ''failed to parse input: '' json (cInput ctx) (\<lambda>input.
     case AssertLength (coinDest input) 32 of Some e \<Rightarrow> Return (Some (addr_error_text e))
     | None \<Rightarrow>
        if coinMethod input = ''mint'' then pcoin_invokeMint ctx input
        else if coinMethod input = ''transfer'' then pcoin_invokeTransfer ctx input
        else Return (Some ''method not found'')) Some"

definition PCoin_Query :: "(bytes \<Rightarrow> string + coin_input) \<Rightarrow> call_context \<Rightarrow> (string + bytes option) prog" where
  "PCoin_Query json ctx = parse_prog ''failed to parse input: '' json (cInput ctx) (\<lambda>input.
     case AssertLength (coinDest input) 32 of Some e \<Rightarrow> Return (Inl (addr_error_text e))
     | None \<Rightarrow>
        if coinMethod input = ''minter'' then Read keyMinter (\<lambda>v. Return (Inr v))
        else if coinMethod input = ''total'' then Read keyTotal (\<lambda>v. Return (Inr v))
        else if coinMethod input = ''balance'' then Read (coinDest input) (\<lambda>v. Return (Inr v))
        else Return (Inl ''method not found'')) Inl"

section \<open>XCoin\<close>

fun xcoin_init_loop :: "(string \<times> u64) list \<Rightarrow> string option prog" where
  "xcoin_init_loop [] = Return None"
| "xcoin_init_loop ((k, v) # kvs) =
     (case Address32ToBytes k of None \<Rightarrow> Return (Some (''init xcoin failed: '' @ addr_error_text ErrDecode))
      | Some owner \<Rightarrow>
         (case AssertLength owner 32 of Some e \<Rightarrow> Return (Some (addr_error_text e))
          | None \<Rightarrow> Write owner (Some (EncodeBalance v)) (xcoin_init_loop kvs)))"

definition XCoin_Init :: "(bytes \<Rightarrow> string + (string \<times> u64) list) \<Rightarrow> call_context \<Rightarrow> string option prog" where
  "XCoin_Init json ctx =
     (if cBlockHeight ctx \<noteq> 0 then Return (Some ''xcoin must init at genesis'')
      else parse_prog ''failed to parse init input: '' json (cInput ctx) xcoin_init_loop Some)"

definition xcoin_invokeSet :: "call_context \<Rightarrow> coin_input \<Rightarrow> string option prog" where
  "xcoin_invokeSet ctx input =
     (if \<not> bytes_Equal None (cSender ctx) then Return (Some ''method must be internal'')
      else Write (coinDest input) (Some (EncodeBalance (coinValue input))) (Return None))"

definition xcoin_invokeTransfer :: "call_context \<Rightarrow> coin_input \<Rightarrow> string option prog" where
  "xcoin_invokeTransfer ctx input = coin_invokeTransfer ctx input"

definition XCoin_Invoke :: "(bytes \<Rightarrow> string + coin_input) \<Rightarrow> call_context \<Rightarrow> string option prog" where
  "XCoin_Invoke json ctx = parse_prog ''failed to parse input: '' json (cInput ctx) (\<lambda>input.
     case AssertLength (coinDest input) 32 of Some e \<Rightarrow> Return (Some (addr_error_text e))
     | None \<Rightarrow>
        if coinMethod input = ''set'' then xcoin_invokeSet ctx input
        else if coinMethod input = ''transfer'' then xcoin_invokeTransfer ctx input
        else Return (Some ''method not found'')) Some"

definition XCoin_Query :: "(bytes \<Rightarrow> string + coin_input) \<Rightarrow> call_context \<Rightarrow> (string + bytes option) prog" where
  "XCoin_Query json ctx = parse_prog ''failed to parse input: '' json (cInput ctx) (\<lambda>input.
     case AssertLength (coinDest input) 32 of Some e \<Rightarrow> Return (Inl (addr_error_text e))
     | None \<Rightarrow>
        if coinMethod input = ''balance'' then Read (coinDest input) (\<lambda>v. Return (Inr v))
        else Return (Inl ''method not found'')) Inl"

section \<open>TAddr\<close>

record taddr_input =
  taMethod :: string
  taAddr :: bytes

definition toAddr20 :: "bytes \<Rightarrow> bytes option" where
  "toAddr20 addr = (if length addr < 20 then None else Some (take 20 addr))"

definition toAddr32 :: "bytes \<Rightarrow> bytes" where
  "toAddr32 addr = take 20 (addr @ replicate 20 0) @ str_bytes ''000000000000''"

definition addr20_prog :: "bytes \<Rightarrow> (bytes \<Rightarrow> 'r prog) \<Rightarrow> 'r prog" where
  "addr20_prog addr k =
     (case toAddr20 addr of None \<Rightarrow> Panic ''runtime error: slice bounds out of range'' | Some a \<Rightarrow> k a)"

fun taddr_init_loop :: "string list \<Rightarrow> string option prog" where
  "taddr_init_loop [] = Return None"
| "taddr_init_loop (v # vs) =
     (case Address32ToBytes v of
        None \<Rightarrow> Return (Some (''init taddr chaincode failed: '' @ addr_error_text ErrDecode))
      | Some addr \<Rightarrow>
         (case AssertLength addr 32 of Some e \<Rightarrow> Return (Some (addr_error_text e))
          | None \<Rightarrow> addr20_prog addr (\<lambda>addr20.
              Write addr (Some addr20) (Write addr20 (Some addr) (taddr_init_loop vs)))))"

definition TAddr_Init :: "(bytes \<Rightarrow> string + string list) \<Rightarrow> call_context \<Rightarrow> string option prog" where
  "TAddr_Init json ctx =
     (if cBlockHeight ctx \<noteq> 0 then Return (Some ''taddr chaincode must init at genesis'')
      else parse_prog ''failed to parse init input: '' json (cInput ctx) taddr_init_loop Some)"

definition storeAddr :: "call_context \<Rightarrow> taddr_input \<Rightarrow> string option prog" where
  "storeAddr ctx input =
     (if \<not> bytes_Equal None (cSender ctx) then Return (Some ''method must be internal'')
      else case ValidLength (taAddr input) of Some e \<Rightarrow> Return (Some (addr_error_text e))
      | None \<Rightarrow>
         if length (taAddr input) = 20 then
           Write (taAddr input) (Some (toAddr32 (taAddr input)))
             (Write (toAddr32 (taAddr input)) (Some (taAddr input)) (Return None))
         else addr20_prog (taAddr input) (\<lambda>destAddr.
           Write (taAddr input) (Some destAddr) (Write destAddr (Some (taAddr input)) (Return None))))"

definition queryAddr :: "taddr_input \<Rightarrow> (string + bytes option) prog" where
  "queryAddr input =
     (case ValidLength (taAddr input) of Some e \<Rightarrow> Return (Inl (addr_error_text e))
      | None \<Rightarrow> Read (taAddr input) (\<lambda>destAddr.
          if bytes_of destAddr = [] then Return (Inl ''address not found'') else Return (Inr destAddr)))"

definition TAddr_Invoke :: "(bytes \<Rightarrow> string + taddr_input) \<Rightarrow> call_context \<Rightarrow> string option prog" where
  "TAddr_Invoke json ctx = parse_prog ''failed to parse input: '' json (cInput ctx) (\<lambda>input.
     if taMethod input = ''store'' then storeAddr ctx input
     else Return (Some ''method not found'')) Some"

definition TAddr_Query :: "(bytes \<Rightarrow> string + taddr_input) \<Rightarrow> call_context \<Rightarrow> (string + bytes option) prog" where
  "TAddr_Query json ctx = parse_prog ''failed to parse input: '' json (cInput ctx) (\<lambda>input.
     if taMethod input = ''query'' then queryAddr input
     else Return (Inl ''method not found'')) Inl"

section \<open>SRole\<close>

record srole_input =
  srMethod :: string
  srAddr :: bytes
  srQuota :: u64
  srPoint :: string
  srTopic :: string

record srole_peer =
  spAddr :: bytes
  spQuota :: u64
  spPoint :: string
  spTopic :: string

text \<open>The two loops of \<^verbatim>\<open>Init\<close>: adding the listed peers, then deleting the validators not listed.\<close>

fun srole_add_loop :: "(bytes \<Rightarrow> bytes option) \<Rightarrow> (string \<Rightarrow> (string, string) result) \<Rightarrow> srole_peer list
    \<Rightarrow> role_store \<Rightarrow> (role_store \<times> string option) option" where
  "srole_add_loop get_id parse_addr [] rs = Some (rs, None)"
| "srole_add_loop get_id parse_addr (p # ps) rs =
     (let k = AddressToString (spAddr p)
      in if \<not> IsValidator rs k then
           (case AddValidator get_id parse_addr rs k (spPoint p) (spTopic p) (spQuota p) of
              None \<Rightarrow> None
            | Some (rs, Some e) \<Rightarrow> Some (rs, Some e)
            | Some (rs, None) \<Rightarrow> srole_add_loop get_id parse_addr ps rs)
         else srole_add_loop get_id parse_addr ps rs)"

fun srole_del_loop :: "(bytes \<Rightarrow> bytes option) \<Rightarrow> string list \<Rightarrow> role_store
    \<Rightarrow> (role_store \<times> string option) option" where
  "srole_del_loop get_id [] rs = Some (rs, None)"
| "srole_del_loop get_id (k # ks) rs =
     (case DeleteValidator get_id rs k of
        None \<Rightarrow> None
      | Some (rs, Some e) \<Rightarrow> Some (rs, Some e)
      | Some (rs, None) \<Rightarrow> srole_del_loop get_id ks rs)"

definition SRole_Init :: "(bytes \<Rightarrow> string + int \<times> srole_peer list) \<Rightarrow> (bytes \<Rightarrow> bytes option)
    \<Rightarrow> (string \<Rightarrow> (string, string) result) \<Rightarrow> call_context \<Rightarrow> role_store
    \<Rightarrow> (role_store \<times> string option) option" where
  "SRole_Init json get_id parse_addr ctx rs =
     (if cBlockHeight ctx \<noteq> 0 then Some (rs, Some ''srole chaincode must init at genesis'')
      else case json (cInput ctx) of Inl e \<Rightarrow> Some (rs, Some (''failed to parse init input: '' @ e))
      | Inr (size', peers) \<Rightarrow>
         (case srole_add_loop get_id parse_addr peers (SetWindowSize size' rs) of
            None \<Rightarrow> None
          | Some (rs, Some e) \<Rightarrow> Some (rs, Some e)
          | Some (rs, None) \<Rightarrow>
              let keyMap = map (\<lambda>p. AddressToString (spAddr p)) peers;
                  toDel = filter (\<lambda>k. k \<notin> set keyMap) (map keyStr (validators rs))
              in srole_del_loop get_id toDel rs))"

definition SRole_Invoke :: "(bytes \<Rightarrow> string + srole_input) \<Rightarrow> (bytes \<Rightarrow> bytes option)
    \<Rightarrow> (string \<Rightarrow> (string, string) result) \<Rightarrow> call_context \<Rightarrow> role_store
    \<Rightarrow> (role_store \<times> string option) option" where
  "SRole_Invoke json get_id parse_addr ctx rs =
     (case json (cInput ctx) of Inl e \<Rightarrow> Some (rs, Some (''failed to parse input: '' @ e))
      | Inr input \<Rightarrow>
         (case ValidLength (srAddr input) of Some e \<Rightarrow> Some (rs, Some (addr_error_text e))
          | None \<Rightarrow>
             if srMethod input = ''delete'' then DeleteValidator get_id rs (AddressToString (srAddr input))
             else if srMethod input = ''add'' then
               AddValidator get_id parse_addr rs (AddressToString (srAddr input)) (srPoint input)
                 (srTopic input) (srQuota input)
             else Some (rs, Some ''method not found'')))"

section \<open>Empty and the driver\<close>

definition Empty_Init :: "call_context \<Rightarrow> string option prog" where
  "Empty_Init ctx = Return None"

definition Empty_Invoke :: "call_context \<Rightarrow> string option prog" where
  "Empty_Invoke ctx = Return None"

definition Empty_Query :: "call_context \<Rightarrow> (string + bytes option) prog" where
  "Empty_Query ctx = Return (Inr None)"

datatype native_code = NEmpty | NKVDB | NPCoin | NXCoin | NTAddr | NSRole

definition Native_GetInstance :: "bytes \<Rightarrow> string + native_code" where
  "Native_GetInstance codeID =
     (if codeID = replicate 32 1 then Inr NEmpty
      else if codeID = replicate 32 2 then Inr NKVDB
      else if codeID = replicate 32 3 then Inr NPCoin
      else if codeID = replicate 32 4 then Inr NXCoin
      else if codeID = replicate 32 5 then Inr NTAddr
      else if codeID = replicate 32 6 then Inr NSRole
      else Inl ''unknown native chaincode id'')"

definition Native_Install :: "bytes \<Rightarrow> bytes \<Rightarrow> string option" where
  "Native_Install codeID data = (case Native_GetInstance codeID of Inl e \<Rightarrow> Some e | Inr c \<Rightarrow> None)"

end
