(* ===== verification/Native_Props.thy ===== *)
theory Native_Props
  imports Native Role_Props
begin

text \<open>
  Properties of the native chaincodes over the direct semantics of programs: conservation of coins,
  access control, the address translator's round trip and the role chaincode's fatal input.
\<close>

section \<open>Coins\<close>

text \<open>Accounts are the keys a coin chaincode accepts: 32 bytes, or none.\<close>

definition is_account :: "bytes \<Rightarrow> bool" where
  "is_account k \<longleftrightarrow> length k = 32 \<or> length k = 0"

definition balance :: "(bytes \<Rightarrow> bytes option) \<Rightarrow> bytes \<Rightarrow> u64" where
  "balance st k = (case DecodeBalance (st k) of None \<Rightarrow> 0 | Some v \<Rightarrow> v)"

definition coin_supply :: "(bytes \<Rightarrow> bytes option) \<Rightarrow> bytes set \<Rightarrow> u64" where
  "coin_supply st A = (\<Sum>k\<in>A. balance st k)"

lemma balance_upd: "balance (st(k \<mapsto> EncodeBalance v)) j = (if j = k then v else balance st j)"
  by (simp add: balance_def)

lemma coin_supply_upd:
  assumes "finite A"
  shows "coin_supply (st(k \<mapsto> EncodeBalance v)) A = (if k \<in> A then coin_supply st A - balance st k + v else coin_supply st A)"
proof (cases "k \<in> A")
  case True
  have "(\<Sum>j\<in>A - {k}. balance (st(k \<mapsto> EncodeBalance v)) j) = (\<Sum>j\<in>A - {k}. balance st j)"
    by (intro sum.cong) (simp_all add: balance_upd)
  then show ?thesis
    using True by (simp add: coin_supply_def sum.remove [OF assms True] balance_upd)
next
  case False
  have "(\<Sum>j\<in>A. balance (st(k \<mapsto> EncodeBalance v)) j) = (\<Sum>j\<in>A. balance st j)"
    using False by (intro sum.cong) (auto simp: balance_upd)
  with False show ?thesis by (simp add: coin_supply_def)
qed

lemma keys_not_account [simp]: "\<not> is_account keyTotal" "\<not> is_account keyMinter" "keyTotal \<noteq> keyMinter"
  by (simp_all add: is_account_def keyTotal_def keyMinter_def str_bytes_def)

text \<open>The effect of a transfer: an error and no change, or a move of the value.\<close>

lemma exec_transfer:
  assumes "exec_map (coin_invokeTransfer ctx input) st = (e, st')"
  shows "(e \<noteq> None \<and> st' = st) \<or>
    (e = None \<and> bytes_of (cSender ctx) \<noteq> coinDest input \<and> coinValue input \<le> balance st (bytes_of (cSender ctx)) \<and>
     st' = st(bytes_of (cSender ctx) \<mapsto> EncodeBalance (balance st (bytes_of (cSender ctx)) - coinValue input),
              coinDest input \<mapsto> EncodeBalance (balance st (coinDest input) + coinValue input)))"
  using assms
  by (auto simp: exec_map_def coin_invokeTransfer_def balance_prog_def prog_error_def bytes_Equal_def bytes_of_def
      balance_def Let_def not_less split: if_splits option.splits)

lemma exec_mint:
  assumes "exec_map (pcoin_invokeMint ctx input) st = (e, st')"
  shows "(e \<noteq> None \<and> st' = st) \<or>
    (e = None \<and> bytes_Equal (st keyMinter) (cSender ctx) \<and>
     st' = st(keyTotal \<mapsto> EncodeBalance (balance st keyTotal + coinValue input),
              coinDest input \<mapsto> EncodeBalance (balance st (coinDest input) + coinValue input)))"
  using assms
  by (auto simp: exec_map_def pcoin_invokeMint_def balance_prog_def prog_error_def balance_def Let_def
      split: if_splits option.splits)

lemma transfer_keeps_supply:
  assumes "exec_map (coin_invokeTransfer ctx input) st = (e, st')" and "finite A"
    and "bytes_of (cSender ctx) \<in> A" "coinDest input \<in> A"
  shows "coin_supply st' A = coin_supply st A"
  using exec_transfer [OF assms(1)] assms(2-4) by (auto simp: coin_supply_upd balance_upd)

text \<open>What an invocation of PCoin does: nothing on an error, a mint or a transfer to an account.\<close>

lemma exec_Return_error: "exec_map (Return (Some m)) st = (Some m, st)"
  by (simp add: exec_map_def prog_error_def)

lemma PCoin_Invoke_cases:
  assumes "exec_map (PCoin_Invoke json ctx) st = (e, st')"
  obtains "e \<noteq> None" "st' = st"
  | input where "json (cInput ctx) = Inr input" "is_account (coinDest input)"
      "exec_map (pcoin_invokeMint ctx input) st = (e, st')"
  | input where "json (cInput ctx) = Inr input" "is_account (coinDest input)"
      "exec_map (coin_invokeTransfer ctx input) st = (e, st')"
  using assms that
  by (auto simp: PCoin_Invoke_def parse_prog_def AssertLength_def is_account_def pcoin_invokeTransfer_def exec_Return_error
      split: sum.splits if_splits option.splits)

lemma XCoin_Invoke_cases:
  assumes "exec_map (XCoin_Invoke json ctx) st = (e, st')"
  obtains "e \<noteq> None" "st' = st"
  | input where "json (cInput ctx) = Inr input" "is_account (coinDest input)" "bytes_of (cSender ctx) = []"
  | input where "json (cInput ctx) = Inr input" "is_account (coinDest input)"
      "exec_map (coin_invokeTransfer ctx input) st = (e, st')"
  using assms that
  by (auto simp: XCoin_Invoke_def parse_prog_def AssertLength_def is_account_def xcoin_invokeTransfer_def xcoin_invokeSet_def
      exec_Return_error bytes_Equal_def bytes_of_def split: sum.splits if_splits option.splits)

text \<open>A mint and a transfer keep the recorded total in step with the balances.\<close>

lemma pcoin_keeps_books:
  assumes "exec_map (PCoin_Invoke json ctx) st = (e, st')" and "finite A" and "\<forall>k \<in> A. is_account k"
    and "bytes_of (cSender ctx) \<in> A" and "\<And>input. json (cInput ctx) = Inr input \<Longrightarrow> is_account (coinDest input) \<Longrightarrow> coinDest input \<in> A"
    and "balance st keyTotal = coin_supply st A"
  shows "balance st' keyTotal = coin_supply st' A \<and> st' keyMinter = st keyMinter"
  using assms(1)
proof (cases rule: PCoin_Invoke_cases)
  case 1
  with assms(6) show ?thesis by simp
next
  case (2 input)
  have ne: "keyTotal \<notin> A" "coinDest input \<noteq> keyTotal" "coinDest input \<noteq> keyMinter"
    using assms(3) 2(2) by (auto simp flip: keys_not_account(1))
  have "coinDest input \<in> A" by (rule assms(5) [OF 2(1,2)])
  with exec_mint [OF 2(3)] ne assms(2,6) show ?thesis
    using keys_not_account(3) [symmetric] by (auto simp: coin_supply_upd balance_upd)
next
  case (3 input)
  have dest: "coinDest input \<in> A" by (rule assms(5) [OF 3(1,2)])
  have ne: "k \<noteq> keyTotal \<and> k \<noteq> keyMinter" if "k \<in> A" for k using assms(3) that by auto
  have "st' keyTotal = st keyTotal" "st' keyMinter = st keyMinter"
    using exec_transfer [OF 3(3)] ne [OF dest] ne [OF assms(4)] by auto
  with transfer_keeps_supply [OF 3(3) assms(2,4) dest] assms(6) show ?thesis by (simp add: balance_def)
qed

section \<open>Instances\<close>

definition ex_ctx :: "bytes \<Rightarrow> call_context" where
  "ex_ctx sender = \<lparr>cSender = Some sender, cTransactionHash = None, cBlockHash = None, cBlockHeight = 3, cInput = []\<rparr>"

definition ex_alice :: bytes where
  "ex_alice = replicate 32 1"

definition ex_bob :: bytes where
  "ex_bob = replicate 32 2"

definition ex_pcoin :: "bytes \<Rightarrow> bytes option" where
  "ex_pcoin = [keyMinter \<mapsto> ex_alice, keyTotal \<mapsto> EncodeBalance 10, ex_alice \<mapsto> EncodeBalance 10]"

lemma ex_keys [simp]:
  "ex_alice \<noteq> ex_bob" "ex_bob \<noteq> ex_alice" "is_account ex_alice" "is_account ex_bob" "bytes_of (cSender (ex_ctx s)) = s"
  by (simp_all add: ex_alice_def ex_bob_def is_account_def bytes_of_def ex_ctx_def)

lemma ex_alice_keys [simp]: "ex_alice \<noteq> keyTotal" "ex_alice \<noteq> keyMinter" "ex_bob \<noteq> keyTotal" "ex_bob \<noteq> keyMinter"
  using ex_keys(3,4) keys_not_account by metis+

lemma ex_pcoin_balances: "balance ex_pcoin keyTotal = 10" "balance ex_pcoin ex_alice = 10" "balance ex_pcoin ex_bob = 0"
  using ex_alice_keys(1) [symmetric] by (simp_all add: ex_pcoin_def balance_def) (simp add: DecodeBalance_def)

section \<open>Properties\<close>

text \<open>
  C22. PCoin keeps its books: if the recorded total equals the sum of the balances of a finite set of
  accounts that has the sender and the destination, then it does after every invocation, whatever its
  input and outcome. Both sides are 64-bit sums, so the equality is modulo \<open>2 ^ 64\<close>: minting past the
  width wraps the total and the balances alike.
\<close>

theorem pcoin_conservation:
  assumes "exec_map (PCoin_Invoke json ctx) st = (e, st')" and "finite A" and "\<forall>k \<in> A. is_account k"
    and "bytes_of (cSender ctx) \<in> A" and "\<And>input. json (cInput ctx) = Inr input \<Longrightarrow> is_account (coinDest input) \<Longrightarrow> coinDest input \<in> A"
    and "balance st keyTotal = coin_supply st A"
  shows "balance st' keyTotal = coin_supply st' A \<and> st' keyMinter = st keyMinter"
  using assms by (rule pcoin_keeps_books)

theorem pcoin_conservation_witness:
  "let st' = snd (exec_map (PCoin_Invoke (\<lambda>_. Inr \<lparr>coinMethod = ''transfer'', coinDest = ex_bob, coinValue = 4\<rparr>) (ex_ctx ex_alice)) ex_pcoin)
   in balance st' keyTotal = coin_supply st' {ex_alice, ex_bob} \<and> st' keyMinter = Some ex_alice"
proof -
  let ?json = "\<lambda>_. Inr \<lparr>coinMethod = ''transfer'', coinDest = ex_bob, coinValue = 4\<rparr> :: string + coin_input"
  have "balance ex_pcoin keyTotal = coin_supply ex_pcoin {ex_alice, ex_bob}"
    by (simp add: coin_supply_def ex_pcoin_balances)
  moreover have "ex_pcoin keyMinter = Some ex_alice"
    using ex_alice_keys(2) [symmetric] keys_not_account(3) [symmetric] by (simp add: ex_pcoin_def)
  ultimately show ?thesis
    using pcoin_conservation [of ?json "ex_ctx ex_alice" ex_pcoin _ _ "{ex_alice, ex_bob}", OF prod.collapse [symmetric]]
    by (simp add: Let_def)
qed

text \<open>
  C23. XCoin is not mintable: an invocation with a sender, which every transaction has, leaves the sum of
  the balances of the accounts as it was, and a transfer never takes more than the sender has.
\<close>

theorem xcoin_no_mint:
  assumes "exec_map (XCoin_Invoke json ctx) st = (e, st')" and "finite A" and "bytes_of (cSender ctx) \<noteq> []"
    and "bytes_of (cSender ctx) \<in> A" and "\<And>input. json (cInput ctx) = Inr input \<Longrightarrow> is_account (coinDest input) \<Longrightarrow> coinDest input \<in> A"
  shows "coin_supply st' A = coin_supply st A \<and>
    (st' \<noteq> st \<longrightarrow> (\<exists>input. json (cInput ctx) = Inr input \<and> coinValue input \<le> balance st (bytes_of (cSender ctx))))"
  using assms(1)
proof (cases rule: XCoin_Invoke_cases)
  case (3 input)
  from transfer_keeps_supply [OF 3(3) assms(2,4) assms(5) [OF 3(1,2)]] exec_transfer [OF 3(3)] 3(1)
  show ?thesis by auto
qed (use assms(3) in simp_all)

theorem xcoin_no_mint_witness:
  "let st' = snd (exec_map (XCoin_Invoke (\<lambda>_. Inr \<lparr>coinMethod = ''set'', coinDest = ex_bob, coinValue = 4\<rparr>) (ex_ctx ex_alice)) ex_pcoin)
   in coin_supply st' {ex_alice, ex_bob} = coin_supply ex_pcoin {ex_alice, ex_bob}"
proof -
  let ?json = "\<lambda>_. Inr \<lparr>coinMethod = ''set'', coinDest = ex_bob, coinValue = 4\<rparr> :: string + coin_input"
  have "ex_alice \<noteq> []" by (simp add: ex_alice_def)
  then show ?thesis
    using xcoin_no_mint [of ?json "ex_ctx ex_alice" ex_pcoin _ _ "{ex_alice, ex_bob}", OF prod.collapse [symmetric]]
    by (simp add: Let_def)
qed

text \<open>
  C24. Only the owner writes to a KVDB: an invocation that changes the state has the stored owner as its
  sender, and changes exactly the key of its input, to a value that is not empty.
\<close>

theorem kvdb_owner_only:
  assumes "exec_map (KVDB_Invoke json ctx) st = (e, st')" and "st' \<noteq> st"
  shows "bytes_Equal (st keyOwner) (cSender ctx) \<and>
    (\<exists>input. json (cInput ctx) = Inr input \<and> kvValue input \<noteq> [] \<and> st' = st(kvKey input \<mapsto> kvValue input))"
  using assms
  by (auto simp: exec_map_def KVDB_Invoke_def parse_prog_def kvdb_invokeSet_def prog_error_def Let_def
      split: sum.splits if_splits)

theorem kvdb_owner_only_witness:
  "let st = [keyOwner \<mapsto> ex_alice]; st' = st([5] \<mapsto> [6])
   in exec_map (KVDB_Invoke (\<lambda>_. Inr \<lparr>kvMethod = ''set'', kvKey = [5], kvValue = [6]\<rparr>) (ex_ctx ex_alice)) st = (None, st') \<and>
      bytes_Equal (st keyOwner) (cSender (ex_ctx ex_alice))"
proof -
  let ?st = "[keyOwner \<mapsto> ex_alice]" and ?json = "\<lambda>_. Inr \<lparr>kvMethod = ''set'', kvKey = [5], kvValue = [6]\<rparr> :: string + kv_input"
  have run: "exec_map (KVDB_Invoke ?json (ex_ctx ex_alice)) ?st = (None, ?st([5] \<mapsto> [6]))"
    by (simp add: exec_map_def KVDB_Invoke_def parse_prog_def kvdb_invokeSet_def prog_error_def bytes_Equal_def
        ex_ctx_def bytes_of_def)
  have "?st [5] = None" by (simp add: keyOwner_def str_bytes_def)
  then have "?st([5] \<mapsto> [6]) \<noteq> ?st" by (metis fun_upd_same option.distinct(1))
  from kvdb_owner_only [OF run this] run show ?thesis by (simp add: Let_def)
qed

text \<open>
  C25. The address translator answers in both directions: after a successful store of an address, querying
  it gives its counterpart of the other length, and querying the counterpart gives it back.
\<close>

theorem taddr_store_query:
  assumes "exec_map (storeAddr ctx input) st = (None, st')"
  shows "\<exists>dest. run_query st' (queryAddr input) = Inr (Inr (Some dest)) \<and> length dest \<noteq> length (taAddr input) \<and>
    run_query st' (queryAddr (input\<lparr>taAddr := dest\<rparr>)) = Inr (Inr (Some (taAddr input)))"
proof -
  have l32: "length (toAddr32 a) = 32" for a by (simp add: toAddr32_def str_bytes_def)
  have valid: "length (taAddr input) = 20 \<or> length (taAddr input) = 32"
    using assms by (auto simp: exec_map_def storeAddr_def prog_error_def ValidLength_def Let_def
        split: if_splits option.splits)
  show ?thesis
  proof (cases "length (taAddr input) = 20")
    case True
    then have "st' = st(taAddr input \<mapsto> toAddr32 (taAddr input), toAddr32 (taAddr input) \<mapsto> taAddr input)"
      using assms by (auto simp: exec_map_def storeAddr_def prog_error_def ValidLength_def Let_def split: if_splits)
    moreover have "toAddr32 (taAddr input) \<noteq> taAddr input" "toAddr32 (taAddr input) \<noteq> []"
      using True l32 [of "taAddr input"] by auto
    ultimately show ?thesis
      using True l32 by (intro exI [of _ "toAddr32 (taAddr input)"])
        (auto simp: queryAddr_def ValidLength_def bytes_of_def)
  next
    case False
    with valid have l: "length (taAddr input) = 32" by simp
    let ?d = "take 20 (taAddr input)"
    have "st' = st(taAddr input \<mapsto> ?d, ?d \<mapsto> taAddr input)"
      using assms l by (auto simp: exec_map_def storeAddr_def addr20_prog_def toAddr20_def prog_error_def ValidLength_def Let_def
          split: if_splits)
    moreover have ld: "length ?d = 20" using l by simp
    moreover have "?d \<noteq> taAddr input" "taAddr input \<noteq> []" using l ld by auto
    ultimately show ?thesis
      using l by (intro exI [of _ ?d]) (auto simp: queryAddr_def ValidLength_def bytes_of_def)
  qed
qed

theorem taddr_store_query_witness:
  "exec_map (storeAddr (ex_ctx []) \<lparr>taMethod = ''store'', taAddr = ex_alice\<rparr>) (\<lambda>_. None) =
     (None, [ex_alice \<mapsto> replicate 20 1, replicate 20 1 \<mapsto> ex_alice]) \<and>
   (\<exists>dest. run_query [ex_alice \<mapsto> replicate 20 1, replicate 20 1 \<mapsto> ex_alice]
     (queryAddr \<lparr>taMethod = ''store'', taAddr = dest\<rparr>) = Inr (Inr (Some ex_alice)))"
proof -
  have run: "exec_map (storeAddr (ex_ctx []) \<lparr>taMethod = ''store'', taAddr = ex_alice\<rparr>) (\<lambda>_. None) =
     (None, [ex_alice \<mapsto> replicate 20 1, replicate 20 1 \<mapsto> ex_alice])"
    by (simp add: exec_map_def storeAddr_def addr20_prog_def toAddr20_def prog_error_def ValidLength_def bytes_Equal_def
        ex_ctx_def bytes_of_def ex_alice_def)
  from taddr_store_query [OF run] run show ?thesis by auto
qed

text \<open>
  C36. A transaction of any sender that asks the role chaincode to add a 20-byte address ends the process:
  the address passes the length check, its hexadecimal form decodes as base64 to fewer than 32 bytes, and
  the key parser reports that as fatal.
\<close>

theorem srole_add_fatal:
  assumes "json (cInput ctx) = Inr input" and "srMethod input = ''add''" and "length (srAddr input) = 20"
    and "validatorMap rs (AddressToString (srAddr input)) = None"
  shows "SRole_Invoke json get_id parse_addr ctx rs = None"
proof -
  have "StringToPubKey (AddressToString (srAddr input)) = None"
    using assms(3) b64_hex_length [OF assms(3)]
    by (fastforce simp: StringToPubKey_def AddressToString_def Address32ToBytes_def NewPublicKey_def split: option.split)
  with assms show ?thesis
    by (simp add: SRole_Invoke_def ValidLength_def AddValidator_def)
qed

theorem srole_add_fatal_witness:
  "SRole_Invoke (\<lambda>_. Inr \<lparr>srMethod = ''add'', srAddr = replicate 20 0, srQuota = 1, srPoint = [], srTopic = []\<rparr>)
     (\<lambda>k. Some k) Inr (ex_ctx ex_bob) ex_roles = None"
proof -
  have "b64_decode (hex_encode (replicate 20 0)) \<noteq> Some (replicate 32 1)"
    using b64_hex_length [of "replicate 20 0" "replicate 32 1"] by auto
  then have "hex_encode (replicate 20 0) \<noteq> b64_encode (replicate 32 1)" by (metis b64_roundtrip)
  then have "validatorMap ex_roles (AddressToString (replicate 20 0)) = None"
    by (simp add: ex_roles_def ex_pub_def AddressToString_def)
  then show ?thesis
    using srole_add_fatal [of "\<lambda>_. Inr \<lparr>srMethod = ''add'', srAddr = replicate 20 0, srQuota = 1, srPoint = [], srTopic = []\<rparr>"
        "ex_ctx ex_bob" _ ex_roles "\<lambda>k. Some k" Inr] by simp
qed

end
