(* ===== verification/Executor.thy ===== *)
theory Executor
  imports Chaincode
begin

text \<open>
  The execution engine: the code registry (\<^verbatim>\<open>src/execution/code_registry.go\<close>), the transaction executor
  (\<^verbatim>\<open>src/execution/tx_executer.go\<close>), the block executor (\<^verbatim>\<open>src/execution/blk_executor.go\<close>) and the
  entry points of \<^verbatim>\<open>src/execution/execution.go\<close>. A transaction is executed by a goroutine that stops at
  every state access, so its execution is a thread with a step function. The block executor is a step
  relation on the shared root tracker, the merge index, the jobs handed out and the threads; any worker
  may step at any time, and a read sees the root tracker as it is at that moment. JSON coding and the
  code drivers are arguments. Elapsed times are not modelled.
\<close>

section \<open>The code registry\<close>

record code_info =
  ciDriverType :: u8
  ciCodeID :: bytes

record deployment_input =
  diCodeInfo :: code_info
  diInstallData :: bytes
  diInitInput :: bytes

record code_driver =
  drv_Install :: "bytes \<Rightarrow> bytes \<Rightarrow> string option"
  drv_GetInstance :: "bytes \<Rightarrow> string + chaincode"

type_synonym code_registry = "u8 \<Rightarrow> code_driver option"

record exec_json =
  unmarshal_deploy :: "bytes \<Rightarrow> string + deployment_input"
  marshal_info :: "code_info \<Rightarrow> string + bytes"
  unmarshal_info :: "bytes \<Rightarrow> string + code_info"

definition codeRegistryAddr :: bytes where
  "codeRegistryAddr = replicate 32 0"

definition newCodeRegistry :: code_registry where
  "newCodeRegistry = (\<lambda>_. None)"

definition registerDriver :: "code_registry \<Rightarrow> u8 \<Rightarrow> code_driver \<Rightarrow> code_registry \<times> string option" where
  "registerDriver reg driverType driver =
     (if reg driverType \<noteq> None then (reg, Some ''driver already registered'')
      else (reg(driverType \<mapsto> driver), None))"

definition getDriver :: "code_registry \<Rightarrow> u8 \<Rightarrow> string + code_driver" where
  "getDriver reg driverType =
     (case reg driverType of None \<Rightarrow> Inl ''unknown chaincode driver type'' | Some d \<Rightarrow> Inr d)"

definition install :: "code_registry \<Rightarrow> deployment_input \<Rightarrow> string option" where
  "install reg input =
     (case getDriver reg (ciDriverType (diCodeInfo input)) of Inl e \<Rightarrow> Some e
      | Inr d \<Rightarrow> drv_Install d (ciCodeID (diCodeInfo input)) (diInstallData input))"

definition setCodeInfo :: "exec_json \<Rightarrow> bytes \<Rightarrow> code_info \<Rightarrow> state_tracker \<Rightarrow> state_tracker \<times> string option" where
  "setCodeInfo json codeAddr info st =
     (case marshal_info json info of Inl e \<Rightarrow> (st, Some e)
      | Inr b \<Rightarrow> (setState st codeAddr (Some b), None))"

text \<open>\<^verbatim>\<open>deploy\<close> drops the error of \<^verbatim>\<open>setCodeInfo\<close>, as the code does.\<close>

definition deploy :: "exec_json \<Rightarrow> code_registry \<Rightarrow> bytes \<Rightarrow> deployment_input \<Rightarrow> state_tracker
    \<Rightarrow> state_tracker \<times> (string + chaincode)" where
  "deploy json reg codeAddr input st =
     (case getDriver reg (ciDriverType (diCodeInfo input)) of Inl e \<Rightarrow> (st, Inl e)
      | Inr d \<Rightarrow> (fst (setCodeInfo json codeAddr (diCodeInfo input) st),
                  drv_GetInstance d (ciCodeID (diCodeInfo input))))"

definition getCodeInfo :: "exec_json \<Rightarrow> bytes option \<Rightarrow> string + code_info" where
  "getCodeInfo json b = unmarshal_info json (case b of None \<Rightarrow> [] | Some x \<Rightarrow> x)"

text \<open>\<^verbatim>\<open>getInstance\<close> after the one read it makes, whose value is \<open>b\<close>.\<close>

definition getInstance :: "exec_json \<Rightarrow> code_registry \<Rightarrow> bytes option \<Rightarrow> string + chaincode" where
  "getInstance json reg b =
     (case getCodeInfo json b of Inl e \<Rightarrow> Inl e
      | Inr info \<Rightarrow> (case getDriver reg (ciDriverType info) of Inl e \<Rightarrow> Inl e
                     | Inr d \<Rightarrow> drv_GetInstance d (ciCodeID info)))"

section \<open>The transaction executor\<close>

record exec_env =
  envJson :: exec_json
  envReg :: code_registry
  envBlk :: block

datatype phase =
    Lookup
  | Running "state_tracker list" state_tracker "string option prog"
  | Finished "string option"

record tx_thread =
  thTrk :: state_tracker
  thPhase :: phase

definition makeCallContext :: "exec_env \<Rightarrow> transaction \<Rightarrow> bytes \<Rightarrow> call_context" where
  "makeCallContext env tx input =
     CallContextTx_ctx \<lparr>ctxBlock = Some (envBlk env), ctxTransaction = Some tx, RawSender = None, RawInput = input\<rparr>"

text \<open>
  \<^verbatim>\<open>executeDeployment\<close> up to the call of \<^verbatim>\<open>Init\<close>: the registry entry is written to a tracker of its own,
  which is merged before the one of \<^verbatim>\<open>Init\<close>.
\<close>

definition executeDeployment :: "exec_env \<Rightarrow> transaction \<Rightarrow> phase" where
  "executeDeployment env tx =
     (case unmarshal_deploy (envJson env) (txInput (tx_data tx)) of Inl e \<Rightarrow> Finished (Some e)
      | Inr input \<Rightarrow>
         (let (regTrk, cc) = deploy (envJson env) (envReg env) (txHash (tx_data tx)) input (Spawn codeRegistryAddr)
          in case cc of Inl e \<Rightarrow> Finished (Some e)
             | Inr cc \<Rightarrow> Running [regTrk] (Spawn (txHash (tx_data tx)))
                 (cc_Init cc (makeCallContext env tx (diInitInput input)))))"

definition start_tx :: "exec_env \<Rightarrow> transaction \<Rightarrow> tx_thread" where
  "start_tx env tx =
     \<lparr>thTrk = Spawn [],
      thPhase = (if txCodeAddr (tx_data tx) = [] then executeDeployment env tx else Lookup)\<rparr>"

text \<open>
  One step of a thread with the shared root tracker \<open>root\<close>: the registry lookup of \<^verbatim>\<open>executeInvoke\<close>, one
  state access of the chaincode, or the end of it with the merge into the transaction's tracker.
\<close>

definition merge_all :: "state_tracker list \<Rightarrow> state_tracker \<Rightarrow> state_tracker" where
  "merge_all cs trk = fold (\<lambda>c t. Merge t c) cs trk"

definition lookup_phase :: "exec_env \<Rightarrow> transaction \<Rightarrow> bytes option \<Rightarrow> phase" where
  "lookup_phase env tx b =
     (case getInstance (envJson env) (envReg env) b of Inl e \<Rightarrow> Finished (Some e)
      | Inr cc \<Rightarrow> Running [] (Spawn (txCodeAddr (tx_data tx)))
          (cc_Invoke cc (makeCallContext env tx (txInput (tx_data tx)))))"

definition tstep :: "exec_env \<Rightarrow> transaction \<Rightarrow> (bytes \<Rightarrow> bytes option) \<Rightarrow> state_tracker \<Rightarrow> tx_thread
    \<Rightarrow> tx_thread option" where
  "tstep env tx store root th =
     (case thPhase th of
        Finished e \<Rightarrow> None
      | Lookup \<Rightarrow>
          (let (stk, b) = getState store [Spawn codeRegistryAddr, thTrk th, root] (txCodeAddr (tx_data tx))
           in Some \<lparr>thTrk = stk ! 1, thPhase = lookup_phase env tx b\<rparr>)
      | Running regs it p \<Rightarrow>
         (case p of
            Return None \<Rightarrow> Some \<lparr>thTrk = merge_all (regs @ [it]) (thTrk th), thPhase = Finished None\<rparr>
          | Return (Some e) \<Rightarrow> Some (th\<lparr>thPhase := Finished (Some e)\<rparr>)
          | Panic m \<Rightarrow> Some (th\<lparr>thPhase := Finished (Some (panic_error m))\<rparr>)
          | Write k v p' \<Rightarrow> Some (th\<lparr>thPhase := Running regs (setState it k v) p'\<rparr>)
          | Read k f \<Rightarrow>
              (let (stk, v) = getState store [it, thTrk th, root] k
               in Some \<lparr>thTrk = stk ! 1, thPhase = Running regs (stk ! 0) (f v)\<rparr>)))"

text \<open>A thread run to its end while the root tracker does not change.\<close>

definition complete :: "exec_env \<Rightarrow> transaction \<Rightarrow> (bytes \<Rightarrow> bytes option) \<Rightarrow> state_tracker \<Rightarrow> tx_thread \<Rightarrow> tx_thread" where
  "complete env tx store root th =
     (let (stk, b) = getState store [Spawn codeRegistryAddr, thTrk th, root] (txCodeAddr (tx_data tx));
          th = (if thPhase th = Lookup then \<lparr>thTrk = stk ! 1, thPhase = lookup_phase env tx b\<rparr> else th)
      in case thPhase th of
           Running regs it p \<Rightarrow>
             (let (r, it, base) = run_stack store p it [thTrk th, root]
              in case prog_error r of
                   None \<Rightarrow> \<lparr>thTrk = merge_all (regs @ [it]) (base ! 0), thPhase = Finished None\<rparr>
                 | Some e \<Rightarrow> \<lparr>thTrk = base ! 0, thPhase = Finished (Some e)\<rparr>)
         | _ \<Rightarrow> th)"

definition thread_error :: "tx_thread \<Rightarrow> string option" where
  "thread_error th = (case thPhase th of Finished e \<Rightarrow> e | _ \<Rightarrow> None)"

definition mk_commit :: "exec_env \<Rightarrow> transaction \<Rightarrow> string option \<Rightarrow> tx_commit" where
  "mk_commit env tx e =
     \<lparr>tcHash = txHash (tx_data tx), tcBlockHash = blkHash (blk_data (envBlk env)),
      tcBlockHeight = blkHeight (blk_data (envBlk env)), tcError = (case e of None \<Rightarrow> '''' | Some m \<Rightarrow> m)\<rparr>"

definition timeout_error :: "string option" where
  "timeout_error = Some ''tx execution timeout''"

section \<open>The block executor\<close>

record blk_exec =
  rootTrk :: state_tracker
  mergeIdx :: nat
  nextJob :: nat
  threads :: "nat \<Rightarrow> tx_thread option"
  txCommits :: "nat \<Rightarrow> tx_commit option"

definition exec_start :: blk_exec where
  "exec_start = \<lparr>rootTrk = NewStateTracker [], mergeIdx = 0, nextJob = 0, threads = (\<lambda>_. None), txCommits = (\<lambda>_. None)\<rparr>"

text \<open>\<^verbatim>\<open>mergeTxStateChanges\<close> once the thread and the commit of transaction \<open>i\<close> are final.\<close>

definition merge_tx :: "nat \<Rightarrow> tx_thread \<Rightarrow> tx_commit \<Rightarrow> blk_exec \<Rightarrow> blk_exec" where
  "merge_tx i th c s =
     s\<lparr>rootTrk := (if tcError c \<noteq> '''' then rootTrk s else Merge (rootTrk s) (thTrk th)),
       mergeIdx := mergeIdx s + 1, threads := (threads s)(i := None), txCommits := (txCommits s)(i \<mapsto> c)\<rparr>"

text \<open>
  The steps: a free worker takes the next job; a thread makes a step (also after its timeout, since the
  goroutine goes on); a finished thread delivers its commit; a thread times out, when \<open>to\<close> allows it; and
  the transaction whose turn it is merges, after a second execution if a key it read has changed. Only
  it can change the root tracker then, so the second execution runs with a fixed root.
\<close>

inductive bstep :: "exec_env \<Rightarrow> (bytes \<Rightarrow> bytes option) \<Rightarrow> transaction list \<Rightarrow> nat \<Rightarrow> bool \<Rightarrow> blk_exec \<Rightarrow> blk_exec \<Rightarrow> bool"
  for env store txs limit "to" where
  take_job: "nextJob s < length txs \<Longrightarrow> nextJob s < mergeIdx s + limit \<Longrightarrow>
     bstep env store txs limit to s
       (s\<lparr>nextJob := nextJob s + 1, threads := (threads s)(nextJob s \<mapsto> start_tx env (txs ! nextJob s))\<rparr>)"
| run: "threads s i = Some th \<Longrightarrow> tstep env (txs ! i) store (rootTrk s) th = Some th' \<Longrightarrow>
     bstep env store txs limit to s (s\<lparr>threads := (threads s)(i \<mapsto> th')\<rparr>)"
| finish: "threads s i = Some th \<Longrightarrow> thPhase th = Finished e \<Longrightarrow> txCommits s i = None \<Longrightarrow>
     bstep env store txs limit to s (s\<lparr>txCommits := (txCommits s)(i \<mapsto> mk_commit env (txs ! i) e)\<rparr>)"
| timeout: "to \<Longrightarrow> threads s i = Some th \<Longrightarrow> txCommits s i = None \<Longrightarrow>
     bstep env store txs limit to s (s\<lparr>txCommits := (txCommits s)(i \<mapsto> mk_commit env (txs ! i) timeout_error)\<rparr>)"
| merge: "threads s (mergeIdx s) = Some th \<Longrightarrow> txCommits s (mergeIdx s) = Some c \<Longrightarrow>
     \<not> HasDependencyChanges (rootTrk s) (thTrk th) \<Longrightarrow>
     bstep env store txs limit to s (merge_tx (mergeIdx s) th c s)"
| merge_again: "threads s (mergeIdx s) = Some th \<Longrightarrow> txCommits s (mergeIdx s) = Some c \<Longrightarrow>
     HasDependencyChanges (rootTrk s) (thTrk th) \<Longrightarrow>
     th' = complete env (txs ! mergeIdx s) store (rootTrk s) (start_tx env (txs ! mergeIdx s)) \<Longrightarrow>
     c' = mk_commit env (txs ! mergeIdx s) (thread_error th') \<or>
       to \<and> c' = mk_commit env (txs ! mergeIdx s) timeout_error \<Longrightarrow>
     bstep env store txs limit to s (merge_tx (mergeIdx s) th' c' s)"

definition exec_result :: "exec_env \<Rightarrow> blk_exec \<Rightarrow> nat \<Rightarrow> block_commit \<times> tx_commit list" where
  "exec_result env s n =
     (\<lparr>bcHash = blkHash (blk_data (envBlk env)), bcOldBlockTxs = [],
       bcStateChanges = map (\<lambda>(k, v). \<lparr>scKey = k, scValue = v, scPrevValue = None, scTreeIndex = None,
          scPrevTreeIndex = None\<rparr>) (GetStateChanges (rootTrk s)),
       bcLeafCount = [], bcMerkleRoot = None\<rparr>,
      map (\<lambda>i. the (txCommits s i)) [0..<n])"

section \<open>Serial execution\<close>

text \<open>
  The specification: the transactions one after the other, each to its end on the state its
  predecessors left; a transaction with its flag set is skipped with the timeout error.
\<close>

definition serial_step :: "exec_env \<Rightarrow> (bytes \<Rightarrow> bytes option) \<Rightarrow> transaction \<times> bool
    \<Rightarrow> state_tracker \<times> tx_commit list \<Rightarrow> state_tracker \<times> tx_commit list" where
  "serial_step env store = (\<lambda>(tx, timed_out) (root, cs).
     if timed_out then (root, cs @ [mk_commit env tx timeout_error])
     else let th = complete env tx store root (start_tx env tx); c = mk_commit env tx (thread_error th)
          in (if tcError c \<noteq> '''' then root else Merge root (thTrk th), cs @ [c]))"

definition serial :: "exec_env \<Rightarrow> (bytes \<Rightarrow> bytes option) \<Rightarrow> transaction list \<Rightarrow> bool list
    \<Rightarrow> state_tracker \<times> tx_commit list" where
  "serial env store txs tos = fold (serial_step env store) (zip txs tos) (NewStateTracker [], [])"

section \<open>Entry points\<close>

text \<open>\<^verbatim>\<open>MockExecute\<close> commits every transaction of a block unexecuted.\<close>

definition MockExecute :: "block \<Rightarrow> block_commit \<times> tx_commit list" where
  "MockExecute blk =
     (\<lparr>bcHash = blkHash (blk_data blk), bcOldBlockTxs = [], bcStateChanges = [], bcLeafCount = [],
       bcMerkleRoot = None\<rparr>,
      map (\<lambda>h. \<lparr>tcHash = h, tcBlockHash = blkHash (blk_data blk), tcBlockHeight = blkHeight (blk_data blk),
                tcError = ''''\<rparr>) (blkTransactions (blk_data blk)))"

text \<open>
  \<^verbatim>\<open>Query\<close>: every read goes to the verified state, which may panic; \<open>verify k\<close> is the store's
  \<^verbatim>\<open>VerifyState\<close> with a panic as the left side. The recovered panic is the error.
\<close>

primrec run_verified :: "(bytes \<Rightarrow> string + bytes option) \<Rightarrow> bytes \<Rightarrow> 'r prog \<Rightarrow> string + 'r" where
  "run_verified verify prefix (Return r) = Inr r"
| "run_verified verify prefix (Panic m) = Inl m"
| "run_verified verify prefix (Write k v p) = run_verified verify prefix p"
| "run_verified verify prefix (Read k f) =
     (case verify (ConcatBytes [prefix, k]) of Inl m \<Rightarrow> Inl m | Inr v \<Rightarrow> run_verified verify prefix (f v))"

definition Query :: "exec_json \<Rightarrow> code_registry \<Rightarrow> (bytes \<Rightarrow> string + bytes option) \<Rightarrow> bytes \<Rightarrow> bytes
    \<Rightarrow> bytes option \<Rightarrow> string + bytes option" where
  "Query json reg verify codeAddr input sender =
     (case verify (ConcatBytes [codeRegistryAddr, codeAddr]) of Inl m \<Rightarrow> Inl m
      | Inr b \<Rightarrow>
         (case getInstance json reg b of Inl e \<Rightarrow> Inl e
          | Inr cc \<Rightarrow>
             (case run_verified verify codeAddr (cc_Query cc (CallContextQuery_ctx sender input)) of
                Inl m \<Rightarrow> Inl m | Inr r \<Rightarrow> r)))"

definition VerifyTx :: "exec_json \<Rightarrow> code_registry \<Rightarrow> pb_transaction \<Rightarrow> string option" where
  "VerifyTx json reg tx =
     (if txCodeAddr tx \<noteq> [] then None
      else case unmarshal_deploy json (txInput tx) of Inl e \<Rightarrow> Some e | Inr input \<Rightarrow> install reg input)"

end
