(* ===== verification/Executor_Correct.thy ===== *)
theory Executor_Correct
  imports Executor
begin

text \<open>
  Correctness of concurrent block execution: every completed run of the block executor, in any
  interleaving of its workers, has the root tracker and the commits of the serial execution; and from
  every reachable state a completed one is reachable. The key is what a thread that saw an older root
  knows at its merge: if no key it read has changed, its run is one on the final root.
\<close>

section \<open>Threads\<close>

definition root_ok :: "state_tracker \<Rightarrow> bool" where
  "root_ok r \<longleftrightarrow> keyPrefix r = [] \<and> \<not> trackDep r"

definition trk_ok :: "state_tracker \<Rightarrow> bool" where
  "trk_ok t \<longleftrightarrow> keyPrefix t = [] \<and> trackDep t"

definition deps :: "tx_thread \<Rightarrow> bytes set" where
  "deps th = set (dependencies (thTrk th))"

lemma getState_3:
  assumes "trk_ok t" and "root_ok r"
  shows "getState store [a, t, r] k =
    (let k' = keyPrefix a @ k; a' = setDependency a k'; t' = setDependency t k'
     in case map_of (changes a) k' of Some v \<Rightarrow> ([a', t, r], v)
        | None \<Rightarrow> (case map_of (changes t) k' of Some v \<Rightarrow> ([a', t', r], v)
                   | None \<Rightarrow> ([a', t', r], view r store k')))"
proof -
  have "setDependency r k' = r" for k' using assms(2) by (simp add: root_ok_def setDependency_def)
  with assms show ?thesis
    by (auto simp: root_ok_def trk_ok_def ConcatBytes_def Let_def view_def split: option.split)
qed

declare getState.simps [simp del]

lemma trk_ok_setDependency [simp]: "trk_ok (setDependency t k) = trk_ok t"
  by (simp add: trk_ok_def)

lemma trk_ok_merge_all [simp]: "trk_ok (merge_all cs t) = trk_ok t"
  unfolding merge_all_def by (induction cs arbitrary: t) (simp_all add: trk_ok_def)

lemma deps_merge_all [simp]: "dependencies (merge_all cs t) = dependencies t"
  unfolding merge_all_def by (induction cs arbitrary: t) simp_all

lemma getState_3_len: "trk_ok t \<Longrightarrow> root_ok r \<Longrightarrow> \<exists>a' t' v. getState store [a, t, r] k = ([a', t', r], v) \<and> trk_ok t' \<and>
    set (dependencies t) \<subseteq> set (dependencies t')"
  by (auto simp: getState_3 Let_def split: option.split)

text \<open>A read that sees one root sees another if the key, recorded as a dependency, is in neither.\<close>

lemma getState_3_cong:
  assumes "trk_ok t" "root_ok r" "root_ok R" "keys_of r \<subseteq> keys_of R"
    and "getState store [a, t, r] k = ([a', t', r], v)" and "set (dependencies t') \<inter> keys_of R = {}"
  shows "getState store [a, t, R] k = ([a', t', R], v)"
proof -
  let ?k = "keyPrefix a @ k"
  show ?thesis
  proof (cases "map_of (changes a) ?k = None \<and> map_of (changes t) ?k = None")
    case True
    then have "t' = setDependency t ?k" "v = view r store ?k" "a' = setDependency a ?k"
      using assms(1,2,5) by (auto simp: getState_3 Let_def)
    moreover from this have "?k \<notin> keys_of R" using assms(1,6) by (auto simp: trk_ok_def)
    ultimately have "view r store ?k = view R store ?k" using assms(4) view_other by (metis subsetD)
    with True assms(1,2,3,5) show ?thesis by (auto simp: getState_3 Let_def)
  next
    case False
    with assms(1,2,3,5) show ?thesis by (auto simp: getState_3 Let_def split: option.splits)
  qed
qed

lemma tstep_trk_ok:
  assumes "tstep env tx store root th = Some th'" and "trk_ok (thTrk th)" and "root_ok root"
  shows "trk_ok (thTrk th')" "deps th \<subseteq> deps th'"
proof -
  have "trk_ok (thTrk th') \<and> deps th \<subseteq> deps th'"
  proof (cases "thPhase th")
    case Lookup
    obtain a' t' v where "getState store [Spawn codeRegistryAddr, thTrk th, root] (txCodeAddr (tx_data tx)) = ([a', t', root], v)"
        "trk_ok t'" "set (dependencies (thTrk th)) \<subseteq> set (dependencies t')"
      using getState_3_len [OF assms(2,3)] by blast
    with assms(1) Lookup show ?thesis by (auto simp: tstep_def deps_def)
  next
    case (Running regs it p)
    then show ?thesis
    proof (cases p)
      case (Read k f)
      obtain a' t' v where "getState store [it, thTrk th, root] k = ([a', t', root], v)"
          "trk_ok t'" "set (dependencies (thTrk th)) \<subseteq> set (dependencies t')"
        using getState_3_len [OF assms(2,3)] by blast
      with Running Read assms(1) show ?thesis by (auto simp: tstep_def deps_def)
    qed (use assms in \<open>auto simp: tstep_def deps_def split: option.splits\<close>)
  next
    case (Finished e)
    with assms(1) show ?thesis by (simp add: tstep_def)
  qed
  then show "trk_ok (thTrk th')" "deps th \<subseteq> deps th'" by auto
qed

lemma tstep_cong:
  assumes "tstep env tx store r th = Some th'" and "trk_ok (thTrk th)" and "root_ok r" "root_ok R"
    and "keys_of r \<subseteq> keys_of R" and "deps th' \<inter> keys_of R = {}"
  shows "tstep env tx store R th = Some th'"
proof (cases "thPhase th")
  case Lookup
  obtain a' t' v where g: "getState store [Spawn codeRegistryAddr, thTrk th, r] (txCodeAddr (tx_data tx)) = ([a', t', r], v)"
    using getState_3_len [OF assms(2,3)] by blast
  then have "set (dependencies t') \<inter> keys_of R = {}"
    using assms(1,6) Lookup by (auto simp: tstep_def deps_def)
  from getState_3_cong [OF assms(2-5) g this] g assms(1) Lookup show ?thesis by (simp add: tstep_def)
next
  case (Running regs it p)
  show ?thesis
  proof (cases p)
    case (Read k f)
    obtain a' t' v where g: "getState store [it, thTrk th, r] k = ([a', t', r], v)"
      using getState_3_len [OF assms(2,3)] by blast
    then have "set (dependencies t') \<inter> keys_of R = {}"
      using assms(1,6) Running Read by (auto simp: tstep_def deps_def)
    from getState_3_cong [OF assms(2-5) g this] g assms(1) Running Read show ?thesis by (simp add: tstep_def)
  qed (use assms(1) Running in \<open>auto simp: tstep_def\<close>)
next
  case (Finished e)
  with assms(1) show ?thesis by (simp add: tstep_def)
qed

section \<open>Running to the end\<close>

lemma complete_Finished: "thPhase th = Finished e \<Longrightarrow> complete env tx store root th = th"
  by (simp add: complete_def Let_def case_prod_unfold)

lemma complete_Running:
  "complete env tx store root \<lparr>thTrk = t, thPhase = Running regs it p\<rparr> =
     (let (r, it, base) = run_stack store p it [t, root]
      in case prog_error r of
           None \<Rightarrow> \<lparr>thTrk = merge_all (regs @ [it]) (base ! 0), thPhase = Finished None\<rparr>
         | Some e \<Rightarrow> \<lparr>thTrk = base ! 0, thPhase = Finished (Some e)\<rparr>)"
  by (simp add: complete_def Let_def case_prod_unfold)

lemma complete_Lookup:
  assumes "getState store [Spawn codeRegistryAddr, t, root] (txCodeAddr (tx_data tx)) = ([a', t', root], v)"
  shows "complete env tx store root \<lparr>thTrk = t, thPhase = Lookup\<rparr> =
    complete env tx store root \<lparr>thTrk = t', thPhase = lookup_phase env tx v\<rparr>"
  using assms by (auto simp: complete_def Let_def lookup_phase_def case_prod_unfold split: sum.split)

text \<open>A step does not change what the rest of the run gives.\<close>

lemma complete_tstep:
  assumes "tstep env tx store root th = Some th'" and "trk_ok (thTrk th)" and "root_ok root"
  shows "complete env tx store root th = complete env tx store root th'"
proof -
  obtain t ph where th: "th = \<lparr>thTrk = t, thPhase = ph\<rparr>" by (cases th)
  have t: "trk_ok t" using assms(2) by (simp add: th)
  show ?thesis
  proof (cases ph)
    case Lookup
    obtain a' t' v where g: "getState store [Spawn codeRegistryAddr, t, root] (txCodeAddr (tx_data tx)) = ([a', t', root], v)"
      using getState_3_len [OF t assms(3)] by blast
    with assms(1) show ?thesis using complete_Lookup [OF g] by (simp add: th Lookup tstep_def)
  next
    case (Running regs it p)
    show ?thesis
    proof (cases p)
      case (Read k f)
      obtain a' t' v where g: "getState store [it, t, root] k = ([a', t', root], v)"
        using getState_3_len [OF t assms(3)] by blast
      with assms(1) have "th' = \<lparr>thTrk = t', thPhase = Running regs a' (f v)\<rparr>"
        by (simp add: th Running Read tstep_def)
      then show ?thesis using g by (simp add: th Running Read complete_Running)
    next
      case (Return e)
      with assms(1) show ?thesis
        by (cases e) (auto simp: th Running tstep_def complete_Running complete_Finished prog_error_def Let_def)
    next
      case (Panic m)
      with assms(1) show ?thesis
        by (auto simp: th Running tstep_def complete_Running complete_Finished prog_error_def Let_def)
    next
      case (Write k v p')
      with assms(1) show ?thesis by (auto simp: th Running tstep_def complete_Running)
    qed
  next
    case (Finished e)
    with assms(1) show ?thesis by (simp add: th tstep_def)
  qed
qed

lemma start_trk_ok [simp]: "trk_ok (thTrk (start_tx env tx))" "deps (start_tx env tx) = {}"
  by (simp_all add: start_tx_def trk_ok_def deps_def)

text \<open>Every thread gets to its end by its own steps.\<close>

lemma thread_finishes_Running:
  assumes "root_ok root" and "trk_ok t"
  shows "\<exists>th e. (\<lambda>a b. tstep env tx store root a = Some b)\<^sup>*\<^sup>* \<lparr>thTrk = t, thPhase = Running regs it p\<rparr> th \<and> thPhase th = Finished e"
  using assms(2)
proof (induction p arbitrary: t it)
  case (Return e)
  have "\<exists>th. tstep env tx store root \<lparr>thTrk = t, thPhase = Running regs it (Return e)\<rparr> = Some th \<and> thPhase th = Finished e"
    by (cases e) (simp_all add: tstep_def)
  then show ?case by blast
next
  case (Panic m)
  have "\<exists>th. tstep env tx store root \<lparr>thTrk = t, thPhase = Running regs it (Panic m)\<rparr> = Some th \<and>
      thPhase th = Finished (Some (panic_error m))"
    by (simp add: tstep_def)
  then show ?case by blast
next
  case (Write k v p)
  have "tstep env tx store root \<lparr>thTrk = t, thPhase = Running regs it (Write k v p)\<rparr> =
      Some \<lparr>thTrk = t, thPhase = Running regs (setState it k v) p\<rparr>"
    by (simp add: tstep_def)
  with Write.IH [OF Write.prems] show ?case by (meson converse_rtranclp_into_rtranclp)
next
  case (Read k f)
  obtain a' t' v where g: "getState store [it, t, root] k = ([a', t', root], v)" and t': "trk_ok t'"
    using getState_3_len [OF Read.prems assms(1)] by blast
  have "tstep env tx store root \<lparr>thTrk = t, thPhase = Running regs it (Read k f)\<rparr> =
      Some \<lparr>thTrk = t', thPhase = Running regs a' (f v)\<rparr>"
    by (simp add: tstep_def g)
  with Read.IH [OF rangeI t'] show ?case by (meson converse_rtranclp_into_rtranclp)
qed

lemma thread_finishes:
  assumes "root_ok root" and "trk_ok (thTrk th)"
  shows "\<exists>th' e. (\<lambda>a b. tstep env tx store root a = Some b)\<^sup>*\<^sup>* th th' \<and> thPhase th' = Finished e"
proof -
  obtain t ph where th: "th = \<lparr>thTrk = t, thPhase = ph\<rparr>" by (cases th)
  have t: "trk_ok t" using assms(2) by (simp add: th)
  show ?thesis
  proof (cases ph)
    case Lookup
    obtain a' t' v where g: "getState store [Spawn codeRegistryAddr, t, root] (txCodeAddr (tx_data tx)) = ([a', t', root], v)"
        and t': "trk_ok t'"
      using getState_3_len [OF t assms(1)] by blast
    have step: "tstep env tx store root th = Some \<lparr>thTrk = t', thPhase = lookup_phase env tx v\<rparr>"
      by (simp add: th Lookup tstep_def g)
    show ?thesis
    proof (cases "lookup_phase env tx v")
      case (Running regs it p)
      with thread_finishes_Running [OF assms(1) t'] step show ?thesis by (metis (mono_tags) converse_rtranclp_into_rtranclp)
    next
      case (Finished e)
      with step show ?thesis by (metis (mono_tags) r_into_rtranclp tx_thread.select_convs(2))
    qed (simp add: lookup_phase_def split: sum.splits)
  next
    case (Running regs it p)
    with thread_finishes_Running [OF assms(1) t] th show ?thesis by simp
  next
    case (Finished e)
    with th show ?thesis by (intro exI [of _ th] exI [of _ e]) simp
  qed
qed

lemma complete_ends: "\<exists>e. thPhase (complete env tx store root th) = Finished e"
proof -
  have "\<exists>e. thPhase (complete env tx store root \<lparr>thTrk = t, thPhase = Running regs it p\<rparr>) = Finished e" for t regs it p
    by (auto simp: complete_Running Let_def case_prod_unfold split: option.split)
  then show ?thesis
    by (auto simp: complete_def Let_def case_prod_unfold lookup_phase_def split: phase.splits sum.splits option.splits)
qed

section \<open>The invariant of a run\<close>

text \<open>
  A thread of a transaction, while \<open>root\<close> is the root tracker: for every later root that has none of
  the keys it has read, running it on gives what running the transaction from the start gives.
\<close>

definition thread_inv :: "exec_env \<Rightarrow> transaction \<Rightarrow> (bytes \<Rightarrow> bytes option) \<Rightarrow> state_tracker \<Rightarrow> tx_thread \<Rightarrow> bool" where
  "thread_inv env tx store root th \<longleftrightarrow>
     trk_ok (thTrk th) \<and>
     (\<forall>R. root_ok R \<and> keys_of root \<subseteq> keys_of R \<and> deps th \<inter> keys_of R = {} \<longrightarrow>
        complete env tx store R (start_tx env tx) = complete env tx store R th)"

lemma thread_inv_start: "thread_inv env tx store root (start_tx env tx)"
  by (simp add: thread_inv_def)

lemma thread_inv_step:
  assumes "thread_inv env tx store root th" and "tstep env tx store root th = Some th'" and "root_ok root"
  shows "thread_inv env tx store root th'"
  unfolding thread_inv_def
proof (intro conjI allI impI)
  have ok: "trk_ok (thTrk th)" using assms(1) by (simp add: thread_inv_def)
  show "trk_ok (thTrk th')" by (rule tstep_trk_ok [OF assms(2) ok assms(3)])
  fix R assume R: "root_ok R \<and> keys_of root \<subseteq> keys_of R \<and> deps th' \<inter> keys_of R = {}"
  then have "tstep env tx store R th = Some th'"
    using tstep_cong [OF assms(2) ok assms(3)] by blast
  then have "complete env tx store R th = complete env tx store R th'"
    using complete_tstep ok R by blast
  moreover have "deps th \<inter> keys_of R = {}"
    using tstep_trk_ok(2) [OF assms(2) ok assms(3)] R by blast
  ultimately show "complete env tx store R (start_tx env tx) = complete env tx store R th'"
    using assms(1) R unfolding thread_inv_def by metis
qed

lemma thread_inv_mono: "thread_inv env tx store root th \<Longrightarrow> keys_of root \<subseteq> keys_of root' \<Longrightarrow> thread_inv env tx store root' th"
  unfolding thread_inv_def by (meson order_trans)

definition job_inv :: "exec_env \<Rightarrow> (bytes \<Rightarrow> bytes option) \<Rightarrow> transaction list \<Rightarrow> bool \<Rightarrow> blk_exec \<Rightarrow> nat \<Rightarrow> bool" where
  "job_inv env store txs to s i \<longleftrightarrow>
     (\<exists>th. threads s i = Some th \<and> thread_inv env (txs ! i) store (rootTrk s) th \<and>
        (\<forall>c. txCommits s i = Some c \<longrightarrow> to \<and> c = mk_commit env (txs ! i) timeout_error \<or>
           (\<exists>e. thPhase th = Finished e \<and> c = mk_commit env (txs ! i) e)))"

definition merged_inv :: "exec_env \<Rightarrow> (bytes \<Rightarrow> bytes option) \<Rightarrow> transaction list \<Rightarrow> bool \<Rightarrow> blk_exec \<Rightarrow> bool" where
  "merged_inv env store txs to s \<longleftrightarrow>
     (\<exists>tos. length tos = mergeIdx s \<and> (\<not> to \<longrightarrow> tos = replicate (mergeIdx s) False) \<and>
        serial env store (take (mergeIdx s) txs) tos = (rootTrk s, map (\<lambda>i. the (txCommits s i)) [0..<mergeIdx s]))"

definition exec_inv :: "exec_env \<Rightarrow> (bytes \<Rightarrow> bytes option) \<Rightarrow> transaction list \<Rightarrow> bool \<Rightarrow> blk_exec \<Rightarrow> bool" where
  "exec_inv env store txs to s \<longleftrightarrow>
     mergeIdx s \<le> nextJob s \<and> nextJob s \<le> length txs \<and> root_ok (rootTrk s) \<and> merged_inv env store txs to s \<and>
     (\<forall>i. (i < mergeIdx s \<or> nextJob s \<le> i) \<longrightarrow> threads s i = None) \<and>
     (\<forall>i \<ge> nextJob s. txCommits s i = None) \<and>
     (\<forall>i \<in> {mergeIdx s..<nextJob s}. job_inv env store txs to s i)"

lemma exec_inv_start: "exec_inv env store txs to exec_start"
  by (simp add: exec_inv_def exec_start_def root_ok_def merged_inv_def serial_def)

text \<open>The serial execution extended by one transaction.\<close>

lemma serial_snoc:
  assumes "length tos = n" and "n < length txs"
  shows "serial env store (take (Suc n) txs) (tos @ [b]) = serial_step env store (txs ! n, b) (serial env store (take n txs) tos)"
  using assms by (simp add: serial_def take_Suc_conv_app_nth)

lemma root_ok_Merge: "root_ok r \<Longrightarrow> root_ok (Merge r t)"
  by (simp add: root_ok_def)

text \<open>Merging transaction \<open>i\<close> with the result of its serial execution, or as timed out, keeps the invariant.\<close>

lemma merge_tx_inv:
  assumes inv: "exec_inv env store txs to s" and i: "mergeIdx s < nextJob s"
    and c: "(let th' = complete env (txs ! mergeIdx s) store (rootTrk s) (start_tx env (txs ! mergeIdx s))
             in thTrk th = thTrk th' \<and> c = mk_commit env (txs ! mergeIdx s) (thread_error th')) \<or>
            to \<and> c = mk_commit env (txs ! mergeIdx s) timeout_error"
  shows "exec_inv env store txs to (merge_tx (mergeIdx s) th c s)"
proof -
  let ?i = "mergeIdx s" and ?s = "merge_tx (mergeIdx s) th c s"
  have sel: "mergeIdx ?s = Suc ?i" "nextJob ?s = nextJob s" "threads ?s = (threads s)(?i := None)"
      "txCommits ?s = (txCommits s)(?i \<mapsto> c)"
      "rootTrk ?s = (if tcError c \<noteq> '''' then rootTrk s else Merge (rootTrk s) (thTrk th))"
    by (simp_all add: merge_tx_def)
  have root: "root_ok (rootTrk s)" and len: "?i < length txs" using inv i by (auto simp: exec_inv_def)
  have grow: "keys_of (rootTrk s) \<subseteq> keys_of (rootTrk ?s)"
    using keys_Merge root by (auto simp: sel root_ok_def)
  obtain tos where tos: "length tos = ?i" "\<not> to \<longrightarrow> tos = replicate ?i False"
      "serial env store (take ?i txs) tos = (rootTrk s, map (\<lambda>j. the (txCommits s j)) [0..<?i])"
    using inv unfolding exec_inv_def merged_inv_def by blast
  have cs: "map (\<lambda>j. the (txCommits ?s j)) [0..<Suc ?i] = map (\<lambda>j. the (txCommits s j)) [0..<?i] @ [c]"
    by (simp add: sel)
  have timed: "tcError (mk_commit env tx timeout_error) \<noteq> ''''" for tx by (simp add: mk_commit_def timeout_error_def)
  have "\<exists>b. (\<not> to \<longrightarrow> \<not> b) \<and> serial_step env store (txs ! ?i, b) (rootTrk s, map (\<lambda>j. the (txCommits s j)) [0..<?i]) =
      (rootTrk ?s, map (\<lambda>j. the (txCommits ?s j)) [0..<Suc ?i])"
    using c
  proof
    assume "to \<and> c = mk_commit env (txs ! ?i) timeout_error"
    with timed show ?thesis unfolding cs by (intro exI [of _ True]) (simp add: serial_step_def merge_tx_def)
  qed (unfold cs, intro exI [of _ False], auto simp: serial_step_def merge_tx_def Let_def)
  then obtain b where b: "\<not> to \<longrightarrow> \<not> b"
      "serial env store (take (Suc ?i) txs) (tos @ [b]) = (rootTrk ?s, map (\<lambda>j. the (txCommits ?s j)) [0..<Suc ?i])"
    using serial_snoc [OF tos(1) len] tos(3) by metis
  have "merged_inv env store txs to ?s"
    unfolding merged_inv_def sel(1) using tos(1,2) b
    by (intro exI [of _ "tos @ [b]"]) (auto simp: replicate_append_same)
  moreover have "job_inv env store txs to ?s j" if "j \<in> {Suc ?i..<nextJob s}" for j
  proof -
    have "job_inv env store txs to s j" using inv that by (auto simp: exec_inv_def)
    then show ?thesis using that thread_inv_mono [OF _ grow] by (auto simp: job_inv_def sel(3,4))
  qed
  moreover have "root_ok (rootTrk ?s)" using root root_ok_Merge by (simp add: sel)
  ultimately show ?thesis
    using inv i by (auto simp: exec_inv_def sel(1-4))
qed

lemma running_range: "exec_inv env store txs to s \<Longrightarrow> threads s i = Some th \<Longrightarrow> i \<in> {mergeIdx s..<nextJob s}"
  unfolding exec_inv_def by (metis atLeastLessThan_iff not_le option.distinct(1))

text \<open>A step of one job changes nothing else.\<close>

lemma exec_inv_local:
  assumes inv: "exec_inv env store txs to s" and i: "i \<in> {mergeIdx s..<nextJob s}"
    and s': "mergeIdx s' = mergeIdx s" "nextJob s' = nextJob s" "rootTrk s' = rootTrk s"
      "\<And>j. j \<noteq> i \<Longrightarrow> threads s' j = threads s j \<and> txCommits s' j = txCommits s j"
    and job: "job_inv env store txs to s' i"
  shows "exec_inv env store txs to s'"
proof -
  have "map (\<lambda>j. the (txCommits s' j)) [0..<mergeIdx s] = map (\<lambda>j. the (txCommits s j)) [0..<mergeIdx s]"
    using i s'(4) by (intro map_cong) auto
  then have "merged_inv env store txs to s'"
    using inv s'(1-3) unfolding exec_inv_def merged_inv_def by presburger
  moreover have "job_inv env store txs to s' j" if "j \<in> {mergeIdx s..<nextJob s}" for j
    using inv that job s' by (cases "j = i") (auto simp: exec_inv_def job_inv_def)
  moreover have "threads s' j = None" if "j < mergeIdx s \<or> nextJob s \<le> j" for j
    using inv that i s'(4) [of j] by (auto simp: exec_inv_def)
  moreover have "txCommits s' j = None" if "nextJob s \<le> j" for j
    using inv that i s'(4) [of j] by (auto simp: exec_inv_def)
  ultimately show ?thesis using inv s'(1-3) by (simp add: exec_inv_def)
qed

lemma exec_inv_step:
  assumes "bstep env store txs limit to s s'" and inv: "exec_inv env store txs to s"
  shows "exec_inv env store txs to s'"
  using assms(1)
proof cases
  case take_job
  then show ?thesis using inv thread_inv_start by (auto simp: exec_inv_def merged_inv_def job_inv_def less_Suc_eq_le)
next
  case (run i th th')
  note i = running_range [OF inv run(2)]
  then have "job_inv env store txs to s i" using inv by (auto simp: exec_inv_def)
  moreover have "thPhase th \<noteq> Finished e" for e using run(3) by (auto simp: tstep_def)
  moreover have "root_ok (rootTrk s)" using inv by (simp add: exec_inv_def)
  ultimately have "job_inv env store txs to s' i"
    using run thread_inv_step by (auto simp: job_inv_def)
  then show ?thesis using run(1) by (intro exec_inv_local [OF inv i]) auto
next
  case (finish i th e)
  note i = running_range [OF inv finish(2)]
  then have "job_inv env store txs to s i" using inv by (auto simp: exec_inv_def)
  then have "job_inv env store txs to s' i" using finish by (auto simp: job_inv_def)
  then show ?thesis using finish(1) by (intro exec_inv_local [OF inv i]) auto
next
  case (timeout i th)
  note i = running_range [OF inv timeout(3)]
  then have "job_inv env store txs to s i" using inv by (auto simp: exec_inv_def)
  then have "job_inv env store txs to s' i" using timeout by (auto simp: job_inv_def)
  then show ?thesis using timeout(1) by (intro exec_inv_local [OF inv i]) auto
next
  case (merge th c)
  note i = running_range [OF inv merge(2)]
  then have job: "job_inv env store txs to s (mergeIdx s)" and root: "root_ok (rootTrk s)" using inv by (auto simp: exec_inv_def)
  have "deps th \<inter> keys_of (rootTrk s) = {}"
    using merge(4) root by (auto simp: HasDependencyChanges_iff root_ok_def deps_def)
  then have "complete env (txs ! mergeIdx s) store (rootTrk s) (start_tx env (txs ! mergeIdx s)) =
      complete env (txs ! mergeIdx s) store (rootTrk s) th"
    using job merge(2) root by (auto simp: job_inv_def thread_inv_def)
  with job merge(2,3) have "(let th' = complete env (txs ! mergeIdx s) store (rootTrk s) (start_tx env (txs ! mergeIdx s))
        in thTrk th = thTrk th' \<and> c = mk_commit env (txs ! mergeIdx s) (thread_error th')) \<or>
      to \<and> c = mk_commit env (txs ! mergeIdx s) timeout_error"
    by (auto simp: job_inv_def complete_Finished thread_error_def Let_def)
  from merge_tx_inv [OF inv _ this] i merge(1) show ?thesis by simp
next
  case (merge_again th c th' c')
  have i: "mergeIdx s < nextJob s" using running_range [OF inv merge_again(2)] by simp
  from merge_tx_inv [OF inv i, of th' c'] merge_again show ?thesis by (auto simp: Let_def)
qed

lemma exec_inv_reach: "(bstep env store txs limit to)\<^sup>*\<^sup>* exec_start s \<Longrightarrow> exec_inv env store txs to s"
  by (induction rule: rtranclp_induct) (auto intro: exec_inv_start exec_inv_step)

section \<open>Every run ends\<close>

lemma tstep_forms:
  "tstep env tx store root \<lparr>thTrk = t, thPhase = Lookup\<rparr> = Some b \<Longrightarrow> \<exists>t' v. b = \<lparr>thTrk = t', thPhase = lookup_phase env tx v\<rparr>"
  "tstep env tx store root \<lparr>thTrk = t, thPhase = Running regs it (Return r)\<rparr> = Some b \<Longrightarrow> \<exists>t' e. b = \<lparr>thTrk = t', thPhase = Finished e\<rparr>"
  "tstep env tx store root \<lparr>thTrk = t, thPhase = Running regs it (Panic m)\<rparr> = Some b \<Longrightarrow> \<exists>t' e. b = \<lparr>thTrk = t', thPhase = Finished e\<rparr>"
  "tstep env tx store root \<lparr>thTrk = t, thPhase = Running regs it (Write k v p)\<rparr> = Some b \<Longrightarrow> \<exists>t' it'. b = \<lparr>thTrk = t', thPhase = Running regs it' p\<rparr>"
  "tstep env tx store root \<lparr>thTrk = t, thPhase = Running regs it (Read k f)\<rparr> = Some b \<Longrightarrow> \<exists>t' it' v. b = \<lparr>thTrk = t', thPhase = Running regs it' (f v)\<rparr>"
  by (auto simp: tstep_def case_prod_unfold Let_def split: option.splits)

definition tstep_rel :: "exec_env \<Rightarrow> (bytes \<Rightarrow> bytes option) \<Rightarrow> tx_thread \<Rightarrow> tx_thread \<Rightarrow> bool" where
  "tstep_rel env store b a \<longleftrightarrow> (\<exists>tx root. tstep env tx store root a = Some b)"

lemma tstep_accI:
  assumes "\<And>tx root b. tstep env tx store root a = Some b \<Longrightarrow> Wellfounded.accp (tstep_rel env store) b"
  shows "Wellfounded.accp (tstep_rel env store) a"
  by (rule accp.accI) (use assms in \<open>auto simp: tstep_rel_def\<close>)

lemma tstep_acc_Finished: "Wellfounded.accp (tstep_rel env store) \<lparr>thTrk = t, thPhase = Finished e\<rparr>"
  by (rule accp.accI) (simp add: tstep_rel_def tstep_def)

lemma tstep_acc_Running: "Wellfounded.accp (tstep_rel env store) \<lparr>thTrk = t, thPhase = Running regs it p\<rparr>"
proof (induction p arbitrary: t it)
  case (Return e)
  show ?case by (rule tstep_accI) (auto dest!: tstep_forms(2) intro: tstep_acc_Finished)
next
  case (Panic m)
  show ?case by (rule tstep_accI) (auto dest!: tstep_forms(3) intro: tstep_acc_Finished)
next
  case (Write k v p)
  show ?case by (rule tstep_accI) (auto dest!: tstep_forms(4) intro: Write.IH)
next
  case (Read k f)
  show ?case by (rule tstep_accI) (auto dest!: tstep_forms(5) intro: Read.IH)
qed

lemma tstep_wf: "wf {(b, a). tstep_rel env store b a}"
proof -
  have look: "Wellfounded.accp (tstep_rel env store) \<lparr>thTrk = t, thPhase = lookup_phase env tx v\<rparr>" for t tx v
    by (simp add: lookup_phase_def tstep_acc_Finished tstep_acc_Running split: sum.split)
  have "Wellfounded.accp (tstep_rel env store) \<lparr>thTrk = t, thPhase = ph\<rparr>" for t ph
  proof (cases ph)
    case Lookup
    show ?thesis unfolding Lookup by (rule tstep_accI) (auto dest!: tstep_forms(1) intro: look)
  qed (simp_all add: tstep_acc_Finished tstep_acc_Running)
  then have "Wellfounded.accp (tstep_rel env store) th" for th by (cases th) simp
  then have "wfp (tstep_rel env store)" by (simp add: wfp_iff_accp)
  then show ?thesis by (simp add: wfp_def)
qed

text \<open>
  The measure of a run: jobs not merged, jobs not started, jobs without a commit, and the threads, one
  of which makes a step.
\<close>

definition exec_measure :: "nat \<Rightarrow> blk_exec \<Rightarrow> nat \<times> nat \<times> nat \<times> tx_thread option list" where
  "exec_measure n s = (n - mergeIdx s, n - nextJob s, card {i. i < n \<and> txCommits s i = None}, map (threads s) [0..<n])"

definition option_step :: "('a \<times> 'a) set \<Rightarrow> ('a option \<times> 'a option) set" where
  "option_step r = {(Some b, Some a) | b a. (b, a) \<in> r}"

lemma wf_option_step:
  assumes "wf r"
  shows "wf (option_step r)"
proof -
  have "wf (inv_image r the)" using assms by simp
  then show ?thesis by (rule wf_subset) (auto simp: option_step_def)
qed

lemma commits_decrease:
  assumes "i < n" and "txCommits s i = None"
  shows "card {j. j < n \<and> ((txCommits s)(i \<mapsto> c)) j = None} < card {j. j < n \<and> txCommits s j = None}"
  using assms by (intro psubset_card_mono) (auto split: if_splits)

lemma map_upt_split: "i < n \<Longrightarrow> map f [0..<n] = map f [0..<i] @ f i # map f [Suc i..<n]"
  using upt_add_eq_append [of 0 i "n - i"] by (simp add: upt_conv_Cons)

lemma exec_measure_decreases:
  assumes "bstep env store txs limit to s s'" and inv: "exec_inv env store txs to s"
  shows "(exec_measure (length txs) s', exec_measure (length txs) s) \<in>
    less_than <*lex*> less_than <*lex*> less_than <*lex*> listrel1 (option_step {(b, a). tstep_rel env store b a})"
  using assms(1)
proof cases
  case (run i th th')
  have i: "i < length txs" using running_range [OF inv run(2)] inv by (auto simp: exec_inv_def)
  have eq: "map (threads s) [0..<length txs] = map (threads s) [0..<i] @ Some th # map (threads s) [Suc i..<length txs]"
    "map (threads s') [0..<length txs] = map (threads s) [0..<i] @ Some th' # map (threads s) [Suc i..<length txs]"
    using map_upt_split [OF i, of "threads s"] map_upt_split [OF i, of "threads s'"] run(1,2) by simp_all
  have "(map (threads s') [0..<length txs], map (threads s) [0..<length txs]) \<in> listrel1 (option_step {(b, a). tstep_rel env store b a})"
    unfolding eq using run(3) by (intro listrel1I [OF _ refl refl]) (auto simp: option_step_def tstep_rel_def)
  then show ?thesis using run(1) by (simp add: exec_measure_def)
next
  case (finish i th e)
  have "i < length txs" using running_range [OF inv finish(2)] inv by (auto simp: exec_inv_def)
  with finish show ?thesis using commits_decrease [of i "length txs" s] by (simp add: exec_measure_def)
next
  case (timeout i th)
  have "i < length txs" using running_range [OF inv timeout(3)] inv by (auto simp: exec_inv_def)
  with timeout show ?thesis using commits_decrease [of i "length txs" s] by (simp add: exec_measure_def)
next
  case (merge th c)
  then show ?thesis using running_range [OF inv merge(2)] inv by (auto simp: exec_measure_def exec_inv_def merge_tx_def)
next
  case (merge_again th c th' c')
  then show ?thesis using running_range [OF inv merge_again(2)] inv by (auto simp: exec_measure_def exec_inv_def merge_tx_def)
qed (auto simp: exec_measure_def)

lemma exec_wf: "wf {(s', s). exec_inv env store txs to s \<and> bstep env store txs limit to s s'}"
proof (rule wf_subset)
  let ?r = "less_than <*lex*> less_than <*lex*> less_than <*lex*> listrel1 (option_step {(b, a). tstep_rel env store b a})"
  show "wf (inv_image ?r (exec_measure (length txs)))"
    by (simp add: wf_lex_prod wf_listrel1_iff wf_option_step tstep_wf)
  show "{(s', s). exec_inv env store txs to s \<and> bstep env store txs limit to s s'} \<subseteq> inv_image ?r (exec_measure (length txs))"
    using exec_measure_decreases by (auto simp: inv_image_def)
qed

text \<open>As long as a transaction is not merged there is a step.\<close>

lemma exec_progress:
  assumes inv: "exec_inv env store txs to s" and "0 < limit" and "mergeIdx s < length txs"
  shows "\<exists>s'. bstep env store txs limit to s s'"
proof (cases "mergeIdx s = nextJob s")
  case True
  then show ?thesis using bstep.take_job [of s txs limit] assms(2,3) by fastforce
next
  case False
  then have "job_inv env store txs to s (mergeIdx s)" using inv by (auto simp: exec_inv_def)
  then obtain th where th: "threads s (mergeIdx s) = Some th" by (auto simp: job_inv_def)
  show ?thesis
  proof (cases "txCommits s (mergeIdx s)")
    case None
    have "(\<exists>e. thPhase th = Finished e) \<or> (\<exists>th'. tstep env (txs ! mergeIdx s) store (rootTrk s) th = Some th')"
      by (auto simp: tstep_def case_prod_unfold Let_def split: phase.split prog.split option.split)
    then show ?thesis using bstep.finish [OF th _ None] bstep.run [OF th] by blast
  next
    case (Some c)
    show ?thesis using bstep.merge [OF th Some] bstep.merge_again [OF th Some _ refl, OF _ disjI1 [OF refl]] by blast
  qed
qed

lemma exec_completes:
  assumes "exec_inv env store txs to s" and "0 < limit"
  shows "\<exists>s'. (bstep env store txs limit to)\<^sup>*\<^sup>* s s' \<and> mergeIdx s' = length txs"
  using exec_wf [of env store txs to limit] assms(1)
proof (induction s rule: wf_induct_rule)
  case (less s)
  show ?case
  proof (cases "mergeIdx s < length txs")
    case True
    from exec_progress [OF less.prems assms(2) True] obtain s' where s': "bstep env store txs limit to s s'" ..
    have "\<exists>s''. (bstep env store txs limit to)\<^sup>*\<^sup>* s' s'' \<and> mergeIdx s'' = length txs"
      by (rule less.IH) (use s' less.prems exec_inv_step [OF s'] in simp_all)
    with s' show ?thesis by (meson converse_rtranclp_into_rtranclp)
  next
    case False
    then have "mergeIdx s = length txs" using less.prems by (auto simp: exec_inv_def)
    then show ?thesis by blast
  qed
qed

end
