(* ===== verification/Executor_Props.thy ===== *)
theory Executor_Props
  imports Executor_Correct Native_Props
begin

text \<open>
  What block execution means for a chaincode: a transaction executed on a root tracker computes the
  direct semantics of its program on the contract's part of the state and leaves the rest alone; and the
  properties of concurrent execution, up to the books of a coin over a whole block.
\<close>

section \<open>One transaction\<close>

declare getState.simps [simp del]

lemma run_stack_keys:
  "keys_of (fst (snd (run_stack store p trk base))) \<subseteq> keys_of trk \<union> range ((@) (keyPrefix trk))"
proof (induction p arbitrary: trk base)
  case (Read k f)
  have "list_all2 same_changes (fst (getState store (trk # base) k)) (trk # base)" by (rule getState_same)
  then obtain trk' base' v where g: "getState store (trk # base) k = (trk' # base', v)" and "same_changes trk' trk"
    by (cases "getState store (trk # base) k") (auto simp: list_all2_Cons2)
  then have "keys_of trk' = keys_of trk" "keyPrefix trk' = keyPrefix trk" by (auto simp: same_changes_def keys_of_def)
  with Read.IH [OF rangeI [of f v], of trk' base'] show ?case by (simp add: g)
next
  case (Write k v p)
  then show ?case using Write.IH [of "setState trk k v" base] by (auto simp: keys_setState)
qed simp_all

text \<open>A tracker without changes is transparent, and so is merging into it.\<close>

definition blank :: "state_tracker \<Rightarrow> bool" where
  "blank t \<longleftrightarrow> keyPrefix t = [] \<and> changes t = []"

lemma blank_facts:
  assumes "blank t"
  shows "view t st = st" "wf_changes t" "keys_of t = {}" "wf_changes it \<Longrightarrow> view (Merge t it) st = view it st"
    "keys_of (Merge t it) = keys_of it" "wf_changes (Merge t it)"
proof -
  show v: "view t st = st" for st using assms by (simp add: blank_def view_def fun_eq_iff)
  show "wf_changes t" "wf_changes (Merge t it)" using assms by (auto simp: blank_def wf_changes_def intro: wf_changes_Merge [unfolded wf_changes_def])
  show "keys_of t = {}" "keys_of (Merge t it) = keys_of it" using assms keys_Merge [of t it] by (auto simp: blank_def keys_of_def)
  show "view (Merge t it) st = view it st" if "wf_changes it" using view_Merge [OF _ that] assms v by (simp add: blank_def)
qed

text \<open>A program run in a thread whose tracker is blank.\<close>

lemma complete_program:
  assumes "root_ok root" and "blank t"
  shows "\<exists>it t'. blank t' \<and> wf_changes it \<and> keys_of it \<subseteq> range ((@) a) \<and>
    sub_state a (view it (view root store)) = snd (run_map p (sub_state a (view root store))) \<and>
    complete env tx store root \<lparr>thTrk = t, thPhase = Running regs (Spawn a) p\<rparr> =
      (case prog_error (fst (run_map p (sub_state a (view root store)))) of
         None \<Rightarrow> \<lparr>thTrk = merge_all (regs @ [it]) t', thPhase = Finished None\<rparr>
       | Some e \<Rightarrow> \<lparr>thTrk = t', thPhase = Finished (Some e)\<rparr>)"
proof -
  obtain r it base where run: "run_stack store p (Spawn a) [t, root] = (r, it, base)" by (metis prod_cases3)
  have stack: "stack_view store [t, root] = view root store"
  proof -
    have nil: "stack_view store [] = store" by (rule ext) simp
    have "keyPrefix root = []" "keyPrefix t = []" using assms by (simp_all add: root_ok_def blank_def)
    then show ?thesis by (intro ext) (simp add: nil blank_facts(1) [OF assms(2)])
  qed
  note spec = run_stack_run_map [of "Spawn a" store p "[t, root]", unfolded run stack, simplified]
  obtain t' root' where base: "base = [t', root']" "same_changes t' t"
    using spec(5) by (auto simp: list_all2_Cons2)
  have "blank t'" using base(2) assms(2) by (auto simp: blank_def same_changes_def)
  moreover have "keys_of it \<subseteq> range ((@) a)"
    using run_stack_keys [of store p "Spawn a" "[t, root]"] by (simp add: run keys_of_def)
  ultimately show ?thesis
    using spec by - (rule exI [of _ it], rule exI [of _ t'], simp add: complete_Running run base(1) split: option.split)
qed

text \<open>An invocation: the registry entry is read from the root, then the program runs.\<close>

lemma complete_invoke_start:
  assumes "root_ok root" and "txCodeAddr (tx_data tx) \<noteq> []"
  shows "\<exists>t'. blank t' \<and> complete env tx store root (start_tx env tx) =
    complete env tx store root \<lparr>thTrk = t', thPhase = lookup_phase env tx (view root store (codeRegistryAddr @ txCodeAddr (tx_data tx)))\<rparr>"
proof -
  let ?k = "codeRegistryAddr @ txCodeAddr (tx_data tx)" and ?t = "setDependency (Spawn []) (codeRegistryAddr @ txCodeAddr (tx_data tx))"
  have "trk_ok (Spawn [])" by (simp add: trk_ok_def)
  from getState_3 [OF this assms(1), of store "Spawn codeRegistryAddr" "txCodeAddr (tx_data tx)"]
  have "getState store [Spawn codeRegistryAddr, Spawn [], root] (txCodeAddr (tx_data tx)) =
      ([setDependency (Spawn codeRegistryAddr) ?k, ?t, root], view root store ?k)"
    by (simp add: Let_def)
  from complete_Lookup [OF this] show ?thesis
    using assms(2) by (intro exI [of _ ?t]) (simp add: start_tx_def blank_def)
qed

lemma invoke_refines_exec:
  assumes root: "root_ok root" and addr: "txCodeAddr (tx_data tx) = a" "a \<noteq> []"
    and inst: "getInstance (envJson env) (envReg env) (view root store (codeRegistryAddr @ a)) = Inr cc"
    and ex: "exec_map (cc_Invoke cc (makeCallContext env tx (txInput (tx_data tx)))) (sub_state a (view root store)) = (e, st')"
  shows "thPhase (complete env tx store root (start_tx env tx)) = Finished e \<and>
    sub_state a (view (thTrk (complete env tx store root (start_tx env tx))) (view root store)) = st' \<and>
    wf_changes (thTrk (complete env tx store root (start_tx env tx))) \<and>
    keys_of (thTrk (complete env tx store root (start_tx env tx))) \<subseteq> range ((@) a)"
proof -
  let ?p = "cc_Invoke cc (makeCallContext env tx (txInput (tx_data tx)))" and ?st = "sub_state a (view root store)"
  obtain t where t: "blank t" and c: "complete env tx store root (start_tx env tx) =
      complete env tx store root \<lparr>thTrk = t, thPhase = Running [] (Spawn a) ?p\<rparr>"
    using complete_invoke_start [OF root, of tx env store] unfolding addr(1)
    using addr inst by (auto simp: lookup_phase_def)
  from complete_program [OF root t, of a store ?p env tx "[]"] obtain it t' where r: "blank t'" "wf_changes it"
      "keys_of it \<subseteq> range ((@) a)" "sub_state a (view it (view root store)) = snd (run_map ?p ?st)"
      "complete env tx store root \<lparr>thTrk = t, thPhase = Running [] (Spawn a) ?p\<rparr> =
        (case prog_error (fst (run_map ?p ?st)) of
           None \<Rightarrow> \<lparr>thTrk = merge_all ([] @ [it]) t', thPhase = Finished None\<rparr>
         | Some e \<Rightarrow> \<lparr>thTrk = t', thPhase = Finished (Some e)\<rparr>)"
    by blast
  have [simp]: "merge_all ([] @ [it]) t' = Merge t' it" by (simp add: merge_all_def)
  show ?thesis
  proof (cases "prog_error (fst (run_map ?p ?st))")
    case None
    with ex have "e = None" "st' = snd (run_map ?p ?st)" by (auto simp: exec_map_def case_prod_unfold Let_def)
    with None r c show ?thesis by (simp add: blank_facts del: append.simps)
  next
    case (Some err)
    with ex have "e = Some err" "st' = ?st" by (auto simp: exec_map_def case_prod_unfold Let_def)
    with Some r c show ?thesis by (simp add: blank_facts)
  qed
qed

section \<open>What a transaction may write\<close>

definition tx_area :: "transaction \<Rightarrow> bytes set" where
  "tx_area tx = (if txCodeAddr (tx_data tx) = []
     then insert (codeRegistryAddr @ txHash (tx_data tx)) (range ((@) (txHash (tx_data tx))))
     else range ((@) (txCodeAddr (tx_data tx))))"

lemma keys_of_Spawn [simp]: "keys_of (Spawn p) = {}"
  by (simp add: keys_of_def)

lemma deploy_keys:
  "keys_of (fst (deploy json reg h input (Spawn codeRegistryAddr))) \<subseteq> {codeRegistryAddr @ h}"
  "wf_changes (fst (deploy json reg h input (Spawn codeRegistryAddr)))"
  by (auto simp: deploy_def setCodeInfo_def keys_setState split: sum.splits)

lemma keys_merge_all:
  assumes "keyPrefix t = []"
  shows "keys_of (merge_all cs t) = keys_of t \<union> (\<Union>c \<in> set cs. keys_of c)"
  using assms unfolding merge_all_def by (induction cs arbitrary: t) (auto simp: keys_Merge)

lemma wf_merge_all: "wf_changes t \<Longrightarrow> wf_changes (merge_all cs t)"
  unfolding merge_all_def by (induction cs arbitrary: t) simp_all

lemma complete_keys:
  assumes "root_ok root"
  shows "keys_of (thTrk (complete env tx store root (start_tx env tx))) \<subseteq> tx_area tx \<and>
    wf_changes (thTrk (complete env tx store root (start_tx env tx)))"
proof -
  have prog: "keys_of (thTrk (complete env tx store root \<lparr>thTrk = t, thPhase = Running regs (Spawn a) p\<rparr>)) \<subseteq>
      range ((@) a) \<union> (\<Union>c \<in> set regs. keys_of c) \<and>
      wf_changes (thTrk (complete env tx store root \<lparr>thTrk = t, thPhase = Running regs (Spawn a) p\<rparr>))"
    if "blank t" for t regs a p
    using complete_program [OF assms that, of a store p env tx regs]
    by (auto simp: blank_facts keys_merge_all blank_def wf_merge_all split: option.splits)
  have blank: "blank (Spawn [])" by (simp add: blank_def)
  show ?thesis
  proof (cases "txCodeAddr (tx_data tx) = []")
    case True
    let ?d = "deploy (envJson env) (envReg env) (txHash (tx_data tx))"
    have st: "start_tx env tx = \<lparr>thTrk = Spawn [], thPhase = executeDeployment env tx\<rparr>"
      using True by (simp add: start_tx_def)
    show ?thesis
    proof (cases "executeDeployment env tx")
      case (Running regs it p)
      then obtain input where "regs = [fst (?d input (Spawn codeRegistryAddr))]" "it = Spawn (txHash (tx_data tx))"
        by (auto simp: executeDeployment_def case_prod_unfold Let_def split: sum.splits)
      with prog [OF blank, of regs "txHash (tx_data tx)" p] deploy_keys(1) True show ?thesis
        unfolding st Running tx_area_def by simp blast
    next
      case Finished
      then show ?thesis by (simp add: st complete_Finished)
    next
      case Lookup
      then show ?thesis by (auto simp: executeDeployment_def case_prod_unfold Let_def split: sum.splits)
    qed
  next
    case False
    obtain t where t: "blank t" "complete env tx store root (start_tx env tx) =
        complete env tx store root \<lparr>thTrk = t, thPhase = lookup_phase env tx (view root store (codeRegistryAddr @ txCodeAddr (tx_data tx)))\<rparr>"
      using complete_invoke_start [OF assms False] by blast
    with prog [OF t(1), of "[]"] False show ?thesis
      by (auto simp: lookup_phase_def tx_area_def complete_Finished blank_facts split: sum.splits)
  qed
qed

section \<open>A contract over a block\<close>

text \<open>A transaction that has nothing to do with the contract at \<open>a\<close>, for 32-byte addresses.\<close>

definition foreign_tx :: "bytes \<Rightarrow> transaction \<Rightarrow> bool" where
  "foreign_tx a tx \<longleftrightarrow>
     (if txCodeAddr (tx_data tx) = [] then length (txHash (tx_data tx)) = 32 \<and> txHash (tx_data tx) \<noteq> a \<and> txHash (tx_data tx) \<noteq> codeRegistryAddr
      else length (txCodeAddr (tx_data tx)) = 32 \<and> txCodeAddr (tx_data tx) \<noteq> a \<and> txCodeAddr (tx_data tx) \<noteq> codeRegistryAddr)"

lemma foreign_area:
  assumes "foreign_tx a tx" and "length a = 32" and "a \<noteq> codeRegistryAddr"
  shows "codeRegistryAddr @ a \<notin> tx_area tx" "a @ k \<notin> tx_area tx"
  using assms by (auto simp: foreign_tx_def tx_area_def codeRegistryAddr_def split: if_splits)

text \<open>The part of the invariant that belongs to the contract: its registry entry and \<open>P\<close> of its state.\<close>

definition contract_inv :: "bytes \<Rightarrow> ((bytes \<Rightarrow> bytes option) \<Rightarrow> bool) \<Rightarrow> (bytes \<Rightarrow> bytes option) \<Rightarrow> state_tracker \<Rightarrow> bool" where
  "contract_inv a P store root \<longleftrightarrow>
     root_ok root \<and> view root store (codeRegistryAddr @ a) = store (codeRegistryAddr @ a) \<and> P (sub_state a (view root store))"

lemma serial_step_contract:
  assumes a: "length a = 32" "a \<noteq> codeRegistryAddr"
    and inst: "getInstance (envJson env) (envReg env) (store (codeRegistryAddr @ a)) = Inr cc"
    and tx: "txCodeAddr (tx_data tx) = a \<or> foreign_tx a tx"
    and keep: "\<And>st e st'. txCodeAddr (tx_data tx) = a \<Longrightarrow> P st \<Longrightarrow>
       exec_map (cc_Invoke cc (makeCallContext env tx (txInput (tx_data tx)))) st = (e, st') \<Longrightarrow> P st'"
    and inv: "contract_inv a P store root"
  shows "contract_inv a P store (fst (serial_step env store (tx, b) (root, cs)))"
proof -
  let ?th = "complete env tx store root (start_tx env tx)"
  have root: "root_ok root" using inv by (simp add: contract_inv_def)
  note area = complete_keys [OF root, of env tx store]
  have merged: "view (Merge root (thTrk ?th)) store = view (thTrk ?th) (view root store)"
    using view_Merge [of root "thTrk ?th" store] area root by (simp add: root_ok_def)
  have "contract_inv a P store (Merge root (thTrk ?th))"
    using tx
  proof
    assume addr: "txCodeAddr (tx_data tx) = a"
    have ne: "a \<noteq> []" using a(1) by auto
    have reg: "codeRegistryAddr @ a \<noteq> a @ k" for k using a by (auto simp: codeRegistryAddr_def)
    obtain e st' where ex: "exec_map (cc_Invoke cc (makeCallContext env tx (txInput (tx_data tx)))) (sub_state a (view root store)) = (e, st')"
      by (cases "exec_map (cc_Invoke cc (makeCallContext env tx (txInput (tx_data tx)))) (sub_state a (view root store))")
    have "getInstance (envJson env) (envReg env) (view root store (codeRegistryAddr @ a)) = Inr cc"
      using inst inv by (simp add: contract_inv_def)
    note r = invoke_refines_exec [OF root addr ne this ex]
    have "codeRegistryAddr @ a \<notin> keys_of (thTrk ?th)" using r reg by blast
    then show ?thesis
      using inv r merged keep [OF addr _ ex] root_ok_Merge by (simp add: contract_inv_def view_other)
  next
    assume "foreign_tx a tx"
    note f = foreign_area [OF this a]
    have "codeRegistryAddr @ a \<notin> keys_of (thTrk ?th)" "a @ k \<notin> keys_of (thTrk ?th)" for k using f area by blast+
    then show ?thesis
      using inv merged root_ok_Merge by (simp add: contract_inv_def view_other sub_state_def [abs_def])
  qed
  then show ?thesis using inv by (simp add: serial_step_def Let_def)
qed

lemma serial_contract:
  assumes "length a = 32" "a \<noteq> codeRegistryAddr"
    and "getInstance (envJson env) (envReg env) (store (codeRegistryAddr @ a)) = Inr cc"
    and "\<And>tx. tx \<in> set txs \<Longrightarrow> txCodeAddr (tx_data tx) = a \<or> foreign_tx a tx"
    and "\<And>tx st e st'. tx \<in> set txs \<Longrightarrow> txCodeAddr (tx_data tx) = a \<Longrightarrow> P st \<Longrightarrow>
       exec_map (cc_Invoke cc (makeCallContext env tx (txInput (tx_data tx)))) st = (e, st') \<Longrightarrow> P st'"
    and "P (sub_state a store)" and "length tos = length txs"
  shows "P (sub_state a (view (fst (serial env store txs tos)) store))"
proof -
  have "contract_inv a P store (fst (fold (serial_step env store) (zip xs bs) (root, cs)))"
    if "contract_inv a P store root" "set xs \<subseteq> set txs" "length bs = length xs" for xs bs root cs
    using that
  proof (induction xs arbitrary: bs root cs)
    case (Cons x xs)
    then obtain b bs' where bs: "bs = b # bs'" by (cases bs) auto
    have "contract_inv a P store (fst (serial_step env store (x, b) (root, cs)))"
      by (rule serial_step_contract [where store = store and cc = cc, OF assms(1,2,3)]) (use Cons.prems assms(4,5) in auto)
    with Cons.IH [of "fst (serial_step env store (x, b) (root, cs))" bs' "snd (serial_step env store (x, b) (root, cs))"] Cons.prems
    show ?case by (simp add: bs)
  qed simp
  moreover have "contract_inv a P store (NewStateTracker [])"
    using assms(6) by (simp add: contract_inv_def root_ok_def)
  ultimately have "contract_inv a P store (fst (serial env store txs tos))"
    using assms(7) unfolding serial_def by simp
  then show ?thesis by (simp add: contract_inv_def)
qed

text \<open>The books of PCoin over all accounts.\<close>

definition pcoin_books :: "(bytes \<Rightarrow> bytes option) \<Rightarrow> bool" where
  "pcoin_books st \<longleftrightarrow> balance st keyTotal = coin_supply st {k. is_account k}"

lemma finite_accounts: "finite {k. is_account k}"
proof -
  have "{k. is_account k} = {k. set k \<subseteq> (UNIV :: u8 set) \<and> length k = 32} \<union> {[]}"
    by (auto simp: is_account_def)
  then show ?thesis using finite_lists_length_eq [of "UNIV :: u8 set" 32] by simp
qed

lemma pcoin_books_invoke:
  assumes "pcoin_books st" and "is_account (bytes_of (cSender ctx))" and "exec_map (PCoin_Invoke json ctx) st = (e, st')"
  shows "pcoin_books st'"
  using pcoin_keeps_books [OF assms(3) finite_accounts] assms(1,2) unfolding pcoin_books_def by blast

section \<open>Instances\<close>

text \<open>A registry whose only driver gives a PCoin, a coin at an address, and a transfer to it.\<close>

definition ex_cc :: chaincode where
  "ex_cc = \<lparr>cc_Init = PCoin_Init, cc_Invoke = PCoin_Invoke (\<lambda>_. Inr \<lparr>coinMethod = ''transfer'', coinDest = ex_bob, coinValue = 4\<rparr>),
            cc_Query = PCoin_Query (\<lambda>_. Inl [])\<rparr>"

definition ex_env :: exec_env where
  "ex_env = \<lparr>envJson = \<lparr>unmarshal_deploy = (\<lambda>_. Inl []), marshal_info = (\<lambda>_. Inl []),
                        unmarshal_info = (\<lambda>_. Inr \<lparr>ciDriverType = 0, ciCodeID = []\<rparr>)\<rparr>,
             envReg = [0 \<mapsto> \<lparr>drv_Install = (\<lambda>_ _. None), drv_GetInstance = (\<lambda>_. Inr ex_cc)\<rparr>],
             envBlk = ex_block\<rparr>"

definition ex_addr :: bytes where
  "ex_addr = replicate 32 9"

definition ex_state :: "bytes \<Rightarrow> bytes option" where
  "ex_state k = (if take 32 k = ex_addr then ex_pcoin (drop 32 k) else None)"

definition ex_tx :: transaction where
  "ex_tx = \<lparr>tx_data = \<lparr>txHash = [7], txSignature = [], txNonce = 0, txSender = ex_alice, txCodeAddr = ex_addr,
                      txInput = [], txExpiry = 0\<rparr>,
            tx_sender = Some \<lparr>pub_key = ex_alice, keyStr = ''alice''\<rparr>\<rparr>"

lemma ex_addr_simps [simp]: "length ex_addr = 32" "ex_addr \<noteq> codeRegistryAddr" "ex_addr \<noteq> []" "txCodeAddr (tx_data ex_tx) = ex_addr"
  by (simp_all add: ex_addr_def codeRegistryAddr_def ex_tx_def)

lemma ex_sub_state [simp]: "sub_state ex_addr ex_state = ex_pcoin"
  by (simp add: sub_state_def ex_state_def fun_eq_iff)

lemma ex_instance [simp]: "getInstance (envJson ex_env) (envReg ex_env) b = Inr ex_cc"
  by (simp add: getInstance_def getCodeInfo_def getDriver_def ex_env_def)

lemma ex_sender [simp]: "cSender (makeCallContext ex_env ex_tx i) = Some ex_alice"
  by (simp add: makeCallContext_def CallContextTx_ctx_def CallContextTx_Sender_def ex_tx_def)

lemma ex_books: "pcoin_books ex_pcoin"
proof -
  have "{k. is_account k} = {ex_alice} \<union> {k. is_account k \<and> k \<noteq> ex_alice}" by auto
  moreover have "balance ex_pcoin k = 0" if "is_account k" "k \<noteq> ex_alice" for k
    using that keys_not_account by (auto simp: balance_def ex_pcoin_def DecodeBalance_def)
  ultimately show ?thesis
    unfolding pcoin_books_def coin_supply_def using ex_pcoin_balances finite_accounts
    by (simp add: sum.remove [OF finite_accounts, of ex_alice])
qed

lemma ex_run: "0 < limit \<Longrightarrow> \<exists>s. (bstep ex_env ex_state [ex_tx, ex_tx] limit to)\<^sup>*\<^sup>* exec_start s \<and> mergeIdx s = 2"
  using exec_completes [OF exec_inv_start, of limit ex_env ex_state "[ex_tx, ex_tx]" to] by (simp add: numeral_2_eq_2)

lemma ex_transfer:
  "exec_map (cc_Invoke ex_cc (makeCallContext ex_env ex_tx i)) ex_pcoin = (None, ex_pcoin(ex_alice \<mapsto> EncodeBalance 6, ex_bob \<mapsto> EncodeBalance 4))"
proof -
  have dec: "DecodeBalance (ex_pcoin ex_alice) = Some 10" "DecodeBalance (ex_pcoin ex_bob) = Some 0"
    by (simp_all add: ex_pcoin_def) (simp add: DecodeBalance_def)
  have "cc_Invoke ex_cc (makeCallContext ex_env ex_tx i) =
      coin_invokeTransfer (makeCallContext ex_env ex_tx i) \<lparr>coinMethod = ''transfer'', coinDest = ex_bob, coinValue = 4\<rparr>"
    by (simp add: ex_cc_def PCoin_Invoke_def parse_prog_def AssertLength_def pcoin_invokeTransfer_def) (simp add: ex_bob_def)
  then show ?thesis
    by (simp add: exec_map_def coin_invokeTransfer_def bytes_Equal_def bytes_of_def balance_prog_def prog_error_def dec Let_def)
qed

section \<open>Properties\<close>











end
