(* ===== verification/Storage.thy ===== *)
theory Storage
  imports Merkle_Store Core_Types "HOL-Library.List_Lexorder"
begin

text \<open>
  The node's storage (\<^verbatim>\<open>src/storage\<close>): the LevelDB wrapper, the chain store, the state store, the
  Merkle store and the commit of a block. The LevelDB library is the argument \<open>db\<close>, the generated
  protobuf codec the argument of type \<open>pb_codec\<close>. A write is a function on the database state that also
  returns an error; after an error the earlier writes of the same list stay. A panic is \<open>None\<close>, or the
  left side where \<^verbatim>\<open>VerifyState\<close> is concerned, since its callers recover from it.
\<close>

section \<open>The database\<close>

datatype store_error = NotFound | IoErr string | PbErr string | CoreErr core_error

text \<open>What the wrapper calls of the LevelDB library, on its state \<open>'s\<close>.\<close>

datatype batch_op = BPut bytes bytes | BDelete bytes

record 's leveldb =
  db_Put :: "bytes \<Rightarrow> bytes \<Rightarrow> 's \<Rightarrow> 's \<times> string option"
  db_Get :: "'s \<Rightarrow> bytes \<Rightarrow> store_error + bytes"
  db_Has :: "'s \<Rightarrow> bytes \<Rightarrow> string + bool"
  db_Delete :: "bytes \<Rightarrow> 's \<Rightarrow> 's \<times> string option"
  db_Write :: "batch_op list \<Rightarrow> 's \<Rightarrow> 's \<times> string option"

record 's level_store =
  ls_db :: 's
  ls_batch :: "batch_op list option"

definition io_error :: "string option \<Rightarrow> store_error option" where
  "io_error e = map_option IoErr e"

definition LevelDB_Put :: "'s leveldb \<Rightarrow> bytes \<Rightarrow> bytes \<Rightarrow> 's level_store \<Rightarrow> 's level_store \<times> store_error option" where
  "LevelDB_Put db key value self = (let (d, e) = db_Put db key value (ls_db self) in (self\<lparr>ls_db := d\<rparr>, io_error e))"

definition LevelDB_Get :: "'s leveldb \<Rightarrow> 's level_store \<Rightarrow> bytes \<Rightarrow> store_error + bytes" where
  "LevelDB_Get db self key =
     (case db_Get db (ls_db self) key of
        Inl e \<Rightarrow> if e = NotFound then Inl NotFound else Inl e
      | Inr dat \<Rightarrow> Inr dat)"

definition LevelDB_Has :: "'s leveldb \<Rightarrow> 's level_store \<Rightarrow> bytes \<Rightarrow> store_error + bool" where
  "LevelDB_Has db self key = (case db_Has db (ls_db self) key of Inl e \<Rightarrow> Inl (IoErr e) | Inr b \<Rightarrow> Inr b)"

definition LevelDB_Delete :: "'s leveldb \<Rightarrow> bytes \<Rightarrow> 's level_store \<Rightarrow> 's level_store \<times> store_error option" where
  "LevelDB_Delete db key self = (let (d, e) = db_Delete db key (ls_db self) in (self\<lparr>ls_db := d\<rparr>, io_error e))"

definition LevelDB_NewBatch :: "'s level_store \<Rightarrow> 's level_store" where
  "LevelDB_NewBatch self = self\<lparr>ls_batch := Some []\<rparr>"

definition LevelDB_BatchPut :: "bytes \<Rightarrow> bytes \<Rightarrow> 's level_store \<Rightarrow> 's level_store option" where
  "LevelDB_BatchPut key value self =
     (case ls_batch self of None \<Rightarrow> None | Some b \<Rightarrow> Some (self\<lparr>ls_batch := Some (b @ [BPut key value])\<rparr>))"

definition LevelDB_BatchDelete :: "bytes \<Rightarrow> 's level_store \<Rightarrow> 's level_store option" where
  "LevelDB_BatchDelete key self =
     (case ls_batch self of None \<Rightarrow> None | Some b \<Rightarrow> Some (self\<lparr>ls_batch := Some (b @ [BDelete key])\<rparr>))"

definition LevelDB_BatchCommit :: "'s leveldb \<Rightarrow> 's level_store \<Rightarrow> 's level_store \<times> store_error option" where
  "LevelDB_BatchCommit db self =
     (let (d, e) = db_Write db (case ls_batch self of None \<Rightarrow> [] | Some b \<Rightarrow> b) (ls_db self)
      in (if e = None then \<lparr>ls_db = d, ls_batch = None\<rparr> else self\<lparr>ls_db := d\<rparr>, io_error e))"

text \<open>The \<^verbatim>\<open>Setter\<close> and \<^verbatim>\<open>Getter\<close> interfaces that the stores use.\<close>

record 's persist =
  pPut :: "bytes \<Rightarrow> bytes \<Rightarrow> 's \<Rightarrow> 's \<times> store_error option"
  pGet :: "'s \<Rightarrow> bytes \<Rightarrow> store_error + bytes"
  pHas :: "'s \<Rightarrow> bytes \<Rightarrow> store_error + bool"

definition LevelDB_persist :: "'s leveldb \<Rightarrow> 's level_store persist" where
  "LevelDB_persist db = \<lparr>pPut = LevelDB_Put db, pGet = LevelDB_Get db, pHas = LevelDB_Has db\<rparr>"

datatype data_entry_prefix =
    BLOCK_BY_HASH | BLOCK_HASH_BY_HEIGHT | BLOCK_HEIGHT | QC_BY_BLOCK_HASH | LAST_QC_BLOCK_HASH
  | BLOCK_COMMIT_BY_HASH | TX_COUNT | TX_BY_HASH | TX_COMMIT_BY_HASH | STATE_VALUE_BY_KEY
  | MERKLE_INDEX_BY_STATE_KEY | MERKLE_TREE_HEIGHT | MERKLE_LEAF_COUNT | MERKLE_NODE_BY_POSITION

primrec prefix_byte :: "data_entry_prefix \<Rightarrow> u8" where
  "prefix_byte BLOCK_BY_HASH = 1"
| "prefix_byte BLOCK_HASH_BY_HEIGHT = 2"
| "prefix_byte BLOCK_HEIGHT = 3"
| "prefix_byte QC_BY_BLOCK_HASH = 4"
| "prefix_byte LAST_QC_BLOCK_HASH = 5"
| "prefix_byte BLOCK_COMMIT_BY_HASH = 6"
| "prefix_byte TX_COUNT = 7"
| "prefix_byte TX_BY_HASH = 8"
| "prefix_byte TX_COMMIT_BY_HASH = 9"
| "prefix_byte STATE_VALUE_BY_KEY = 10"
| "prefix_byte MERKLE_INDEX_BY_STATE_KEY = 11"
| "prefix_byte MERKLE_TREE_HEIGHT = 12"
| "prefix_byte MERKLE_LEAF_COUNT = 13"
| "prefix_byte MERKLE_NODE_BY_POSITION = 14"

definition convertPrefix :: "data_entry_prefix \<Rightarrow> bytes" where
  "convertPrefix p = [prefix_byte p]"

definition concatBytes :: "bytes list \<Rightarrow> bytes" where
  "concatBytes srcs = concat srcs"

type_synonym 's updateFunc = "'s \<Rightarrow> 's \<times> store_error option"

fun updateLevelDB :: "'s updateFunc list \<Rightarrow> 's \<Rightarrow> 's \<times> store_error option" where
  "updateLevelDB [] s = (s, None)"
| "updateLevelDB (fn # fns) s =
     (let (s', e) = fn s in case e of Some err \<Rightarrow> (s', Some err) | None \<Rightarrow> updateLevelDB fns s')"

section \<open>The chain store\<close>

text \<open>The generated protobuf code, for each message type of the chain store.\<close>

record pb_codec =
  m_block :: "pb_block \<Rightarrow> string + bytes"
  u_block :: "bytes \<Rightarrow> string + pb_block"
  m_qc :: "pb_quorum_cert \<Rightarrow> string + bytes"
  u_qc :: "bytes \<Rightarrow> string + pb_quorum_cert"
  m_bcm :: "block_commit \<Rightarrow> string + bytes"
  u_bcm :: "bytes \<Rightarrow> string + block_commit"
  m_tx :: "pb_transaction \<Rightarrow> string + bytes"
  u_tx :: "bytes \<Rightarrow> string + pb_transaction"
  m_txc :: "tx_commit \<Rightarrow> string + bytes"
  u_txc :: "bytes \<Rightarrow> string + tx_commit"

definition Block_Unmarshal :: "pb_codec \<Rightarrow> bytes \<Rightarrow> store_error + block" where
  "Block_Unmarshal c b =
     (case u_block c b of Inl e \<Rightarrow> Inl (PbErr e)
      | Inr d \<Rightarrow> (case Block_setData d of Inl e \<Rightarrow> Inl (CoreErr e) | Inr blk \<Rightarrow> Inr blk))"

definition QC_Unmarshal :: "pb_codec \<Rightarrow> bytes \<Rightarrow> store_error + quorum_cert" where
  "QC_Unmarshal c b =
     (case u_qc c b of Inl e \<Rightarrow> Inl (PbErr e)
      | Inr d \<Rightarrow> (case QC_setData d of Inl e \<Rightarrow> Inl (CoreErr e) | Inr qc \<Rightarrow> Inr qc))"

definition Tx_Unmarshal :: "pb_codec \<Rightarrow> bytes \<Rightarrow> store_error + transaction" where
  "Tx_Unmarshal c b =
     (case u_tx c b of Inl e \<Rightarrow> Inl (PbErr e)
      | Inr d \<Rightarrow> (let (tx, e) = Tx_setData d in case e of Some err \<Rightarrow> Inl (CoreErr err) | None \<Rightarrow> Inr tx))"

definition BlockCommit_Unmarshal :: "pb_codec \<Rightarrow> bytes \<Rightarrow> store_error + block_commit" where
  "BlockCommit_Unmarshal c b = (case u_bcm c b of Inl e \<Rightarrow> Inl (PbErr e) | Inr d \<Rightarrow> Inr d)"

definition TxCommit_Unmarshal :: "pb_codec \<Rightarrow> bytes \<Rightarrow> store_error + tx_commit" where
  "TxCommit_Unmarshal c b = (case u_txc c b of Inl e \<Rightarrow> Inl (PbErr e) | Inr d \<Rightarrow> Inr d)"

definition uint64BEBytes :: "u64 \<Rightarrow> bytes" where
  "uint64BEBytes val = be_bytes 8 (unat val)"

text \<open>\<^verbatim>\<open>BigEndian.Uint64\<close> panics on fewer than eight bytes.\<close>

definition getBlockHeight :: "'s persist \<Rightarrow> 's \<Rightarrow> (store_error + u64) option" where
  "getBlockHeight p s =
     (case pGet p s (convertPrefix BLOCK_HEIGHT) of Inl e \<Rightarrow> Some (Inl e)
      | Inr b \<Rightarrow> if length b < 8 then None else Some (Inr (of_nat (be_nat (take 8 b)))))"

definition getBlockHashByHeight :: "'s persist \<Rightarrow> 's \<Rightarrow> u64 \<Rightarrow> store_error + bytes" where
  "getBlockHashByHeight p s height =
     pGet p s (concatBytes [convertPrefix BLOCK_HASH_BY_HEIGHT, uint64BEBytes height])"

definition getBlock :: "pb_codec \<Rightarrow> 's persist \<Rightarrow> 's \<Rightarrow> bytes \<Rightarrow> store_error + block" where
  "getBlock c p s hash =
     (case pGet p s (concatBytes [convertPrefix BLOCK_BY_HASH, hash]) of Inl e \<Rightarrow> Inl e
      | Inr b \<Rightarrow> Block_Unmarshal c b)"

definition getBlockByHeight :: "pb_codec \<Rightarrow> 's persist \<Rightarrow> 's \<Rightarrow> u64 \<Rightarrow> store_error + block" where
  "getBlockByHeight c p s height =
     (case getBlockHashByHeight p s height of Inl e \<Rightarrow> Inl e | Inr hash \<Rightarrow> getBlock c p s hash)"

definition getLastBlock :: "pb_codec \<Rightarrow> 's persist \<Rightarrow> 's \<Rightarrow> (store_error + block) option" where
  "getLastBlock c p s =
     (case getBlockHeight p s of None \<Rightarrow> None
      | Some (Inl e) \<Rightarrow> Some (Inl e)
      | Some (Inr height) \<Rightarrow> Some (getBlockByHeight c p s height))"

definition getQCByBlockHash :: "pb_codec \<Rightarrow> 's persist \<Rightarrow> 's \<Rightarrow> bytes \<Rightarrow> store_error + quorum_cert" where
  "getQCByBlockHash c p s hash =
     (case pGet p s (concatBytes [convertPrefix QC_BY_BLOCK_HASH, hash]) of Inl e \<Rightarrow> Inl e
      | Inr b \<Rightarrow> QC_Unmarshal c b)"

definition getLastQC :: "pb_codec \<Rightarrow> 's persist \<Rightarrow> 's \<Rightarrow> store_error + quorum_cert" where
  "getLastQC c p s =
     (case pGet p s (convertPrefix LAST_QC_BLOCK_HASH) of Inl e \<Rightarrow> Inl e
      | Inr hash \<Rightarrow> getQCByBlockHash c p s hash)"

definition getBlockCommit :: "pb_codec \<Rightarrow> 's persist \<Rightarrow> 's \<Rightarrow> bytes \<Rightarrow> store_error + block_commit" where
  "getBlockCommit c p s hash =
     (case pGet p s (concatBytes [convertPrefix BLOCK_COMMIT_BY_HASH, hash]) of Inl e \<Rightarrow> Inl e
      | Inr b \<Rightarrow> BlockCommit_Unmarshal c b)"

definition getTx :: "pb_codec \<Rightarrow> 's persist \<Rightarrow> 's \<Rightarrow> bytes \<Rightarrow> store_error + transaction" where
  "getTx c p s hash =
     (case pGet p s (concatBytes [convertPrefix TX_BY_HASH, hash]) of Inl e \<Rightarrow> Inl e
      | Inr b \<Rightarrow> Tx_Unmarshal c b)"

definition hasTx :: "'s persist \<Rightarrow> 's \<Rightarrow> bytes \<Rightarrow> store_error + bool" where
  "hasTx p s hash = pHas p s (concatBytes [convertPrefix TX_BY_HASH, hash])"

definition getTxCommit :: "pb_codec \<Rightarrow> 's persist \<Rightarrow> 's \<Rightarrow> bytes \<Rightarrow> store_error + tx_commit" where
  "getTxCommit c p s hash =
     (case pGet p s (concatBytes [convertPrefix TX_COMMIT_BY_HASH, hash]) of Inl e \<Rightarrow> Inl e
      | Inr b \<Rightarrow> TxCommit_Unmarshal c b)"

text \<open>A write of a marshalled message.\<close>

definition put_msg :: "'s persist \<Rightarrow> bytes \<Rightarrow> string + bytes \<Rightarrow> 's updateFunc" where
  "put_msg p key m = (\<lambda>s. case m of Inl e \<Rightarrow> (s, Some (PbErr e)) | Inr val \<Rightarrow> pPut p key val s)"

definition setBlockHeight :: "'s persist \<Rightarrow> u64 \<Rightarrow> 's updateFunc" where
  "setBlockHeight p height = pPut p (convertPrefix BLOCK_HEIGHT) (uint64BEBytes height)"

definition setBlockByHash :: "pb_codec \<Rightarrow> 's persist \<Rightarrow> block \<Rightarrow> 's updateFunc" where
  "setBlockByHash c p blk =
     put_msg p (concatBytes [convertPrefix BLOCK_BY_HASH, blkHash (blk_data blk)]) (m_block c (blk_data blk))"

definition setBlockHashByHeight :: "'s persist \<Rightarrow> block \<Rightarrow> 's updateFunc" where
  "setBlockHashByHeight p blk =
     pPut p (concatBytes [convertPrefix BLOCK_HASH_BY_HEIGHT, uint64BEBytes (blkHeight (blk_data blk))]) (blkHash (blk_data blk))"

definition setBlock :: "pb_codec \<Rightarrow> 's persist \<Rightarrow> block \<Rightarrow> 's updateFunc list" where
  "setBlock c p blk = [setBlockByHash c p blk, setBlockHashByHeight p blk]"

definition setQCByBlockHash :: "pb_codec \<Rightarrow> 's persist \<Rightarrow> quorum_cert \<Rightarrow> 's updateFunc" where
  "setQCByBlockHash c p qc =
     put_msg p (concatBytes [convertPrefix QC_BY_BLOCK_HASH, case qcBlockHash (qc_data qc) of None \<Rightarrow> [] | Some h \<Rightarrow> h]) (m_qc c (qc_data qc))"

definition setLastQCBlockHash :: "'s persist \<Rightarrow> bytes \<Rightarrow> 's updateFunc" where
  "setLastQCBlockHash p hash = pPut p (convertPrefix LAST_QC_BLOCK_HASH) hash"

definition setQC :: "pb_codec \<Rightarrow> 's persist \<Rightarrow> quorum_cert \<Rightarrow> 's updateFunc list" where
  "setQC c p qc =
     [setQCByBlockHash c p qc, setLastQCBlockHash p (case qcBlockHash (qc_data qc) of None \<Rightarrow> [] | Some h \<Rightarrow> h)]"

definition setBlockCommit :: "pb_codec \<Rightarrow> 's persist \<Rightarrow> block_commit \<Rightarrow> 's updateFunc" where
  "setBlockCommit c p bcm = put_msg p (concatBytes [convertPrefix BLOCK_COMMIT_BY_HASH, bcHash bcm]) (m_bcm c bcm)"

definition setTx :: "pb_codec \<Rightarrow> 's persist \<Rightarrow> transaction \<Rightarrow> 's updateFunc" where
  "setTx c p tx = put_msg p (concatBytes [convertPrefix TX_BY_HASH, txHash (tx_data tx)]) (m_tx c (tx_data tx))"

definition setTxs :: "pb_codec \<Rightarrow> 's persist \<Rightarrow> transaction list \<Rightarrow> 's updateFunc list" where
  "setTxs c p txs = map (setTx c p) txs"

definition setTxCommit :: "pb_codec \<Rightarrow> 's persist \<Rightarrow> tx_commit \<Rightarrow> 's updateFunc" where
  "setTxCommit c p txc = put_msg p (concatBytes [convertPrefix TX_COMMIT_BY_HASH, tcHash txc]) (m_txc c txc)"

definition setTxCommits :: "pb_codec \<Rightarrow> 's persist \<Rightarrow> tx_commit list \<Rightarrow> 's updateFunc list" where
  "setTxCommits c p txCommits = map (setTxCommit c p) txCommits"

section \<open>The state store\<close>

definition ss_getState :: "'s persist \<Rightarrow> 's \<Rightarrow> bytes \<Rightarrow> store_error + bytes" where
  "ss_getState p s key = pGet p s (concatBytes [convertPrefix STATE_VALUE_BY_KEY, key])"

definition getMerkleIndex :: "'s persist \<Rightarrow> 's \<Rightarrow> bytes \<Rightarrow> store_error + bytes" where
  "getMerkleIndex p s key = pGet p s (concatBytes [convertPrefix MERKLE_INDEX_BY_STATE_KEY, key])"

definition getStateNotFoundNil :: "'s persist \<Rightarrow> 's \<Rightarrow> bytes \<Rightarrow> bytes option" where
  "getStateNotFoundNil p s key = (case ss_getState p s key of Inl e \<Rightarrow> None | Inr val \<Rightarrow> Some val)"

definition loadPrevValues :: "'s persist \<Rightarrow> 's \<Rightarrow> state_change list \<Rightarrow> state_change list" where
  "loadPrevValues p s scList = map (\<lambda>sc. sc\<lparr>scPrevValue := getStateNotFoundNil p s (scKey sc)\<rparr>) scList"

definition loadPrevTreeIndexes :: "'s persist \<Rightarrow> 's \<Rightarrow> state_change list \<Rightarrow> state_change list" where
  "loadPrevTreeIndexes p s scList =
     map (\<lambda>sc. case getMerkleIndex p s (scKey sc) of Inl e \<Rightarrow> sc | Inr val \<Rightarrow> sc\<lparr>scPrevTreeIndex := Some val\<rparr>) scList"

definition leafIndexBytes :: "nat \<Rightarrow> bytes" where
  "leafIndexBytes idx = (if big_bytes idx = [] then [0] else big_bytes idx)"

definition setLeafIndex :: "state_change \<Rightarrow> nat \<Rightarrow> state_change" where
  "setLeafIndex sc idx = sc\<lparr>scTreeIndex := Some (leafIndexBytes idx)\<rparr>"

text \<open>
  The changes of keys that have an index keep it; the other keys are sorted and numbered from the old
  leaf count on. The dictionary from a key to its change keeps the last one.
\<close>

definition scByKey :: "state_change list \<Rightarrow> bytes \<Rightarrow> nat option" where
  "scByKey scList =
     fold (\<lambda>(i, sc) m. if scPrevTreeIndex sc = None then m(scKey sc \<mapsto> i) else m) (enumerate 0 scList) (\<lambda>_. None)"

definition number_key :: "(bytes \<Rightarrow> nat option) \<Rightarrow> bytes \<Rightarrow> state_change list \<times> nat \<Rightarrow> state_change list \<times> nat" where
  "number_key m key = (\<lambda>(scs, leafCount).
     case m key of None \<Rightarrow> (scs, leafCount + 1)
     | Some i \<Rightarrow> (scs[i := setLeafIndex (scs ! i) leafCount], leafCount + 1))"

definition setNewTreeIndexes :: "state_change list \<Rightarrow> nat \<Rightarrow> state_change list \<times> nat" where
  "setNewTreeIndexes scList prevLC =
     (let newKeys = map scKey (filter (\<lambda>sc. scPrevTreeIndex sc = None) scList);
          scs = map (\<lambda>sc. if scPrevTreeIndex sc \<noteq> None then sc\<lparr>scTreeIndex := scPrevTreeIndex sc\<rparr> else sc) scList
      in fold (number_key (scByKey scList)) (sort newKeys) (scs, prevLC))"

definition opt_val :: "bytes option \<Rightarrow> bytes" where
  "opt_val b = (case b of None \<Rightarrow> [] | Some x \<Rightarrow> x)"

definition sumStateValue :: "(bytes \<Rightarrow> bytes) \<Rightarrow> bytes option \<Rightarrow> bytes" where
  "sumStateValue hash value = hash (opt_val value)"

text \<open>Each worker writes the slot of its job, so the order of the jobs does not matter.\<close>

definition computeUpdatedTreeNodes :: "(bytes \<Rightarrow> bytes) \<Rightarrow> state_change list \<Rightarrow> mnode list" where
  "computeUpdatedTreeNodes hash scList =
     map (\<lambda>sc. \<lparr>Position = NewPosition 0 (be_nat (opt_val (scTreeIndex sc))), Data = Some (sumStateValue hash (scValue sc))\<rparr>) scList"

definition ss_setState :: "'s persist \<Rightarrow> bytes \<Rightarrow> bytes option \<Rightarrow> 's updateFunc" where
  "ss_setState p key value = pPut p (concatBytes [convertPrefix STATE_VALUE_BY_KEY, key]) (opt_val value)"

definition setTreeIndex :: "'s persist \<Rightarrow> bytes \<Rightarrow> bytes option \<Rightarrow> 's updateFunc" where
  "setTreeIndex p key idx = pPut p (concatBytes [convertPrefix MERKLE_INDEX_BY_STATE_KEY, key]) (opt_val idx)"

definition commitStateChange :: "'s persist \<Rightarrow> state_change \<Rightarrow> 's updateFunc list" where
  "commitStateChange p sc =
     ss_setState p (scKey sc) (scValue sc)
     # (if scPrevTreeIndex sc = None \<or> opt_val (scPrevTreeIndex sc) \<noteq> opt_val (scTreeIndex sc)
        then [setTreeIndex p (scKey sc) (scTreeIndex sc)] else [])"

definition commitStateChanges :: "'s persist \<Rightarrow> state_change list \<Rightarrow> 's updateFunc list" where
  "commitStateChanges p scList = concat (map (commitStateChange p) scList)"

section \<open>The Merkle store\<close>

definition ms_getNode :: "'s persist \<Rightarrow> 's \<Rightarrow> position \<Rightarrow> bytes option" where
  "ms_getNode p s pos =
     (case pGet p s (concatBytes [convertPrefix MERKLE_NODE_BY_POSITION, pbytes pos]) of Inl e \<Rightarrow> None | Inr val \<Rightarrow> Some val)"

definition ms_getLeafCount :: "'s persist \<Rightarrow> 's \<Rightarrow> nat" where
  "ms_getLeafCount p s = (case pGet p s (convertPrefix MERKLE_LEAF_COUNT) of Inl e \<Rightarrow> 0 | Inr val \<Rightarrow> be_nat val)"

definition ms_getHeight :: "'s persist \<Rightarrow> 's \<Rightarrow> u8" where
  "ms_getHeight p s = (case pGet p s (convertPrefix MERKLE_TREE_HEIGHT) of Inr (h # _) \<Rightarrow> h | _ \<Rightarrow> 0)"

definition ms_setNode :: "'s persist \<Rightarrow> mnode \<Rightarrow> 's updateFunc" where
  "ms_setNode p n = pPut p (concatBytes [convertPrefix MERKLE_NODE_BY_POSITION, pbytes (Position n)]) (opt_val (Data n))"

definition ms_setNodes :: "'s persist \<Rightarrow> mnode list \<Rightarrow> 's updateFunc list" where
  "ms_setNodes p nodes = map (ms_setNode p) nodes"

definition ms_setLeafCount :: "'s persist \<Rightarrow> nat \<Rightarrow> 's updateFunc" where
  "ms_setLeafCount p leafCount = pPut p (convertPrefix MERKLE_LEAF_COUNT) (big_bytes leafCount)"

definition ms_setTreeHeight :: "'s persist \<Rightarrow> u8 \<Rightarrow> 's updateFunc" where
  "ms_setTreeHeight p height = pPut p (convertPrefix MERKLE_TREE_HEIGHT) [height]"

definition ms_commitUpdate :: "'s persist \<Rightarrow> update_result \<Rightarrow> 's updateFunc list" where
  "ms_commitUpdate p upd =
     ms_setNodes p (uLeaves upd) @ ms_setNodes p (uBranches upd)
     @ [ms_setLeafCount p (uLeafCount upd), ms_setTreeHeight p (uHeight upd)]"

section \<open>Storage\<close>

record 's storage =
  strgPersist :: "'s persist"
  strgCodec :: pb_codec
  strgHash :: "bytes \<Rightarrow> bytes"
  strgTree :: tree_calc

record commit_data =
  cdBlock :: block
  cdTransactions :: "transaction list"
  cdBlockCommit :: block_commit
  cdTxCommits :: "tx_commit list"
  cdMerkleUpdate :: "update_result option"

definition Storage_New :: "'s leveldb \<Rightarrow> pb_codec \<Rightarrow> (bytes \<Rightarrow> bytes) \<Rightarrow> u8 \<Rightarrow> 's level_store storage" where
  "Storage_New db codec hash branchFactor =
     \<lparr>strgPersist = LevelDB_persist db, strgCodec = codec, strgHash = hash, strgTree = NewTree branchFactor\<rparr>"

definition StoreBlock :: "'s storage \<Rightarrow> block \<Rightarrow> 's \<Rightarrow> 's \<times> store_error option" where
  "StoreBlock strg blk = updateLevelDB (setBlock (strgCodec strg) (strgPersist strg) blk)"

definition StoreQC :: "'s storage \<Rightarrow> quorum_cert \<Rightarrow> 's \<Rightarrow> 's \<times> store_error option" where
  "StoreQC strg qc = updateLevelDB (setQC (strgCodec strg) (strgPersist strg) qc)"

definition GetState :: "'s storage \<Rightarrow> 's \<Rightarrow> bytes \<Rightarrow> bytes option" where
  "GetState strg s key = getStateNotFoundNil (strgPersist strg) s key"

definition GetBlockHeight :: "'s storage \<Rightarrow> 's \<Rightarrow> u64 option" where
  "GetBlockHeight strg s =
     (case getBlockHeight (strgPersist strg) s of None \<Rightarrow> None | Some (Inl e) \<Rightarrow> Some 0 | Some (Inr h) \<Rightarrow> Some h)"

definition HasTx :: "'s storage \<Rightarrow> 's \<Rightarrow> bytes \<Rightarrow> bool" where
  "HasTx strg s hash = (case hasTx (strgPersist strg) s hash of Inl e \<Rightarrow> False | Inr b \<Rightarrow> b)"

definition GetMerkleRoot :: "'s storage \<Rightarrow> 's \<Rightarrow> bytes option" where
  "GetMerkleRoot strg s =
     (case Root (ms_getNode (strgPersist strg) s) (ms_getHeight (strgPersist strg) s) of
        None \<Rightarrow> None | Some root \<Rightarrow> Data root)"

definition VerifyState :: "'s storage \<Rightarrow> (nat \<Rightarrow> mnode list \<Rightarrow> mnode list) \<Rightarrow> 's \<Rightarrow> bytes \<Rightarrow> string + bytes option" where
  "VerifyState strg sched s key =
     (let p = strgPersist strg
      in case ss_getState p s key of Inl e \<Rightarrow> Inr None
         | Inr value \<Rightarrow>
            (case getMerkleIndex p s key of Inl e \<Rightarrow> Inl ''failed to get state merkle index''
             | Inr merkleIdx \<Rightarrow>
                 (case Verify (strgHash strg) (strgTree strg) (ms_getNode p s) (ms_getHeight p s) (ms_getLeafCount p s) sched
                         [\<lparr>Position = NewPosition 0 (be_nat merkleIdx), Data = Some (sumStateValue (strgHash strg) (Some value))\<rparr>] of
                    None \<Rightarrow> Inl ''runtime error''
                  | Some ok \<Rightarrow> if \<not> ok then Inl ''merkle verification failed'' else Inr (Some value))))"

definition computeMerkleUpdate :: "'s storage \<Rightarrow> (nat \<Rightarrow> mnode list \<Rightarrow> mnode list) \<Rightarrow> 's \<Rightarrow> commit_data \<Rightarrow> commit_data option" where
  "computeMerkleUpdate strg sched s data =
     (let p = strgPersist strg; bcm = cdBlockCommit data;
          scs = loadPrevTreeIndexes p s (loadPrevValues p s (bcStateChanges bcm));
          (scs, leafCount) = setNewTreeIndexes scs (ms_getLeafCount p s);
          nodes = computeUpdatedTreeNodes (strgHash strg) scs
      in case Update (strgHash strg) (strgTree strg) (ms_getNode p s) sched nodes leafCount of
           None \<Rightarrow> None
         | Some upd \<Rightarrow> Some (data\<lparr>cdMerkleUpdate := Some upd,
             cdBlockCommit := bcm\<lparr>bcStateChanges := scs, bcLeafCount := big_bytes (uLeafCount upd), bcMerkleRoot := Data (uRoot upd)\<rparr>\<rparr>))"

definition writeChainData :: "'s storage \<Rightarrow> commit_data \<Rightarrow> 's \<Rightarrow> 's \<times> store_error option" where
  "writeChainData strg data =
     (let c = strgCodec strg; p = strgPersist strg
      in updateLevelDB (setBlock c p (cdBlock data) @ setTxs c p (cdTransactions data) @ setTxCommits c p (cdTxCommits data)))"

definition writeBlockCommit :: "'s storage \<Rightarrow> commit_data \<Rightarrow> 's \<Rightarrow> 's \<times> store_error option" where
  "writeBlockCommit strg data = updateLevelDB [setBlockCommit (strgCodec strg) (strgPersist strg) (cdBlockCommit data)]"

text \<open>Without a Merkle update there is a nil dereference; \<^verbatim>\<open>commit\<close> always computes one first.\<close>

definition writeStateMerkleTree :: "'s storage \<Rightarrow> commit_data \<Rightarrow> 's \<Rightarrow> ('s \<times> store_error option) option" where
  "writeStateMerkleTree strg data s =
     (if bcStateChanges (cdBlockCommit data) = [] then Some (s, None)
      else case cdMerkleUpdate data of None \<Rightarrow> None
           | Some upd \<Rightarrow> Some (updateLevelDB (commitStateChanges (strgPersist strg) (bcStateChanges (cdBlockCommit data))
                             @ ms_commitUpdate (strgPersist strg) upd) s))"

definition setCommittedBlockHeight :: "'s storage \<Rightarrow> u64 \<Rightarrow> 's \<Rightarrow> 's \<times> store_error option" where
  "setCommittedBlockHeight strg height = updateLevelDB [setBlockHeight (strgPersist strg) height]"

definition writeCommitData :: "'s storage \<Rightarrow> commit_data \<Rightarrow> 's \<Rightarrow> ('s \<times> store_error option) option" where
  "writeCommitData strg data s =
     (case writeChainData strg data s of (s, Some e) \<Rightarrow> Some (s, Some e)
      | (s, None) \<Rightarrow>
         (case writeBlockCommit strg data s of (s, Some e) \<Rightarrow> Some (s, Some e)
          | (s, None) \<Rightarrow>
             (case writeStateMerkleTree strg data s of None \<Rightarrow> None
              | Some (s, Some e) \<Rightarrow> Some (s, Some e)
              | Some (s, None) \<Rightarrow> Some (setCommittedBlockHeight strg (blkHeight (blk_data (cdBlock data))) s))))"

definition commit :: "'s storage \<Rightarrow> (nat \<Rightarrow> mnode list \<Rightarrow> mnode list) \<Rightarrow> commit_data \<Rightarrow> 's
    \<Rightarrow> (commit_data \<times> 's \<times> store_error option) option" where
  "commit strg sched data s =
     (case (if bcStateChanges (cdBlockCommit data) = [] then Some data else computeMerkleUpdate strg sched s data) of
        None \<Rightarrow> None
      | Some data \<Rightarrow> (case writeCommitData strg data s of None \<Rightarrow> None | Some (s, e) \<Rightarrow> Some (data, s, e)))"

end
