(* ===== verification/Storage_Correct.thy ===== *)
theory Storage_Correct
  imports Storage
begin

text \<open>
  Correctness of the storage under the contract of its database, the locale \<open>persist_store\<close>: the
  Merkle store over the database is a Merkle store, new keys get the next leaf indices in order, and the
  commit of a block keeps state values, indices and tree in step. The in-memory database is a provider
  of the contract through the LevelDB wrapper.
\<close>

section \<open>The contract of the database\<close>

locale persist_store =
  fixes p :: "'s persist"
  assumes put_same: "pPut p k v s = (s', None) \<Longrightarrow> pGet p s' k = Inr v"
    and put_other: "pPut p k v s = (s', None) \<Longrightarrow> k' \<noteq> k \<Longrightarrow> pGet p s' k' = pGet p s k'"

text \<open>What LevelDB documents: a successful write is read back and changes no other key.\<close>

definition leveldb_laws :: "'s leveldb \<Rightarrow> bool" where
  "leveldb_laws db \<longleftrightarrow>
     (\<forall>k v s s'. db_Put db k v s = (s', None) \<longrightarrow>
        db_Get db s' k = Inr v \<and> (\<forall>k'. k' \<noteq> k \<longrightarrow> db_Get db s' k' = db_Get db s k'))"

lemma LevelDB_persist_store:
  assumes "leveldb_laws db"
  shows "persist_store (LevelDB_persist db)"
proof
  fix k v s s' assume put: "pPut (LevelDB_persist db) k v s = (s', None)"
  then obtain d where "db_Put db k v (ls_db s) = (d, None)" "s' = s\<lparr>ls_db := d\<rparr>"
    by (auto simp: LevelDB_persist_def LevelDB_Put_def io_error_def Let_def split: prod.splits)
  with assms show "pGet (LevelDB_persist db) s' k = Inr v"
    "k' \<noteq> k \<Longrightarrow> pGet (LevelDB_persist db) s' k' = pGet (LevelDB_persist db) s k'" for k'
    by (auto simp: leveldb_laws_def LevelDB_persist_def LevelDB_Get_def)
qed

text \<open>The in-memory database behind \<^verbatim>\<open>NewMemLevelDBStore\<close>.\<close>

fun apply_batch :: "batch_op list \<Rightarrow> (bytes \<Rightarrow> bytes option) \<Rightarrow> bytes \<Rightarrow> bytes option" where
  "apply_batch [] m = m"
| "apply_batch (BPut k v # ops) m = apply_batch ops (m(k \<mapsto> v))"
| "apply_batch (BDelete k # ops) m = apply_batch ops (m(k := None))"

definition mem_db :: "(bytes \<Rightarrow> bytes option) leveldb" where
  "mem_db =
     \<lparr>db_Put = (\<lambda>k v m. (m(k \<mapsto> v), None)),
      db_Get = (\<lambda>m k. case m k of None \<Rightarrow> Inl NotFound | Some v \<Rightarrow> Inr v),
      db_Has = (\<lambda>m k. Inr (m k \<noteq> None)),
      db_Delete = (\<lambda>k m. (m(k := None), None)),
      db_Write = (\<lambda>ops m. (apply_batch ops m, None))\<rparr>"

lemma mem_db_laws: "leveldb_laws mem_db"
  by (simp add: leveldb_laws_def mem_db_def)

interpretation mem_st: persist_store "LevelDB_persist mem_db"
  by (rule LevelDB_persist_store [OF mem_db_laws])

section \<open>Lists of writes\<close>

lemma updateLevelDB_append:
  "updateLevelDB (fs @ gs) s = (s', None) \<longleftrightarrow> (\<exists>s1. updateLevelDB fs s = (s1, None) \<and> updateLevelDB gs s1 = (s', None))"
  by (induction fs arbitrary: s) (auto simp: Let_def split: prod.splits option.splits)

lemma concatBytes_prefix [simp]: "concatBytes [convertPrefix a, x] = prefix_byte a # x"
  by (simp add: concatBytes_def convertPrefix_def)

definition puts :: "'s persist \<Rightarrow> (bytes \<times> bytes) list \<Rightarrow> 's updateFunc list" where
  "puts p kvs = map (\<lambda>(k, v). pPut p k v) kvs"

text \<open>Writes whose keys start with other bytes leave a key alone.\<close>

definition writes_to :: "'s persist \<Rightarrow> u8 set \<Rightarrow> 's updateFunc \<Rightarrow> bool" where
  "writes_to p B fn \<longleftrightarrow> (\<forall>s s' k. fn s = (s', None) \<longrightarrow> k \<noteq> [] \<longrightarrow> hd k \<notin> B \<longrightarrow> pGet p s' k = pGet p s k)"

context persist_store
begin

lemma update_puts:
  "updateLevelDB (puts p kvs) s = (s', None) \<Longrightarrow>
     pGet p s' k = (case map_of (rev kvs) k of Some v \<Rightarrow> Inr v | None \<Rightarrow> pGet p s k)"
proof (induction kvs arbitrary: s)
  case (Cons kv kvs)
  obtain k0 v0 where kv: "kv = (k0, v0)" by (cases kv)
  from Cons.prems obtain s1 where s1: "pPut p k0 v0 s = (s1, None)" "updateLevelDB (puts p kvs) s1 = (s', None)"
    by (auto simp: puts_def kv Let_def split: prod.splits option.splits)
  from Cons.IH [OF s1(2)] put_same [OF s1(1)] put_other [OF s1(1)] show ?case
    by (auto simp: kv map_add_def split: option.split)
qed (simp add: puts_def)

lemma writes_to_put [simp]: "b \<in> B \<Longrightarrow> writes_to p B (pPut p (b # x) v)"
  unfolding writes_to_def by (auto intro!: put_other)

lemma writes_to_put_msg [simp]: "b \<in> B \<Longrightarrow> writes_to p B (put_msg p (b # x) m)"
  unfolding writes_to_def put_msg_def by (auto intro!: put_other split: sum.splits)

lemma update_frame:
  assumes "updateLevelDB fns s = (s', None)" and "\<forall>fn \<in> set fns. writes_to p B fn" and "k \<noteq> []" "hd k \<notin> B"
  shows "pGet p s' k = pGet p s k"
  using assms(1,2)
proof (induction fns arbitrary: s)
  case (Cons fn fns)
  then obtain s1 where "fn s = (s1, None)" "updateLevelDB fns s1 = (s', None)"
    by (auto simp: Let_def split: prod.splits option.splits)
  with Cons assms(3,4) show ?case by (auto simp: writes_to_def)
qed simp

end

text \<open>The Merkle store over the database keeps the contract of a Merkle store.\<close>

definition ms_commit :: "'s persist \<Rightarrow> update_result \<Rightarrow> 's \<Rightarrow> 's option" where
  "ms_commit p res s = (case updateLevelDB (ms_commitUpdate p res) s of (s', None) \<Rightarrow> Some s' | (s', Some e) \<Rightarrow> None)"

definition merkle_puts :: "update_result \<Rightarrow> (bytes \<times> bytes) list" where
  "merkle_puts res = map (\<lambda>m. (14 # pbytes (Position m), opt_val (Data m))) (result_nodes res)
     @ [([13], big_bytes (uLeafCount res)), ([12], [uHeight res])]"

lemma map_of_nodes:
  "distinct (map f ms) \<Longrightarrow> m \<in> set ms \<Longrightarrow> map_of (map (\<lambda>m. (f m, g m)) ms) (f m) = Some (g m)"
  by (induction ms) (auto simp: image_iff)

lemma map_of_nodes_rev:
  "distinct (map f ms) \<Longrightarrow> m \<in> set ms \<Longrightarrow> map_of (rev (map (\<lambda>m. (f m, g m)) ms)) (f m) = Some (g m)"
  using map_of_nodes [of f "rev ms" m g] by (simp add: rev_map distinct_map)

lemma map_of_rev_None: "map_of (rev xs) k = None \<longleftrightarrow> k \<notin> fst ` set xs"
  by (simp add: map_of_eq_None_iff)

lemma pbytes_canon: "canon q \<Longrightarrow> pbytes q = pstr q"
  unfolding canon_def NewPosition_def by (metis position.select_convs(3,4))

lemma ms_commitUpdate_puts: "ms_commitUpdate p res = puts p (merkle_puts res)"
  by (simp add: ms_commitUpdate_def merkle_puts_def puts_def result_nodes_def ms_setNodes_def ms_setNode_def [abs_def]
      ms_setLeafCount_def ms_setTreeHeight_def concatBytes_def convertPrefix_def)

context persist_store
begin

lemma ms_commit_get:
  "ms_commit p res s = Some s' \<Longrightarrow>
     pGet p s' k = (case map_of (rev (merkle_puts res)) k of Some v \<Rightarrow> Inr v | None \<Rightarrow> pGet p s k)"
  by (intro update_puts) (auto simp: ms_commit_def ms_commitUpdate_puts split: prod.splits option.splits)

end

sublocale persist_store \<subseteq> merkle: merkle_store "ms_getNode p" "ms_getHeight p" "ms_getLeafCount p" "ms_commit p"
proof (unfold_locales, goal_cases)
  case (1 res s s' m)
  note get = ms_commit_get [OF 1(1)]
  have pstr: "pbytes (Position m) = pstr (Position m)" if "m \<in> set (result_nodes res)" for m
    using 1(2) that pbytes_canon by (auto simp: wf_result_def)
  have "distinct (map (\<lambda>m. 14 # pbytes (Position m)) (result_nodes res))"
    using wf_result_distinct_pstr [OF 1(2)] pstr by (auto simp: distinct_map inj_on_def)
  from map_of_nodes_rev [OF this 1(3), of "\<lambda>m. opt_val (Data m)"]
  have "pGet p s' (14 # pbytes (Position m)) = Inr (opt_val (Data m))"
    by (simp add: get merkle_puts_def)
  moreover have "Data m \<noteq> None" using 1(2,3) by (auto simp: wf_result_def)
  ultimately show ?case by (auto simp: ms_getNode_def opt_val_def)
next
  case (2 res s s' q)
  note get = ms_commit_get [OF 2(1)]
  have "14 # pbytes q \<notin> fst ` set (merkle_puts res)"
    using canon_pstr_notin [OF 2(3,2,4)] 2(2,3) pbytes_canon by (auto simp: merkle_puts_def wf_result_def image_iff)
  then show ?case by (simp add: ms_getNode_def get map_of_rev_None [THEN iffD2])
next
  case (3 res s s')
  note get = ms_commit_get [OF 3(1)]
  show ?case by (simp add: ms_getHeight_def convertPrefix_def get merkle_puts_def)
next
  case (4 res s s')
  note get = ms_commit_get [OF 4(1)]
  show ?case by (simp add: ms_getLeafCount_def convertPrefix_def get merkle_puts_def)
qed

section \<open>Leaf indices\<close>

lemma be_nat_leafIndexBytes [simp]: "be_nat (leafIndexBytes i) = i"
  by (auto simp: leafIndexBytes_def) (simp add: be_nat_def)

lemma leafIndexBytes_inject [simp]: "leafIndexBytes i = leafIndexBytes j \<longleftrightarrow> i = j"
  by (metis be_nat_leafIndexBytes)

lemma scByKey_fold:
  assumes "distinct (map scKey scs)" and "i < length scs" and "scPrevTreeIndex (scs ! i) = None"
  shows "fold (\<lambda>(i, sc) m. if scPrevTreeIndex sc = None then m(scKey sc \<mapsto> i) else m) (enumerate n scs) m0 (scKey (scs ! i)) = Some (n + i)"
  using assms
proof (induction scs arbitrary: n i m0)
  case (Cons sc scs)
  have other: "fold (\<lambda>(i, sc) m. if scPrevTreeIndex sc = None then m(scKey sc \<mapsto> i) else m) (enumerate k xs) m key = m key"
    if "key \<notin> scKey ` set xs" for k xs m key
    using that by (induction xs arbitrary: k m) auto
  show ?case
  proof (cases i)
    case 0
    with Cons.prems show ?thesis by (simp add: other)
  next
    case (Suc j)
    with Cons.prems Cons.IH [of j "Suc n"] show ?thesis by simp
  qed
qed simp

lemma number_fold:
  assumes "distinct ks" and "distinct (map scKey scs)" and "\<forall>k \<in> set ks. \<exists>i < length scs. m k = Some i \<and> scKey (scs ! i) = k"
  shows "fold (number_key m) ks (scs, n) =
    (map (\<lambda>sc. case map_of (zip ks [n..<n + length ks]) (scKey sc) of Some j \<Rightarrow> setLeafIndex sc j | None \<Rightarrow> sc) scs, n + length ks)"
  using assms
proof (induction ks arbitrary: scs n)
  case (Cons k ks)
  obtain i where i: "i < length scs" "m k = Some i" "scKey (scs ! i) = k" using Cons.prems(3) by auto
  let ?scs = "scs[i := setLeafIndex (scs ! i) n]"
  have key: "scKey (?scs ! j) = scKey (scs ! j)" if "j < length scs" for j
    using that by (cases "j = i") (auto simp: setLeafIndex_def)
  have keys: "map scKey ?scs = map scKey scs" by (rule nth_equalityI) (simp_all add: key)
  have IH: "fold (number_key m) ks (?scs, Suc n) =
      (map (\<lambda>sc. case map_of (zip ks [Suc n..<Suc n + length ks]) (scKey sc) of Some j \<Rightarrow> setLeafIndex sc j | None \<Rightarrow> sc) ?scs, Suc n + length ks)"
  proof (rule Cons.IH)
    show "\<forall>k \<in> set ks. \<exists>i < length ?scs. m k = Some i \<and> scKey (?scs ! i) = k"
      using Cons.prems(3) key by (metis length_list_update list.set_intros(2))
  qed (use Cons.prems keys in simp_all)
  have "(case map_of (zip ks [Suc n..<Suc n + length ks]) (scKey (?scs ! j)) of Some l \<Rightarrow> setLeafIndex (?scs ! j) l | None \<Rightarrow> ?scs ! j) =
      (case map_of (zip (k # ks) [n..<n + length (k # ks)]) (scKey (scs ! j)) of Some l \<Rightarrow> setLeafIndex (scs ! j) l | None \<Rightarrow> scs ! j)"
    if j: "j < length scs" for j
  proof (cases "j = i")
    case True
    have none: "map_of (zip ks [Suc n..<Suc (n + length ks)]) k = None"
      using Cons.prems(1) by (auto simp: map_of_eq_None_iff simp del: upt_Suc dest: set_zip_leftD)
    show ?thesis using i key [OF j] by (simp add: True none upt_conv_Cons del: upt_Suc)
  next
    case False
    then have "scKey (scs ! j) \<noteq> k"
      using Cons.prems(2) i j by (metis length_map nth_eq_iff_index_eq nth_map)
    moreover have eq: "?scs ! j = scs ! j" using False by simp
    ultimately show ?thesis unfolding eq by (simp add: upt_conv_Cons del: upt_Suc)
  qed
  then have "map (\<lambda>sc. case map_of (zip ks [Suc n..<Suc n + length ks]) (scKey sc) of Some j \<Rightarrow> setLeafIndex sc j | None \<Rightarrow> sc) ?scs =
      map (\<lambda>sc. case map_of (zip (k # ks) [n..<n + length (k # ks)]) (scKey sc) of Some j \<Rightarrow> setLeafIndex sc j | None \<Rightarrow> sc) scs"
    by (intro nth_equalityI) simp_all
  moreover have "number_key m k (scs, n) = (?scs, Suc n)" by (simp add: number_key_def i(2))
  ultimately show ?case using IH by (simp del: upt_Suc)
qed (simp add: option.case_eq_if)

lemma bij_betw_map_upt:
  assumes "map f ks = [n..<m]"
  shows "bij_betw f (set ks) {n..<m}"
proof -
  have "distinct (map f ks)" "set (map f ks) = {n..<m}" unfolding assms by simp_all
  then show ?thesis by (simp add: bij_betw_def distinct_map)
qed

text \<open>
  The outcome: a key with an index keeps it, and the new keys get the next indices, each its own.
\<close>

lemma setNewTreeIndexes_form:
  assumes "distinct (map scKey scs)"
  shows "\<exists>tk. setNewTreeIndexes scs n =
      (map (\<lambda>sc. sc\<lparr>scTreeIndex := (if scPrevTreeIndex sc = None then Some (leafIndexBytes (tk (scKey sc))) else scPrevTreeIndex sc)\<rparr>) scs,
       n + length (filter (\<lambda>sc. scPrevTreeIndex sc = None) scs)) \<and>
    bij_betw tk (scKey ` {sc \<in> set scs. scPrevTreeIndex sc = None}) {n..<n + length (filter (\<lambda>sc. scPrevTreeIndex sc = None) scs)}"
proof -
  let ?new = "filter (\<lambda>sc. scPrevTreeIndex sc = None) scs" and ?f = "\<lambda>sc. if scPrevTreeIndex sc \<noteq> None then sc\<lparr>scTreeIndex := scPrevTreeIndex sc\<rparr> else sc"
  let ?ks = "sort (map scKey ?new)"
  let ?tab = "zip ?ks [n..<n + length ?ks]"
  have keyf: "scKey (?f sc) = scKey sc" for sc by simp
  have dk: "distinct ?ks" using assms by (simp add: distinct_map_filter)
  have keys: "map scKey (map ?f scs) = map scKey scs" by simp
  have idx: "\<exists>i < length (map ?f scs). scByKey scs k = Some i \<and> scKey (map ?f scs ! i) = k" if "k \<in> set ?ks" for k
  proof -
    from that obtain i where "i < length scs" "scPrevTreeIndex (scs ! i) = None" "k = scKey (scs ! i)"
      by (auto simp: in_set_conv_nth)
    with scByKey_fold [OF assms, of i 0 "\<lambda>_. None"] show ?thesis by (auto simp: scByKey_def)
  qed
  have "distinct (map scKey (map ?f scs))" using assms keys by argo
  from number_fold [OF dk this, of "scByKey scs" n] idx
  have fold: "setNewTreeIndexes scs n = (map (\<lambda>sc. case map_of ?tab (scKey sc) of Some j \<Rightarrow> setLeafIndex sc j | None \<Rightarrow> sc) (map ?f scs), n + length ?ks)"
    by (simp add: setNewTreeIndexes_def Let_def)
  define T where "T = map_of ?tab"
  define tk where "tk k = the (T k)" for k
  have "length ?ks = length [n..<n + length ?ks]" by simp
  from map_of_zip_is_Some [OF this] have dom: "k \<in> set ?ks \<longleftrightarrow> (\<exists>y. T k = Some y)" for k unfolding T_def by blast
  have "(case T (scKey sc) of Some j \<Rightarrow> setLeafIndex (?f sc) j | None \<Rightarrow> ?f sc) =
      sc\<lparr>scTreeIndex := (if scPrevTreeIndex sc = None then Some (leafIndexBytes (tk (scKey sc))) else scPrevTreeIndex sc)\<rparr>"
    if sc: "sc \<in> set scs" for sc
  proof (cases "scPrevTreeIndex sc = None")
    case True
    then have "scKey sc \<in> set ?ks" using sc by auto
    with dom obtain y where "T (scKey sc) = Some y" by blast
    with True show ?thesis by (simp add: setLeafIndex_def tk_def)
  next
    case False
    then have "scKey sc \<notin> set ?ks" using sc assms by (auto simp: distinct_map inj_on_def)
    then have "T (scKey sc) = None" using dom [of "scKey sc"] by (cases "T (scKey sc)") simp_all
    with False show ?thesis by simp
  qed
  then have form: "map (\<lambda>sc. case T (scKey sc) of Some j \<Rightarrow> setLeafIndex sc j | None \<Rightarrow> sc) (map ?f scs) =
      map (\<lambda>sc. sc\<lparr>scTreeIndex := (if scPrevTreeIndex sc = None then Some (leafIndexBytes (tk (scKey sc))) else scPrevTreeIndex sc)\<rparr>) scs"
    unfolding map_map comp_def keyf by (intro map_cong refl)
  have "tk (?ks ! j) = n + j" if "j < length ?ks" for j
    using map_of_zip_nth [of ?ks "[n..<n + length ?ks]" j] dk that by (simp add: tk_def T_def)
  then have "map tk ?ks = [n..<n + length ?ks]" by (intro nth_equalityI) simp_all
  then have "bij_betw tk (set ?ks) {n..<n + length ?ks}"
    by (rule bij_betw_map_upt)
  moreover have "set ?ks = scKey ` {sc \<in> set scs. scPrevTreeIndex sc = None}" by auto
  ultimately show ?thesis using fold form unfolding T_def [symmetric] by (intro exI [of _ tk]) simp
qed

section \<open>State and tree\<close>

text \<open>
  The invariant of a storage: the tree is well formed for its leaves, every key with a value has a leaf
  index of its own, in the shortest form, and the leaf at the index is the hash of the value.
\<close>

definition state_leaves :: "'s persist \<Rightarrow> (bytes \<Rightarrow> bytes) \<Rightarrow> tree_calc \<Rightarrow> 's \<Rightarrow> (nat \<Rightarrow> bytes option) \<Rightarrow> bool" where
  "state_leaves p h tc s leaf \<longleftrightarrow>
     store_ok h tc (ms_getNode p s) (ms_getHeight p s) (ms_getLeafCount p s) leaf \<and>
     (\<forall>k e. ss_getState p s k = Inl e \<longrightarrow> (\<exists>e. getMerkleIndex p s k = Inl e)) \<and>
     (\<forall>k v. ss_getState p s k = Inr v \<longrightarrow> (\<exists>i. getMerkleIndex p s k = Inr (leafIndexBytes i) \<and> leaf i = Some (h v))) \<and>
     (\<forall>k k' b. getMerkleIndex p s k = Inr b \<longrightarrow> getMerkleIndex p s k' = Inr b \<longrightarrow> k = k')"

definition storage_ok :: "'s storage \<Rightarrow> 's \<Rightarrow> bool" where
  "storage_ok strg s \<longleftrightarrow> (\<exists>leaf. state_leaves (strgPersist strg) (strgHash strg) (strgTree strg) s leaf)"

lemma state_leaves_bound:
  "state_leaves p h tc s leaf \<Longrightarrow> leaf i = Some d \<Longrightarrow> i < ms_getLeafCount p s"
  by (auto simp: state_leaves_def store_ok_def wf_nodes_def)

lemma state_leaves_index:
  assumes "state_leaves p h tc s leaf" and "getMerkleIndex p s k = Inr b"
  shows "\<exists>i v. b = leafIndexBytes i \<and> leaf i = Some (h v) \<and> ss_getState p s k = Inr v"
  using assms unfolding state_leaves_def by (cases "ss_getState p s k") (metis Inl_Inr_False Inr_inject)+

text \<open>The index a key has after the commit of a block.\<close>

definition leaf_of :: "'s persist \<Rightarrow> 's \<Rightarrow> (bytes \<Rightarrow> nat) \<Rightarrow> bytes \<Rightarrow> nat" where
  "leaf_of p s tk k = (case getMerkleIndex p s k of Inl e \<Rightarrow> tk k | Inr b \<Rightarrow> be_nat b)"

definition is_new :: "'s persist \<Rightarrow> 's \<Rightarrow> bytes \<Rightarrow> bool" where
  "is_new p s k = (case getMerkleIndex p s k of Inl e \<Rightarrow> True | Inr b \<Rightarrow> False)"

definition indexed :: "'s persist \<Rightarrow> 's \<Rightarrow> (bytes \<Rightarrow> nat) \<Rightarrow> state_change \<Rightarrow> state_change" where
  "indexed p s tk sc = sc\<lparr>scPrevValue := getStateNotFoundNil p s (scKey sc),
     scPrevTreeIndex := (case getMerkleIndex p s (scKey sc) of Inl e \<Rightarrow> None | Inr b \<Rightarrow> Some b),
     scTreeIndex := Some (leafIndexBytes (leaf_of p s tk (scKey sc)))\<rparr>"

lemma compute_indexes:
  assumes sl: "state_leaves p h tc s leaf" and d: "distinct (map scKey scs)" and prev: "\<forall>sc \<in> set scs. scPrevTreeIndex sc = None"
  shows "\<exists>tk. setNewTreeIndexes (loadPrevTreeIndexes p s (loadPrevValues p s scs)) n =
      (map (indexed p s tk) scs, n + length (filter (\<lambda>sc. is_new p s (scKey sc)) scs)) \<and>
    bij_betw tk {k \<in> scKey ` set scs. is_new p s k} {n..<n + length (filter (\<lambda>sc. is_new p s (scKey sc)) scs)}"
proof -
  define g where "g sc = sc\<lparr>scPrevValue := getStateNotFoundNil p s (scKey sc),
      scPrevTreeIndex := (case getMerkleIndex p s (scKey sc) of Inl e \<Rightarrow> None | Inr b \<Rightarrow> Some b)\<rparr>" for sc :: state_change
  have load: "loadPrevTreeIndexes p s (loadPrevValues p s scs) = map g scs"
    using prev by (auto simp: loadPrevTreeIndexes_def loadPrevValues_def g_def split: sum.split)
  have key: "scKey (g sc) = scKey sc" "(scPrevTreeIndex (g sc) = None) = is_new p s (scKey sc)" for sc
    by (simp_all add: g_def is_new_def split: sum.split)
  have "distinct (map scKey (map g scs))" using d by (simp add: key comp_def)
  from setNewTreeIndexes_form [OF this, of n] obtain tk where tk:
    "setNewTreeIndexes (map g scs) n =
      (map (\<lambda>sc. sc\<lparr>scTreeIndex := (if scPrevTreeIndex sc = None then Some (leafIndexBytes (tk (scKey sc))) else scPrevTreeIndex sc)\<rparr>) (map g scs),
       n + length (filter (\<lambda>sc. scPrevTreeIndex sc = None) (map g scs)))"
    "bij_betw tk (scKey ` {sc \<in> set (map g scs). scPrevTreeIndex sc = None}) {n..<n + length (filter (\<lambda>sc. scPrevTreeIndex sc = None) (map g scs))}"
    by blast
  have len: "length (filter (\<lambda>sc. scPrevTreeIndex sc = None) (map g scs)) = length (filter (\<lambda>sc. is_new p s (scKey sc)) scs)"
    by (simp add: filter_map comp_def key)
  have set: "scKey ` {sc \<in> set (map g scs). scPrevTreeIndex sc = None} = {k \<in> scKey ` set scs. is_new p s k}"
    using key by (auto simp: image_iff) metis
  have "(g sc)\<lparr>scTreeIndex := (if scPrevTreeIndex (g sc) = None then Some (leafIndexBytes (tk (scKey (g sc)))) else scPrevTreeIndex (g sc))\<rparr>
      = indexed p s tk sc" for sc
    using state_leaves_index [OF sl, of "scKey sc"]
    by (cases "getMerkleIndex p s (scKey sc)") (auto simp: g_def indexed_def leaf_of_def)
  then have eq: "map (\<lambda>sc. sc\<lparr>scTreeIndex := (if scPrevTreeIndex sc = None then Some (leafIndexBytes (tk (scKey sc))) else scPrevTreeIndex sc)\<rparr>) (map g scs)
      = map (indexed p s tk) scs" unfolding map_map comp_def by (intro map_cong refl)
  show ?thesis unfolding load using tk(1) [unfolded len eq] tk(2) [unfolded len set] by blast
qed

text \<open>Every key of the block has a leaf of its own below the new count, and the new leaves are covered.\<close>

lemma leaf_of_facts:
  assumes sl: "state_leaves p h tc s leaf"
    and bij: "bij_betw tk {k \<in> K. is_new p s k} {ms_getLeafCount p s..<n'}" and n': "ms_getLeafCount p s \<le> n'"
  shows "inj_on (leaf_of p s tk) K" "k \<in> K \<Longrightarrow> leaf_of p s tk k < n'"
    "j \<in> {ms_getLeafCount p s..<n'} \<Longrightarrow> \<exists>k \<in> K. leaf_of p s tk k = j"
    "k \<in> K \<Longrightarrow> k' \<notin> K \<Longrightarrow> getMerkleIndex p s k' = Inr (leafIndexBytes i) \<Longrightarrow> leaf_of p s tk k \<noteq> i"
proof -
  let ?n = "ms_getLeafCount p s"
  have old: "leaf_of p s tk k < ?n \<and> getMerkleIndex p s k = Inr (leafIndexBytes (leaf_of p s tk k))" if "\<not> is_new p s k" for k
    using that state_leaves_index [OF sl, of k] state_leaves_bound [OF sl]
    by (auto simp: is_new_def leaf_of_def split: sum.splits)
  have new: "leaf_of p s tk k = tk k" if "is_new p s k" for k
    using that by (auto simp: is_new_def leaf_of_def split: sum.splits)
  have rng: "tk k \<in> {?n..<n'}" if "k \<in> K" "is_new p s k" for k
    using bij_betw_apply [OF bij] that by blast
  have uniq: "k = k'" if "getMerkleIndex p s k = Inr b" "getMerkleIndex p s k' = Inr b" for k k' b
    using sl that unfolding state_leaves_def by blast
  show "inj_on (leaf_of p s tk) K"
  proof (rule inj_onI)
    fix k k' assume k: "k \<in> K" "k' \<in> K" and eq: "leaf_of p s tk k = leaf_of p s tk k'"
    show "k = k'"
    proof (cases "is_new p s k = is_new p s k'")
      case True
      then show ?thesis
        using k eq old [of k] old [of k'] uniq new bij_betw_imp_inj_on [OF bij] by (auto simp: inj_on_def)
    next
      case False
      then show ?thesis using k eq old [of k] old [of k'] new [of k] new [of k'] rng [of k] rng [of k'] by force
    qed
  qed
  show "leaf_of p s tk k < n'" if "k \<in> K" using that old [of k] new [of k] rng [of k] n' by fastforce
  show "\<exists>k \<in> K. leaf_of p s tk k = j" if "j \<in> {?n..<n'}"
    using that bij_betw_imp_surj_on [OF bij] new by (metis (mono_tags, lifting) imageE mem_Collect_eq)
  show "leaf_of p s tk k \<noteq> i" if "k \<in> K" "k' \<notin> K" "getMerkleIndex p s k' = Inr (leafIndexBytes i)"
  proof
    assume eq: "leaf_of p s tk k = i"
    have "i < ?n" using state_leaves_index [OF sl that(3)] state_leaves_bound [OF sl] by auto
    then have "\<not> is_new p s k" using that(1) eq new [of k] rng [of k] by force
    then have "getMerkleIndex p s k = Inr (leafIndexBytes i)" using old [of k] eq by simp
    with uniq that show False by blast
  qed
qed

section \<open>The writes of a commit\<close>

definition state_nodes :: "'s persist \<Rightarrow> (bytes \<Rightarrow> bytes) \<Rightarrow> 's \<Rightarrow> (bytes \<Rightarrow> nat) \<Rightarrow> state_change list \<Rightarrow> mnode list" where
  "state_nodes p h s tk scs =
     map (\<lambda>sc. \<lparr>Position = NewPosition 0 (leaf_of p s tk (scKey sc)), Data = Some (h (opt_val (scValue sc)))\<rparr>) scs"

lemma computeUpdatedTreeNodes_indexed: "computeUpdatedTreeNodes h (map (indexed p s tk) scs) = state_nodes p h s tk scs"
  by (simp add: computeUpdatedTreeNodes_def state_nodes_def indexed_def sumStateValue_def opt_val_def)

lemma index_NewPosition [simp]: "index (NewPosition l i) = i"
  by (simp add: NewPosition_def)

lemma state_nodes_wf:
  assumes sl: "state_leaves p h tc s leaf" and d: "distinct (map scKey scs)" and ne: "scs \<noteq> []"
    and bij: "bij_betw tk {k \<in> scKey ` set scs. is_new p s k} {ms_getLeafCount p s..<n'}" and n': "ms_getLeafCount p s \<le> n'"
  shows "wf_leaves (ms_getLeafCount p s) n' (state_nodes p h s tk scs)"
proof -
  note f = leaf_of_facts [OF sl bij n']
  have "distinct (map (\<lambda>m. index (Position m)) (state_nodes p h s tk scs))"
    using d f(1) by (auto simp: state_nodes_def distinct_map inj_on_def comp_def)
  moreover have "leaf_idx (state_nodes p h s tk scs) = leaf_of p s tk ` scKey ` set scs"
    by (simp add: leaf_idx_def state_nodes_def image_image)
  ultimately show ?thesis
    unfolding wf_leaves_def using ne n' f(2,3) by (auto simp: state_nodes_def) (metis imageE image_eqI)
qed

context persist_store
begin

lemma merkle_contract: "merkle_store (ms_getNode p) (ms_getHeight p) (ms_getLeafCount p) (ms_commit p)"
  by (rule merkle.merkle_store_axioms)

lemma state_change_writes:
  assumes "updateLevelDB (commitStateChange p sc) s = (s', None)"
  shows "ss_getState p s' k = (if k = scKey sc then Inr (opt_val (scValue sc)) else ss_getState p s k)"
    "k \<noteq> scKey sc \<Longrightarrow> getMerkleIndex p s' k = getMerkleIndex p s k"
    "(scPrevTreeIndex sc = None \<or> opt_val (scPrevTreeIndex sc) \<noteq> opt_val (scTreeIndex sc)) \<Longrightarrow> getMerkleIndex p s' (scKey sc) = Inr (opt_val (scTreeIndex sc))"
    "\<not> (scPrevTreeIndex sc = None \<or> opt_val (scPrevTreeIndex sc) \<noteq> opt_val (scTreeIndex sc)) \<Longrightarrow> getMerkleIndex p s' (scKey sc) = getMerkleIndex p s (scKey sc)"
proof -
  let ?c = "scPrevTreeIndex sc = None \<or> opt_val (scPrevTreeIndex sc) \<noteq> opt_val (scTreeIndex sc)"
  have "commitStateChange p sc = puts p ((10 # scKey sc, opt_val (scValue sc)) # (if ?c then [(11 # scKey sc, opt_val (scTreeIndex sc))] else []))"
    by (simp add: commitStateChange_def puts_def ss_setState_def setTreeIndex_def)
  note get = update_puts [OF assms [unfolded this]]
  show "ss_getState p s' k = (if k = scKey sc then Inr (opt_val (scValue sc)) else ss_getState p s k)"
    by (simp add: ss_getState_def get)
  show "k \<noteq> scKey sc \<Longrightarrow> getMerkleIndex p s' k = getMerkleIndex p s k" "?c \<Longrightarrow> getMerkleIndex p s' (scKey sc) = Inr (opt_val (scTreeIndex sc))"
    "\<not> ?c \<Longrightarrow> getMerkleIndex p s' (scKey sc) = getMerkleIndex p s (scKey sc)"
    by (auto simp: getMerkleIndex_def get)
qed

text \<open>
  The writes of all state changes, once every change carries the stored index of its key as the previous
  one: the new values and indices are read back, and other keys are as before.
\<close>

lemma state_writes:
  assumes "updateLevelDB (commitStateChanges p scs) s = (s', None)" and "distinct (map scKey scs)"
    and "\<forall>sc \<in> set scs. \<forall>b. scPrevTreeIndex sc = Some b \<longrightarrow> getMerkleIndex p s (scKey sc) = Inr b"
  shows "(\<forall>k. k \<notin> scKey ` set scs \<longrightarrow> ss_getState p s' k = ss_getState p s k \<and> getMerkleIndex p s' k = getMerkleIndex p s k) \<and>
    (\<forall>sc \<in> set scs. ss_getState p s' (scKey sc) = Inr (opt_val (scValue sc)) \<and>
       getMerkleIndex p s' (scKey sc) = Inr (opt_val (scTreeIndex sc)))"
  using assms
proof (induction scs arbitrary: s)
  case (Cons sc scs)
  from Cons.prems(1) obtain s1 where s1: "updateLevelDB (commitStateChange p sc) s = (s1, None)"
      "updateLevelDB (commitStateChanges p scs) s1 = (s', None)"
    by (auto simp: commitStateChanges_def updateLevelDB_append)
  note one = state_change_writes [OF s1(1)]
  have "\<forall>sc' \<in> set scs. \<forall>b. scPrevTreeIndex sc' = Some b \<longrightarrow> getMerkleIndex p s1 (scKey sc') = Inr b"
    using Cons.prems(2,3) one(2) by (metis (no_types, lifting) distinct.simps(2) image_eqI list.set_intros(2) list.set_map list.simps(9))
  from Cons.IH [OF s1(2) _ this] Cons.prems(2)
  have IH: "\<forall>k. k \<notin> scKey ` set scs \<longrightarrow> ss_getState p s' k = ss_getState p s1 k \<and> getMerkleIndex p s' k = getMerkleIndex p s1 k"
      "\<forall>sc \<in> set scs. ss_getState p s' (scKey sc) = Inr (opt_val (scValue sc)) \<and> getMerkleIndex p s' (scKey sc) = Inr (opt_val (scTreeIndex sc))"
    by auto
  have "getMerkleIndex p s1 (scKey sc) = Inr (opt_val (scTreeIndex sc))"
    using one(3,4) Cons.prems(3) by (cases "scPrevTreeIndex sc") (auto simp: opt_val_def)
  moreover have "scKey sc \<notin> scKey ` set scs" using Cons.prems(2) by simp
  ultimately show ?case using IH one(1,2) by auto
qed (simp add: commitStateChanges_def)

lemma state_writes_bytes: "fn \<in> set (commitStateChanges p scs) \<Longrightarrow> writes_to p {10, 11} fn"
  by (auto simp: commitStateChanges_def commitStateChange_def ss_setState_def setTreeIndex_def split: if_splits)

lemma merkle_writes_bytes: "fn \<in> set (ms_commitUpdate p upd) \<Longrightarrow> writes_to p {12, 13, 14} fn"
  by (auto simp: ms_commitUpdate_def ms_setNodes_def ms_setNode_def ms_setLeafCount_def ms_setTreeHeight_def convertPrefix_def concatBytes_def)

lemma chain_writes_bytes:
  "fn \<in> set (setBlock c p blk @ setTxs c p txs @ setTxCommits c p txcs) \<Longrightarrow> writes_to p {1, 2, 8, 9} fn"
  "writes_to p {6} (setBlockCommit c p bcm)" "writes_to p {3} (setBlockHeight p n)"
  by (auto simp: setBlock_def setBlockByHash_def setBlockHashByHeight_def setTxs_def setTx_def setTxCommits_def setTxCommit_def
      setBlockCommit_def setBlockHeight_def convertPrefix_def concatBytes_def)

text \<open>The state and tree getters read keys that start with the bytes 10 to 14.\<close>

lemma state_getters_cong:
  assumes "\<And>k. k \<noteq> [] \<Longrightarrow> hd k \<in> {10, 11} \<Longrightarrow> pGet p s' k = pGet p s k"
  shows "ss_getState p s' = ss_getState p s" "getMerkleIndex p s' = getMerkleIndex p s"
  using assms by (auto simp: ss_getState_def getMerkleIndex_def fun_eq_iff)

lemma merkle_getters_cong:
  assumes "\<And>k. k \<noteq> [] \<Longrightarrow> hd k \<in> {12, 13, 14} \<Longrightarrow> pGet p s' k = pGet p s k"
  shows "ms_getNode p s' = ms_getNode p s" "ms_getHeight p s' = ms_getHeight p s" "ms_getLeafCount p s' = ms_getLeafCount p s"
  using assms by (auto simp: ms_getNode_def ms_getHeight_def ms_getLeafCount_def convertPrefix_def concatBytes_def fun_eq_iff)

lemma state_leaves_cong:
  assumes "\<And>k. k \<noteq> [] \<Longrightarrow> hd k \<in> {10, 11, 12, 13, 14} \<Longrightarrow> pGet p s' k = pGet p s k"
  shows "state_leaves p h tc s' leaf = state_leaves p h tc s leaf"
proof -
  have "ss_getState p s' = ss_getState p s" "getMerkleIndex p s' = getMerkleIndex p s"
    using assms by (auto intro!: state_getters_cong)
  moreover have "ms_getNode p s' = ms_getNode p s" "ms_getHeight p s' = ms_getHeight p s" "ms_getLeafCount p s' = ms_getLeafCount p s"
    using assms by (auto intro!: merkle_getters_cong)
  ultimately show ?thesis by (simp add: state_leaves_def)
qed

text \<open>Committing the state changes and the tree keeps the invariant, for the leaves with the new ones set.\<close>

lemma state_tree_commit:
  assumes sl: "state_leaves p h tc s leaf" and d: "distinct (map scKey scs)" and ne: "scs \<noteq> []"
    and bij: "bij_betw tk {k \<in> scKey ` set scs. is_new p s k} {ms_getLeafCount p s..<n'}" and n': "ms_getLeafCount p s \<le> n'"
    and up: "\<And>s'. ms_commit p upd s1 = Some s' \<Longrightarrow>
       store_ok h tc (ms_getNode p s') (ms_getHeight p s') (ms_getLeafCount p s') (set_leaves (state_nodes p h s tk scs) leaf)"
    and w1: "updateLevelDB (commitStateChanges p (map (indexed p s tk) scs)) s = (s1, None)"
    and w2: "updateLevelDB (ms_commitUpdate p upd) s1 = (s2, None)"
  shows "state_leaves p h tc s2 (set_leaves (state_nodes p h s tk scs) leaf)"
    "ss_getState p s2 k = (case map_of (map (\<lambda>sc. (scKey sc, scValue sc)) scs) k of Some v \<Rightarrow> Inr (opt_val v) | None \<Rightarrow> ss_getState p s k)"
proof -
  let ?ns = "state_nodes p h s tk scs" and ?K = "scKey ` set scs"
  note f = leaf_of_facts [OF sl bij n']
  have sel: "scKey (indexed p s tk sc) = scKey sc" "scValue (indexed p s tk sc) = scValue sc"
      "scTreeIndex (indexed p s tk sc) = Some (leafIndexBytes (leaf_of p s tk (scKey sc)))" for sc
    by (simp_all add: indexed_def)
  have keys: "scKey ` set (map (indexed p s tk) scs) = ?K" by (simp add: image_image sel)
  have frame: "ss_getState p s2 = ss_getState p s1" "getMerkleIndex p s2 = getMerkleIndex p s1"
    using update_frame [OF w2, of "{12, 13, 14}"] merkle_writes_bytes by (auto intro!: state_getters_cong)
  have "distinct (map scKey (map (indexed p s tk) scs))" using d by (simp add: sel comp_def)
  moreover have "\<forall>sc \<in> set (map (indexed p s tk) scs). \<forall>b. scPrevTreeIndex sc = Some b \<longrightarrow> getMerkleIndex p s (scKey sc) = Inr b"
    by (auto simp: indexed_def split: sum.splits)
  ultimately have sw: "\<forall>k. k \<notin> ?K \<longrightarrow> ss_getState p s2 k = ss_getState p s k \<and> getMerkleIndex p s2 k = getMerkleIndex p s k"
      "\<forall>sc \<in> set (map (indexed p s tk) scs). ss_getState p s2 (scKey sc) = Inr (opt_val (scValue sc)) \<and>
         getMerkleIndex p s2 (scKey sc) = Inr (opt_val (scTreeIndex sc))"
    using state_writes [OF w1] unfolding frame keys by blast+
  have other: "ss_getState p s2 k = ss_getState p s k" "getMerkleIndex p s2 k = getMerkleIndex p s k" if "k \<notin> ?K" for k
    using sw(1) that by blast+
  have upd: "ss_getState p s2 (scKey sc) = Inr (opt_val (scValue sc))"
      "getMerkleIndex p s2 (scKey sc) = Inr (leafIndexBytes (leaf_of p s tk (scKey sc)))" if "sc \<in> set scs" for sc
    using sw(2) that by (simp_all add: sel opt_val_def)
  have leaf_in: "set_leaves ?ns leaf (leaf_of p s tk (scKey sc)) = Some (h (opt_val (scValue sc)))" if "sc \<in> set scs" for sc
  proof -
    let ?m = "\<lparr>Position = NewPosition 0 (leaf_of p s tk (scKey sc)), Data = Some (h (opt_val (scValue sc)))\<rparr>"
    have "?m \<in> set ?ns" using that by (auto simp: state_nodes_def)
    from set_leaves_in [OF _ this] state_nodes_wf [OF sl d ne bij n'] show ?thesis by (simp add: wf_leaves_def)
  qed
  have leaf_out: "set_leaves ?ns leaf i = leaf i" if "k \<notin> ?K" "getMerkleIndex p s k = Inr (leafIndexBytes i)" for k i
  proof (rule set_leaves_other)
    have "\<forall>k' \<in> ?K. leaf_of p s tk k' \<noteq> i" using f(4) that by blast
    then show "i \<notin> leaf_idx ?ns" by (auto simp: leaf_idx_def state_nodes_def)
  qed
  have store: "store_ok h tc (ms_getNode p s2) (ms_getHeight p s2) (ms_getLeafCount p s2) (set_leaves ?ns leaf)"
    using up w2 by (simp add: ms_commit_def)
  have val: "ss_getState p s2 k = Inr v \<Longrightarrow> \<exists>i. getMerkleIndex p s2 k = Inr (leafIndexBytes i) \<and> set_leaves ?ns leaf i = Some (h v)" for k v
  proof (cases "k \<in> ?K")
    case True
    then obtain sc where "sc \<in> set scs" "k = scKey sc" by auto
    moreover assume "ss_getState p s2 k = Inr v"
    ultimately show ?thesis using upd leaf_in by auto
  next
    case False
    moreover assume "ss_getState p s2 k = Inr v"
    ultimately show ?thesis using other [OF False] sl leaf_out [OF False] unfolding state_leaves_def by metis
  qed
  have none: "\<exists>e. getMerkleIndex p s2 k = Inl e" if "ss_getState p s2 k = Inl e" for k e
  proof -
    have "k \<notin> ?K" using upd that by auto
    with other that sl show ?thesis unfolding state_leaves_def by metis
  qed
  have uniq: "k = k'" if "getMerkleIndex p s2 k = Inr b" "getMerkleIndex p s2 k' = Inr b" for k k' b
  proof -
    have in_out: False if "sc \<in> set scs" "k' \<notin> ?K" "getMerkleIndex p s2 (scKey sc) = Inr b" "getMerkleIndex p s2 k' = Inr b" for sc k'
      using f(4) [of "scKey sc" k' "leaf_of p s tk (scKey sc)"] upd(2) [OF that(1)] other(2) [OF that(2)] that by simp
    show ?thesis
    proof (cases "k \<in> ?K"; cases "k' \<in> ?K")
      assume "k \<in> ?K" "k' \<in> ?K"
      with upd(2) that f(1) show ?thesis by (auto simp: inj_on_def)
    next
      assume "k \<notin> ?K" "k' \<notin> ?K"
      with other(2) that sl show ?thesis unfolding state_leaves_def by metis
    qed (use in_out that in auto)
  qed
  show "state_leaves p h tc s2 (set_leaves ?ns leaf)"
    unfolding state_leaves_def using store val none uniq by blast
  show "ss_getState p s2 k = (case map_of (map (\<lambda>sc. (scKey sc, scValue sc)) scs) k of Some v \<Rightarrow> Inr (opt_val v) | None \<Rightarrow> ss_getState p s k)"
  proof (cases "k \<in> ?K")
    case True
    then obtain sc where "sc \<in> set scs" "k = scKey sc" by auto
    with upd map_of_nodes [OF d, of sc scValue] show ?thesis by simp
  next
    case False
    then have "map_of (map (\<lambda>sc. (scKey sc, scValue sc)) scs) k = None" by (auto simp: map_of_eq_None_iff)
    with other [OF False] show ?thesis by simp
  qed
qed

end

text \<open>The update that a commit computes.\<close>

lemma compute_update:
  assumes ps: "persist_store p" and sl: "state_leaves p h tc s leaf" and d: "distinct (map scKey scs)" and ne: "scs \<noteq> []"
    and prev: "\<forall>sc \<in> set scs. scPrevTreeIndex sc = None" and sched: "\<And>l xs. mset (sched l xs) = mset xs"
    and room: "ms_getLeafCount p s + length scs \<le> bfactor tc ^ 254"
  obtains tk n' upd where
    "setNewTreeIndexes (loadPrevTreeIndexes p s (loadPrevValues p s scs)) (ms_getLeafCount p s) = (map (indexed p s tk) scs, n')"
    "bij_betw tk {k \<in> scKey ` set scs. is_new p s k} {ms_getLeafCount p s..<n'}" "ms_getLeafCount p s \<le> n'"
    "Update h tc (ms_getNode p s) sched (state_nodes p h s tk scs) n' = Some upd"
    "\<And>s1 s'. ms_getNode p s1 = ms_getNode p s \<Longrightarrow> ms_getHeight p s1 = ms_getHeight p s \<Longrightarrow> ms_getLeafCount p s1 = ms_getLeafCount p s \<Longrightarrow>
       ms_commit p upd s1 = Some s' \<Longrightarrow>
       store_ok h tc (ms_getNode p s') (ms_getHeight p s') (ms_getLeafCount p s') (set_leaves (state_nodes p h s tk scs) leaf) \<and>
       Root (ms_getNode p s') (ms_getHeight p s') = Some (uRoot upd)"
proof -
  let ?n = "ms_getLeafCount p s"
  obtain tk where tk: "setNewTreeIndexes (loadPrevTreeIndexes p s (loadPrevValues p s scs)) ?n =
      (map (indexed p s tk) scs, ?n + length (filter (\<lambda>sc. is_new p s (scKey sc)) scs))"
    "bij_betw tk {k \<in> scKey ` set scs. is_new p s k} {?n..<?n + length (filter (\<lambda>sc. is_new p s (scKey sc)) scs)}"
    using compute_indexes [OF sl d prev] by blast
  let ?n' = "?n + length (filter (\<lambda>sc. is_new p s (scKey sc)) scs)" and ?ns = "state_nodes p h s tk scs"
  have ok: "store_ok h tc (ms_getNode p s) (ms_getHeight p s) ?n leaf" using sl by (simp add: state_leaves_def)
  have wf: "wf_leaves ?n ?n' ?ns" by (rule state_nodes_wf [OF sl d ne tk(2)]) simp
  have room': "?n' \<le> bfactor tc ^ 254"
    using room length_filter_le [of "\<lambda>sc. is_new p s (scKey sc)" scs] by linarith
  have ms: "merkle_store (ms_getNode p) (ms_getHeight p) (ms_getLeafCount p) (ms_commit p)"
    by (rule persist_store.merkle_contract [OF ps])
  obtain upd where upd: "Update h tc (ms_getNode p s) sched ?ns ?n' = Some upd"
    using merkle_store.update_commit [OF ms ok wf room', of sched] sched by blast
  have "store_ok h tc (ms_getNode p s') (ms_getHeight p s') (ms_getLeafCount p s') (set_leaves ?ns leaf) \<and>
       Root (ms_getNode p s') (ms_getHeight p s') = Some (uRoot upd)"
    if eq: "ms_getNode p s1 = ms_getNode p s" "ms_getHeight p s1 = ms_getHeight p s" "ms_getLeafCount p s1 = ?n"
      and c: "ms_commit p upd s1 = Some s'" for s1 s'
    using merkle_store.update_commit [OF ms, of h tc s1 leaf ?n' ?ns sched] ok wf room' sched upd c unfolding eq by auto
  with that [OF tk _ upd] show thesis by simp
qed

section \<open>The commit of a block\<close>

lemma updateLevelDB_single: "updateLevelDB [f] s = f s"
  by (simp add: Let_def split: prod.split option.split)

lemma computeMerkleUpdate_form:
  assumes "setNewTreeIndexes (loadPrevTreeIndexes p s (loadPrevValues p s (bcStateChanges (cdBlockCommit data)))) (ms_getLeafCount p s) = (scs', n')"
    and "Update (strgHash strg) (strgTree strg) (ms_getNode p s) sched (computeUpdatedTreeNodes (strgHash strg) scs') n' = Some upd"
    and "p = strgPersist strg"
  shows "computeMerkleUpdate strg sched s data = Some (data\<lparr>cdMerkleUpdate := Some upd,
      cdBlockCommit := (cdBlockCommit data)\<lparr>bcStateChanges := scs', bcLeafCount := big_bytes (uLeafCount upd), bcMerkleRoot := Data (uRoot upd)\<rparr>\<rparr>)"
  using assms by (simp add: computeMerkleUpdate_def Let_def)

text \<open>The four groups of writes of a commit without an error.\<close>

lemma writeCommitData_groups:
  assumes "writeCommitData strg data s = Some (s', None)"
  obtains s1 s2 s3 where "writeChainData strg data s = (s1, None)" "writeBlockCommit strg data s1 = (s2, None)"
    "writeStateMerkleTree strg data s2 = Some (s3, None)" "setCommittedBlockHeight strg (blkHeight (blk_data (cdBlock data))) s3 = (s', None)"
  using assms that
  by (auto simp: writeCommitData_def split: prod.splits option.splits)

lemma chain_frame:
  assumes ps: "persist_store (strgPersist strg)" and k: "k \<noteq> []" "hd k \<in> {10, 11, 12, 13, 14}"
  shows "writeChainData strg data s = (s', None) \<Longrightarrow> pGet (strgPersist strg) s' k = pGet (strgPersist strg) s k"
    "writeBlockCommit strg data s = (s', None) \<Longrightarrow> pGet (strgPersist strg) s' k = pGet (strgPersist strg) s k"
    "setCommittedBlockHeight strg n s = (s', None) \<Longrightarrow> pGet (strgPersist strg) s' k = pGet (strgPersist strg) s k"
  using k persist_store.update_frame [OF ps, of _ s s' "{1, 2, 8, 9}" k] persist_store.update_frame [OF ps, of _ s s' "{6}" k]
    persist_store.update_frame [OF ps, of _ s s' "{3}" k] persist_store.chain_writes_bytes [OF ps]
  by (auto simp: writeChainData_def writeBlockCommit_def setCommittedBlockHeight_def Let_def simp del: updateLevelDB.simps)

end
