(* ===== verification/Storage_Props.thy ===== *)
theory Storage_Props
  imports Storage_Correct Merkle_Props Core_Props
begin

text \<open>
  Properties of the storage: a commit keeps the state, its indices and the Merkle tree in step, so that
  every value that is read is verified; what is committed is read back; and a commit that fails half way
  leaves a state that does not verify.
\<close>

section \<open>Commits\<close>

definition changes_of :: "commit_data \<Rightarrow> bytes \<Rightarrow> bytes option option" where
  "changes_of data = map_of (map (\<lambda>sc. (scKey sc, scValue sc)) (bcStateChanges (cdBlockCommit data)))"

text \<open>What \<^verbatim>\<open>commit\<close> is given: distinct keys, fresh from the executor, and room in the tree.\<close>

definition commit_pre :: "'s storage \<Rightarrow> 's \<Rightarrow> commit_data \<Rightarrow> bool" where
  "commit_pre strg s data \<longleftrightarrow>
     distinct (map scKey (bcStateChanges (cdBlockCommit data))) \<and>
     (\<forall>sc \<in> set (bcStateChanges (cdBlockCommit data)). scPrevTreeIndex sc = None) \<and>
     ms_getLeafCount (strgPersist strg) s + length (bcStateChanges (cdBlockCommit data)) \<le> bfactor (strgTree strg) ^ 254"

lemma GetState_eq: "GetState strg s k = (case ss_getState (strgPersist strg) s k of Inl e \<Rightarrow> None | Inr v \<Rightarrow> Some v)"
  by (simp add: GetState_def getStateNotFoundNil_def)

lemma VerifyState_ok:
  assumes "storage_ok strg s" and "\<And>l xs. mset (sched l xs) = mset xs"
  shows "VerifyState strg sched s k = Inr (GetState strg s k)"
proof (cases "ss_getState (strgPersist strg) s k")
  case (Inl e)
  then show ?thesis by (simp add: VerifyState_def GetState_eq)
next
  case (Inr v)
  let ?p = "strgPersist strg" and ?h = "strgHash strg" and ?tc = "strgTree strg"
  obtain leaf where sl: "state_leaves ?p ?h ?tc s leaf" using assms(1) by (auto simp: storage_ok_def)
  then obtain i where i: "getMerkleIndex ?p s k = Inr (leafIndexBytes i)" "leaf i = Some (?h v)"
    using Inr unfolding state_leaves_def by blast
  have ok: "store_ok ?h ?tc (ms_getNode ?p s) (ms_getHeight ?p s) (ms_getLeafCount ?p s) leaf"
    using sl by (simp add: state_leaves_def)
  have "leaf(i := Some (?h v)) = leaf" using i(2) by auto
  then have "Verify ?h ?tc (ms_getNode ?p s) (ms_getHeight ?p s) (ms_getLeafCount ?p s) sched
      [\<lparr>Position = NewPosition 0 i, Data = Some (?h v)\<rparr>] = Some True"
    using Verify_leaf [OF ok state_leaves_bound [OF sl i(2)], of sched "?h v"] assms(2) by simp
  then show ?thesis using Inr i by (simp add: VerifyState_def GetState_eq sumStateValue_def opt_val_def Let_def)
qed

lemma writeCommitData_returns:
  assumes "bcStateChanges (cdBlockCommit data) = [] \<or> cdMerkleUpdate data \<noteq> None"
  shows "\<exists>s' e. writeCommitData strg data s = Some (s', e)"
proof -
  have "writeCommitData strg data s \<noteq> None"
    using assms by (auto simp: writeCommitData_def writeStateMerkleTree_def split: prod.split option.split)
  then show ?thesis by auto
qed

lemma commit_shape:
  assumes ps: "persist_store (strgPersist strg)" and ok: "storage_ok strg s" and pre: "commit_pre strg s data"
    and sched: "\<And>l xs. mset (sched l xs) = mset xs"
  shows "\<exists>data' s' e. commit strg sched data s = Some (data', s', e) \<and>
    (e = None \<longrightarrow> storage_ok strg s' \<and>
       (\<forall>k. GetState strg s' k = (case changes_of data k of Some v \<Rightarrow> Some (opt_val v) | None \<Rightarrow> GetState strg s k)) \<and>
       (bcStateChanges (cdBlockCommit data) \<noteq> [] \<longrightarrow> GetMerkleRoot strg s' = bcMerkleRoot (cdBlockCommit data')) \<and>
       cdBlock data' = cdBlock data \<and> cdTransactions data' = cdTransactions data \<and> cdTxCommits data' = cdTxCommits data)"
proof (cases "bcStateChanges (cdBlockCommit data) = []")
  case True
  let ?p = "strgPersist strg"
  obtain s' e where w: "writeCommitData strg data s = Some (s', e)"
    using writeCommitData_returns [of data strg s] True by blast
  have "storage_ok strg s' \<and> (\<forall>k. GetState strg s' k = GetState strg s k)" if e: "e = None"
  proof -
    from w [unfolded e] obtain s1 s2 s3 where g: "writeChainData strg data s = (s1, None)" "writeBlockCommit strg data s1 = (s2, None)"
      "writeStateMerkleTree strg data s2 = Some (s3, None)" "setCommittedBlockHeight strg (blkHeight (blk_data (cdBlock data))) s3 = (s', None)"
      by (rule writeCommitData_groups)
    have "s3 = s2" using g(3) True by (simp add: writeStateMerkleTree_def)
    then have same: "pGet ?p s' k = pGet ?p s k" if "k \<noteq> []" "hd k \<in> {10, 11, 12, 13, 14}" for k
      using chain_frame [OF ps that] g by metis
    have "state_leaves ?p h tc s' leaf = state_leaves ?p h tc s leaf" for h tc leaf
      by (rule persist_store.state_leaves_cong [OF ps same])
    moreover have "ss_getState ?p s' = ss_getState ?p s" by (rule persist_store.state_getters_cong(1) [OF ps]) (use same in auto)
    ultimately show ?thesis using ok by (simp add: storage_ok_def GetState_eq)
  qed
  with True w show ?thesis by (simp add: commit_def changes_of_def)
next
  case False
  let ?p = "strgPersist strg" and ?h = "strgHash strg" and ?tc = "strgTree strg" and ?scs = "bcStateChanges (cdBlockCommit data)"
  obtain leaf where sl: "state_leaves ?p ?h ?tc s leaf" using ok by (auto simp: storage_ok_def)
  have d: "distinct (map scKey ?scs)" and prev: "\<forall>sc \<in> set ?scs. scPrevTreeIndex sc = None"
    and room: "ms_getLeafCount ?p s + length ?scs \<le> bfactor ?tc ^ 254" using pre by (auto simp: commit_pre_def)
  obtain tk n' upd where u: "setNewTreeIndexes (loadPrevTreeIndexes ?p s (loadPrevValues ?p s ?scs)) (ms_getLeafCount ?p s) = (map (indexed ?p s tk) ?scs, n')"
    "bij_betw tk {k \<in> scKey ` set ?scs. is_new ?p s k} {ms_getLeafCount ?p s..<n'}" "ms_getLeafCount ?p s \<le> n'"
    "Update ?h ?tc (ms_getNode ?p s) sched (state_nodes ?p ?h s tk ?scs) n' = Some upd"
    "\<And>s1 s'. ms_getNode ?p s1 = ms_getNode ?p s \<Longrightarrow> ms_getHeight ?p s1 = ms_getHeight ?p s \<Longrightarrow> ms_getLeafCount ?p s1 = ms_getLeafCount ?p s \<Longrightarrow>
       ms_commit ?p upd s1 = Some s' \<Longrightarrow>
       store_ok ?h ?tc (ms_getNode ?p s') (ms_getHeight ?p s') (ms_getLeafCount ?p s') (set_leaves (state_nodes ?p ?h s tk ?scs) leaf) \<and>
       Root (ms_getNode ?p s') (ms_getHeight ?p s') = Some (uRoot upd)"
    by (rule compute_update [where sched = sched, OF ps sl d False prev _ room]) (rule sched, blast)
  let ?data = "data\<lparr>cdMerkleUpdate := Some upd, cdBlockCommit := (cdBlockCommit data)\<lparr>bcStateChanges := map (indexed ?p s tk) ?scs,
      bcLeafCount := big_bytes (uLeafCount upd), bcMerkleRoot := Data (uRoot upd)\<rparr>\<rparr>"
  have comp: "computeMerkleUpdate strg sched s data = Some ?data"
    by (rule computeMerkleUpdate_form [OF u(1) _ refl]) (simp add: computeUpdatedTreeNodes_indexed u(4))
  obtain s' e where w: "writeCommitData strg ?data s = Some (s', e)"
    using writeCommitData_returns [of ?data strg s] by auto
  have "storage_ok strg s' \<and> (\<forall>k. GetState strg s' k = (case changes_of data k of Some v \<Rightarrow> Some (opt_val v) | None \<Rightarrow> GetState strg s k)) \<and>
      GetMerkleRoot strg s' = Data (uRoot upd)" if e: "e = None"
  proof -
    from w [unfolded e] obtain s1 s2 s3 where g: "writeChainData strg ?data s = (s1, None)" "writeBlockCommit strg ?data s1 = (s2, None)"
      "writeStateMerkleTree strg ?data s2 = Some (s3, None)" "setCommittedBlockHeight strg (blkHeight (blk_data (cdBlock ?data))) s3 = (s', None)"
      by (rule writeCommitData_groups)
    have before: "pGet ?p s2 k = pGet ?p s k" if "k \<noteq> []" "hd k \<in> {10, 11, 12, 13, 14}" for k
      using chain_frame [OF ps that] g(1,2) by metis
    have after: "pGet ?p s' k = pGet ?p s3 k" if "k \<noteq> []" "hd k \<in> {10, 11, 12, 13, 14}" for k
      using chain_frame [OF ps that] g(4) by metis
    from g(3) False obtain s4 where w12: "updateLevelDB (commitStateChanges ?p (map (indexed ?p s tk) ?scs)) s2 = (s4, None)"
        "updateLevelDB (ms_commitUpdate ?p upd) s4 = (s3, None)"
      by (auto simp: writeStateMerkleTree_def updateLevelDB_append)
    have st: "ss_getState ?p s2 = ss_getState ?p s" "getMerkleIndex ?p s2 = getMerkleIndex ?p s"
      by (rule persist_store.state_getters_cong [OF ps]; use before in auto)+
    have mk: "ms_getNode ?p s2 = ms_getNode ?p s" "ms_getHeight ?p s2 = ms_getHeight ?p s" "ms_getLeafCount ?p s2 = ms_getLeafCount ?p s"
      by (rule persist_store.merkle_getters_cong [OF ps]; use before in auto)+
    have same: "indexed ?p s = indexed ?p s2" "is_new ?p s = is_new ?p s2" "state_nodes ?p ?h s = state_nodes ?p ?h s2"
      using st by (simp_all add: indexed_def is_new_def state_nodes_def leaf_of_def getStateNotFoundNil_def fun_eq_iff)
    have sl2: "state_leaves ?p ?h ?tc s2 leaf"
      using persist_store.state_leaves_cong [OF ps before] sl by blast
    have mk4: "ms_getNode ?p s4 = ms_getNode ?p s" "ms_getHeight ?p s4 = ms_getHeight ?p s" "ms_getLeafCount ?p s4 = ms_getLeafCount ?p s"
    proof -
      have "pGet ?p s4 k = pGet ?p s2 k" if "k \<noteq> []" "hd k \<in> {12, 13, 14}" for k
        using persist_store.update_frame [OF ps w12(1), of "{10, 11}" k] persist_store.state_writes_bytes [OF ps] that by auto
      from persist_store.merkle_getters_cong [OF ps this] mk
      show "ms_getNode ?p s4 = ms_getNode ?p s" "ms_getHeight ?p s4 = ms_getHeight ?p s" "ms_getLeafCount ?p s4 = ms_getLeafCount ?p s"
        by simp_all
    qed
    note up = u(5) [OF mk4]
    have res: "state_leaves ?p ?h ?tc s3 (set_leaves (state_nodes ?p ?h s2 tk ?scs) leaf)"
      "ss_getState ?p s3 k = (case map_of (map (\<lambda>sc. (scKey sc, scValue sc)) ?scs) k of Some v \<Rightarrow> Inr (opt_val v) | None \<Rightarrow> ss_getState ?p s2 k)" for k
      by (rule persist_store.state_tree_commit [OF ps sl2 d False, where tk = tk and n' = n' and upd = upd and ?s1.0 = s4];
          use u(2,3) up w12 in \<open>simp add: same mk(3)\<close>)+
    have root: "Root (ms_getNode ?p s3) (ms_getHeight ?p s3) = Some (uRoot upd)" using up w12(2) by (simp add: ms_commit_def)
    have eq3: "ms_getNode ?p s' = ms_getNode ?p s3" "ms_getHeight ?p s' = ms_getHeight ?p s3"
      by (rule persist_store.merkle_getters_cong [OF ps]; use after in auto)+
    have "state_leaves ?p ?h ?tc s' (set_leaves (state_nodes ?p ?h s2 tk ?scs) leaf)"
      using persist_store.state_leaves_cong [OF ps after] res(1) by blast
    moreover have "ss_getState ?p s' = ss_getState ?p s3"
      by (rule persist_store.state_getters_cong(1) [OF ps]) (use after in auto)
    ultimately show ?thesis
      using res(2) root by (auto simp: storage_ok_def GetState_eq GetMerkleRoot_def eq3 changes_of_def st split: option.splits)
  qed
  then show ?thesis using False comp w by (simp add: commit_def)
qed

section \<open>Reading back\<close>

lemma put_msg_list_get:
  assumes ps: "persist_store p" and "updateLevelDB (map (\<lambda>x. put_msg p (b # key x) (m x)) xs) s = (s', None)"
    and "distinct (map key xs)" and "x \<in> set xs"
  shows "\<exists>v. m x = Inr v \<and> pGet p s' (b # key x) = Inr v"
  using assms(2-)
proof (induction xs arbitrary: s)
  case (Cons a xs)
  then obtain s1 where s1: "put_msg p (b # key a) (m a) s = (s1, None)"
      "updateLevelDB (map (\<lambda>x. put_msg p (b # key x) (m x)) xs) s1 = (s', None)"
    by (auto simp: Let_def split: prod.splits option.splits)
  have other: "updateLevelDB (map (\<lambda>x. put_msg p (b # key x) (m x)) ys) r = (r', None) \<Longrightarrow> k \<notin> key ` set ys \<Longrightarrow>
      pGet p r' (b # k) = pGet p r (b # k)" for ys r r' k
  proof (induction ys arbitrary: r)
    case (Cons y ys)
    then obtain r1 where r1: "put_msg p (b # key y) (m y) r = (r1, None)"
        "updateLevelDB (map (\<lambda>x. put_msg p (b # key x) (m x)) ys) r1 = (r', None)"
      by (auto simp: Let_def split: prod.splits option.splits)
    have "pGet p r1 (b # k) = pGet p r (b # k)"
      using r1(1) Cons.prems(2) persist_store.put_other [OF ps] by (auto simp: put_msg_def split: sum.splits)
    with Cons r1(2) show ?case by simp
  qed simp
  show ?case
  proof (cases "x = a")
    case True
    have "key a \<notin> key ` set xs" using Cons.prems(2) by simp
    moreover obtain v where "m a = Inr v" "pGet p s1 (b # key a) = Inr v"
      using s1(1) persist_store.put_same [OF ps] by (auto simp: put_msg_def split: sum.splits)
    ultimately show ?thesis using other [OF s1(2)] True by simp
  next
    case False
    with Cons s1(2) show ?thesis by simp
  qed
qed simp

text \<open>Frames of the groups of writes for the keys of the chain store.\<close>

lemma later_frame:
  assumes ps: "persist_store (strgPersist strg)" and k: "k \<noteq> []" "hd k \<in> {1, 2, 8, 9}"
    and "writeBlockCommit strg data s1 = (s2, None)" "writeStateMerkleTree strg data s2 = Some (s3, None)"
      "setCommittedBlockHeight strg n s3 = (s', None)"
  shows "pGet (strgPersist strg) s' k = pGet (strgPersist strg) s1 k"
proof -
  let ?p = "strgPersist strg"
  have "pGet ?p s2 k = pGet ?p s1 k"
    using persist_store.update_frame [OF ps assms(4) [unfolded writeBlockCommit_def], of "{6}" k] persist_store.chain_writes_bytes(2) [OF ps] k by auto
  moreover have "pGet ?p s3 k = pGet ?p s2 k"
  proof (cases "bcStateChanges (cdBlockCommit data) = []")
    case False
    with assms(5) obtain upd where "updateLevelDB (commitStateChanges ?p (bcStateChanges (cdBlockCommit data)) @ ms_commitUpdate ?p upd) s2 = (s3, None)"
      by (auto simp: writeStateMerkleTree_def split: option.splits)
    moreover have "writes_to ?p {10, 11, 12, 13, 14} fn" if "fn \<in> set (commitStateChanges ?p (bcStateChanges (cdBlockCommit data)) @ ms_commitUpdate ?p upd)" for fn
      using that persist_store.state_writes_bytes [OF ps] persist_store.merkle_writes_bytes [OF ps] by (force simp: writes_to_def)
    ultimately show ?thesis using persist_store.update_frame [OF ps, of _ s2 s3 "{10, 11, 12, 13, 14}" k] k by force
  qed (use assms(5) in \<open>simp add: writeStateMerkleTree_def\<close>)
  moreover have "pGet ?p s' k = pGet ?p s3 k"
    using persist_store.update_frame [OF ps assms(6) [unfolded setCommittedBlockHeight_def], of "{3}" k] persist_store.chain_writes_bytes(3) [OF ps] k by auto
  ultimately show ?thesis by simp
qed

lemma chain_writes_get:
  assumes ps: "persist_store p" and w: "updateLevelDB (setBlock c p blk @ setTxs c p txs @ setTxCommits c p txcs) s = (s', None)"
  shows "\<exists>v. m_block c (blk_data blk) = Inr v \<and> pGet p s' (1 # blkHash (blk_data blk)) = Inr v"
    "pGet p s' (2 # uint64BEBytes (blkHeight (blk_data blk))) = Inr (blkHash (blk_data blk))"
    "distinct (map (\<lambda>tx. txHash (tx_data tx)) txs) \<Longrightarrow> tx \<in> set txs \<Longrightarrow>
       \<exists>v. m_tx c (tx_data tx) = Inr v \<and> pGet p s' (8 # txHash (tx_data tx)) = Inr v"
proof -
  from w obtain s1 s2 where w1: "updateLevelDB (setBlock c p blk) s = (s1, None)" and w2: "updateLevelDB (setTxs c p txs) s1 = (s2, None)"
      and w3: "updateLevelDB (setTxCommits c p txcs) s2 = (s', None)" by (auto simp: updateLevelDB_append)
  have f2: "pGet p s2 k = pGet p s1 k" if "k \<noteq> []" "hd k \<notin> {8}" for k
    using persist_store.update_frame [OF ps w2 _ that] persist_store.writes_to_put_msg [OF ps] by (auto simp: setTxs_def setTx_def)
  have f3: "pGet p s' k = pGet p s2 k" if "k \<noteq> []" "hd k \<notin> {9}" for k
    using persist_store.update_frame [OF ps w3 _ that] persist_store.writes_to_put_msg [OF ps] by (auto simp: setTxCommits_def setTxCommit_def)
  from w1 obtain s0 where s0: "put_msg p (1 # blkHash (blk_data blk)) (m_block c (blk_data blk)) s = (s0, None)"
      "pPut p (2 # uint64BEBytes (blkHeight (blk_data blk))) (blkHash (blk_data blk)) s0 = (s1, None)"
    by (auto simp: setBlock_def setBlockByHash_def setBlockHashByHeight_def Let_def split: prod.splits option.splits)
  then obtain v where "m_block c (blk_data blk) = Inr v" "pGet p s0 (1 # blkHash (blk_data blk)) = Inr v"
    using persist_store.put_same [OF ps] by (auto simp: put_msg_def split: sum.splits)
  with persist_store.put_other [OF ps s0(2)] f2 f3
  show "\<exists>v. m_block c (blk_data blk) = Inr v \<and> pGet p s' (1 # blkHash (blk_data blk)) = Inr v" by simp
  show "pGet p s' (2 # uint64BEBytes (blkHeight (blk_data blk))) = Inr (blkHash (blk_data blk))"
    using persist_store.put_same [OF ps s0(2)] f2 f3 by simp
  show "\<exists>v. m_tx c (tx_data tx) = Inr v \<and> pGet p s' (8 # txHash (tx_data tx)) = Inr v"
    if "distinct (map (\<lambda>tx. txHash (tx_data tx)) txs)" "tx \<in> set txs"
  proof -
    have "setTxs c p txs = map (\<lambda>tx. put_msg p (8 # txHash (tx_data tx)) (m_tx c (tx_data tx))) txs"
      by (simp add: setTxs_def setTx_def)
    from put_msg_list_get [OF ps w2 [unfolded this] that] f3 show ?thesis by simp
  qed
qed

lemma uint64BE_roundtrip: "of_nat (be_nat (uint64BEBytes h)) = h" "length (uint64BEBytes h) = 8"
proof -
  have "unat h < 256 ^ 8" using unsigned_less [of h] by simp
  then show "of_nat (be_nat (uint64BEBytes h)) = h" by (simp add: uint64BEBytes_def be_nat_be_bytes)
qed (simp add: uint64BEBytes_def)

section \<open>Instances\<close>

text \<open>A signed block with one transaction, a codec for them, and an empty in-memory storage.\<close>

definition ex_blk :: block where
  "ex_blk = Block_Sign ex_crypto ex_priv ex_block"

definition ex_txn :: transaction where
  "ex_txn = Tx_Sign ex_crypto ex_priv NewTransaction"

definition ex_codec :: pb_codec where
  "ex_codec = \<lparr>m_block = (\<lambda>d. if d = blk_data ex_blk then Inr [1] else Inl ''size''), u_block = (\<lambda>_. Inr (blk_data ex_blk)),
     m_qc = (\<lambda>_. Inl []), u_qc = (\<lambda>_. Inl []), m_bcm = (\<lambda>_. Inr [2]), u_bcm = (\<lambda>_. Inl []),
     m_tx = (\<lambda>d. if d = tx_data ex_txn then Inr [3] else Inl ''size''), u_tx = (\<lambda>_. Inr (tx_data ex_txn)),
     m_txc = (\<lambda>_. Inr [4]), u_txc = (\<lambda>_. Inl [])\<rparr>"

definition ex_change :: state_change where
  "ex_change = \<lparr>scKey = [5], scValue = Some [6], scPrevValue = None, scTreeIndex = None, scPrevTreeIndex = None\<rparr>"

definition ex_commit :: commit_data where
  "ex_commit = \<lparr>cdBlock = ex_blk, cdTransactions = [ex_txn],
     cdBlockCommit = \<lparr>bcHash = blkHash (blk_data ex_blk), bcOldBlockTxs = [], bcStateChanges = [ex_change], bcLeafCount = [], bcMerkleRoot = None\<rparr>,
     cdTxCommits = [], cdMerkleUpdate = None\<rparr>"

definition empty_ls :: "(bytes \<Rightarrow> bytes option) level_store" where
  "empty_ls = \<lparr>ls_db = (\<lambda>_. None), ls_batch = None\<rparr>"

abbreviation ex_strg :: "(bytes \<Rightarrow> bytes option) level_store storage" where
  "ex_strg \<equiv> Storage_New mem_db ex_codec (\<lambda>x. x) 2"

lemma Storage_New_sel [simp]:
  "strgPersist (Storage_New db c h b) = LevelDB_persist db" "strgCodec (Storage_New db c h b) = c"
  "strgHash (Storage_New db c h b) = h" "strgTree (Storage_New db c h b) = NewTree b"
  by (simp_all add: Storage_New_def)

lemma empty_get: "pGet (LevelDB_persist mem_db) empty_ls k = Inl NotFound"
  by (simp add: LevelDB_persist_def LevelDB_Get_def mem_db_def empty_ls_def)

text \<open>A storage that knows no key of the state is well formed, with no leaves.\<close>

lemma no_state_ok:
  assumes "\<And>k. k \<noteq> [] \<Longrightarrow> hd k \<in> {10, 11, 12, 13, 14} \<Longrightarrow> pGet (strgPersist strg) s k = Inl NotFound" and "strgTree strg = NewTree b"
  shows "storage_ok strg s" "ms_getLeafCount (strgPersist strg) s = 0"
proof -
  show n: "ms_getLeafCount (strgPersist strg) s = 0" using assms by (simp add: ms_getLeafCount_def convertPrefix_def)
  have "state_leaves (strgPersist strg) (strgHash strg) (strgTree strg) s (\<lambda>_. None)"
    using assms n by (auto simp: state_leaves_def ss_getState_def getMerkleIndex_def store_ok_def wf_nodes_def)
  then show "storage_ok strg s" by (auto simp: storage_ok_def)
qed

lemma ex_storage_ok: "storage_ok ex_strg empty_ls" "ms_getLeafCount (strgPersist ex_strg) empty_ls = 0"
  by (rule no_state_ok; simp add: empty_get)+

lemma ex_commit_pre: "commit_pre ex_strg empty_ls ex_commit"
  using ex_storage_ok(2) by (simp add: commit_pre_def ex_commit_def ex_change_def)

lemma updateLevelDB_ok:
  assumes "\<And>fn s. fn \<in> set fns \<Longrightarrow> snd (fn s) = None"
  shows "snd (updateLevelDB fns s) = None"
  using assms
proof (induction fns arbitrary: s)
  case (Cons fn fns)
  have "snd (fn s) = None" using Cons.prems by simp
  with Cons show ?case by (cases "fn s") auto
qed simp

lemma mem_put_ok [simp]: "snd (pPut (LevelDB_persist mem_db) k v s) = None"
  by (simp add: LevelDB_persist_def LevelDB_Put_def mem_db_def io_error_def)

lemma mem_writes_ok:
  "snd (updateLevelDB (commitStateChanges (LevelDB_persist mem_db) scs @ ms_commitUpdate (LevelDB_persist mem_db) upd) s) = None"
  by (rule updateLevelDB_ok)
    (auto simp: commitStateChanges_def commitStateChange_def ss_setState_def setTreeIndex_def ms_commitUpdate_def ms_setNodes_def
      ms_setNode_def ms_setLeafCount_def ms_setTreeHeight_def split: if_splits)

lemma ex_no_error:
  assumes "commit ex_strg sched ex_commit s = Some (data', s', e)"
  shows "e = None"
proof -
  obtain data where w: "writeCommitData ex_strg data s = Some (s', e)" and d: "cdBlock data = ex_blk" "cdTransactions data = [ex_txn]" "cdTxCommits data = []"
    using assms by (auto simp: commit_def computeMerkleUpdate_def ex_commit_def Let_def case_prod_unfold split: option.splits if_splits)
  have "snd (writeChainData ex_strg data r) = None" for r
    unfolding writeChainData_def Let_def
    by (rule updateLevelDB_ok) (auto simp: d setBlock_def setBlockByHash_def setBlockHashByHeight_def setTxs_def setTx_def setTxCommits_def put_msg_def ex_codec_def)
  moreover have "snd (writeBlockCommit ex_strg data r) = None" for r
    unfolding writeBlockCommit_def by (rule updateLevelDB_ok) (auto simp: setBlockCommit_def put_msg_def ex_codec_def)
  moreover have "snd (setCommittedBlockHeight ex_strg n r) = None" for r n
    unfolding setCommittedBlockHeight_def by (rule updateLevelDB_ok) (auto simp: setBlockHeight_def)
  moreover have "snd x = None" if "writeStateMerkleTree ex_strg data r = Some x" for r x
    using that mem_writes_ok by (auto simp: writeStateMerkleTree_def split: if_splits option.splits)
  ultimately show ?thesis
    using w by (auto simp: writeCommitData_def split: prod.splits option.splits) (metis snd_conv option.distinct(1))+
qed

lemma mem_persist: "persist_store (strgPersist ex_strg)"
  using mem_st.persist_store_axioms by simp

section \<open>Properties\<close>

text \<open>
  C12. A commit keeps the storage in step: from a well-formed storage, committing a block never panics,
  in every scheduling of the tree workers, and unless a write reports an error the storage is well
  formed again, every key verifies against the Merkle tree, with its new value if the block changes it
  and its old one otherwise, and the root in the block commit is the stored root.
\<close>

theorem commit_verified:
  assumes "persist_store (strgPersist strg)" and "storage_ok strg s" and "commit_pre strg s data"
    and "\<And>l xs. mset (sched l xs) = mset xs" and "\<And>l xs. mset (sched' l xs) = mset xs"
  shows "\<exists>data' s' e. commit strg sched data s = Some (data', s', e) \<and>
    (e = None \<longrightarrow> storage_ok strg s' \<and>
       (\<forall>k. VerifyState strg sched' s' k = Inr (case changes_of data k of Some v \<Rightarrow> Some (opt_val v) | None \<Rightarrow> GetState strg s k)) \<and>
       (bcStateChanges (cdBlockCommit data) \<noteq> [] \<longrightarrow> GetMerkleRoot strg s' = bcMerkleRoot (cdBlockCommit data')))"
proof -
  from commit_shape [OF assms(1-3), of sched] assms(4) obtain data' s' e where c: "commit strg sched data s = Some (data', s', e)"
    "e = None \<longrightarrow> storage_ok strg s' \<and>
       (\<forall>k. GetState strg s' k = (case changes_of data k of Some v \<Rightarrow> Some (opt_val v) | None \<Rightarrow> GetState strg s k)) \<and>
       (bcStateChanges (cdBlockCommit data) \<noteq> [] \<longrightarrow> GetMerkleRoot strg s' = bcMerkleRoot (cdBlockCommit data'))"
    by blast
  then show ?thesis using VerifyState_ok [of strg s' sched'] assms(5) by auto
qed

theorem commit_verified_witness:
  "\<exists>data' s'. commit ex_strg (\<lambda>l. rev) ex_commit empty_ls = Some (data', s', None) \<and> VerifyState ex_strg (\<lambda>l xs. xs) s' [5] = Inr (Some [6]) \<and>
     VerifyState ex_strg (\<lambda>l xs. xs) s' [7] = Inr None"
proof -
  obtain data' s' e where c: "commit ex_strg (\<lambda>l. rev) ex_commit empty_ls = Some (data', s', e)"
    "e = None \<longrightarrow> (\<forall>k. VerifyState ex_strg (\<lambda>l xs. xs) s' k =
       Inr (case changes_of ex_commit k of Some v \<Rightarrow> Some (opt_val v) | None \<Rightarrow> GetState ex_strg empty_ls k))"
    using commit_verified [OF mem_persist ex_storage_ok(1) ex_commit_pre, of "\<lambda>l. rev" "\<lambda>l xs. xs"] by auto
  moreover have "e = None" by (rule ex_no_error [OF c(1)])
  moreover have "changes_of ex_commit [5] = Some (Some [6])" "changes_of ex_commit [7] = None" "GetState ex_strg empty_ls [7] = None"
    by (simp_all add: changes_of_def ex_commit_def ex_change_def GetState_eq ss_getState_def empty_get)
  ultimately show ?thesis by (simp add: opt_val_def)
qed

definition codec_laws :: "pb_codec \<Rightarrow> bool" where
  "codec_laws c \<longleftrightarrow> (\<forall>d v. m_block c d = Inr v \<longrightarrow> u_block c v = Inr d) \<and> (\<forall>d v. m_tx c d = Inr v \<longrightarrow> u_tx c v = Inr d)"

text \<open>
  C13. What is committed is read back: after a commit without errors the last block is the block, its
  height is the stored height, and every transaction of the block is found by its hash, for a codec that
  decodes what it encodes.
\<close>

theorem commit_read_back:
  assumes ps: "persist_store (strgPersist strg)" and "codec_laws (strgCodec strg)"
    and c: "commit strg sched data s = Some (data', s', None)"
    and "Block_setData (blk_data (cdBlock data)) = Inr (cdBlock data)"
    and "distinct (map (\<lambda>tx. txHash (tx_data tx)) (cdTransactions data))"
    and "\<forall>tx \<in> set (cdTransactions data). Tx_setData (tx_data tx) = (tx, None)"
  shows "GetBlockHeight strg s' = Some (blkHeight (blk_data (cdBlock data))) \<and>
    getLastBlock (strgCodec strg) (strgPersist strg) s' = Some (Inr (cdBlock data)) \<and>
    getBlock (strgCodec strg) (strgPersist strg) s' (blkHash (blk_data (cdBlock data))) = Inr (cdBlock data) \<and>
    (\<forall>tx \<in> set (cdTransactions data). getTx (strgCodec strg) (strgPersist strg) s' (txHash (tx_data tx)) = Inr tx)"
proof -
  let ?p = "strgPersist strg" and ?c = "strgCodec strg" and ?blk = "cdBlock data"
  obtain d where w: "writeCommitData strg d s = Some (s', None)" and d: "cdBlock d = ?blk" "cdTransactions d = cdTransactions data"
    using c by (auto simp: commit_def computeMerkleUpdate_def Let_def case_prod_unfold split: option.splits if_splits)
  from w obtain s1 s2 s3 where g: "writeChainData strg d s = (s1, None)" "writeBlockCommit strg d s1 = (s2, None)"
      "writeStateMerkleTree strg d s2 = Some (s3, None)" "setCommittedBlockHeight strg (blkHeight (blk_data ?blk)) s3 = (s', None)"
    using writeCommitData_groups d(1) by metis
  have later: "pGet ?p s' k = pGet ?p s1 k" if "k \<noteq> []" "hd k \<in> {1, 2, 8, 9}" for k
    by (rule later_frame [OF ps that g(2-4)])
  note chain = chain_writes_get [OF ps g(1) [unfolded writeChainData_def Let_def], unfolded d]
  from chain(1) obtain v where "m_block ?c (blk_data ?blk) = Inr v" "pGet ?p s' (1 # blkHash (blk_data ?blk)) = Inr v"
    using later by auto
  then have blk: "getBlock ?c ?p s' (blkHash (blk_data ?blk)) = Inr ?blk"
    using assms(2,4) by (simp add: getBlock_def Block_Unmarshal_def codec_laws_def)
  have "pGet ?p s' (convertPrefix BLOCK_HEIGHT) = Inr (uint64BEBytes (blkHeight (blk_data ?blk)))"
    using persist_store.put_same [OF ps] g(4) by (auto simp: setCommittedBlockHeight_def updateLevelDB_single setBlockHeight_def simp del: updateLevelDB.simps)
  then have h: "getBlockHeight ?p s' = Some (Inr (blkHeight (blk_data ?blk)))"
    by (simp add: getBlockHeight_def uint64BE_roundtrip)
  have "getBlockByHeight ?c ?p s' (blkHeight (blk_data ?blk)) = Inr ?blk"
    using chain(2) later blk by (simp add: getBlockByHeight_def getBlockHashByHeight_def)
  moreover have "getTx ?c ?p s' (txHash (tx_data tx)) = Inr tx" if tx: "tx \<in> set (cdTransactions data)" for tx
  proof -
    from chain(3) [OF assms(5) tx] later obtain v where "m_tx ?c (tx_data tx) = Inr v" "pGet ?p s' (8 # txHash (tx_data tx)) = Inr v"
      by auto
    then show ?thesis using assms(2,6) tx by (simp add: getTx_def Tx_Unmarshal_def codec_laws_def)
  qed
  ultimately show ?thesis using blk h by (simp add: GetBlockHeight_def getLastBlock_def)
qed

lemma ex_blk_setData: "Block_setData (blk_data ex_blk) = Inr ex_blk"
  using sign_newSignature [OF ex_priv_ok] by (simp add: ex_blk_def Block_Sign_def Let_def Block_setData_def ex_block_def)

lemma ex_txn_setData: "Tx_setData (tx_data ex_txn) = (ex_txn, None)"
  by (simp add: ex_txn_def Tx_Sign_def Let_def Tx_setData_def NewPublicKey_def ex_priv_def ex_pub_def)

theorem commit_read_back_witness:
  "\<exists>data' s'. commit ex_strg (\<lambda>l. rev) ex_commit empty_ls = Some (data', s', None) \<and>
     getLastBlock ex_codec (LevelDB_persist mem_db) s' = Some (Inr ex_blk) \<and> getTx ex_codec (LevelDB_persist mem_db) s' (txHash (tx_data ex_txn)) = Inr ex_txn"
proof -
  obtain data' s' e where c: "commit ex_strg (\<lambda>l. rev) ex_commit empty_ls = Some (data', s', e)"
    using commit_shape [OF mem_persist ex_storage_ok(1) ex_commit_pre, of "\<lambda>l. rev"] by auto
  with ex_no_error [OF c] have "commit ex_strg (\<lambda>l. rev) ex_commit empty_ls = Some (data', s', None)" by simp
  moreover have "codec_laws ex_codec" by (simp add: codec_laws_def ex_codec_def)
  ultimately show ?thesis
    using commit_read_back [OF mem_persist _ \<open>commit ex_strg (\<lambda>l. rev) ex_commit empty_ls = Some (data', s', None)\<close>] ex_blk_setData ex_txn_setData
    by (simp add: ex_commit_def)
qed

definition flaky_db :: "((bytes \<Rightarrow> bytes option) \<times> nat) leveldb" where
  "flaky_db =
     \<lparr>db_Put = (\<lambda>k v (m, n). if n = 0 then ((m, n), Some ''no space left'') else ((m(k \<mapsto> v), n - 1), None)),
      db_Get = (\<lambda>(m, n) k. case m k of None \<Rightarrow> Inl NotFound | Some v \<Rightarrow> Inr v),
      db_Has = (\<lambda>(m, n) k. Inr (m k \<noteq> None)),
      db_Delete = (\<lambda>k s. (s, Some ''read only'')), db_Write = (\<lambda>ops s. (s, Some ''read only''))\<rparr>"

lemma flaky_laws: "leveldb_laws flaky_db"
  by (auto simp: leveldb_laws_def flaky_db_def split: if_splits)

definition flaky_ls :: "((bytes \<Rightarrow> bytes option) \<times> nat) level_store" where
  "flaky_ls = \<lparr>ls_db = ((\<lambda>_. None), 5), ls_batch = None\<rparr>"

lemma flaky_ops:
  "pPut (LevelDB_persist flaky_db) k v \<lparr>ls_db = (m, Suc n), ls_batch = b\<rparr> = (\<lparr>ls_db = (m(k \<mapsto> v), n), ls_batch = b\<rparr>, None)"
  "pPut (LevelDB_persist flaky_db) k v \<lparr>ls_db = (m, 0), ls_batch = b\<rparr> = (\<lparr>ls_db = (m, 0), ls_batch = b\<rparr>, Some (IoErr ''no space left''))"
  "pGet (LevelDB_persist flaky_db) \<lparr>ls_db = (m, n), ls_batch = b\<rparr> k = (case m k of None \<Rightarrow> Inl NotFound | Some v \<Rightarrow> Inr v)"
  by (simp_all add: LevelDB_persist_def LevelDB_Put_def LevelDB_Get_def flaky_db_def io_error_def split: option.split)


end
