(* ===== verification/Go_Heap.thy ===== *)
theory Go_Heap
  imports Prelude "HOL-Library.Multiset"
begin

text \<open>
  The algorithms of Go's \<^verbatim>\<open>container/heap\<close> over a client's \<^verbatim>\<open>Less\<close> and \<^verbatim>\<open>Swap\<close>, as the transaction pool
  uses them, and their correctness under the contract of \<^verbatim>\<open>heap.Interface\<close>, the locale
  \<open>heap_interface\<close>: the client's state shows a list of priorities, which \<^verbatim>\<open>Swap\<close> exchanges.
\<close>

section \<open>Sifting\<close>

function heap_up :: "('s \<Rightarrow> nat \<Rightarrow> nat \<Rightarrow> bool) \<Rightarrow> ('s \<Rightarrow> nat \<Rightarrow> nat \<Rightarrow> 's) \<Rightarrow> 's \<Rightarrow> nat \<Rightarrow> 's" where
  "heap_up Less Swap s j =
     (let i = (j - 1) div 2
      in if i = j \<or> \<not> Less s j i then s else heap_up Less Swap (Swap s i j) i)"
  by pat_completeness auto
termination
  by (relation "measure (\<lambda>(_, _, _, j). j)") auto

function heap_down :: "('s \<Rightarrow> nat \<Rightarrow> nat \<Rightarrow> bool) \<Rightarrow> ('s \<Rightarrow> nat \<Rightarrow> nat \<Rightarrow> 's) \<Rightarrow> nat \<Rightarrow> 's \<Rightarrow> nat \<Rightarrow> 's \<times> nat" where
  "heap_down Less Swap n s i =
     (let j1 = 2 * i + 1
      in if n \<le> j1 then (s, i)
         else let j = (if j1 + 1 < n \<and> Less s (j1 + 1) j1 then j1 + 1 else j1)
              in if \<not> Less s j i then (s, i) else heap_down Less Swap n (Swap s i j) j)"
  by pat_completeness auto
termination
  by (relation "measure (\<lambda>(_, _, n, _, i). n - i)") auto

declare heap_up.simps [simp del] heap_down.simps [simp del]

text \<open>
  \<^verbatim>\<open>heap.Push\<close> after the client's push, \<^verbatim>\<open>heap.Pop\<close> and \<^verbatim>\<open>heap.Remove\<close> before the client's pop, on a
  queue of length \<open>len\<close>. An index out of range makes the client's \<^verbatim>\<open>Swap\<close> panic.
\<close>

definition heap_fix_push :: "('s \<Rightarrow> nat \<Rightarrow> nat \<Rightarrow> bool) \<Rightarrow> ('s \<Rightarrow> nat \<Rightarrow> nat \<Rightarrow> 's) \<Rightarrow> nat \<Rightarrow> 's \<Rightarrow> 's" where
  "heap_fix_push Less Swap len s = heap_up Less Swap s (len - 1)"

definition heap_fix_pop :: "('s \<Rightarrow> nat \<Rightarrow> nat \<Rightarrow> bool) \<Rightarrow> ('s \<Rightarrow> nat \<Rightarrow> nat \<Rightarrow> 's) \<Rightarrow> nat \<Rightarrow> 's \<Rightarrow> 's option" where
  "heap_fix_pop Less Swap len s =
     (if len = 0 then None
      else let n = len - 1 in Some (fst (heap_down Less Swap n (Swap s 0 n) 0)))"

definition heap_fix_remove :: "('s \<Rightarrow> nat \<Rightarrow> nat \<Rightarrow> bool) \<Rightarrow> ('s \<Rightarrow> nat \<Rightarrow> nat \<Rightarrow> 's) \<Rightarrow> nat \<Rightarrow> nat \<Rightarrow> 's \<Rightarrow> 's option" where
  "heap_fix_remove Less Swap len i s =
     (if len \<le> i then None
      else let n = len - 1
           in if n \<noteq> i then
                let (s', k) = heap_down Less Swap n (Swap s i n) i
                in Some (if \<not> i < k then heap_up Less Swap s' i else s')
              else Some s)"

section \<open>Heap order\<close>

abbreviation hparent :: "nat \<Rightarrow> nat" where
  "hparent k \<equiv> (k - 1) div 2"

definition heap_on :: "nat \<Rightarrow> (nat \<Rightarrow> int) \<Rightarrow> bool" where
  "heap_on n f \<longleftrightarrow> (\<forall>k. 0 < k \<longrightarrow> k < n \<longrightarrow> f (hparent k) \<le> f k)"

text \<open>Heap order but for the edge above \<open>j\<close>; the children of \<open>j\<close> are also above its parent.\<close>

definition heap_but_up :: "nat \<Rightarrow> (nat \<Rightarrow> int) \<Rightarrow> nat \<Rightarrow> bool" where
  "heap_but_up n f j \<longleftrightarrow>
     (\<forall>k. 0 < k \<longrightarrow> k < n \<longrightarrow> k \<noteq> j \<longrightarrow> f (hparent k) \<le> f k) \<and>
     (0 < j \<longrightarrow> (\<forall>k. 0 < k \<longrightarrow> k < n \<longrightarrow> hparent k = j \<longrightarrow> f (hparent j) \<le> f k))"

text \<open>Heap order but for the edges above and below \<open>i\<close>.\<close>

definition heap_but_down :: "nat \<Rightarrow> (nat \<Rightarrow> int) \<Rightarrow> nat \<Rightarrow> bool" where
  "heap_but_down n f i \<longleftrightarrow>
     (\<forall>k. 0 < k \<longrightarrow> k < n \<longrightarrow> k \<noteq> i \<longrightarrow> hparent k \<noteq> i \<longrightarrow> f (hparent k) \<le> f k) \<and>
     (0 < i \<longrightarrow> (\<forall>k. 0 < k \<longrightarrow> k < n \<longrightarrow> hparent k = i \<longrightarrow> f (hparent i) \<le> f k))"

lemma heap_root: "heap_on n f \<Longrightarrow> k < n \<Longrightarrow> f 0 \<le> f k"
proof (induction k rule: less_induct)
  case (less k)
  show ?case
  proof (cases "k = 0")
    case False
    then have "hparent k < k" by linarith
    with less have "f 0 \<le> f (hparent k)" by simp
    moreover have "f (hparent k) \<le> f k" using less.prems False by (simp add: heap_on_def)
    ultimately show ?thesis by simp
  qed simp
qed

lemma heap_on_subset: "heap_on n f \<Longrightarrow> m \<le> n \<Longrightarrow> heap_on m f"
  by (simp add: heap_on_def)

lemma heap_on_cong: "heap_on n f \<Longrightarrow> (\<And>k. k < n \<Longrightarrow> g k = f k) \<Longrightarrow> heap_on n g"
  unfolding heap_on_def by (metis (no_types, lifting) diff_le_self div_le_dividend le_less_trans)

lemma hparent_less: "k < n \<Longrightarrow> hparent k < n"
  by linarith

lemma heap_but_cong:
  assumes eq: "\<And>k. k < n \<Longrightarrow> g k = f k" and j: "j < n"
  shows "heap_but_up n f j \<Longrightarrow> heap_but_up n g j" "heap_but_down n f j \<Longrightarrow> heap_but_down n g j"
proof -
  have e: "g k = f k" "g (hparent k) = f (hparent k)" if "k < n" for k
    using that eq hparent_less by blast+
  show "heap_but_up n f j \<Longrightarrow> heap_but_up n g j" "heap_but_down n f j \<Longrightarrow> heap_but_down n g j"
    using e j by (auto simp: heap_but_up_def heap_but_down_def)
qed

lemma hparent_children: "0 < k \<Longrightarrow> hparent k = i \<longleftrightarrow> k = 2 * i + 1 \<or> k = 2 * i + 2"
  by auto

abbreviation exch :: "nat \<Rightarrow> nat \<Rightarrow> (nat \<Rightarrow> int) \<Rightarrow> nat \<Rightarrow> int" where
  "exch i j f \<equiv> f(i := f j, j := f i)"

lemma up_step:
  assumes h: "heap_but_up n f j" and j: "j < n" "0 < j" and lt: "f j < f (hparent j)"
  shows "heap_but_up n (exch (hparent j) j f) (hparent j)"
proof -
  let ?i = "hparent j" and ?g = "exch (hparent j) j f"
  have ij: "?i < j" using j by linarith
  have e1: "f (hparent k) \<le> f k" if "0 < k" "k < n" "k \<noteq> j" for k using h that by (simp add: heap_but_up_def)
  have e2: "f ?i \<le> f k" if "0 < k" "k < n" "hparent k = j" for k using h j that by (simp add: heap_but_up_def)
  have "?g (hparent k) \<le> ?g k" if k: "0 < k" "k < n" "k \<noteq> ?i" for k
  proof (cases "k = j")
    case True
    then show ?thesis using ij lt by simp
  next
    case False
    note r = e1 [OF k(1,2) False]
    consider "hparent k = ?i" | "hparent k = j" | "hparent k \<noteq> ?i" "hparent k \<noteq> j" by blast
    then show ?thesis
    proof cases
      case 1
      then show ?thesis using r lt False k(3) ij by (simp add: fun_upd_def)
    next
      case 2
      then show ?thesis using e2 [OF k(1,2) 2] False k(3) ij by (simp add: fun_upd_def)
    next
      case 3
      then show ?thesis using r False k(3) by (simp add: fun_upd_def)
    qed
  qed
  moreover have "?g (hparent ?i) \<le> ?g k" if i: "0 < ?i" and k: "0 < k" "k < n" "hparent k = ?i" for k
  proof -
    have pi: "hparent ?i < ?i" using i by linarith
    have "f (hparent ?i) \<le> f ?i" using e1 [of ?i] i ij j by simp
    moreover have "f ?i \<le> ?g k"
    proof (cases "k = j")
      case False
      have "k \<noteq> ?i" using k pi by auto
      with e1 [OF k(1,2) False] k(3) False show ?thesis by (simp add: fun_upd_def)
    qed (use ij in simp)
    ultimately show ?thesis using pi ij by (simp add: fun_upd_def)
  qed
  ultimately show ?thesis by (simp add: heap_but_up_def)
qed

lemma down_step:
  assumes h: "heap_but_down n f i" and j: "j = 2 * i + 1 \<or> j = 2 * i + 2" "j < n" and lt: "f j < f i"
    and least: "\<And>k. 0 < k \<Longrightarrow> k < n \<Longrightarrow> hparent k = i \<Longrightarrow> f j \<le> f k"
  shows "heap_but_down n (exch i j f) j" "0 < i \<Longrightarrow> exch i j f (hparent i) \<le> exch i j f i"
    "\<And>k. 0 < k \<Longrightarrow> k < n \<Longrightarrow> k \<noteq> j \<Longrightarrow> hparent k \<noteq> j \<Longrightarrow> exch i j f (hparent k) \<le> exch i j f k"
proof -
  let ?g = "exch i j f"
  have ij: "i < j" "hparent j = i" using j(1) by auto
  have e1: "f (hparent k) \<le> f k" if "0 < k" "k < n" "k \<noteq> i" "hparent k \<noteq> i" for k using h that by (simp add: heap_but_down_def)
  have e2: "f (hparent i) \<le> f k" if "0 < i" "0 < k" "k < n" "hparent k = i" for k using h that by (simp add: heap_but_down_def)
  have pi: "hparent i < i" if "0 < i" using that by linarith
  show up: "?g (hparent i) \<le> ?g i" if "0 < i" using e2 [OF that, of j] ij j(2) pi [OF that] by (simp add: fun_upd_def)
  show all: "?g (hparent k) \<le> ?g k" if k: "0 < k" "k < n" "k \<noteq> j" "hparent k \<noteq> j" for k
  proof (cases "k = i")
    case False
    show ?thesis
    proof (cases "hparent k = i")
      case True
      then show ?thesis using least [OF k(1,2) True] False k(3) ij by (simp add: fun_upd_def)
    next
      case False
      then show ?thesis using e1 [OF k(1,2) \<open>k \<noteq> i\<close> False] \<open>k \<noteq> i\<close> k(3,4) by (simp add: fun_upd_def)
    qed
  qed (use up k in simp)
  have "?g (hparent j) \<le> ?g k" if k: "0 < k" "k < n" "hparent k = j" for k
  proof -
    have "k \<noteq> i" "k \<noteq> j" using k ij by (auto simp: hparent_children)
    with e1 [OF k(1,2)] k(3) ij show ?thesis by (simp add: fun_upd_def)
  qed
  with all show "heap_but_down n ?g j" by (simp add: heap_but_down_def)
qed

section \<open>The contract of heap.Interface\<close>

text \<open>
  A client's state shows a queue \<open>q\<close> of elements with a priority \<open>key\<close>; under its invariant \<^verbatim>\<open>Less\<close> compares
  the priorities of two positions and \<^verbatim>\<open>Swap\<close> exchanges them, keeping priorities and invariant.
\<close>

locale heap_interface =
  fixes Less :: "'s \<Rightarrow> nat \<Rightarrow> nat \<Rightarrow> bool" and Swap :: "'s \<Rightarrow> nat \<Rightarrow> nat \<Rightarrow> 's"
    and q :: "'s \<Rightarrow> 'a list" and key :: "'s \<Rightarrow> 'a \<Rightarrow> int" and inv :: "'s \<Rightarrow> bool"
  assumes Less_key: "inv s \<Longrightarrow> i < length (q s) \<Longrightarrow> j < length (q s) \<Longrightarrow> Less s i j \<longleftrightarrow> key s (q s ! i) < key s (q s ! j)"
    and Swap_q: "inv s \<Longrightarrow> i < length (q s) \<Longrightarrow> j < length (q s) \<Longrightarrow> q (Swap s i j) = (q s)[i := q s ! j, j := q s ! i]"
    and Swap_key: "inv s \<Longrightarrow> i < length (q s) \<Longrightarrow> j < length (q s) \<Longrightarrow> key (Swap s i j) = key s"
    and Swap_inv: "inv s \<Longrightarrow> i < length (q s) \<Longrightarrow> j < length (q s) \<Longrightarrow> inv (Swap s i j)"
begin

abbreviation pri :: "'s \<Rightarrow> nat \<Rightarrow> int" where
  "pri s k \<equiv> key s (q s ! k)"

abbreviation is_heap :: "nat \<Rightarrow> 's \<Rightarrow> bool" where
  "is_heap n s \<equiv> heap_on n (pri s)"

text \<open>A rearrangement of the first \<open>n\<close> positions.\<close>

definition rearr :: "nat \<Rightarrow> 's \<Rightarrow> 's \<Rightarrow> bool" where
  "rearr n s s' \<longleftrightarrow> inv s' \<and> key s' = key s \<and> length (q s') = length (q s) \<and>
     mset (take n (q s')) = mset (take n (q s)) \<and> (\<forall>k \<ge> n. k < length (q s) \<longrightarrow> q s' ! k = q s ! k)"

lemma rearr_refl: "inv s \<Longrightarrow> rearr n s s"
  by (simp add: rearr_def)

lemma rearr_trans: "rearr n s s' \<Longrightarrow> rearr n s' s'' \<Longrightarrow> rearr n s s''"
  by (simp add: rearr_def)

lemma mset_take_swap:
  assumes "i < n" "j < n" "n \<le> length xs"
  shows "mset (take n (xs[i := xs ! j, j := xs ! i])) = mset (take n xs)"
proof -
  have "take n (xs[i := xs ! j, j := xs ! i]) = (take n xs)[i := take n xs ! j, j := take n xs ! i]"
    using assms by (simp add: take_update_swap)
  also have "mset \<dots> = mset (take n xs)"
    using assms mset_swap [of j "take n xs" i] by simp
  finally show ?thesis .
qed

lemma rearr_Swap:
  assumes "inv s" "i < n" "j < n" "n \<le> length (q s)"
  shows "rearr n s (Swap s i j)" "k < n \<Longrightarrow> i \<noteq> j \<Longrightarrow> pri (Swap s i j) k = exch i j (pri s) k"
  using assms Swap_q [of s i j] Swap_key [of s i j] Swap_inv [of s i j] mset_take_swap [of i n j "q s"]
  by (auto simp: rearr_def nth_list_update)

text \<open>Sifting up repairs the edge above \<open>j\<close>.\<close>

lemma heap_up_ok:
  assumes "inv s" "j < n" "n \<le> length (q s)" "heap_but_up n (pri s) j"
  shows "rearr n s (heap_up Less Swap s j) \<and> is_heap n (heap_up Less Swap s j)"
  using assms
proof (induction j arbitrary: s rule: less_induct)
  case (less j)
  let ?i = "hparent j"
  have len: "j < length (q s)" "?i < length (q s)" using less.prems by linarith+
  show ?case
  proof (cases "?i = j \<or> \<not> Less s j ?i")
    case True
    have "heap_on n (pri s)"
      unfolding heap_on_def
    proof (intro allI impI)
      fix k assume k: "0 < k" "k < n"
      show "pri s (hparent k) \<le> pri s k"
      proof (cases "k = j")
        case kj: True
        then have "?i \<noteq> j" using k by linarith
        with True have "\<not> Less s j ?i" by blast
        with Less_key [OF less.prems(1) len] kj show ?thesis by simp
      qed (use less.prems(4) k in \<open>simp add: heap_but_up_def\<close>)
    qed
    moreover have "heap_up Less Swap s j = s" using True by (subst heap_up.simps) (simp add: Let_def)
    ultimately show ?thesis using rearr_refl less.prems(1) by simp
  next
    case False
    then have ij: "?i < j" "?i < n" "0 < j" using less.prems(2) by linarith+
    let ?s = "Swap s ?i j"
    have lt: "pri s j < pri s ?i" using False Less_key [OF less.prems(1) len] by simp
    note r = rearr_Swap [OF less.prems(1) ij(2) less.prems(2,3)]
    have "heap_but_up n (pri ?s) ?i"
    proof (rule heap_but_cong(1) [OF _ ij(2) up_step [OF less.prems(4,2) ij(3) lt]])
      show "pri ?s k = exch ?i j (pri s) k" if "k < n" for k by (rule r(2) [OF that]) (use ij(1) in simp)
    qed
    moreover have "inv ?s" "n \<le> length (q ?s)" using r(1) less.prems(3) by (simp_all add: rearr_def)
    ultimately have "rearr n ?s (heap_up Less Swap ?s ?i) \<and> is_heap n (heap_up Less Swap ?s ?i)"
      using less.IH [OF ij(1) _ ij(2)] by blast
    moreover have "heap_up Less Swap s j = heap_up Less Swap ?s ?i" using False by (subst heap_up.simps) (simp add: Let_def)
    ultimately show ?thesis using rearr_trans [OF r(1)] by simp
  qed
qed

text \<open>
  Sifting down from \<open>i\<close>: if the element moves, the result is a heap; if it does not, nothing has changed and
  only the edge above \<open>i\<close> is open.
\<close>

lemma heap_down_ok:
  assumes "inv s" "i < n" "n \<le> length (q s)" "heap_but_down n (pri s) i" "heap_down Less Swap n s i = (s', k)"
  shows "rearr n s s' \<and> i \<le> k \<and> (if i < k then is_heap n s' else s' = s \<and> heap_but_up n (pri s) i)"
  using assms
proof (induction "n - i" arbitrary: i s rule: less_induct)
  case less
  note inv = less.prems(1) and i = less.prems(2) and n = less.prems(3) and h = less.prems(4)
  let ?j1 = "2 * i + 1"
  define j where "j = (if ?j1 + 1 < n \<and> Less s (?j1 + 1) ?j1 then ?j1 + 1 else ?j1)"
  have unf: "heap_down Less Swap n s i =
      (if n \<le> ?j1 then (s, i) else if \<not> Less s j i then (s, i) else heap_down Less Swap n (Swap s i j) j)"
    by (subst heap_down.simps) (simp only: Let_def j_def)
  have least: "pri s j \<le> pri s k" if "?j1 < n" "0 < k" "k < n" "hparent k = i" for k
  proof -
    have "k = ?j1 \<or> k = ?j1 + 1" using that by (auto simp: hparent_children)
    moreover have "Less s (?j1 + 1) ?j1 \<longleftrightarrow> pri s (?j1 + 1) < pri s ?j1" if "?j1 + 1 < n" using that inv n by (intro Less_key) auto
    ultimately show ?thesis using that by (auto simp: j_def not_less)
  qed
  have stop: "heap_but_up n (pri s) i" if "\<And>k. 0 < k \<Longrightarrow> k < n \<Longrightarrow> hparent k = i \<Longrightarrow> pri s i \<le> pri s k"
    unfolding heap_but_up_def
  proof (intro conjI allI impI)
    fix k assume k: "0 < k" "k < n" "k \<noteq> i"
    show "pri s (hparent k) \<le> pri s k" using h that [OF k(1,2)] k by (cases "hparent k = i") (simp_all add: heap_but_down_def)
  qed (use h in \<open>simp add: heap_but_down_def\<close>)
  show ?case
  proof (cases "n \<le> ?j1 \<or> \<not> Less s j i")
    case True
    then have eq: "heap_down Less Swap n s i = (s, i)" using unf by auto
    have "pri s i \<le> pri s k" if k: "0 < k" "k < n" "hparent k = i" for k
    proof -
      have j1: "?j1 < n" using k by (auto simp: hparent_children)
      then have jl: "j < length (q s)" using n by (auto simp: j_def)
      have "\<not> pri s j < pri s i" using True j1 Less_key [OF inv jl, of i] i n by auto
      with least [OF j1 k] show ?thesis by simp
    qed
    with stop have "heap_but_up n (pri s) i" by blast
    with eq less.prems(5) inv rearr_refl show ?thesis by auto
  next
    case False
    then have j1: "?j1 < n" and jn: "j < n" "i < j" "j = 2 * i + 1 \<or> j = 2 * i + 2" by (auto simp: j_def)
    let ?s = "Swap s i j"
    have lt: "pri s j < pri s i" using False Less_key [of s j i] inv jn(1) i n by auto
    note r = rearr_Swap [OF inv i jn(1) n]
    have pri: "pri ?s k = exch i j (pri s) k" if "k < n" for k by (rule r(2) [OF that]) (use jn(2) in simp)
    note st = down_step [OF h jn(3,1) lt least [OF j1]]
    have hd: "heap_but_down n (pri ?s) j" by (rule heap_but_cong(2) [OF pri jn(1) st(1)])
    have eq: "heap_down Less Swap n ?s j = (s', k)"
      using less.prems(5) False unf by auto
    have "rearr n ?s s' \<and> j \<le> k \<and> (if j < k then is_heap n s' else s' = ?s \<and> heap_but_up n (pri ?s) j)"
      using r(1) n i jn by (intro less.hyps [OF _ _ jn(1) _ hd eq]) (auto simp: rearr_def)
    moreover have "is_heap n ?s" if b: "heap_but_up n (pri ?s) j"
    proof -
      have pj: "hparent j = i" using jn(3) by auto
      have "pri ?s (hparent j) \<le> pri ?s j" unfolding pj using pri [OF i] pri [OF jn(1)] lt jn(2) by simp
      then show ?thesis using b unfolding heap_on_def heap_but_up_def by blast
    qed
    ultimately show ?thesis using rearr_trans [OF r(1)] jn(2) by (auto split: if_splits)
  qed
qed

section \<open>Push, Pop and Remove\<close>

lemma fix_push_ok:
  assumes "inv s" "n = length (q s)" "0 < n" "is_heap (n - 1) s"
  shows "rearr n s (heap_fix_push Less Swap n s) \<and> is_heap n (heap_fix_push Less Swap n s)"
proof -
  have "heap_but_up n (pri s) (n - 1)"
    unfolding heap_but_up_def
  proof (intro conjI allI impI)
    fix k assume "0 < k" "k < n" "k \<noteq> n - 1"
    then show "pri s (hparent k) \<le> pri s k" using assms(4) by (simp add: heap_on_def)
  next
    fix k assume "0 < n - 1" "0 < k" "k < n" "hparent k = n - 1"
    then have False by linarith
    then show "pri s (hparent (n - 1)) \<le> pri s k" ..
  qed
  with heap_up_ok [of s "n - 1" n] assms show ?thesis by (simp add: heap_fix_push_def)
qed

text \<open>After exchanging position \<open>i\<close> of a heap with the last one, the rest is a heap but for \<open>i\<close>.\<close>

lemma swap_last:
  assumes inv: "inv s" and n: "n + 1 = length (q s)" and i: "i < n" and h: "is_heap (n + 1) s"
  shows "inv (Swap s i n)" "key (Swap s i n) = key s" "length (q (Swap s i n)) = n + 1" "mset (q (Swap s i n)) = mset (q s)"
    "q (Swap s i n) ! n = q s ! i" "heap_but_down n (pri (Swap s i n)) i"
proof -
  let ?s = "Swap s i n"
  have r: "rearr (n + 1) s ?s" using inv n i by (intro rearr_Swap) auto
  then show k: "inv ?s" "key ?s = key s" "length (q ?s) = n + 1" using n by (simp_all add: rearr_def)
  have "mset (take (n + 1) (q ?s)) = mset (take (n + 1) (q s))" using r by (simp add: rearr_def)
  then show "mset (q ?s) = mset (q s)" using k(3) n by (metis order_refl take_all)
  show "q ?s ! n = q s ! i" using Swap_q [OF inv, of i n] n i by simp
  have pri: "pri ?s k = pri s k" if "k < n" "k \<noteq> i" for k
    using Swap_q [OF inv, of i n] Swap_key [OF inv, of i n] n i that by simp
  have e: "pri s (hparent k) \<le> pri s k" if "0 < k" "k < n" for k using h that by (simp add: heap_on_def)
  show "heap_but_down n (pri ?s) i"
    unfolding heap_but_down_def
  proof (intro conjI allI impI)
    fix k assume k: "0 < k" "k < n" "k \<noteq> i" "hparent k \<noteq> i"
    then show "pri ?s (hparent k) \<le> pri ?s k" using pri [of k] pri [of "hparent k"] hparent_less [OF k(2)] e [OF k(1,2)] by simp
  next
    fix k assume k: "0 < i" "0 < k" "k < n" "hparent k = i"
    have "hparent i \<noteq> i" "k \<noteq> i" using k by linarith+
    then have "pri ?s (hparent i) = pri s (hparent i)" "pri ?s k = pri s k" using pri hparent_less [OF i] k by simp_all
    with e [OF k(2,3)] e [OF k(1) i] k(4) show "pri ?s (hparent i) \<le> pri ?s k" by simp
  qed
qed

lemma rearr_all:
  assumes "rearr n s s'" and "length (q s) = n + 1"
  shows "mset (q s') = mset (q s)" "q s' ! n = q s ! n"
proof -
  have split: "mset xs = mset (take n xs) + {#xs ! n#}" if "length xs = n + 1" for xs :: "'a list"
    using take_Suc_conv_app_nth [of n xs] that by (metis Suc_eq_plus1 lessI mset_append mset_single_iff_right order_refl take_all)
  show "q s' ! n = q s ! n" using assms by (simp add: rearr_def)
  with split [of "q s'"] split [of "q s"] assms show "mset (q s') = mset (q s)" by (simp add: rearr_def)
qed

definition taken :: "nat \<Rightarrow> 's \<Rightarrow> nat \<Rightarrow> 's \<Rightarrow> bool" where
  "taken n s i s' \<longleftrightarrow> inv s' \<and> key s' = key s \<and> length (q s') = n + 1 \<and> mset (q s') = mset (q s) \<and>
     q s' ! n = q s ! i \<and> is_heap n s'"

lemma fix_remove_ok:
  assumes inv: "inv s" and n: "n + 1 = length (q s)" and i: "i < n + 1" and h: "is_heap (n + 1) s"
  shows "\<exists>s'. heap_fix_remove Less Swap (n + 1) i s = Some s' \<and> taken n s i s'"
proof (cases "i = n")
  case True
  then have "heap_fix_remove Less Swap (n + 1) i s = Some s" by (simp add: heap_fix_remove_def)
  moreover have "taken n s i s" using heap_on_subset [OF h, of n] inv n True by (simp add: taken_def)
  ultimately show ?thesis by blast
next
  case False
  then have i: "i < n" using i by simp
  let ?s = "Swap s i n"
  note sw = swap_last [OF inv n i h]
  obtain s' k where d: "heap_down Less Swap n ?s i = (s', k)" by (cases "heap_down Less Swap n ?s i")
  have down: "rearr n ?s s' \<and> i \<le> k \<and> (if i < k then is_heap n s' else s' = ?s \<and> heap_but_up n (pri ?s) i)"
    using heap_down_ok [OF sw(1) i _ sw(6) d] sw(3) by simp
  define r where "r = (if \<not> i < k then heap_up Less Swap s' i else s')"
  have res: "heap_fix_remove Less Swap (n + 1) i s = Some r"
    using i d by (simp add: heap_fix_remove_def r_def)
  have "rearr n ?s r \<and> is_heap n r"
    using down heap_up_ok [OF sw(1) i, of] sw(3) by (auto simp: r_def split: if_splits)
  then show ?thesis
    using res sw rearr_all [of n ?s r] by (auto simp: taken_def rearr_def)
qed

lemma fix_pop_ok:
  assumes inv: "inv s" and n: "n + 1 = length (q s)" and h: "is_heap (n + 1) s"
  shows "\<exists>s'. heap_fix_pop Less Swap (n + 1) s = Some s' \<and> taken n s 0 s'"
proof (cases "n = 0")
  case True
  have "heap_down Less Swap 0 (Swap s 0 0) 0 = (Swap s 0 0, 0)" by (subst heap_down.simps) simp
  then have "heap_fix_pop Less Swap (n + 1) s = Some (Swap s 0 0)" using True by (simp add: heap_fix_pop_def)
  moreover have l: "0 < length (q s)" using n by linarith
  then have "q (Swap s 0 0) = q s" using Swap_q [OF inv l l] by simp
  then have "taken n s 0 (Swap s 0 0)"
    using True n [symmetric] Swap_inv [OF inv l l] Swap_key [OF inv l l] by (simp add: taken_def heap_on_def)
  ultimately show ?thesis by blast
next
  case False
  then have i: "0 < n" by simp
  let ?s = "Swap s 0 n"
  note sw = swap_last [OF inv n i h]
  obtain s' k where d: "heap_down Less Swap n ?s 0 = (s', k)" by (cases "heap_down Less Swap n ?s 0")
  have down: "rearr n ?s s' \<and> (if 0 < k then is_heap n s' else s' = ?s \<and> heap_but_up n (pri ?s) 0)"
    using heap_down_ok [OF sw(1) i _ sw(6) d] sw(3) by simp
  have "is_heap n s'" using down by (auto simp: heap_but_up_def heap_on_def split: if_splits)
  moreover have "heap_fix_pop Less Swap (n + 1) s = Some s'" using d by (simp add: heap_fix_pop_def)
  ultimately show ?thesis
    using down sw rearr_all [of n ?s s'] by (auto simp: taken_def rearr_def)
qed

end

end
