(* ===== verification/Tx_Pool.thy ===== *)
theory Tx_Pool
  imports Go_Heap Core_Types "HOL-Library.AList"
begin

text \<open>
  The transaction pool (\<^verbatim>\<open>src/txpool/txstore.go\<close>, \<^verbatim>\<open>src/txpool/txpool.go\<close>,
  \<^verbatim>\<open>src/txpool/broadcaster.go\<close>). The heap of queued items and the table of all items share their
  \<^verbatim>\<open>*txItem\<close> objects and change them through either, so the items live in an explicit store: the heap is
  a list of addresses, the table maps a hash to an address. The clock is an argument where the code reads
  it. A panic or a fatal log is \<open>None\<close>. The storage, the execution and the message service are the
  interfaces the pool is built over and are the fields of \<open>pool_env\<close>.
\<close>

section \<open>Items and their store\<close>

record tx_item =
  it_tx :: transaction
  receivedTime :: int
  it_index :: int

record tx_store =
  items :: "nat \<Rightarrow> tx_item"
  next_item :: nat
  txq :: "nat list"
  txItems :: "(bytes \<times> nat) list"

abbreviation tx_hash :: "transaction \<Rightarrow> bytes" where
  "tx_hash tx \<equiv> txHash (tx_data tx)"

definition newTxItem :: "int \<Rightarrow> transaction \<Rightarrow> tx_item" where
  "newTxItem now tx = \<lparr>it_tx = tx, receivedTime = now, it_index = - 1\<rparr>"

definition inQueue :: "tx_item \<Rightarrow> bool" where
  "inQueue item \<longleftrightarrow> it_index item \<noteq> - 1"

definition newTxStore :: tx_store where
  "newTxStore = \<lparr>items = (\<lambda>_. newTxItem 0 NewTransaction), next_item = 0, txq = [], txItems = []\<rparr>"

section \<open>The queue as a heap.Interface\<close>

definition txQueue_Less :: "tx_store \<Rightarrow> nat \<Rightarrow> nat \<Rightarrow> bool" where
  "txQueue_Less s i j \<longleftrightarrow> receivedTime (items s (txq s ! i)) < receivedTime (items s (txq s ! j))"

definition set_index :: "nat \<Rightarrow> int \<Rightarrow> tx_store \<Rightarrow> tx_store" where
  "set_index a i s = s\<lparr>items := (items s)(a := (items s a)\<lparr>it_index := i\<rparr>)\<rparr>"

definition txQueue_Swap :: "tx_store \<Rightarrow> nat \<Rightarrow> nat \<Rightarrow> tx_store" where
  "txQueue_Swap s i j =
     (let s = s\<lparr>txq := (txq s)[i := txq s ! j, j := txq s ! i]\<rparr>;
          s = set_index (txq s ! i) (int i) s
      in set_index (txq s ! j) (int j) s)"

definition txQueue_Push :: "nat \<Rightarrow> tx_store \<Rightarrow> tx_store" where
  "txQueue_Push a s = (let n = length (txq s); s = set_index a (int n) s in s\<lparr>txq := txq s @ [a]\<rparr>)"

definition txQueue_Pop :: "tx_store \<Rightarrow> (nat \<times> tx_store) option" where
  "txQueue_Pop s =
     (if txq s = [] then None
      else let n = length (txq s); a = txq s ! (n - 1); s = set_index a (- 1) s
           in Some (a, s\<lparr>txq := take (n - 1) (txq s)\<rparr>))"

text \<open>\<^verbatim>\<open>heap.Push\<close>, \<^verbatim>\<open>heap.Pop\<close> and \<^verbatim>\<open>heap.Remove\<close> on the queue.\<close>

definition heap_Push :: "nat \<Rightarrow> tx_store \<Rightarrow> tx_store" where
  "heap_Push a s = (let s = txQueue_Push a s in heap_fix_push txQueue_Less txQueue_Swap (length (txq s)) s)"

definition heap_Pop :: "tx_store \<Rightarrow> (nat \<times> tx_store) option" where
  "heap_Pop s = Option.bind (heap_fix_pop txQueue_Less txQueue_Swap (length (txq s)) s) txQueue_Pop"

definition heap_Remove :: "int \<Rightarrow> tx_store \<Rightarrow> (nat \<times> tx_store) option" where
  "heap_Remove i s =
     (if i < 0 then None
      else Option.bind (heap_fix_remove txQueue_Less txQueue_Swap (length (txq s)) (nat i) s) txQueue_Pop)"

section \<open>Operations of the store\<close>

definition store_addNewTx :: "int \<Rightarrow> transaction \<Rightarrow> tx_store \<Rightarrow> tx_store" where
  "store_addNewTx now tx s =
     (if map_of (txItems s) (tx_hash tx) \<noteq> None then s
      else let a = next_item s;
               s = s\<lparr>items := (items s)(a := newTxItem now tx), next_item := a + 1\<rparr>;
               s = heap_Push a s
           in s\<lparr>txItems := AList.update (tx_hash tx) a (txItems s)\<rparr>)"

fun pop_loop :: "nat \<Rightarrow> tx_store \<Rightarrow> (bytes list \<times> tx_store) option" where
  "pop_loop 0 s = Some ([], s)"
| "pop_loop (Suc n) s =
     Option.bind (heap_Pop s) (\<lambda>(a, s').
       map_option (\<lambda>(hs, s''). (tx_hash (it_tx (items s' a)) # hs, s'')) (pop_loop n s'))"

text \<open>\<^verbatim>\<open>make\<close> panics on a negative count.\<close>

definition popTxsFromQueue :: "int \<Rightarrow> tx_store \<Rightarrow> (bytes list \<times> tx_store) option" where
  "popTxsFromQueue maxTxs s =
     (let count = min (int (length (txq s))) maxTxs
      in if count = 0 then Some ([], s) else if count < 0 then None else pop_loop (nat count) s)"

definition getTxsFromQueue :: "int \<Rightarrow> tx_store \<Rightarrow> bytes list option" where
  "getTxsFromQueue maxTxs s =
     (let count = min (int (length (txq s))) maxTxs
      in if count = 0 then Some [] else if count < 0 then None
         else Some (map (\<lambda>i. tx_hash (it_tx (items s (txq s ! i)))) [0..<nat count]))"

definition put_one :: "bytes \<Rightarrow> tx_store \<Rightarrow> tx_store" where
  "put_one hash s =
     (case map_of (txItems s) hash of
        None \<Rightarrow> s
      | Some a \<Rightarrow> if \<not> inQueue (items s a) then heap_Push a s else s)"

definition putTxsToQueue :: "bytes list \<Rightarrow> tx_store \<Rightarrow> tx_store" where
  "putTxsToQueue hashes s = fold put_one hashes s"

text \<open>A loop whose body may panic.\<close>

fun each :: "('a \<Rightarrow> 's \<Rightarrow> 's option) \<Rightarrow> 'a list \<Rightarrow> 's \<Rightarrow> 's option" where
  "each f [] s = Some s"
| "each f (x # xs) s = Option.bind (f x s) (each f xs)"

definition pending_one :: "bytes \<Rightarrow> tx_store \<Rightarrow> tx_store option" where
  "pending_one hash s =
     (case map_of (txItems s) hash of
        None \<Rightarrow> Some s
      | Some a \<Rightarrow> if inQueue (items s a) then map_option snd (heap_Remove (it_index (items s a)) s) else Some s)"

definition setTxsPending :: "bytes list \<Rightarrow> tx_store \<Rightarrow> tx_store option" where
  "setTxsPending hashes s = each pending_one hashes s"

definition remove_one :: "bytes \<Rightarrow> tx_store \<Rightarrow> tx_store option" where
  "remove_one hash s =
     (case map_of (txItems s) hash of
        None \<Rightarrow> Some s
      | Some a \<Rightarrow>
          map_option (\<lambda>s. s\<lparr>txItems := AList.delete hash (txItems s)\<rparr>)
            (if inQueue (items s a) then map_option snd (heap_Remove (it_index (items s a)) s) else Some s))"

definition removeTxs :: "bytes list \<Rightarrow> tx_store \<Rightarrow> tx_store option" where
  "removeTxs hashes s = each remove_one hashes s"

definition store_getTx :: "tx_store \<Rightarrow> bytes \<Rightarrow> transaction option" where
  "store_getTx s hash = map_option (\<lambda>a. it_tx (items s a)) (map_of (txItems s) hash)"

datatype tx_status = TxStatusNotFound | TxStatusQueue | TxStatusPending | TxStatusCommitted

definition store_getTxStatus :: "tx_store \<Rightarrow> bytes \<Rightarrow> tx_status" where
  "store_getTxStatus s hash =
     (case map_of (txItems s) hash of
        None \<Rightarrow> TxStatusNotFound
      | Some a \<Rightarrow> if inQueue (items s a) then TxStatusQueue else TxStatusPending)"

record pool_status =
  stTotal :: int
  stPending :: int
  stQueue :: int

definition store_getStatus :: "tx_store \<Rightarrow> pool_status" where
  "store_getStatus s =
     (let total = int (length (txItems s)); queue = int (length (txq s))
      in \<lparr>stTotal = total, stPending = total - queue, stQueue = queue\<rparr>)"

section \<open>The pool\<close>

record pool_env =
  pe_crypto :: crypto
  pe_HasTx :: "bytes \<Rightarrow> bool"
  pe_VerifyTx :: "transaction \<Rightarrow> string option"
  pe_RequestTxList :: "public_key \<Rightarrow> bytes list \<Rightarrow> (string, transaction list) result"

datatype pool_error = TxInvalid core_error | VerifyFailed string | RequestFailed string | InvalidTxList

text \<open>The pool with the transactions handed to the broadcaster, in the order of the channel.\<close>

record tx_pool =
  pl_store :: tx_store
  pl_broadcastTx :: bool
  pl_queue :: "transaction list"

definition newTxPool :: "bool \<Rightarrow> tx_pool" where
  "newTxPool broadcastTx = \<lparr>pl_store = newTxStore, pl_broadcastTx = broadcastTx, pl_queue = []\<rparr>"

text \<open>What \<^verbatim>\<open>addNewTx\<close> decides before it touches the store: an error, a known transaction, or an addition.\<close>

definition pool_addNewTx :: "pool_env \<Rightarrow> int \<Rightarrow> transaction \<Rightarrow> tx_store \<Rightarrow> pool_error option \<times> tx_store" where
  "pool_addNewTx env now tx s =
     (case Tx_Validate (pe_crypto env) (Some (tx_data tx)) of
        Some e \<Rightarrow> (Some (TxInvalid e), s)
      | None \<Rightarrow>
          if pe_HasTx env (tx_hash tx) then (None, s)
          else case pe_VerifyTx env tx of
                 Some e \<Rightarrow> (Some (VerifyFailed e), s)
               | None \<Rightarrow> (None, store_addNewTx now tx s))"

definition broadcast_tx :: "transaction \<Rightarrow> tx_pool \<Rightarrow> tx_pool" where
  "broadcast_tx tx p = (if pl_broadcastTx p then p\<lparr>pl_queue := pl_queue p @ [tx]\<rparr> else p)"

definition submitTx :: "pool_env \<Rightarrow> int \<Rightarrow> transaction \<Rightarrow> tx_pool \<Rightarrow> pool_error option \<times> tx_pool" where
  "submitTx env now tx p =
     (let p = p\<lparr>pl_store := putTxsToQueue [tx_hash tx] (pl_store p)\<rparr>;
          (err, s) = pool_addNewTx env now tx (pl_store p);
          p = p\<lparr>pl_store := s\<rparr>
      in case err of Some e \<Rightarrow> (Some e, p) | None \<Rightarrow> (None, broadcast_tx tx p))"

subsection \<open>addTxList\<close>

text \<open>
  The list is fed to fifty workers over the channel \<^verbatim>\<open>jobCh\<close>, and the caller reads as many results from
  \<^verbatim>\<open>out\<close>, returning at the first error. Its deferred calls close both channels: the workers still
  receive the jobs left in \<^verbatim>\<open>jobCh\<close>, and a send on the closed \<^verbatim>\<open>out\<close> panics, which ends the process.
\<close>

datatype worker = Idle | Took transaction | Answers "pool_error option" | Exited

record list_run =
  lr_store :: tx_store
  lr_feed :: "transaction list"
  lr_jobs :: "transaction list"
  lr_out :: "pool_error option list"
  lr_workers :: "worker list"
  lr_left :: nat
  lr_result :: "pool_error option option"
  lr_panic :: bool

definition addTxList_start :: "transaction list \<Rightarrow> tx_store \<Rightarrow> list_run" where
  "addTxList_start txList s =
     \<lparr>lr_store = s, lr_feed = txList, lr_jobs = [], lr_out = [], lr_workers = replicate 50 Idle,
      lr_left = length txList, lr_result = None, lr_panic = False\<rparr>"

datatype list_action = Feed | Take nat | Add nat int | Send nat | Recv | Exit nat

text \<open>One step of the caller or of worker \<open>w\<close>; \<open>None\<close> when it cannot run there.\<close>

fun list_step :: "pool_env \<Rightarrow> list_action \<Rightarrow> list_run \<Rightarrow> list_run option" where
  "list_step env Feed r =
     (case lr_feed r of
        tx # rest \<Rightarrow> Some (r\<lparr>lr_feed := rest, lr_jobs := lr_jobs r @ [tx]\<rparr>)
      | [] \<Rightarrow> None)"
| "list_step env (Take w) r =
     (if w < length (lr_workers r) \<and> lr_workers r ! w = Idle then
        (case lr_jobs r of
           tx # rest \<Rightarrow> Some (r\<lparr>lr_jobs := rest, lr_workers := (lr_workers r)[w := Took tx]\<rparr>)
         | [] \<Rightarrow> None)
      else None)"
| "list_step env (Add w now) r =
     (if w < length (lr_workers r) then
        (case lr_workers r ! w of
           Took tx \<Rightarrow>
             (let (err, s) = pool_addNewTx env now tx (lr_store r)
              in Some (r\<lparr>lr_store := s, lr_workers := (lr_workers r)[w := Answers err]\<rparr>))
         | _ \<Rightarrow> None)
      else None)"
| "list_step env (Send w) r =
     (if w < length (lr_workers r) then
        (case lr_workers r ! w of
           Answers err \<Rightarrow>
             (if lr_result r = None
              then Some (r\<lparr>lr_out := lr_out r @ [err], lr_workers := (lr_workers r)[w := Idle]\<rparr>)
              else Some (r\<lparr>lr_panic := True\<rparr>))
         | _ \<Rightarrow> None)
      else None)"
| "list_step env Recv r =
     (if lr_feed r = [] \<and> lr_result r = None then
        (if lr_left r = 0 then Some (r\<lparr>lr_result := Some None\<rparr>)
         else case lr_out r of
                [] \<Rightarrow> None
              | Some e # rest \<Rightarrow> Some (r\<lparr>lr_out := rest, lr_result := Some (Some e)\<rparr>)
              | None # rest \<Rightarrow> Some (r\<lparr>lr_out := rest, lr_left := lr_left r - 1\<rparr>))
      else None)"
| "list_step env (Exit w) r =
     (if w < length (lr_workers r) \<and> lr_workers r ! w = Idle \<and> lr_jobs r = [] \<and> lr_result r \<noteq> None
      then Some (r\<lparr>lr_workers := (lr_workers r)[w := Exited]\<rparr>)
      else None)"

text \<open>After a panic the process is gone and takes no further step.\<close>

definition list_run_step :: "pool_env \<Rightarrow> list_action \<Rightarrow> list_run \<Rightarrow> list_run option" where
  "list_run_step env a r = (if lr_panic r then None else list_step env a r)"

text \<open>The run of a schedule: a turn that cannot run changes nothing.\<close>

definition list_turn :: "pool_env \<Rightarrow> list_action \<Rightarrow> list_run \<Rightarrow> list_run" where
  "list_turn env a r = (case list_run_step env a r of None \<Rightarrow> r | Some r' \<Rightarrow> r')"

definition addTxList :: "pool_env \<Rightarrow> list_action list \<Rightarrow> transaction list \<Rightarrow> tx_store \<Rightarrow> list_run" where
  "addTxList env sched txList s = fold (list_turn env) sched (addTxList_start txList s)"

subsection \<open>Synchronisation and execution\<close>

definition missing_hashes :: "pool_env \<Rightarrow> tx_store \<Rightarrow> bytes list \<Rightarrow> bytes list" where
  "missing_hashes env s hashes = filter (\<lambda>h. \<not> pe_HasTx env h \<and> store_getTx s h = None) hashes"

text \<open>A response longer than the request indexes past the requested hashes, which panics.\<close>

fun check_response :: "bytes list \<Rightarrow> transaction list \<Rightarrow> bool option" where
  "check_response hs [] = Some True"
| "check_response [] (tx # txs) = None"
| "check_response (h # hs) (tx # txs) = (if h \<noteq> tx_hash tx then Some False else check_response hs txs)"

definition requestTxList :: "pool_env \<Rightarrow> public_key \<Rightarrow> bytes list \<Rightarrow> (pool_error, transaction list) result option" where
  "requestTxList env peer hashes =
     (case pe_RequestTxList env peer hashes of
        Inl e \<Rightarrow> Some (Inl (RequestFailed e))
      | Inr txs \<Rightarrow>
          map_option (\<lambda>ok. if ok then Inr txs else Inl InvalidTxList) (check_response hashes txs))"

text \<open>
  The part of \<^verbatim>\<open>syncTxs\<close> and of \<^verbatim>\<open>storeTxs\<close> before their call of \<^verbatim>\<open>addTxList\<close>: the list they pass to it
  is the result, \<open>Inr []\<close> when they return without the call, which a run of \<^verbatim>\<open>addTxList\<close> on the empty
  list ends like.
\<close>

definition syncTxs_list :: "pool_env \<Rightarrow> public_key \<Rightarrow> bytes list \<Rightarrow> tx_store \<Rightarrow> (pool_error, transaction list) result option" where
  "syncTxs_list env peer hashes s =
     (let missing = missing_hashes env s hashes
      in if missing = [] then Some (Inr []) else requestTxList env peer missing)"

definition storeTxs_list :: "pool_env \<Rightarrow> transaction list \<Rightarrow> tx_pool \<Rightarrow> transaction list \<times> tx_pool" where
  "storeTxs_list env txs p =
     (let missing = filter (\<lambda>tx. \<not> pe_HasTx env (tx_hash tx) \<and> store_getTx (pl_store p) (tx_hash tx) = None) txs
      in (missing, fold broadcast_tx missing p))"

definition syncTxs :: "pool_env \<Rightarrow> list_action list \<Rightarrow> public_key \<Rightarrow> bytes list \<Rightarrow> tx_store \<Rightarrow> (pool_error, list_run) result option" where
  "syncTxs env sched peer hashes s =
     map_option (\<lambda>r. case r of Inl e \<Rightarrow> Inl e | Inr txs \<Rightarrow> Inr (addTxList env sched txs s)) (syncTxs_list env peer hashes s)"

definition storeTxs :: "pool_env \<Rightarrow> list_action list \<Rightarrow> transaction list \<Rightarrow> tx_pool \<Rightarrow> list_run \<times> tx_pool" where
  "storeTxs env sched txs p =
     (let (missing, p) = storeTxs_list env txs p;
          r = addTxList env sched missing (pl_store p)
      in (r, p\<lparr>pl_store := lr_store r\<rparr>))"

fun execute_loop :: "pool_env \<Rightarrow> tx_store \<Rightarrow> bytes list \<Rightarrow> (transaction list \<times> bytes list) option" where
  "execute_loop env s [] = Some ([], [])"
| "execute_loop env s (h # hs) =
     (if pe_HasTx env h then map_option (\<lambda>(txs, old). (txs, h # old)) (execute_loop env s hs)
      else case store_getTx s h of
             None \<Rightarrow> None
           | Some tx \<Rightarrow> map_option (\<lambda>(txs, old). (tx # txs, old)) (execute_loop env s hs))"

definition getTxsToExecute :: "pool_env \<Rightarrow> bytes list \<Rightarrow> tx_store \<Rightarrow> (transaction list \<times> bytes list \<times> tx_store) option" where
  "getTxsToExecute env hashes s =
     Option.bind (execute_loop env s hashes) (\<lambda>(txs, old).
       map_option (\<lambda>s'. (txs, old, s')) (setTxsPending hashes s))"

definition getTxStatus :: "pool_env \<Rightarrow> tx_store \<Rightarrow> bytes \<Rightarrow> tx_status" where
  "getTxStatus env s hash =
     (let status = store_getTxStatus s hash
      in if status \<noteq> TxStatusNotFound then status
         else if pe_HasTx env hash then TxStatusCommitted
         else TxStatusNotFound)"

section \<open>The broadcaster\<close>

record broadcaster =
  br_txBatch :: "transaction list"
  br_batchSize :: nat
  br_sent :: "transaction list list"

definition newBroadcaster :: broadcaster where
  "newBroadcaster = \<lparr>br_txBatch = [], br_batchSize = 1000, br_sent = []\<rparr>"

definition broadcastBatch :: "broadcaster \<Rightarrow> broadcaster" where
  "broadcastBatch b = b\<lparr>br_sent := br_sent b @ [br_txBatch b], br_txBatch := []\<rparr>"

datatype broadcast_event = TimerFires | Dequeue transaction

text \<open>One turn of the loop of \<^verbatim>\<open>run\<close>.\<close>

fun broadcaster_run :: "broadcast_event \<Rightarrow> broadcaster \<Rightarrow> broadcaster" where
  "broadcaster_run TimerFires b = (if br_txBatch b \<noteq> [] then broadcastBatch b else b)"
| "broadcaster_run (Dequeue tx) b =
     (let b = b\<lparr>br_txBatch := br_txBatch b @ [tx]\<rparr>
      in if br_batchSize b \<le> length (br_txBatch b) then broadcastBatch b else b)"

end
