(* ===== verification/Tx_Pool_Correct.thy ===== *)
theory Tx_Pool_Correct
  imports Tx_Pool
begin

text \<open>
  The queue of the pool is a heap in the sense of \<open>heap_interface\<close>, every operation of the store keeps the
  invariant \<open>store_ok\<close> and refines an operation on its \<open>table\<close>, and the lists of \<^verbatim>\<open>addTxList\<close>.
\<close>

section \<open>The queue\<close>

definition tx_key :: "tx_store \<Rightarrow> nat \<Rightarrow> int" where
  "tx_key s a = receivedTime (items s a)"

text \<open>Positions and indices agree.\<close>

definition placed :: "tx_store \<Rightarrow> bool" where
  "placed s \<longleftrightarrow> distinct (txq s) \<and> (\<forall>i < length (txq s). it_index (items s (txq s ! i)) = int i)"

text \<open>\<open>s\<close> differs from \<open>s0\<close> only in the order of the queue and the indices of queued items.\<close>

definition same_items :: "tx_store \<Rightarrow> tx_store \<Rightarrow> bool" where
  "same_items s0 s \<longleftrightarrow> txItems s = txItems s0 \<and> next_item s = next_item s0 \<and>
     (\<forall>a. it_tx (items s a) = it_tx (items s0 a) \<and> receivedTime (items s a) = receivedTime (items s0 a))"

definition queue_frame :: "tx_store \<Rightarrow> tx_store \<Rightarrow> bool" where
  "queue_frame s0 s \<longleftrightarrow> placed s \<and> same_items s0 s \<and> set (txq s) = set (txq s0) \<and>
     (\<forall>a. a \<notin> set (txq s0) \<longrightarrow> items s a = items s0 a)"

lemma same_items_refl [simp]: "same_items s s"
  by (simp add: same_items_def)

lemma same_items_trans: "same_items s s' \<Longrightarrow> same_items s' s'' \<Longrightarrow> same_items s s''"
  by (simp add: same_items_def)

lemma same_items_key: "same_items s s' \<Longrightarrow> tx_key s' = tx_key s"
  by (simp add: same_items_def tx_key_def fun_eq_iff)

lemma set_index_simps [simp]:
  "txq (set_index a i s) = txq s" "txItems (set_index a i s) = txItems s" "next_item (set_index a i s) = next_item s"
  "items (set_index a i s) b = (if b = a then (items s a)\<lparr>it_index := i\<rparr> else items s b)"
  by (simp_all add: set_index_def)

lemma same_items_set_index [simp]: "same_items s0 (set_index a i s) \<longleftrightarrow> same_items s0 s"
  by (auto simp: same_items_def)

lemma same_items_txq [simp]: "same_items s0 (s\<lparr>txq := q\<rparr>) \<longleftrightarrow> same_items s0 s"
  by (simp add: same_items_def)

lemma set_swap: "i < length xs \<Longrightarrow> j < length xs \<Longrightarrow> set (xs[i := xs ! j, j := xs ! i]) = set xs"
  by (metis mset_eq_setD mset_swap)

lemma swap_items:
  assumes "placed s" "i < length (txq s)" "j < length (txq s)"
  shows "txq (txQueue_Swap s i j) = (txq s)[i := txq s ! j, j := txq s ! i]"
    and "placed (txQueue_Swap s i j)"
    and "same_items s (txQueue_Swap s i j)"
    and "a \<notin> set (txq s) \<Longrightarrow> items (txQueue_Swap s i j) a = items s a"
proof -
  show q: "txq (txQueue_Swap s i j) = (txq s)[i := txq s ! j, j := txq s ! i]"
    by (simp add: txQueue_Swap_def Let_def)
  have d: "distinct (txq s)" using assms by (simp add: placed_def)
  have "distinct ((txq s)[i := txq s ! j, j := txq s ! i])" using d assms by simp
  moreover have "it_index (items (txQueue_Swap s i j) (txq (txQueue_Swap s i j) ! k)) = int k" if "k < length (txq s)" for k
    unfolding q using assms d that
    by (auto simp: txQueue_Swap_def Let_def placed_def nth_list_update nth_eq_iff_index_eq)
  ultimately show "placed (txQueue_Swap s i j)" using q by (simp add: placed_def)
  show "same_items s (txQueue_Swap s i j)" by (simp add: txQueue_Swap_def Let_def)
  show "items (txQueue_Swap s i j) a = items s a" if "a \<notin> set (txq s)"
    using that assms by (auto simp: txQueue_Swap_def Let_def nth_list_update)
qed

interpretation txh: heap_interface txQueue_Less txQueue_Swap txq tx_key "queue_frame s0" for s0
proof
  fix s i j assume inv: "queue_frame s0 s" and ij: "i < length (txq s)" "j < length (txq s)"
  show "txQueue_Less s i j \<longleftrightarrow> tx_key s (txq s ! i) < tx_key s (txq s ! j)"
    by (simp add: txQueue_Less_def tx_key_def)
  have p: "placed s" using inv by (simp add: queue_frame_def)
  note sw = swap_items [OF p ij]
  show "txq (txQueue_Swap s i j) = (txq s)[i := txq s ! j, j := txq s ! i]" by (rule sw)
  show "tx_key (txQueue_Swap s i j) = tx_key s" by (rule same_items_key [OF sw(3)])
  show "queue_frame s0 (txQueue_Swap s i j)"
    using inv sw set_swap [OF ij] same_items_trans [of s0 s] by (auto simp: queue_frame_def)
qed

text \<open>The queue is in heap order and its indices are right.\<close>

definition queue_ok :: "tx_store \<Rightarrow> bool" where
  "queue_ok s \<longleftrightarrow> placed s \<and> heap_on (length (txq s)) (\<lambda>k. tx_key s (txq s ! k))"

lemma heap_Push_ok:
  assumes ok: "queue_ok s" and a: "a \<notin> set (txq s)" and r: "r = heap_Push a s"
  shows "queue_ok r" "same_items s r" "set (txq r) = insert a (set (txq s))"
    "b \<notin> insert a (set (txq s)) \<Longrightarrow> items r b = items s b"
proof -
  define s1 where "s1 = txQueue_Push a s"
  have q1: "txq s1 = txq s @ [a]" by (simp add: s1_def txQueue_Push_def Let_def)
  have i1: "same_items s s1" by (simp add: s1_def txQueue_Push_def Let_def)
  have u1: "items s1 b = items s b" if "b \<noteq> a" for b using that by (simp add: s1_def txQueue_Push_def Let_def)
  have ia: "it_index (items s1 a) = int (length (txq s))" by (simp add: s1_def txQueue_Push_def Let_def)
  have p: "placed s1"
    unfolding placed_def
  proof (intro conjI allI impI)
    show "distinct (txq s1)" using ok a q1 by (simp add: queue_ok_def placed_def)
    show "it_index (items s1 (txq s1 ! i)) = int i" if i: "i < length (txq s1)" for i
    proof (cases "i < length (txq s)")
      case True
      moreover from this a have "txq s ! i \<noteq> a" by (metis nth_mem)
      ultimately show ?thesis using ok by (simp add: q1 u1 queue_ok_def placed_def nth_append)
    next
      case False
      with i q1 have "i = length (txq s)" by simp
      then show ?thesis by (simp add: q1 ia)
    qed
  qed
  then have f: "queue_frame s1 s1" by (simp add: queue_frame_def)
  have "heap_on (length (txq s)) (\<lambda>k. tx_key s1 (txq s1 ! k))"
    by (rule heap_on_cong [where f = "\<lambda>k. tx_key s (txq s ! k)"])
      (use ok same_items_key [OF i1] in \<open>simp_all add: queue_ok_def q1 nth_append\<close>)
  then have "txh.rearr s1 (length (txq s1)) s1 r \<and> heap_on (length (txq s1)) (\<lambda>k. tx_key r (txq r ! k))"
    using txh.fix_push_ok [OF f refl] unfolding r heap_Push_def s1_def [symmetric] Let_def by (simp add: q1)
  then have rr: "queue_frame s1 r" "length (txq r) = length (txq s1)" "heap_on (length (txq s1)) (\<lambda>k. tx_key r (txq r ! k))"
    unfolding txh.rearr_def by blast+
  then show "queue_ok r" by (simp add: queue_ok_def queue_frame_def)
  show "same_items s r" using rr(1) same_items_trans [OF i1] by (simp add: queue_frame_def)
  show "set (txq r) = insert a (set (txq s))" using rr(1) q1 by (auto simp: queue_frame_def)
  show "items r b = items s b" if "b \<notin> insert a (set (txq s))" using rr(1) that q1 u1 by (simp add: queue_frame_def)
qed

text \<open>\<open>r\<close> is \<open>s\<close> with the element at position \<open>i\<close> taken out of the queue.\<close>

definition dequeued :: "tx_store \<Rightarrow> nat \<Rightarrow> tx_store \<Rightarrow> bool" where
  "dequeued s i r \<longleftrightarrow> queue_ok r \<and> same_items s r \<and> mset (txq s) = add_mset (txq s ! i) (mset (txq r)) \<and>
     it_index (items r (txq s ! i)) = - 1 \<and> (\<forall>b. b \<notin> set (txq s) \<longrightarrow> items r b = items s b)"

text \<open>The client's pop after an element has been moved to the end.\<close>

lemma pop_taken:
  assumes t: "txh.taken s n s i s'" and i: "i < length (txq s)"
  shows "\<exists>r. txQueue_Pop s' = Some (txq s ! i, r) \<and> dequeued s i r"
proof -
  define a where "a = txq s ! i"
  define r where "r = (set_index a (- 1) s')\<lparr>txq := take n (txq s')\<rparr>"
  have l: "length (txq s') = n + 1" and last: "txq s' ! n = a" and ms: "mset (txq s') = mset (txq s)"
    and h: "heap_on n (\<lambda>k. tx_key s' (txq s' ! k))" and f: "queue_frame s s'"
    using t unfolding txh.taken_def a_def by blast+
  have "txq s' = take n (txq s') @ [txq s' ! n]" using l take_Suc_conv_app_nth [of n "txq s'"] by simp
  then have q: "txq s' = txq r @ [a]" unfolding last by (simp add: r_def)
  have p: "placed s'" and it: "same_items s s'" using f by (simp_all add: queue_frame_def)
  have ne: "txq s' \<noteq> []" using l by auto
  have pop: "txQueue_Pop s' = Some (txq s ! i, r)"
    using l last ne by (simp add: txQueue_Pop_def Let_def r_def a_def)
  have it': "same_items s r" using it by (simp add: r_def)
  have ix: "it_index (items r (txq s ! i)) = - 1" by (simp add: r_def a_def)
  have ms': "mset (txq s) = add_mset (txq s ! i) (mset (txq r))" using ms q by (simp add: a_def)
  have an: "a \<notin> set (txq r)" using p q by (simp add: placed_def)
  have "a \<in> set (txq s)" using i by (simp add: a_def)
  then have rest: "items r b = items s b" if "b \<notin> set (txq s)" for b using f that by (auto simp: r_def queue_frame_def)
  have "it_index (items r (txq r ! k)) = int k" if k: "k < length (txq r)" for k
  proof -
    have "txq r ! k \<noteq> a" using an k by (metis nth_mem)
    moreover have "txq s' ! k = txq r ! k" "k < length (txq s')" using q k by (simp_all add: nth_append)
    moreover have "items r b = items s' b" if "b \<noteq> a" for b using that by (simp add: r_def)
    ultimately show ?thesis using p by (metis placed_def)
  qed
  moreover have "distinct (txq r)" using p q by (simp add: placed_def)
  moreover have "heap_on (length (txq r)) (\<lambda>k. tx_key r (txq r ! k))"
  proof (rule heap_on_cong)
    show "heap_on (length (txq r)) (\<lambda>k. tx_key s' (txq s' ! k))" using h l q by simp
    show "tx_key r (txq r ! k) = tx_key s' (txq s' ! k)" if "k < length (txq r)" for k
      using that q same_items_key [OF it] same_items_key [OF it'] by (simp add: nth_append)
  qed
  ultimately have "queue_ok r" by (simp add: queue_ok_def placed_def)
  with pop it' ix ms' rest show ?thesis by (simp add: dequeued_def)
qed

lemma heap_Remove_ok:
  assumes ok: "queue_ok s" and i: "i < length (txq s)"
  shows "\<exists>r. heap_Remove (int i) s = Some (txq s ! i, r) \<and> dequeued s i r"
proof -
  define n where "n = length (txq s) - 1"
  have n: "n + 1 = length (txq s)" using i by (simp add: n_def)
  have f: "queue_frame s s" and h: "heap_on (n + 1) (\<lambda>k. tx_key s (txq s ! k))"
    using ok n by (simp_all add: queue_frame_def queue_ok_def)
  have "i < n + 1" using i n by simp
  from txh.fix_remove_ok [OF f n this h] obtain s' where s':
    "heap_fix_remove txQueue_Less txQueue_Swap (n + 1) i s = Some s'" "txh.taken s n s i s'" by blast
  from pop_taken [OF s'(2) i] s'(1) show ?thesis unfolding n by (auto simp: heap_Remove_def)
qed

lemma heap_Pop_ok:
  assumes ok: "queue_ok s" and ne: "txq s \<noteq> []"
  shows "\<exists>r. heap_Pop s = Some (txq s ! 0, r) \<and> dequeued s 0 r" "\<And>b. b \<in> set (txq s) \<Longrightarrow> tx_key s (txq s ! 0) \<le> tx_key s b"
proof -
  define n where "n = length (txq s) - 1"
  have l: "0 < length (txq s)" using ne by simp
  have n: "n + 1 = length (txq s)" using l by (simp add: n_def)
  have f: "queue_frame s s" and h: "heap_on (n + 1) (\<lambda>k. tx_key s (txq s ! k))"
    using ok n by (simp_all add: queue_frame_def queue_ok_def)
  from txh.fix_pop_ok [OF f n h] obtain s' where s':
    "heap_fix_pop txQueue_Less txQueue_Swap (n + 1) s = Some s'" "txh.taken s n s 0 s'" by blast
  from pop_taken [OF s'(2) l] s'(1) show "\<exists>r. heap_Pop s = Some (txq s ! 0, r) \<and> dequeued s 0 r"
    unfolding n by (auto simp: heap_Pop_def)
  show "tx_key s (txq s ! 0) \<le> tx_key s b" if "b \<in> set (txq s)" for b
    using heap_root [OF h] that n by (auto simp: in_set_conv_nth)
qed

section \<open>The store and its table\<close>

definition store_ok :: "tx_store \<Rightarrow> bool" where
  "store_ok s \<longleftrightarrow> queue_ok s \<and> distinct (map fst (txItems s)) \<and>
     (\<forall>h a. map_of (txItems s) h = Some a \<longrightarrow>
        a < next_item s \<and> tx_hash (it_tx (items s a)) = h \<and> (inQueue (items s a) \<longleftrightarrow> a \<in> set (txq s))) \<and>
     (\<forall>a \<in> set (txq s). \<exists>h. map_of (txItems s) h = Some a)"

text \<open>What the store knows of a hash: the transaction, when it came, and whether it is queued.\<close>

type_synonym tx_table = "bytes \<Rightarrow> (transaction \<times> int \<times> bool) option"

definition table :: "tx_store \<Rightarrow> tx_table" where
  "table s h = map_option (\<lambda>a. (it_tx (items s a), receivedTime (items s a), inQueue (items s a))) (map_of (txItems s) h)"

lemma table_queue:
  "store_ok s \<Longrightarrow> table s h = map_option (\<lambda>a. (it_tx (items s a), receivedTime (items s a), a \<in> set (txq s))) (map_of (txItems s) h)"
  by (cases "map_of (txItems s) h") (auto simp: table_def store_ok_def)

lemma store_ok_table:
  assumes "store_ok s" "map_of (txItems s) h = Some a"
  shows "a < next_item s" "tx_hash (it_tx (items s a)) = h" "inQueue (items s a) \<longleftrightarrow> a \<in> set (txq s)"
  using assms by (auto simp: store_ok_def)

lemma table_inj: "store_ok s \<Longrightarrow> map_of (txItems s) h = Some a \<Longrightarrow> map_of (txItems s) h' = Some a \<Longrightarrow> h' = h"
  using store_ok_table(2) by metis

lemma placed_inQueue: "placed s \<Longrightarrow> a \<in> set (txq s) \<Longrightarrow> inQueue (items s a)"
  by (auto simp: placed_def inQueue_def in_set_conv_nth)

text \<open>A change of the queue alone.\<close>

lemma requeue:
  assumes ok: "store_ok s" and q: "queue_ok r" and it: "same_items s r"
    and tab: "\<And>a. a \<in> set (txq r) \<Longrightarrow> \<exists>h. map_of (txItems s) h = Some a"
    and rest: "\<And>a. a \<notin> set (txq s) \<Longrightarrow> a \<notin> set (txq r) \<Longrightarrow> items r a = items s a"
    and out: "\<And>a. a \<in> set (txq s) \<Longrightarrow> a \<notin> set (txq r) \<Longrightarrow> it_index (items r a) = - 1"
  shows "store_ok r"
    and "table r h = map_option (\<lambda>a. (it_tx (items s a), receivedTime (items s a), a \<in> set (txq r))) (map_of (txItems s) h)"
proof -
  have inq: "inQueue (items r a) \<longleftrightarrow> a \<in> set (txq r)" if "map_of (txItems s) h = Some a" for h a
  proof (cases "a \<in> set (txq r)")
    case False
    then show ?thesis
      using out [of a] rest [of a] store_ok_table(3) [OF ok that] by (cases "a \<in> set (txq s)") (auto simp: inQueue_def)
  qed (use q placed_inQueue in \<open>auto simp: queue_ok_def\<close>)
  then show "store_ok r"
    using ok q it tab by (auto simp: store_ok_def same_items_def)
  then show "table r h = map_option (\<lambda>a. (it_tx (items s a), receivedTime (items s a), a \<in> set (txq r))) (map_of (txItems s) h)"
    using it by (simp add: table_queue same_items_def)
qed

section \<open>The specification\<close>

definition spec_add :: "int \<Rightarrow> transaction \<Rightarrow> tx_table \<Rightarrow> tx_table" where
  "spec_add now tx m = (if m (tx_hash tx) = None then m(tx_hash tx \<mapsto> (tx, now, True)) else m)"

definition spec_queue :: "bool \<Rightarrow> bytes set \<Rightarrow> tx_table \<Rightarrow> tx_table" where
  "spec_queue b H m h = map_option (\<lambda>(tx, t, q). (tx, t, if h \<in> H then b else q)) (m h)"

definition spec_remove :: "bytes set \<Rightarrow> tx_table \<Rightarrow> tx_table" where
  "spec_remove H m h = (if h \<in> H then None else m h)"

definition queued :: "tx_table \<Rightarrow> bytes set" where
  "queued m = {h. \<exists>tx t. m h = Some (tx, t, True)}"

definition received :: "tx_table \<Rightarrow> bytes \<Rightarrow> int" where
  "received m h = fst (snd (the (m h)))"

text \<open>Popping takes as many queued hashes as there are and as are wanted, the earliest received first.\<close>

definition spec_pop :: "int \<Rightarrow> bytes list \<Rightarrow> tx_table \<Rightarrow> tx_table \<Rightarrow> bool" where
  "spec_pop maxTxs hs m m' \<longleftrightarrow>
     distinct hs \<and> set hs \<subseteq> queued m \<and> int (length hs) = min (int (card (queued m))) maxTxs \<and>
     sorted (map (received m) hs) \<and> (\<forall>h \<in> set hs. \<forall>h' \<in> queued m - set hs. received m h \<le> received m h') \<and>
     m' = spec_queue False (set hs) m"

lemma spec_queue_simps:
  "spec_queue b {} m = m" "spec_queue b H (spec_queue b H' m) = spec_queue b (H \<union> H') m"
proof -
  show "spec_queue b {} m = m"
  proof
    show "spec_queue b {} m h = m h" for h by (cases "m h") (auto simp: spec_queue_def)
  qed
  show "spec_queue b H (spec_queue b H' m) = spec_queue b (H \<union> H') m"
  proof
    show "spec_queue b H (spec_queue b H' m) h = spec_queue b (H \<union> H') m h" for h
      by (cases "m h") (auto simp: spec_queue_def split: if_splits)
  qed
qed

lemma spec_queue_same:
  assumes "m h = None \<or> (\<exists>tx t. m h = Some (tx, t, b))"
  shows "spec_queue b {h} m = m"
proof
  show "spec_queue b {h} m h' = m h'" for h' using assms by (cases "m h'") (auto simp: spec_queue_def split: if_splits)
qed

lemma spec_remove_simps:
  "spec_remove {} m = m" "spec_remove H (spec_remove H' m) = spec_remove (H \<union> H') m"
  by (auto simp: spec_remove_def fun_eq_iff)

section \<open>Refinement\<close>

lemma table_put:
  assumes ok: "store_ok s"
  shows "store_ok (put_one h s)" "table (put_one h s) = spec_queue True {h} (table s)"
proof -
  have "store_ok (put_one h s) \<and> table (put_one h s) = spec_queue True {h} (table s)"
  proof (cases "map_of (txItems s) h")
    case None
    then have "table s h = None" by (simp add: table_def)
    then have "spec_queue True {h} (table s) = table s" by (simp add: spec_queue_same)
    with None ok show ?thesis by (simp add: put_one_def)
  next
    case (Some a)
    note inq = store_ok_table(3) [OF ok Some]
    have eq: "spec_queue True {h} (table s) h' =
        map_option (\<lambda>b. (it_tx (items s b), receivedTime (items s b), b \<in> insert a (set (txq s)))) (map_of (txItems s) h')" for h'
      using table_inj [OF ok Some, of h'] Some
      by (cases "map_of (txItems s) h'") (auto simp: spec_queue_def table_queue [OF ok])
    show ?thesis
    proof (cases "inQueue (items s a)")
      case True
      then have "put_one h s = s" "insert a (set (txq s)) = set (txq s)" using Some inq by (auto simp: put_one_def)
      with eq show ?thesis using ok table_queue [OF ok] by (simp add: fun_eq_iff)
    next
      case False
      define r where "r = heap_Push a s"
      have r: "put_one h s = r" using Some False by (simp add: put_one_def r_def)
      have a: "a \<notin> set (txq s)" using False inq by simp
      have "queue_ok s" using ok by (simp add: store_ok_def)
      note p = heap_Push_ok [OF this a r_def]
      have tab: "\<exists>h. map_of (txItems s) h = Some b" if "b \<in> set (txq r)" for b
        using that ok Some by (auto simp: p(3) store_ok_def)
      note rq = requeue [OF ok p(1,2) tab]
      have "store_ok r" by (rule rq(1)) (use p(3,4) in auto)
      moreover have "table r h' = spec_queue True {h} (table s) h'" for h'
        unfolding eq p(3) [symmetric] by (rule rq(2)) (use p(3,4) in auto)
      ultimately show ?thesis unfolding r by blast
    qed
  qed
  then show "store_ok (put_one h s)" "table (put_one h s) = spec_queue True {h} (table s)" by blast+
qed

text \<open>Taking the element at a position out of the queue.\<close>

lemma table_dequeued:
  assumes ok: "store_ok s" and d: "dequeued s i r" and h: "map_of (txItems s) h = Some (txq s ! i)"
    and i: "i < length (txq s)"
  shows "store_ok r" "table r = spec_queue False {h} (table s)" "set (txq r) = set (txq s) - {txq s ! i}"
proof -
  have q: "queue_ok r" and it: "same_items s r" and ms: "mset (txq s) = add_mset (txq s ! i) (mset (txq r))"
    and ix: "it_index (items r (txq s ! i)) = - 1" and rest: "\<And>b. b \<notin> set (txq s) \<Longrightarrow> items r b = items s b"
    using d by (simp_all add: dequeued_def)
  have "distinct (txq s)" using ok by (simp add: store_ok_def queue_ok_def placed_def)
  moreover have "distinct (txq s) \<longleftrightarrow> distinct (txq s ! i # txq r)" using ms by (intro mset_eq_imp_distinct_iff) simp
  moreover have "set (txq s) = insert (txq s ! i) (set (txq r))" using ms by (metis set_mset_add_mset_insert set_mset_mset)
  ultimately show Q: "set (txq r) = set (txq s) - {txq s ! i}" by auto
  have tab: "\<exists>h. map_of (txItems s) h = Some b" if "b \<in> set (txq r)" for b
    using that ok by (auto simp: Q store_ok_def)
  note rq = requeue [OF ok q it tab]
  show "store_ok r" by (rule rq) (use Q ix rest in auto)
  have "table r h' = spec_queue False {h} (table s) h'" for h'
  proof -
    have "table r h' = map_option (\<lambda>b. (it_tx (items s b), receivedTime (items s b), b \<in> set (txq s) - {txq s ! i})) (map_of (txItems s) h')"
      unfolding Q [symmetric] by (rule rq(2)) (use Q ix rest in auto)
    also have "\<dots> = spec_queue False {h} (table s) h'"
      using table_inj [OF ok h, of h'] h by (cases "map_of (txItems s) h'") (auto simp: spec_queue_def table_queue [OF ok])
    finally show ?thesis .
  qed
  then show "table r = spec_queue False {h} (table s)" by blast
qed

lemma table_pending:
  assumes ok: "store_ok s"
  shows "\<exists>r. pending_one h s = Some r \<and> store_ok r \<and> table r = spec_queue False {h} (table s) \<and>
    txItems r = txItems s \<and> (\<forall>a. map_of (txItems s) h = Some a \<longrightarrow> a \<notin> set (txq r))"
proof (cases "map_of (txItems s) h")
  case None
  then have "table s h = None" by (simp add: table_def)
  then have "spec_queue False {h} (table s) = table s" by (simp add: spec_queue_same)
  with None ok show ?thesis by (simp add: pending_one_def)
next
  case (Some a)
  note inq = store_ok_table(3) [OF ok Some]
  show ?thesis
  proof (cases "inQueue (items s a)")
    case True
    then obtain i where i: "i < length (txq s)" "txq s ! i = a" using inq by (auto simp: in_set_conv_nth)
    have q: "queue_ok s" using ok by (simp add: store_ok_def)
    then have ix: "it_index (items s a) = int i" using i by (auto simp: queue_ok_def placed_def)
    from heap_Remove_ok [OF q i(1)] obtain r where r: "heap_Remove (int i) s = Some (a, r)" "dequeued s i r"
      using i(2) by auto
    have "map_of (txItems s) h = Some (txq s ! i)" using Some i by simp
    note d = table_dequeued [OF ok r(2) this i(1)]
    moreover have "pending_one h s = Some r" using Some True r(1) ix by (simp add: pending_one_def)
    moreover have "txItems r = txItems s" using r(2) by (simp add: dequeued_def same_items_def)
    ultimately show ?thesis using Some i(2) by auto
  next
    case False
    then have "spec_queue False {h} (table s) = table s"
      using Some by (intro spec_queue_same) (simp add: table_def)
    with False Some ok inq show ?thesis by (simp add: pending_one_def)
  qed
qed

lemma remove_pending:
  "map_of (txItems s) h = Some a \<Longrightarrow>
     remove_one h s = map_option (\<lambda>s. s\<lparr>txItems := AList.delete h (txItems s)\<rparr>) (pending_one h s)"
  by (simp add: remove_one_def pending_one_def)

lemma table_remove:
  assumes ok: "store_ok s"
  shows "\<exists>r. remove_one h s = Some r \<and> store_ok r \<and> table r = spec_remove {h} (table s)"
proof (cases "map_of (txItems s) h")
  case None
  then have "table s = spec_remove {h} (table s)" by (simp add: spec_remove_def fun_eq_iff table_def)
  with None ok show ?thesis by (simp add: remove_one_def)
next
  case (Some a)
  from table_pending [OF ok, of h] obtain r where r: "pending_one h s = Some r" "store_ok r"
    "table r = spec_queue False {h} (table s)" "txItems r = txItems s" "a \<notin> set (txq r)" using Some by blast
  let ?r = "r\<lparr>txItems := AList.delete h (txItems r)\<rparr>"
  have "store_ok ?r"
    unfolding store_ok_def
  proof (intro conjI allI impI ballI)
    show "queue_ok ?r" using r(2) by (simp add: store_ok_def queue_ok_def placed_def tx_key_def)
    show "distinct (map fst (txItems ?r))" using r(2) by (simp add: store_ok_def distinct_delete)
    fix b assume b: "b \<in> set (txq ?r)"
    then obtain h' where h': "map_of (txItems r) h' = Some b" using r(2) by (auto simp: store_ok_def)
    moreover have "h' \<noteq> h" using r(5) h' b Some r(4) by auto
    ultimately show "\<exists>h. map_of (txItems ?r) h = Some b" by (auto simp: delete_conv')
  qed (use r(2) in \<open>auto simp: store_ok_def delete_conv' split: if_splits\<close>)
  moreover have "table ?r = spec_remove {h} (table r)"
    by (auto simp: table_def spec_remove_def fun_eq_iff delete_conv')
  moreover have "\<dots> = spec_remove {h} (table s)" unfolding r(3)
    by (auto simp: spec_remove_def spec_queue_def fun_eq_iff option.map_ident_strong)
  ultimately show ?thesis using remove_pending [OF Some] r(1) by simp
qed

text \<open>What the store is after an addition, at the level of items.\<close>

lemma add_items:
  assumes ok: "store_ok s" and None: "map_of (txItems s) (tx_hash tx) = None"
    and a: "a = next_item s" and r: "r = store_addNewTx now tx s"
  shows "queue_ok r" "set (txq r) = insert a (set (txq s))" "map_of (txItems r) = (map_of (txItems s))(tx_hash tx \<mapsto> a)"
    "distinct (map fst (txItems r))" "next_item r = a + 1" "it_tx (items r a) = tx" "receivedTime (items r a) = now"
    "\<And>b. b \<noteq> a \<Longrightarrow> it_tx (items r b) = it_tx (items s b) \<and> receivedTime (items r b) = receivedTime (items s b)"
    "\<And>b. b \<noteq> a \<Longrightarrow> b \<notin> set (txq s) \<Longrightarrow> items r b = items s b"
proof -
  define s1 where "s1 = s\<lparr>items := (items s)(a := newTxItem now tx), next_item := a + 1\<rparr>"
  define s2 where "s2 = heap_Push a s1"
  have r: "r = s2\<lparr>txItems := AList.update (tx_hash tx) a (txItems s2)\<rparr>"
    using r None by (simp add: store_addNewTx_def s2_def s1_def a Let_def)
  have "a \<notin> set (txq s)"
  proof
    assume "a \<in> set (txq s)"
    then obtain h where "map_of (txItems s) h = Some a" using ok unfolding store_ok_def by blast
    from store_ok_table(1) [OF ok this] show False by (simp add: a)
  qed
  then have a1: "a \<notin> set (txq s1)" by (simp add: s1_def)
  have s1: "items s1 b = items s b" if "b \<noteq> a" for b using that by (simp add: s1_def)
  have same1: "txq s1 = txq s" "txItems s1 = txItems s" by (simp_all add: s1_def)
  have nq: "txq s ! k \<noteq> a" if "k < length (txq s)" for k using a1 that by (metis nth_mem same1(1))
  have "queue_ok s1"
    unfolding queue_ok_def same1
  proof (intro conjI heap_on_cong [where g = "\<lambda>k. tx_key s1 (txq s ! k)"])
    show "placed s1" using ok nq by (simp add: placed_def same1 s1 store_ok_def queue_ok_def)
    show "heap_on (length (txq s)) (\<lambda>k. tx_key s (txq s ! k))" using ok by (simp add: store_ok_def queue_ok_def)
  qed (simp add: tx_key_def s1 nq)
  note p = heap_Push_ok [OF this a1 s2_def]
  have items2: "it_tx (items s2 b) = it_tx (items s1 b)" "receivedTime (items s2 b) = receivedTime (items s1 b)"
    "txItems s2 = txItems s" "next_item s2 = a + 1" for b using p(2) by (simp_all add: same_items_def s1_def)
  show "queue_ok r" using p(1) by (simp add: r queue_ok_def placed_def tx_key_def)
  show "set (txq r) = insert a (set (txq s))" using p(3) by (simp add: r same1)
  show "map_of (txItems r) = (map_of (txItems s))(tx_hash tx \<mapsto> a)" by (simp add: r items2 update_conv' fun_eq_iff)
  show "distinct (map fst (txItems r))" using ok by (simp add: r items2 store_ok_def distinct_update)
  show "next_item r = a + 1" "it_tx (items r a) = tx" "receivedTime (items r a) = now"
    by (simp_all add: r items2) (simp_all add: s1_def newTxItem_def)
  show "it_tx (items r b) = it_tx (items s b) \<and> receivedTime (items r b) = receivedTime (items s b)" if "b \<noteq> a" for b
    by (simp add: r items2 s1 [OF that])
  show "items r b = items s b" if "b \<noteq> a" "b \<notin> set (txq s)" for b
    using p(4) [of b] that s1 by (simp add: r same1)
qed

lemma table_add:
  assumes ok: "store_ok s" and r: "r = store_addNewTx now tx s"
  shows "store_ok r \<and> table r = spec_add now tx (table s)"
proof (cases "map_of (txItems s) (tx_hash tx)")
  case (Some a)
  then show ?thesis using ok r by (simp add: store_addNewTx_def spec_add_def table_def)
next
  case None
  define a where "a = next_item s"
  note f = add_items [OF ok None a_def r]
  have below: "b < a" if "map_of (txItems s) h = Some b" for h b using store_ok_table(1) [OF ok that] by (simp add: a_def)
  have inq: "inQueue (items r b) \<longleftrightarrow> b \<in> set (txq r)" if b: "map_of (txItems r) h = Some b" for h b
  proof (cases "b \<in> set (txq r)")
    case False
    with b have "b \<noteq> a" "b \<notin> set (txq s)" "map_of (txItems s) h = Some b" by (auto simp: f(2,3) split: if_splits)
    with False store_ok_table(3) [OF ok] f(9) show ?thesis by simp
  qed (use f(1) placed_inQueue in \<open>auto simp: queue_ok_def\<close>)
  have new: "store_ok r"
    unfolding store_ok_def
  proof (intro conjI allI impI ballI f(1,4))
    show "\<exists>h. map_of (txItems r) h = Some b" if b: "b \<in> set (txq r)" for b
    proof (cases "b = a")
      case False
      then obtain h where "map_of (txItems s) h = Some b" using b ok unfolding f(2) store_ok_def by blast
      then have "map_of (txItems r) h = Some b" using None by (auto simp: f(3))
      then show ?thesis ..
    qed (rule exI [of _ "tx_hash tx"], simp add: f(3))
    fix h b assume b: "map_of (txItems r) h = Some b"
    then show "inQueue (items r b) \<longleftrightarrow> b \<in> set (txq r)" by (rule inq)
    show "b < next_item r" using b below [of h b] by (auto simp: f split: if_splits)
    show "tx_hash (it_tx (items r b)) = h"
      using b below [of h b] store_ok_table(2) [OF ok, of h b] f(8) [of b] f(6) by (cases "h = tx_hash tx") (auto simp: f(3))
  qed
  have "table r h = spec_add now tx (table s) h" for h
  proof (cases "h = tx_hash tx \<or> map_of (txItems s) h = None")
    case True
    with None inq [of "tx_hash tx" a] show ?thesis by (auto simp: spec_add_def table_def f)
  next
    case False
    then obtain b where b: "map_of (txItems s) h = Some b" "h \<noteq> tx_hash tx" by blast
    with below [of h b] f(8) [of b] None show ?thesis
      by (auto simp: table_queue [OF new] table_queue [OF ok] spec_add_def f(2,3))
  qed
  with new show ?thesis by blast
qed

end
