(* ===== verification/Tx_Pool_Props.thy ===== *)
theory Tx_Pool_Props
  imports Tx_Pool_Correct Core_Props
begin

text \<open>
  The transaction pool against its specification, for any sequence of operations, and the runs of
  \<^verbatim>\<open>addTxList\<close>: it completes on valid lists, and one invalid transaction can end the process.
\<close>

section \<open>Loops of the store\<close>

lemma put_list: "store_ok s \<Longrightarrow> store_ok (putTxsToQueue hs s) \<and> table (putTxsToQueue hs s) = spec_queue True (set hs) (table s)"
  unfolding putTxsToQueue_def
proof (induction hs arbitrary: s)
  case (Cons h hs)
  from Cons.IH [OF table_put(1) [OF Cons.prems]] show ?case
    by (simp add: table_put(2) [OF Cons.prems] spec_queue_simps insert_is_Un [symmetric] Un_commute)
qed (simp add: spec_queue_simps)

lemma each_refines:
  assumes step: "\<And>x s. ok s \<Longrightarrow> \<exists>r. f x s = Some r \<and> ok r \<and> T r = g {x} (T s)"
    and nil: "\<And>m. g {} m = m" and comp: "\<And>H H' m. g H (g H' m) = g (H \<union> H') m"
  shows "ok s \<Longrightarrow> \<exists>r. each f xs s = Some r \<and> ok r \<and> T r = g (set xs) (T s)"
proof (induction xs arbitrary: s)
  case (Cons x xs)
  from step [OF Cons.prems, of x] obtain r where r: "f x s = Some r" "ok r" "T r = g {x} (T s)" by blast
  from Cons.IH [OF r(2)] show ?case using r(1,3) by (simp add: comp insert_is_Un [symmetric] Un_commute)
qed (simp add: nil)

lemma pending_list: "store_ok s \<Longrightarrow> \<exists>r. setTxsPending hs s = Some r \<and> store_ok r \<and> table r = spec_queue False (set hs) (table s)"
  unfolding setTxsPending_def by (rule each_refines) (use table_pending in \<open>blast, simp_all add: spec_queue_simps\<close>)

lemma remove_list: "store_ok s \<Longrightarrow> \<exists>r. removeTxs hs s = Some r \<and> store_ok r \<and> table r = spec_remove (set hs) (table s)"
  unfolding removeTxs_def by (rule each_refines) (use table_remove in \<open>blast, simp_all add: spec_remove_simps\<close>)

section \<open>Popping\<close>

lemma received_queue [simp]: "received (spec_queue b H m) h = received m h"
  by (cases "m h") (auto simp: received_def spec_queue_def)

lemma queued_pop: "queued (spec_queue False H m) = queued m - H"
  by (auto simp: queued_def spec_queue_def split: if_splits)

lemma spec_pop_step:
  assumes h: "h \<in> queued m" and least: "\<And>h'. h' \<in> queued m \<Longrightarrow> received m h \<le> received m h'" and fin: "finite (queued m)"
    and pop: "spec_pop n hs (spec_queue False {h} m) m'" and n: "0 \<le> n" "n < int (card (queued m))"
  shows "spec_pop (n + 1) (h # hs) m m'"
proof -
  have "0 < card (queued m)" using h fin by (auto simp: card_gt_0_iff)
  then have "int (card (queued m - {h})) = int (card (queued m)) - 1" using h fin by simp
  with pop n have len: "int (length hs) = n" by (simp add: spec_pop_def queued_pop)
  from pop have hs: "distinct hs" "set hs \<subseteq> queued m - {h}" "sorted (map (received m) hs)"
    "\<And>x y. x \<in> set hs \<Longrightarrow> y \<in> queued m - {h} - set hs \<Longrightarrow> received m x \<le> received m y"
    "m' = spec_queue False ({h} \<union> set hs) m"
    unfolding spec_pop_def queued_pop received_queue spec_queue_simps by (auto simp: Un_commute cong: map_cong)
  have "received m x \<le> received m y" if "x \<in> set (h # hs)" "y \<in> queued m - set (h # hs)" for x y
    using that least [of y] hs(4) [of x y] by auto
  moreover have "sorted (map (received m) (h # hs))" using hs(2,3) least by auto
  ultimately show ?thesis using hs(1,2,5) h len n by (auto simp: spec_pop_def)
qed

lemma queued_table:
  assumes ok: "store_ok s"
  shows "queued (table s) = (\<lambda>a. tx_hash (it_tx (items s a))) ` set (txq s)" "card (queued (table s)) = length (txq s)"
    "finite (queued (table s))"
    "a \<in> set (txq s) \<Longrightarrow> map_of (txItems s) (tx_hash (it_tx (items s a))) = Some a"
    "a \<in> set (txq s) \<Longrightarrow> received (table s) (tx_hash (it_tx (items s a))) = tx_key s a"
proof -
  show tab: "map_of (txItems s) (tx_hash (it_tx (items s a))) = Some a" if "a \<in> set (txq s)" for a
    using that ok by (auto simp: store_ok_def)
  then show "received (table s) (tx_hash (it_tx (items s a))) = tx_key s a" if "a \<in> set (txq s)"
    using that by (simp add: received_def table_def tx_key_def)
  show eq: "queued (table s) = (\<lambda>a. tx_hash (it_tx (items s a))) ` set (txq s)"
    using tab store_ok_table(2) [OF ok] by (fastforce simp: queued_def table_queue [OF ok] image_iff)
  have "inj_on (\<lambda>a. tx_hash (it_tx (items s a))) (set (txq s))"
    by (rule inj_onI) (metis option.inject tab)
  then show "card (queued (table s)) = length (txq s)"
    using ok by (simp add: eq card_image distinct_card store_ok_def queue_ok_def placed_def)
  show "finite (queued (table s))" by (simp add: eq)
qed

lemma pop_loop_refines:
  assumes "store_ok s" and "n \<le> length (txq s)"
  shows "\<exists>hs r. pop_loop n s = Some (hs, r) \<and> store_ok r \<and> spec_pop (int n) hs (table s) (table r)"
  using assms
proof (induction n arbitrary: s)
  case 0
  then show ?case by (simp add: spec_pop_def spec_queue_simps)
next
  case (Suc n)
  note ok = Suc.prems(1)
  note qt = queued_table [OF ok]
  have ne: "txq s \<noteq> []" "0 < length (txq s)" using Suc.prems(2) by auto
  have q: "queue_ok s" using ok by (simp add: store_ok_def)
  define a where "a = txq s ! 0"
  define h where "h = tx_hash (it_tx (items s a))"
  have a: "a \<in> set (txq s)" using ne by (simp add: a_def)
  from heap_Pop_ok(1) [OF q ne(1)] obtain r where r: "heap_Pop s = Some (a, r)" "dequeued s 0 r" by (auto simp: a_def)
  have "map_of (txItems s) h = Some (txq s ! 0)" using qt(4) [OF a] by (simp add: h_def a_def)
  note d = table_dequeued [OF ok r(2) this ne(2)]
  have "size (mset (txq s)) = Suc (size (mset (txq r)))" using r(2) by (simp add: dequeued_def)
  then have "n \<le> length (txq r)" using Suc.prems(2) by simp
  from Suc.IH [OF d(1) this] obtain hs r' where
    IH: "pop_loop n r = Some (hs, r')" "store_ok r'" "spec_pop (int n) hs (spec_queue False {h} (table s)) (table r')"
    unfolding d(2) by blast
  have "spec_pop (int n + 1) (h # hs) (table s) (table r')"
  proof (rule spec_pop_step [OF _ _ qt(3) IH(3)])
    show "h \<in> queued (table s)" using a by (simp add: qt(1) h_def)
    show "received (table s) h \<le> received (table s) h'" if "h' \<in> queued (table s)" for h'
      using that heap_Pop_ok(2) [OF q ne(1)] a by (auto simp: qt(1,5) h_def a_def)
  qed (use Suc.prems(2) in \<open>simp_all add: qt(2)\<close>)
  moreover have "tx_hash (it_tx (items r a)) = h" using r(2) by (simp add: dequeued_def same_items_def h_def)
  ultimately show ?case using r(1) IH(1,2) by (simp add: add.commute)
qed

lemma pop_refines:
  assumes ok: "store_ok s" and m: "0 \<le> m"
  shows "\<exists>hs r. popTxsFromQueue m s = Some (hs, r) \<and> store_ok r \<and> spec_pop m hs (table s) (table r)"
proof -
  let ?n = "min (int (length (txq s))) m"
  have "\<exists>hs r. pop_loop (nat ?n) s = Some (hs, r) \<and> store_ok r \<and> spec_pop (int (nat ?n)) hs (table s) (table r)"
    by (rule pop_loop_refines [OF ok]) simp
  moreover have "popTxsFromQueue m s = pop_loop (nat ?n) s" using m by (auto simp: popTxsFromQueue_def Let_def)
  moreover have "spec_pop (int (nat ?n)) hs t t' \<Longrightarrow> spec_pop m hs t t'" if "t = table s" for hs t t'
    using m queued_table(2) [OF ok] that by (simp add: spec_pop_def min_def split: if_splits)
  ultimately show ?thesis by metis
qed

section \<open>Sequences of operations\<close>

datatype store_op = OpAdd int transaction | OpPop int | OpPut "bytes list" | OpPending "bytes list" | OpRemove "bytes list"

fun run_op :: "store_op \<Rightarrow> tx_store \<Rightarrow> (bytes list \<times> tx_store) option" where
  "run_op (OpAdd now tx) s = Some ([], store_addNewTx now tx s)"
| "run_op (OpPop m) s = popTxsFromQueue m s"
| "run_op (OpPut hs) s = Some ([], putTxsToQueue hs s)"
| "run_op (OpPending hs) s = map_option (Pair []) (setTxsPending hs s)"
| "run_op (OpRemove hs) s = map_option (Pair []) (removeTxs hs s)"

fun op_spec :: "store_op \<Rightarrow> bytes list \<Rightarrow> tx_table \<Rightarrow> tx_table \<Rightarrow> bool" where
  "op_spec (OpAdd now tx) out m m' \<longleftrightarrow> m' = spec_add now tx m"
| "op_spec (OpPop n) out m m' \<longleftrightarrow> spec_pop n out m m'"
| "op_spec (OpPut hs) out m m' \<longleftrightarrow> m' = spec_queue True (set hs) m"
| "op_spec (OpPending hs) out m m' \<longleftrightarrow> m' = spec_queue False (set hs) m"
| "op_spec (OpRemove hs) out m m' \<longleftrightarrow> m' = spec_remove (set hs) m"

fun op_allowed :: "store_op \<Rightarrow> bool" where
  "op_allowed (OpPop n) \<longleftrightarrow> 0 \<le> n"
| "op_allowed _ \<longleftrightarrow> True"

fun run_ops :: "store_op list \<Rightarrow> tx_store \<Rightarrow> (bytes list list \<times> tx_store) option" where
  "run_ops [] s = Some ([], s)"
| "run_ops (p # ps) s = Option.bind (run_op p s) (\<lambda>(out, r). map_option (\<lambda>(outs, r'). (out # outs, r')) (run_ops ps r))"

fun ops_spec :: "store_op list \<Rightarrow> bytes list list \<Rightarrow> tx_table \<Rightarrow> tx_table \<Rightarrow> bool" where
  "ops_spec [] outs m m' \<longleftrightarrow> outs = [] \<and> m' = m"
| "ops_spec (p # ps) outs m m' \<longleftrightarrow> (\<exists>out outs' m1. outs = out # outs' \<and> op_spec p out m m1 \<and> ops_spec ps outs' m1 m')"

lemma op_refines:
  assumes ok: "store_ok s" and "op_allowed p"
  shows "\<exists>out r. run_op p s = Some (out, r) \<and> store_ok r \<and> op_spec p out (table s) (table r)"
proof (cases p)
  case (OpAdd now tx)
  then show ?thesis using table_add [OF ok refl] by simp
next
  case (OpPop n)
  then show ?thesis using pop_refines [OF ok] assms(2) by simp
next
  case (OpPut hs)
  then show ?thesis using put_list [OF ok] by simp
next
  case (OpPending hs)
  then show ?thesis using pending_list [OF ok, of hs] by auto
next
  case (OpRemove hs)
  then show ?thesis using remove_list [OF ok, of hs] by auto
qed

lemma ops_refine:
  "store_ok s \<Longrightarrow> \<forall>p \<in> set ps. op_allowed p \<Longrightarrow>
     \<exists>outs r. run_ops ps s = Some (outs, r) \<and> store_ok r \<and> ops_spec ps outs (table s) (table r)"
proof (induction ps arbitrary: s)
  case (Cons p ps)
  have "op_allowed p" using Cons.prems(2) by simp
  from op_refines [OF Cons.prems(1) this]
  obtain out r where r: "run_op p s = Some (out, r)" "store_ok r" "op_spec p out (table s) (table r)" by blast
  from Cons.IH [OF r(2)] Cons.prems(2)
  obtain outs r' where "run_ops ps r = Some (outs, r')" "store_ok r'" "ops_spec ps outs (table r) (table r')" by auto
  with r show ?case by auto
qed simp

lemma new_store_ok: "store_ok newTxStore" "table newTxStore = Map.empty"
  by (simp_all add: store_ok_def queue_ok_def placed_def heap_on_def newTxStore_def table_def fun_eq_iff)

lemma status_table:
  shows "store_getTxStatus s h =
    (case table s h of None \<Rightarrow> TxStatusNotFound | Some (_, _, q) \<Rightarrow> if q then TxStatusQueue else TxStatusPending)"
    and "store_getTx s h = map_option fst (table s h)"
  by (auto simp: store_getTxStatus_def store_getTx_def table_def option.map_comp comp_def split: option.splits)

lemma dom_table: "store_ok s \<Longrightarrow> card (dom (table s)) = length (txItems s)"
proof -
  assume ok: "store_ok s"
  have "dom (table s) = set (map fst (txItems s))"
    by (auto simp: table_def dom_def) (metis domI dom_map_of_conv_image_fst image_eqI fst_conv map_of_eq_None_iff option.exhaust)+
  then show ?thesis using ok by (simp only: store_ok_def distinct_card length_map)
qed

text \<open>
  C14. Any sequence of the store's operations, popping non-negative counts, runs without a panic from
  the empty store and follows the specification of its table: additions keep the first arrival of a
  hash, popping hands out the earliest received queued hashes in order and leaves them pending, and
  lookups and counts read the table.
\<close>
theorem pool_refines:
  assumes "\<forall>p \<in> set ps. op_allowed p"
  shows "\<exists>outs s. run_ops ps newTxStore = Some (outs, s) \<and> ops_spec ps outs Map.empty (table s) \<and>
    (\<forall>h. store_getTx s h = map_option fst (table s h)) \<and>
    (\<forall>h. store_getTxStatus s h =
       (case table s h of None \<Rightarrow> TxStatusNotFound | Some (_, _, q) \<Rightarrow> if q then TxStatusQueue else TxStatusPending)) \<and>
    stQueue (store_getStatus s) = int (card (queued (table s))) \<and> stTotal (store_getStatus s) = int (card (dom (table s)))"
proof -
  from ops_refine [OF new_store_ok(1) assms] obtain outs s where
    s: "run_ops ps newTxStore = Some (outs, s)" "store_ok s" "ops_spec ps outs Map.empty (table s)"
    unfolding new_store_ok(2) by blast
  then show ?thesis
    using queued_table(2) [OF s(2)] dom_table [OF s(2)] status_table by (auto simp: store_getStatus_def Let_def)
qed

definition ex_pool_tx :: "u64 \<Rightarrow> transaction" where
  "ex_pool_tx n = Tx_Sign ex_crypto ex_priv (NewTransaction\<lparr>tx_data := (tx_data NewTransaction)\<lparr>txNonce := n\<rparr>\<rparr>)"

definition ex_ops :: "store_op list" where
  "ex_ops = [OpAdd 9 (ex_pool_tx 1), OpAdd 4 (ex_pool_tx 2), OpAdd 7 (ex_pool_tx 1), OpPop 1, OpPut [tx_hash (ex_pool_tx 2)]]"

lemma pool_refines_witness:
  "list_all op_allowed ex_ops \<and> (\<exists>outs s. run_ops ex_ops newTxStore = Some (outs, s) \<and>
     ops_spec ex_ops outs Map.empty (table s) \<and> stQueue (store_getStatus s) = int (card (queued (table s))))"
proof -
  have "\<forall>p \<in> set ex_ops. op_allowed p" by (simp add: ex_ops_def)
  with pool_refines [of ex_ops] show ?thesis unfolding list_all_iff by blast
qed

section \<open>addTxList\<close>

definition tx_error :: "pool_env \<Rightarrow> transaction \<Rightarrow> pool_error option" where
  "tx_error env tx = fst (pool_addNewTx env 0 tx newTxStore)"

lemma addNewTx_error: "fst (pool_addNewTx env now tx s) = tx_error env tx"
  by (simp add: tx_error_def pool_addNewTx_def split: option.split)

definition known :: "pool_env \<Rightarrow> tx_store \<Rightarrow> transaction \<Rightarrow> bool" where
  "known env s tx \<longleftrightarrow> pe_HasTx env (tx_hash tx) \<or> store_getTx s (tx_hash tx) \<noteq> None"

lemma known_table: "known env s tx \<longleftrightarrow> pe_HasTx env (tx_hash tx) \<or> table s (tx_hash tx) \<noteq> None"
  by (simp add: known_def status_table)

lemma addNewTx_known:
  assumes ok: "store_ok s" and r: "pool_addNewTx env now tx s = (err, r)"
  shows "store_ok r" "known env s tx' \<Longrightarrow> known env r tx'" "err = None \<Longrightarrow> known env r tx"
proof -
  have r': "r = s \<or> r = store_addNewTx now tx s" "err = None \<Longrightarrow> pe_HasTx env (tx_hash tx) \<or> r = store_addNewTx now tx s"
    using r by (auto simp: pool_addNewTx_def split: option.splits if_splits)
  note a = table_add [OF ok refl, of now tx]
  show "store_ok r" using r' ok a by auto
  have "spec_add now tx m h = None \<Longrightarrow> m h = None" "spec_add now tx m (tx_hash tx) \<noteq> None" for m h
    by (auto simp: spec_add_def split: if_splits)
  then show "known env s tx' \<Longrightarrow> known env r tx'" "err = None \<Longrightarrow> known env r tx"
    using r' a by (metis known_table)+
qed

fun busy :: "worker \<Rightarrow> bool" where
  "busy (Took tx) \<longleftrightarrow> True"
| "busy (Answers e) \<longleftrightarrow> True"
| "busy _ \<longleftrightarrow> False"

fun holds_tx :: "worker \<Rightarrow> transaction set" where
  "holds_tx (Took tx) = {tx}"
| "holds_tx _ = {}"

definition held :: "worker list \<Rightarrow> transaction set" where
  "held ws = (\<Union>w \<in> set ws. holds_tx w)"

text \<open>Transactions not yet handed to the store.\<close>

definition waiting :: "list_run \<Rightarrow> transaction set" where
  "waiting r = set (lr_feed r) \<union> set (lr_jobs r) \<union> held (lr_workers r)"

text \<open>The invariant of a run over valid transactions.\<close>

definition good_run :: "pool_env \<Rightarrow> transaction list \<Rightarrow> list_run \<Rightarrow> bool" where
  "good_run env txs r \<longleftrightarrow> \<not> lr_panic r \<and> store_ok (lr_store r) \<and> length (lr_workers r) = 50 \<and>
     (\<forall>e. Answers e \<in> set (lr_workers r) \<longrightarrow> e = None) \<and> set (lr_out r) \<subseteq> {None} \<and> waiting r \<subseteq> set txs \<and>
     (\<forall>tx \<in> set txs. tx \<in> waiting r \<or> known env (lr_store r) tx) \<and>
     length (lr_feed r) + length (lr_jobs r) + length (filter busy (lr_workers r)) + length (lr_out r) = lr_left r \<and>
     (lr_result r = None \<and> Exited \<notin> set (lr_workers r) \<or> lr_result r = Some None \<and> lr_left r = 0)"

lemma good_start: "store_ok s \<Longrightarrow> good_run env txs (addTxList_start txs s)"
  by (simp add: good_run_def addTxList_start_def waiting_def held_def)

lemma workers_update:
  assumes "w < length ws"
  shows "length (filter busy (ws[w := x])) + (if busy (ws ! w) then 1 else 0) = length (filter busy ws) + (if busy x then 1 else 0)"
    and "held (ws[w := x]) \<union> holds_tx (ws ! w) = held ws \<union> holds_tx x"
    and "y \<in> set (ws[w := x]) \<Longrightarrow> y = x \<or> y \<in> set ws"
proof -
  have ws: "ws = take w ws @ ws ! w # drop (Suc w) ws" using assms by (rule id_take_nth_drop)
  have upd: "ws[w := x] = take w ws @ x # drop (Suc w) ws" using assms by (rule upd_conv_take_nth_drop)
  have "filter busy ws = filter busy (take w ws) @ (if busy (ws ! w) then [ws ! w] else []) @ filter busy (drop (Suc w) ws)"
    by (subst ws) (simp only: filter_append filter.simps append.simps split: if_splits, blast)
  then show "length (filter busy (ws[w := x])) + (if busy (ws ! w) then 1 else 0) = length (filter busy ws) + (if busy x then 1 else 0)"
    unfolding upd by simp
  have "held ws = held (take w ws) \<union> holds_tx (ws ! w) \<union> held (drop (Suc w) ws)"
    by (subst ws) (auto simp: held_def)
  then show "held (ws[w := x]) \<union> holds_tx (ws ! w) = held ws \<union> holds_tx x"
    unfolding upd by (auto simp: held_def)
  show "y \<in> set (ws[w := x]) \<Longrightarrow> y = x \<or> y \<in> set ws" by (meson insertE set_update_subset_insert subset_iff)
qed

text \<open>A worker's change of state, with the run around it.\<close>

lemma good_step:
  assumes good: "good_run env txs r" and valid: "\<forall>tx \<in> set txs. tx_error env tx = None"
    and step: "list_step env a r = Some r'"
  shows "good_run env txs r'"
proof (cases a)
  case Feed
  with step good show ?thesis
    by (auto simp: good_run_def waiting_def split: list.splits)
next
  case (Take w)
  with step obtain tx rest where w: "w < length (lr_workers r)" "lr_workers r ! w = Idle" "lr_jobs r = tx # rest"
    and r': "r' = r\<lparr>lr_jobs := rest, lr_workers := (lr_workers r)[w := Took tx]\<rparr>" by (auto split: if_splits list.splits)
  from good w workers_update [OF w(1), where x = "Took tx"] show ?thesis
    unfolding good_run_def waiting_def r' by auto
next
  case (Add w now)
  with step obtain tx err s where w: "w < length (lr_workers r)" "lr_workers r ! w = Took tx"
    and p: "pool_addNewTx env now tx (lr_store r) = (err, s)"
    and r': "r' = r\<lparr>lr_store := s, lr_workers := (lr_workers r)[w := Answers err]\<rparr>" by (auto split: if_splits worker.splits prod.splits)
  have ok: "store_ok (lr_store r)" using good by (simp add: good_run_def)
  have "tx \<in> held (lr_workers r)" 
    unfolding held_def by (rule UN_I [OF nth_mem [OF w(1)]]) (simp add: w(2))
  then have err: "err = None" using good valid addNewTx_error [of env now tx "lr_store r"] p by (auto simp: good_run_def waiting_def)
  note k = addNewTx_known [OF ok p] and u = workers_update [OF w(1), where x = "Answers err"]
  have "held (lr_workers r) \<subseteq> insert tx (held ((lr_workers r)[w := Answers err]))" using u(2) w(2) by auto
  then have "t \<in> set (lr_feed r) \<union> set (lr_jobs r) \<union> held ((lr_workers r)[w := Answers err]) \<or> known env s t" if "t \<in> set txs" for t
    using good that k(2,3) err unfolding good_run_def waiting_def by blast
  with k(1) err good w u show ?thesis
    unfolding good_run_def waiting_def r' by auto
next
  case (Send w)
  with step obtain err where w: "w < length (lr_workers r)" "lr_workers r ! w = Answers err"
    by (auto split: if_splits worker.splits)
  then have b: "Answers err \<in> set (lr_workers r)" "0 < length (filter busy (lr_workers r))"
    by (metis nth_mem, metis busy.simps(2) filter_empty_conv length_greater_0_conv nth_mem)
  then have open_: "lr_result r = None" "err = None" using good by (auto simp: good_run_def)
  then have r': "r' = r\<lparr>lr_out := lr_out r @ [err], lr_workers := (lr_workers r)[w := Idle]\<rparr>"
    using step Send w by simp
  from good w open_ workers_update [OF w(1), where x = Idle] show ?thesis
    unfolding good_run_def waiting_def r' by auto
next
  case Recv
  with step good show ?thesis
    by (auto simp: good_run_def waiting_def split: list.splits option.splits if_splits)
next
  case (Exit w)
  with step have w: "w < length (lr_workers r)" "lr_workers r ! w = Idle" "lr_result r \<noteq> None"
    and r': "r' = r\<lparr>lr_workers := (lr_workers r)[w := Exited]\<rparr>" by (auto split: if_splits)
  from good w workers_update [OF w(1), where x = Exited] show ?thesis
    unfolding good_run_def waiting_def r' by auto
qed

text \<open>What is left to do in a run.\<close>

fun work_left :: "worker \<Rightarrow> nat" where
  "work_left (Took tx) = 3"
| "work_left (Answers e) = 2"
| "work_left _ = 0"

definition effort :: "list_run \<Rightarrow> nat" where
  "effort r = 5 * length (lr_feed r) + 4 * length (lr_jobs r) + sum_list (map work_left (lr_workers r)) +
     length (lr_out r) + (if lr_result r = None then 1 else 0)"

lemma effort_worker:
  "w < length ws \<Longrightarrow> sum_list (map work_left (ws[w := x])) + work_left (ws ! w) = sum_list (map work_left ws) + work_left x"
proof -
  assume w: "w < length ws"
  then have "ws ! w \<in> set ws" by simp
  then have "work_left (ws ! w) \<le> sum_list (map work_left ws)" by (intro member_le_sum_list) simp_all
  with w show ?thesis by (simp add: map_update sum_list_update)
qed

lemma run_progress:
  assumes good: "good_run env txs r" and result: "lr_result r = None"
  shows "\<exists>a r'. list_step env a r = Some r' \<and> effort r' < effort r"
proof -
  have len: "length (lr_workers r) = 50" and ex: "Exited \<notin> set (lr_workers r)"
    and left: "length (lr_feed r) + length (lr_jobs r) + length (filter busy (lr_workers r)) + length (lr_out r) = lr_left r"
    using good result by (simp_all add: good_run_def)
  have fin: "list_step env a r = Some r' \<Longrightarrow> effort r' < effort r \<Longrightarrow> ?thesis" for a r' by blast
  consider (feed) tx rest where "lr_feed r = tx # rest"
    | (took) w tx where "w < length (lr_workers r)" "lr_workers r ! w = Took tx"
    | (answers) w e where "w < length (lr_workers r)" "lr_workers r ! w = Answers e"
    | (idle) "lr_feed r = []" "\<forall>x \<in> set (lr_workers r). x = Idle"
    using ex by (metis in_set_conv_nth list.exhaust worker.exhaust)
  then show ?thesis
  proof cases
    case feed
    then have "list_step env Feed r = Some (r\<lparr>lr_feed := rest, lr_jobs := lr_jobs r @ [tx]\<rparr>)" by simp
    then show ?thesis by (rule fin) (use feed in \<open>simp add: effort_def\<close>)
  next
    case took
    obtain e s where p: "pool_addNewTx env 0 tx (lr_store r) = (e, s)" by fastforce
    with took have "list_step env (Add w 0) r = Some (r\<lparr>lr_store := s, lr_workers := (lr_workers r)[w := Answers e]\<rparr>)" by simp
    then show ?thesis by (rule fin) (use took effort_worker [OF took(1), of "Answers e"] in \<open>simp add: effort_def\<close>)
  next
    case answers
    with result have "list_step env (Send w) r = Some (r\<lparr>lr_out := lr_out r @ [e], lr_workers := (lr_workers r)[w := Idle]\<rparr>)" by simp
    then show ?thesis by (rule fin) (use answers effort_worker [OF answers(1), of Idle] in \<open>simp add: effort_def\<close>)
  next
    case idle
    show ?thesis
    proof (cases "lr_jobs r")
      case Nil
      have "filter busy (lr_workers r) = []" using idle(2) by (auto simp: filter_empty_conv)
      with left idle(1) Nil have "length (lr_out r) = lr_left r" by simp
      moreover have "set (lr_out r) \<subseteq> {None}" using good by (simp add: good_run_def)
      ultimately obtain r' where "list_step env Recv r = Some r'" "effort r' < effort r"
        using idle(1) result by (cases "lr_out r") (auto simp: effort_def)
      then show ?thesis by blast
    next
      case (Cons tx rest)
      have w: "0 < length (lr_workers r)" "lr_workers r ! 0 = Idle" using len idle(2) by (simp, metis len nth_mem zero_less_numeral)
      then have "list_step env (Take 0) r = Some (r\<lparr>lr_jobs := rest, lr_workers := (lr_workers r)[0 := Took tx]\<rparr>)" using Cons by simp
      then show ?thesis by (rule fin) (use w Cons effort_worker [OF w(1), of "Took tx"] in \<open>simp add: effort_def\<close>)
    qed
  qed
qed

lemma good_turn: "good_run env txs r \<Longrightarrow> \<forall>tx \<in> set txs. tx_error env tx = None \<Longrightarrow> good_run env txs (list_turn env a r)"
  using good_step by (auto simp: list_turn_def list_run_step_def split: option.split)

lemma good_sched: "good_run env txs r \<Longrightarrow> \<forall>tx \<in> set txs. tx_error env tx = None \<Longrightarrow> good_run env txs (fold (list_turn env) sched r)"
  by (induction sched arbitrary: r) (simp_all add: good_turn)

lemma run_completes:
  assumes "good_run env txs r" and valid: "\<forall>tx \<in> set txs. tx_error env tx = None"
  shows "\<exists>more. lr_result (fold (list_turn env) more r) = Some None"
  using assms(1)
proof (induction "effort r" arbitrary: r rule: less_induct)
  case less
  show ?case
  proof (cases "lr_result r")
    case None
    from run_progress [OF less.prems None] obtain a r' where a: "list_step env a r = Some r'" "effort r' < effort r" by blast
    have t: "list_turn env a r = r'" using a(1) less.prems by (simp add: list_turn_def list_run_step_def good_run_def)
    from less.hyps [OF a(2) good_step [OF less.prems valid a(1)]] obtain more where
      "lr_result (fold (list_turn env) more r') = Some None" ..
    then have "lr_result (fold (list_turn env) (a # more) r) = Some None" using t by simp
    then show ?thesis ..
  next
    case (Some e)
    then have "lr_result (fold (list_turn env) [] r) = Some None" using less.prems by (auto simp: good_run_def)
    then show ?thesis ..
  qed
qed

lemma run_done:
  assumes good: "good_run env txs r" and res: "lr_result r \<noteq> None"
  shows "lr_result r = Some None" "\<forall>tx \<in> set txs. known env (lr_store r) tx"
proof -
  from good res have l: "lr_result r = Some None" "lr_left r = 0" by (auto simp: good_run_def)
  then show "lr_result r = Some None" by simp
  from good l(2) have e: "lr_feed r = []" "lr_jobs r = []" "filter busy (lr_workers r) = []" by (simp_all add: good_run_def)
  have "holds_tx x = {}" if "x \<in> set (lr_workers r)" for x 
  proof -
    have "\<not> busy x" using that e(3) by (auto simp: filter_empty_conv)
    then show ?thesis by (cases x) simp_all
  qed
  then have "waiting r = {}" using e by (simp add: waiting_def held_def)
  with good show "\<forall>tx \<in> set txs. known env (lr_store r) tx" by (auto simp: good_run_def)
qed

text \<open>
  C15. On a list of valid transactions \<^verbatim>\<open>addTxList\<close> never panics, in whatever order its caller and workers
  run; every run can be completed, and a run in which nobody can take a step but an exiting worker has
  returned nil, with every transaction of the list committed already or in the pool.
\<close>
theorem addTxList_completes:
  assumes ok: "store_ok s" and valid: "\<forall>tx \<in> set txList. tx_error env tx = None" and r: "r = addTxList env sched txList s"
  shows "\<not> lr_panic r \<and> (\<exists>more. lr_result (addTxList env (sched @ more) txList s) = Some None) \<and>
    (case lr_result r of
       None \<Rightarrow> \<exists>a r'. list_run_step env a r = Some r'
     | Some e \<Rightarrow> e = None \<and> (\<forall>tx \<in> set txList. pe_HasTx env (tx_hash tx) \<or> store_getTx (lr_store r) (tx_hash tx) \<noteq> None))"
proof -
  have good: "good_run env txList r" unfolding r addTxList_def by (rule good_sched [OF good_start [OF ok] valid])
  then have np: "\<not> lr_panic r" by (simp add: good_run_def)
  moreover have "\<exists>more. lr_result (addTxList env (sched @ more) txList s) = Some None"
    using run_completes [OF good valid] by (simp add: addTxList_def r)
  moreover have "lr_result r = None \<Longrightarrow> \<exists>a r'. list_run_step env a r = Some r'"
    using run_progress [OF good] np by (auto simp: list_run_step_def)
  ultimately show ?thesis
    using run_done [OF good] by (auto simp: known_def split: option.split)
qed

definition ex_pool_env :: pool_env where
  "ex_pool_env = \<lparr>pe_crypto = ex_crypto, pe_HasTx = (\<lambda>_. False),
     pe_VerifyTx = (\<lambda>tx. if txNonce (tx_data tx) = 0 then Some ''code not found'' else None),
     pe_RequestTxList = (\<lambda>_ _. Inr [])\<rparr>"

lemma ex_pool_tx_error: "tx_error ex_pool_env (ex_pool_tx n) = (if n = 0 then Some (VerifyFailed ''code not found'') else None)"
proof -
  have "Tx_Validate ex_crypto (Some (tx_data (ex_pool_tx n))) = None"
    by (simp add: ex_pool_tx_def Tx_Validate_def Tx_Sign_def Tx_Sum_def newSignature_def NewPublicKey_def Sig_Verify_def
        Signer_Sign_def ex_priv_def ex_pub_def ex_crypto_def NewTransaction_def)
  moreover have "txNonce (tx_data (ex_pool_tx n)) = n" by (simp add: ex_pool_tx_def Tx_Sign_def Let_def)
  ultimately show ?thesis by (simp add: tx_error_def pool_addNewTx_def ex_pool_env_def)
qed

lemma addTxList_completes_witness:
  "store_ok newTxStore \<and> list_all (\<lambda>tx. tx_error ex_pool_env tx = None) [ex_pool_tx 1, ex_pool_tx 2] \<and>
   \<not> lr_panic (addTxList ex_pool_env [Feed, Take 7, Feed, Add 7 3] [ex_pool_tx 1, ex_pool_tx 2] newTxStore)"
proof -
  have v: "\<forall>tx \<in> set [ex_pool_tx 1, ex_pool_tx 2]. tx_error ex_pool_env tx = None" by (simp add: ex_pool_tx_error)
  from addTxList_completes [OF new_store_ok(1) v refl, of "[Feed, Take 7, Feed, Add 7 3]"] v new_store_ok(1) show ?thesis
    unfolding list_all_iff by blast
qed

text \<open>
  C31. A list whose first transaction is invalid and which has another one can end the process, for any
  state of the pool: the caller returns at the error and closes \<^verbatim>\<open>out\<close> while another worker has still
  to send its result.
\<close>
theorem addTxList_panics:
  assumes "tx_error env tx \<noteq> None"
  shows "\<exists>sched. lr_panic (addTxList env sched (tx # tx' # txs) s)"
proof -
  let ?list = "tx # tx' # txs"
  have feed: "fold (list_turn env) (replicate (length f) Feed) r = r\<lparr>lr_feed := [], lr_jobs := lr_jobs r @ f\<rparr>"
    if "lr_feed r = f" "\<not> lr_panic r" for f r
    using that by (induction f arbitrary: r) (simp_all add: list_turn_def list_run_step_def)
  obtain e where e: "tx_error env tx = Some e" using assms by blast
  obtain s1 where a1: "pool_addNewTx env 0 tx s = (Some e, s1)"
    using addNewTx_error [of env 0 tx s] e by (metis prod.collapse)
  obtain e2 s2 where a2: "pool_addNewTx env 0 tx' s1 = (e2, s2)" by fastforce
  let ?sched = "replicate (length ?list) Feed @ [Take 0, Take 1, Add 0 0, Send 0, Recv, Add 1 0, Send 1]"
  have "lr_panic (addTxList env ?sched ?list s)"
    unfolding addTxList_def fold_append comp_def
    by (subst feed) (simp_all add: addTxList_start_def list_turn_def list_run_step_def a1 a2)
  then show ?thesis ..
qed

lemma addTxList_panics_witness:
  "tx_error ex_pool_env (ex_pool_tx 0) \<noteq> None \<and>
   (\<exists>sched. lr_panic (addTxList ex_pool_env sched [ex_pool_tx 0, ex_pool_tx 1] newTxStore))"
  using addTxList_panics [of ex_pool_env "ex_pool_tx 0" "ex_pool_tx 1" "[]" newTxStore] by (simp add: ex_pool_tx_error)

end
