(* ===== verification/Cons_Status.thy ===== *)
theory Cons_Status
  imports Core_Types "HOL-Library.AList"
begin

text \<open>
  The stake window, the status and the block pool of the consensus (\<^verbatim>\<open>src/consensus/status.go\<close>,
  \<^verbatim>\<open>src/consensus/state.go\<close>), with the constants of \<^verbatim>\<open>src/consensus/config.go\<close>. Counters keep their
  width. A panic is \<open>None\<close>. The random number of the random strategy is an argument; sleeping and the
  start time of the view have no effect on the rest and are left out. The Go maps are association
  lists; where the code ranges over one, the order of the keys is an argument.
\<close>

section \<open>The stake window\<close>

record window =
  qcQuotas_w :: "u64 list"
  qcAcc :: u64
  voteQuotas :: "u64 list"
  voteAcc :: u64
  w_majority :: u64
  w_limit :: u64
  w_height :: u64
  w_size :: int
  w_strategy :: u8
  w_recover :: bool

definition AverageVote :: u8 where "AverageVote = 0"
definition RandomVote :: u8 where "RandomVote = 1"
definition OrdinaryVote :: u8 where "OrdinaryVote = 2"
definition MonopolyVote :: u8 where "MonopolyVote = 3"

definition ExecuteTxFlag :: bool where "ExecuteTxFlag = True"
definition PreserveTxFlag :: bool where "PreserveTxFlag = False"
definition TwoPhaseBFTFlag :: bool where "TwoPhaseBFTFlag = False"

definition window_update :: "u64 \<Rightarrow> u64 \<Rightarrow> u64 \<Rightarrow> window \<Rightarrow> window option" where
  "window_update qc v height w =
     (if w_height w < height then
        (case (qcQuotas_w w, voteQuotas w) of
           (q0 # qs, v0 # vs) \<Rightarrow>
             Some (w\<lparr>qcAcc := qcAcc w - q0 + qc, qcQuotas_w := qs @ [qc],
                     voteAcc := voteAcc w - v0 + v, voteQuotas := vs @ [v], w_height := height\<rparr>)
         | _ \<Rightarrow> None)
      else Some w)"

text \<open>\<^verbatim>\<open>limit / uint64(size)\<close>, which panics on a zero divisor.\<close>

definition average_quota :: "window \<Rightarrow> u64 option" where
  "average_quota w = (let n = of_int (w_size w) in if n = 0 then None else Some (w_limit w div n))"

text \<open>\<^verbatim>\<open>voteQuotas[0]\<close>.\<close>

definition oldest_vote :: "window \<Rightarrow> u64 option" where
  "oldest_vote w = (case voteQuotas w of [] \<Rightarrow> None | v # _ \<Rightarrow> Some v)"

definition clamp :: "u64 \<Rightarrow> u64" where
  "clamp x = (if sint x < 0 then 0 else x)"

text \<open>The result is the quota and whether to vote. A modulus of zero panics.\<close>

definition window_vote :: "u64 \<Rightarrow> window \<Rightarrow> (u64 \<times> bool) option" where
  "window_vote rnd w =
     (let average = map_option (\<lambda>q. (q, True)) (average_quota w);
          rest = map_option (\<lambda>v0. (w_limit w - voteAcc w + v0, True)) (oldest_vote w)
      in if w_strategy w = AverageVote then average
         else if w_strategy w = RandomVote then
           (if \<not> PreserveTxFlag \<and> 50 < w_height w then rest
            else Option.bind (oldest_vote w) (\<lambda>v0.
              let pre = voteAcc w - v0;
                  hi = clamp ((3 * w_limit w + 3) div 4 - pre);
                  lo = clamp ((w_limit w + 1) div 2 - pre)
              in if hi - lo + 1 = 0 then None else Some (rnd mod (hi - lo + 1) + lo, True)))
         else if w_strategy w = OrdinaryVote then
           (if \<not> w_recover w \<and> 100 \<le> w_height w \<and> w_height w \<le> 99 + of_int (w_size w) \<and> w_majority w \<le> w_limit w
            then Some (0, False) else average)
         else if w_strategy w = MonopolyVote then
           (if \<not> w_recover w \<and> w_height w = 100 then (if w_majority w \<le> w_limit w then rest else Some (0, False))
            else average)
         else None)"

section \<open>Status\<close>

record status =
  bExec :: block
  bLeaf :: block
  qcHigh :: quorum_cert
  st_view :: u32
  leaderIndex :: u32
  viewChange :: int
  st_proposal :: "block option"
  st_votes :: "(string \<times> vote) list"
  quotaCount_s :: u64
  st_window :: window

definition updateWindow :: "u64 \<Rightarrow> u64 \<Rightarrow> u64 \<Rightarrow> status \<Rightarrow> status option" where
  "updateWindow qc v height s = map_option (\<lambda>w. s\<lparr>st_window := w\<rparr>) (window_update qc v height (st_window s))"

definition recoverFlag :: "status \<Rightarrow> status" where
  "recoverFlag s = s\<lparr>st_window := (st_window s)\<lparr>w_recover := True\<rparr>\<rparr>"

definition getQuotaCount :: "status \<Rightarrow> u64 option" where
  "getQuotaCount s =
     (case qcQuotas_w (st_window s) of
        [] \<Rightarrow> None
      | q0 # _ \<Rightarrow> Some (quotaCount_s s + qcAcc (st_window s) - q0))"

definition startProposal :: "block \<Rightarrow> status \<Rightarrow> status" where
  "startProposal blk s = s\<lparr>st_proposal := Some blk, st_votes := [], quotaCount_s := 0\<rparr>"

definition endProposal :: "status \<Rightarrow> status" where
  "endProposal s = s\<lparr>st_proposal := None, st_votes := [], quotaCount_s := 0\<rparr>"

datatype cons_error =
    NoProposal | NotSameBlock | NotSameView | DuplicateVote | CannotVote
  | BadMsg core_error | RequestErr string | SyncErr string | MissingGenesis | OldQCRef u64
  | NoParent | InvalidHeight u64 u64 | LowerQC | NotLeader nat | InvalidMerkleRoot | InvalidExecHeight
  | TxCommitted bytes | TxNotFound bytes | TxExpired bytes | ViewChanging

definition getVoteQuota :: "u64 \<Rightarrow> status \<Rightarrow> (cons_error, u64) result option" where
  "getVoteQuota rnd s =
     map_option (\<lambda>(quota, ok). if ok then Inr quota else Inl CannotVote) (window_vote rnd (st_window s))"

abbreviation voter_str :: "vote \<Rightarrow> string" where
  "voter_str v \<equiv> keyStr (sig_pubKey (voter v))"

definition addVote :: "vote \<Rightarrow> status \<Rightarrow> cons_error option \<times> status" where
  "addVote v s =
     (case st_proposal s of
        None \<Rightarrow> (Some NoProposal, s)
      | Some p \<Rightarrow>
          if blkHash (blk_data p) \<noteq> vBlockHash (vote_data v) then (Some NotSameBlock, s)
          else if blkView (blk_data p) \<noteq> vView (vote_data v) then (Some NotSameView, s)
          else if map_of (st_votes s) (voter_str v) \<noteq> None then (Some DuplicateVote, s)
          else (None, s\<lparr>st_votes := AList.update (voter_str v) v (st_votes s),
                        quotaCount_s := quotaCount_s s + vQuota (vote_data v)\<rparr>))"

definition getVoteCount :: "status \<Rightarrow> nat" where
  "getVoteCount s = length (st_votes s)"

text \<open>The votes in the order \<open>keys\<close> in which the map is ranged over.\<close>

definition getVotes :: "string list \<Rightarrow> status \<Rightarrow> vote list" where
  "getVotes keys s = List.map_filter (map_of (st_votes s)) keys"

section \<open>The block pool\<close>

record cstate =
  cs_blocks :: "(bytes \<times> block) list"
  cs_committed :: "bytes list"
  cs_qcs :: "(bytes \<times> quorum_cert) list"
  committedHeight :: u64
  committedTxCount :: u64

definition newState :: cstate where
  "newState = \<lparr>cs_blocks = [], cs_committed = [], cs_qcs = [], committedHeight = 0, committedTxCount = 0\<rparr>"

abbreviation blk_hash :: "block \<Rightarrow> bytes" where
  "blk_hash b \<equiv> blkHash (blk_data b)"

abbreviation blk_height :: "block \<Rightarrow> u64" where
  "blk_height b \<equiv> blkHeight (blk_data b)"

definition getBlockPoolSize :: "cstate \<Rightarrow> nat" where
  "getBlockPoolSize st = length (cs_blocks st)"

definition st_setBlock :: "block \<Rightarrow> cstate \<Rightarrow> cstate" where
  "st_setBlock blk st = st\<lparr>cs_blocks := AList.update (blk_hash blk) blk (cs_blocks st)\<rparr>"

definition st_getBlock :: "bytes \<Rightarrow> cstate \<Rightarrow> block option" where
  "st_getBlock hash st = map_of (cs_blocks st) hash"

definition deleteBlock :: "bytes \<Rightarrow> cstate \<Rightarrow> cstate" where
  "deleteBlock hash st = st\<lparr>cs_blocks := AList.delete hash (cs_blocks st)\<rparr>"

definition getQCPoolSize :: "cstate \<Rightarrow> nat" where
  "getQCPoolSize st = length (cs_qcs st)"

definition st_setQC :: "quorum_cert \<Rightarrow> cstate \<Rightarrow> cstate" where
  "st_setQC qc st = st\<lparr>cs_qcs := AList.update (qc_hash (qc_data qc)) qc (cs_qcs st)\<rparr>"

definition st_getQC :: "bytes \<Rightarrow> cstate \<Rightarrow> quorum_cert option" where
  "st_getQC hash st = map_of (cs_qcs st) hash"

definition deleteQC :: "bytes \<Rightarrow> cstate \<Rightarrow> cstate" where
  "deleteQC hash st = st\<lparr>cs_qcs := AList.delete hash (cs_qcs st)\<rparr>"

definition setCommittedBlock :: "block \<Rightarrow> cstate \<Rightarrow> cstate" where
  "setCommittedBlock blk st =
     st\<lparr>cs_committed := List.insert (blk_hash blk) (cs_committed st), committedHeight := blk_height blk\<rparr>"

definition deleteCommitted :: "bytes \<Rightarrow> cstate \<Rightarrow> cstate" where
  "deleteCommitted hash st = st\<lparr>cs_committed := removeAll hash (cs_committed st)\<rparr>"

definition getOlderBlocks :: "u64 \<Rightarrow> cstate \<Rightarrow> block list" where
  "getOlderBlocks height st = filter (\<lambda>b. blk_height b < height) (map snd (cs_blocks st))"

definition getUncommittedOlderBlocks :: "block \<Rightarrow> cstate \<Rightarrow> block list" where
  "getUncommittedOlderBlocks blk st =
     filter (\<lambda>b. blk_height b < blk_height blk \<and> blk_hash b \<notin> set (cs_committed st)) (map snd (cs_blocks st))"

definition addCommittedTxCount :: "nat \<Rightarrow> cstate \<Rightarrow> cstate" where
  "addCommittedTxCount count st = st\<lparr>committedTxCount := committedTxCount st + of_nat count\<rparr>"

end
