(* ===== verification/Cons_Driver.thy ===== *)
theory Cons_Driver
  imports Cons_Status Storage Tx_Pool "HOL-Library.Monad_Syntax"
begin

text \<open>
  The consensus driver, validator, rotator and pacemaker (\<^verbatim>\<open>src/consensus/driver.go\<close>,
  \<^verbatim>\<open>src/consensus/validator.go\<close>, \<^verbatim>\<open>src/consensus/rotator.go\<close>, \<^verbatim>\<open>src/consensus/pacemaker.go\<close>) over the
  storage and the transaction pool. A handler maps the node's state to the new one; a panic, a fatal log
  and not returning are \<open>None\<close>. A handler runs as a whole, as under the update lock. Peers, the execution
  of a block and the order of map iterations are fields of \<open>cons_env\<close>; times and random numbers are
  arguments. The synchronisation that a handler does before it takes the lock is part of its step.
  Branches that the constants of the configuration switch off are left out: the flags are fixed at
  compile time. The benchmark log, log lines without effect and the timers themselves are left out;
  their expiry is a call of the handlers.
\<close>

section \<open>The node\<close>

record 's cons_env =
  ce_crypto :: crypto
  ce_signer :: private_key
  ce_BlockTxLimit :: int
  ce_strg :: "'s storage"
  ce_merkle :: "nat \<Rightarrow> mnode list \<Rightarrow> mnode list"
  ce_VerifyTx :: "transaction \<Rightarrow> string option"
  ce_Execute :: "'s \<Rightarrow> block \<Rightarrow> transaction list \<Rightarrow> block_commit \<times> tx_commit list"
  ce_RequestTxList :: "public_key \<Rightarrow> bytes list \<Rightarrow> (string, transaction list) result"
  ce_RequestBlock :: "public_key \<Rightarrow> bytes \<Rightarrow> (string, block) result"
  ce_RequestBlockByHeight :: "public_key \<Rightarrow> u64 \<Rightarrow> (string, block) result"
  ce_sched :: "transaction list \<Rightarrow> tx_store \<Rightarrow> list_action list"
  ce_order :: "string list \<Rightarrow> string list"

datatype cons_msg =
    SendVote public_key vote
  | SendQC public_key quorum_cert
  | BroadcastProposal block
  | TriggerPropose

text \<open>
  The state of a node. \<open>nd_commits\<close> are the blocks handed to the storage's \<^verbatim>\<open>Commit\<close>, \<open>nd_sent\<close> the
  messages to the network and the trigger to the pacemaker, both in order.
\<close>

record 's node =
  nd_status :: status
  nd_state :: cstate
  nd_roles :: role_store
  nd_pool :: tx_store
  nd_strg :: 's
  nd_isExisted :: bool
  nd_timeoutCount :: int
  nd_highQCCount :: int
  nd_oldView :: u32
  nd_commits :: "block list"
  nd_sent :: "cons_msg list"

abbreviation on_status :: "(status \<Rightarrow> status) \<Rightarrow> 's node \<Rightarrow> 's node" where
  "on_status f nd \<equiv> nd\<lparr>nd_status := f (nd_status nd)\<rparr>"

abbreviation on_state :: "(cstate \<Rightarrow> cstate) \<Rightarrow> 's node \<Rightarrow> 's node" where
  "on_state f nd \<equiv> nd\<lparr>nd_state := f (nd_state nd)\<rparr>"

abbreviation send :: "cons_msg \<Rightarrow> 's node \<Rightarrow> 's node" where
  "send m nd \<equiv> nd\<lparr>nd_sent := nd_sent nd @ [m]\<rparr>"

abbreviation blk_view :: "block \<Rightarrow> u32" where
  "blk_view b \<equiv> blkView (blk_data b)"

abbreviation parent_hash :: "block \<Rightarrow> bytes" where
  "parent_hash b \<equiv> blkParentHash (blk_data b)"

text \<open>The proposer of a block; without a signature there is a nil dereference.\<close>

definition Proposer :: "block \<Rightarrow> public_key option" where
  "Proposer blk = map_option sig_pubKey (blk_sig blk)"

definition pool_view :: "'s cons_env \<Rightarrow> 's node \<Rightarrow> pool_env" where
  "pool_view env nd =
     \<lparr>pe_crypto = ce_crypto env, pe_HasTx = HasTx (ce_strg env) (nd_strg nd), pe_VerifyTx = ce_VerifyTx env,
      pe_RequestTxList = ce_RequestTxList env\<rparr>"

text \<open>\<^verbatim>\<open>SyncTxs\<close> of the pool, run to its end, and on the pool of the node.\<close>

definition pool_SyncTxs :: "pool_env \<Rightarrow> (transaction list \<Rightarrow> tx_store \<Rightarrow> list_action list) \<Rightarrow> public_key \<Rightarrow> bytes list \<Rightarrow> tx_store
    \<Rightarrow> (cons_error option \<times> tx_store) option" where
  "pool_SyncTxs env sched peer hashes s =
     (case syncTxs_list env peer hashes s of
        None \<Rightarrow> None
      | Some (Inl e) \<Rightarrow> Some (Some (SyncErr ''request txs''), s)
      | Some (Inr txs) \<Rightarrow>
         (let r = addTxList env (sched txs s) txs s
          in if lr_panic r then None
             else case lr_result r of
                    None \<Rightarrow> None
                  | Some None \<Rightarrow> Some (None, lr_store r)
                  | Some (Some e) \<Rightarrow> Some (Some (SyncErr ''add txs''), lr_store r)))"

definition SyncTxs :: "'s cons_env \<Rightarrow> public_key \<Rightarrow> bytes list \<Rightarrow> 's node \<Rightarrow> (cons_error option \<times> 's node) option" where
  "SyncTxs env peer hashes nd =
     map_option (\<lambda>(e, s). (e, nd\<lparr>nd_pool := s\<rparr>)) (pool_SyncTxs (pool_view env nd) (ce_sched env) peer hashes (nd_pool nd))"

section \<open>Blocks of the driver\<close>

definition isLeader :: "public_key \<Rightarrow> 's node \<Rightarrow> bool" where
  "isLeader pubKey nd \<longleftrightarrow>
     IsValidator (nd_roles nd) (keyStr pubKey) \<and>
     leaderIndex (nd_status nd) = of_nat (GetValidatorIndex (nd_roles nd) (keyStr pubKey))"

definition getBlockByHash :: "'s cons_env \<Rightarrow> bytes \<Rightarrow> 's node \<Rightarrow> block option \<times> 's node" where
  "getBlockByHash env hash nd =
     (case st_getBlock hash (nd_state nd) of
        Some blk \<Rightarrow> (Some blk, nd)
      | None \<Rightarrow>
         (case getBlock (strgCodec (ce_strg env)) (strgPersist (ce_strg env)) (nd_strg nd) hash of
            Inl e \<Rightarrow> (None, nd)
          | Inr blk \<Rightarrow> (Some blk, on_state (st_setBlock blk) nd)))"

definition qcRefHeight :: "'s cons_env \<Rightarrow> quorum_cert \<Rightarrow> 's node \<Rightarrow> (u64 \<times> 's node) option" where
  "qcRefHeight env qc nd =
     (case getBlockByHash env (qc_hash (qc_data qc)) nd of
        (None, nd) \<Rightarrow> None
      | (Some blk, nd) \<Rightarrow> Some (blk_height blk, nd))"

definition accept_block :: "'s cons_env \<Rightarrow> (string, block) result \<Rightarrow> 's node \<Rightarrow> ((cons_error, block) result \<times> 's node) option" where
  "accept_block env resp nd =
     (case resp of
        Inl e \<Rightarrow> Some (Inl (RequestErr e), nd)
      | Inr blk \<Rightarrow>
         (case Block_Validate (ce_crypto env) (nd_roles nd) blk of
            None \<Rightarrow> None
          | Some (rs, Some e) \<Rightarrow> Some (Inl (BadMsg e), nd\<lparr>nd_roles := rs\<rparr>)
          | Some (rs, None) \<Rightarrow> Some (Inr blk, on_state (st_setBlock blk) (nd\<lparr>nd_roles := rs\<rparr>))))"

definition requestBlock :: "'s cons_env \<Rightarrow> public_key \<Rightarrow> bytes \<Rightarrow> 's node \<Rightarrow> ((cons_error, block) result \<times> 's node) option" where
  "requestBlock env peer hash nd = accept_block env (ce_RequestBlock env peer hash) nd"

definition requestBlockByHeight :: "'s cons_env \<Rightarrow> public_key \<Rightarrow> u64 \<Rightarrow> 's node \<Rightarrow> ((cons_error, block) result \<times> 's node) option" where
  "requestBlockByHeight env peer height nd = accept_block env (ce_RequestBlockByHeight env peer height) nd"

definition cmpBlockHeight :: "block option \<Rightarrow> block option \<Rightarrow> int option" where
  "cmpBlockHeight b1 b2 =
     (case (b1, b2) of
        (Some b1, Some b2) \<Rightarrow>
          Some (if blk_height b1 = blk_height b2 then 0 else if blk_height b2 < blk_height b1 then 1 else - 1)
      | _ \<Rightarrow> None)"

text \<open>The code looks the two heights up again for the second comparison, which gives the same values.\<close>

definition cmpQCPriority :: "'s cons_env \<Rightarrow> quorum_cert option \<Rightarrow> quorum_cert option \<Rightarrow> 's node \<Rightarrow> (int \<times> 's node) option" where
  "cmpQCPriority env qc1 qc2 nd =
     (case (qc1, qc2) of
        (Some q1, Some q2) \<Rightarrow>
          (if qcView (qc_data q2) < qcView (qc_data q1) then Some (1, nd)
           else if qcView (qc_data q1) < qcView (qc_data q2) then Some (- 1, nd)
           else do {
             (h1, nd) \<leftarrow> qcRefHeight env q1 nd;
             (h2, nd) \<leftarrow> qcRefHeight env q2 nd;
             Some (if h2 < h1 then 1 else if h1 < h2 then - 1 else 0, nd)
           })
      | _ \<Rightarrow> None)"

section \<open>Commit\<close>

definition forget_block :: "block \<Rightarrow> 's node \<Rightarrow> 's node" where
  "forget_block b nd =
     on_state (deleteQC (blk_hash b) \<circ> deleteBlock (blk_hash b))
       (nd\<lparr>nd_pool := putTxsToQueue (blkTransactions (blk_data b)) (nd_pool nd)\<rparr>)"

text \<open>The pool of blocks is ranged over in the order of the list.\<close>

definition cleanStateOnCommitted :: "block \<Rightarrow> 's node \<Rightarrow> 's node option" where
  "cleanStateOnCommitted blk nd =
     (let nd = on_state (deleteQC (blk_hash blk)) nd
      in case (if PreserveTxFlag then Some (nd_pool nd) else removeTxs (blkTransactions (blk_data blk)) (nd_pool nd)) of
           None \<Rightarrow> None
         | Some pool \<Rightarrow>
            (let nd = on_state (setCommittedBlock blk) (nd\<lparr>nd_pool := pool\<rparr>);
                 nd = fold forget_block (getUncommittedOlderBlocks blk (nd_state nd)) nd
             in Some (if blk_height blk < 20 then nd
                      else fold (\<lambda>b. on_state (deleteCommitted (blk_hash b) \<circ> deleteBlock (blk_hash b)))
                             (getOlderBlocks (blk_height blk) (nd_state nd)) nd)))"

definition driver_commit :: "'s cons_env \<Rightarrow> block \<Rightarrow> 's node \<Rightarrow> 's node option" where
  "driver_commit env blk nd =
     do {
       (txCount, nd) \<leftarrow>
         (if nd_isExisted nd then Some (length (blkTransactions (blk_data blk)), nd)
          else do {
            (txs, old, pool) \<leftarrow> getTxsToExecute (pool_view env nd) (blkTransactions (blk_data blk)) (nd_pool nd);
            let (bcm, txcs) = ce_Execute env (nd_strg nd) blk txs;
            (_, s, e) \<leftarrow> commit (ce_strg env) (ce_merkle env)
              \<lparr>cdBlock = blk, cdTransactions = txs, cdBlockCommit = bcm\<lparr>bcOldBlockTxs := old\<rparr>, cdTxCommits = txcs,
               cdMerkleUpdate = None\<rparr> (nd_strg nd);
            case e of
              Some err \<Rightarrow> None
            | None \<Rightarrow> Some (length txs, nd\<lparr>nd_pool := pool, nd_strg := s, nd_commits := nd_commits nd @ [blk]\<rparr>)
          });
       cleanStateOnCommitted blk (on_state (addCommittedTxCount txCount) nd)
     }"

partial_function (option) onCommit :: "'s cons_env \<Rightarrow> block option \<Rightarrow> 's node \<Rightarrow> 's node option" where [code]:
  "onCommit env blk nd =
     Option.bind (cmpBlockHeight blk (Some (bExec (nd_status nd)))) (\<lambda>c.
       case blk of
         None \<Rightarrow> None
       | Some b \<Rightarrow>
           if c = 1 then
             (case getBlockByHash env (parent_hash b) nd of
                (p, nd) \<Rightarrow> Option.bind (onCommit env p nd) (driver_commit env b))
           else if blk_hash (bExec (nd_status nd)) \<noteq> blk_hash b then None
           else Some nd)"

definition commitRecursive :: "'s cons_env \<Rightarrow> block \<Rightarrow> 's node \<Rightarrow> 's node option" where
  "commitRecursive env blk nd =
     Option.bind (onCommit env (Some blk) nd) (\<lambda>nd. Some (on_status (\<lambda>s. s\<lparr>bExec := blk\<rparr>) nd))"

section \<open>The high certificate\<close>

text \<open>Errors of \<^verbatim>\<open>StoreQC\<close> and \<^verbatim>\<open>StoreBlock\<close> are ignored by the code.\<close>

definition updateQCHigh :: "'s cons_env \<Rightarrow> quorum_cert option \<Rightarrow> 's node \<Rightarrow> 's node option" where
  "updateQCHigh env qc nd =
     do {
       (c, nd) \<leftarrow> cmpQCPriority env qc (Some (qcHigh (nd_status nd))) nd;
       if c \<noteq> 1 then Some nd
       else case qc of
         None \<Rightarrow> None
       | Some qc \<Rightarrow>
          (case getBlockByHash env (qc_hash (qc_data qc)) nd of
             (None, nd) \<Rightarrow> None
           | (Some blk1, nd) \<Rightarrow>
              (case getBlockByHash env (parent_hash blk1) nd of
                 (blk0, nd) \<Rightarrow> do {
                   let nd = on_state (st_setQC qc) nd;
                   let nd = on_status (\<lambda>s. s\<lparr>qcHigh := qc, bLeaf := blk1\<rparr>) nd;
                   v \<leftarrow> FindVote (ce_signer env) qc;
                   s \<leftarrow> updateWindow (qc_quota qc) v (blk_height blk1) (nd_status nd);
                   let nd = nd\<lparr>nd_status := s\<rparr>;
                   let nd = nd\<lparr>nd_strg := fst (StoreQC (ce_strg env) qc (nd_strg nd))\<rparr>;
                   let nd = nd\<lparr>nd_strg := fst (StoreBlock (ce_strg env) blk1 (nd_strg nd))\<rparr>;
                   c0 \<leftarrow> cmpBlockHeight blk0 (Some (bExec (nd_status nd)));
                   case blk0 of
                     None \<Rightarrow> None
                   | Some b0 \<Rightarrow> if c0 = 1 \<and> blk_view b0 = blk_view blk1 then commitRecursive env b0 nd else Some nd
                 }))
     }"

section \<open>Synchronisation\<close>

definition verifyParentAndCommitRecursive :: "'s cons_env \<Rightarrow> public_key \<Rightarrow> block \<Rightarrow> block \<Rightarrow> 's node \<Rightarrow> (cons_error option \<times> 's node) option" where
  "verifyParentAndCommitRecursive env peer blk parent nd =
     (if blk_height blk \<noteq> blk_height parent + 1 then Some (Some (InvalidHeight (blk_height blk) (blk_height parent)), nd)
      else do {
        (e, nd) \<leftarrow> SyncTxs env peer (blkTransactions (blk_data blk)) nd;
        case e of Some e \<Rightarrow> Some (Some e, nd) | None \<Rightarrow> map_option (Pair None) (commitRecursive env blk nd)
      })"

text \<open>The loop over the heights from \<open>height\<close> on, \<open>n\<close> of them.\<close>

fun forward_loop :: "'s cons_env \<Rightarrow> public_key \<Rightarrow> nat \<Rightarrow> u64 \<Rightarrow> 's node \<Rightarrow> (cons_error option \<times> 's node) option" where
  "forward_loop env peer 0 height nd = Some (None, nd)"
| "forward_loop env peer (Suc n) height nd =
     do {
       (r, nd) \<leftarrow> requestBlockByHeight env peer height nd;
       case r of
         Inl e \<Rightarrow> Some (Some e, nd)
       | Inr blk \<Rightarrow>
          (case getBlockByHash env (parent_hash blk) nd of
             (None, nd) \<Rightarrow> Some (Some NoParent, nd)
           | (Some parent, nd) \<Rightarrow> do {
               (e, nd) \<leftarrow> verifyParentAndCommitRecursive env peer blk parent nd;
               case e of Some e \<Rightarrow> Some (Some e, nd) | None \<Rightarrow> forward_loop env peer n (height + 1) nd
             })
     }"

definition syncForwardCommittedBlocks :: "'s cons_env \<Rightarrow> public_key \<Rightarrow> u64 \<Rightarrow> u64 \<Rightarrow> 's node \<Rightarrow> (cons_error option \<times> 's node) option" where
  "syncForwardCommittedBlocks env peer start end' nd = forward_loop env peer (unat end' - unat start) start nd"

definition syncMissingCommittedBlocks :: "'s cons_env \<Rightarrow> block \<Rightarrow> 's node \<Rightarrow> (cons_error option \<times> 's node) option" where
  "syncMissingCommittedBlocks env blk nd =
     do {
       commitHeight \<leftarrow> GetBlockHeight (ce_strg env) (nd_strg nd);
       if blkExecHeight (blk_data blk) \<le> commitHeight then Some (None, nd)
       else if blk_height blk = 0 then Some (Some MissingGenesis, nd)
       else do {
         peer \<leftarrow> Proposer blk;
         (r, nd) \<leftarrow> (case getBlockByHash env (parent_hash blk) nd of
                      (Some b, nd) \<Rightarrow> Some (Inr b, nd)
                    | (None, nd) \<Rightarrow> requestBlock env peer (parent_hash blk) nd);
         case r of
           Inl e \<Rightarrow> Some (Some e, nd)
         | Inr qcRef \<Rightarrow>
             if blk_height qcRef < commitHeight then Some (Some (OldQCRef (blk_height qcRef)), nd)
             else syncForwardCommittedBlocks env peer (commitHeight + 1) (blkExecHeight (blk_data blk)) nd
       }
     }"

partial_function (option) syncMissingParentRecursive ::
  "'s cons_env \<Rightarrow> public_key \<Rightarrow> block \<Rightarrow> 's node \<Rightarrow> ((cons_error, block) result \<times> 's node) option" where [code]:
  "syncMissingParentRecursive env peer blk nd =
     Option.bind (case getBlockByHash env (parent_hash blk) nd of
                    (Some b, nd) \<Rightarrow> Some (Inr b, nd)
                  | (None, nd) \<Rightarrow> requestBlock env peer (parent_hash blk) nd) (\<lambda>(r, nd).
       case r of
         Inl e \<Rightarrow> Some (Inl e, nd)
       | Inr parent \<Rightarrow>
           Option.bind (GetBlockHeight (ce_strg env) (nd_strg nd)) (\<lambda>height.
             if blk_height blk = height then Some (Inr parent, nd)
             else if blk_height blk \<noteq> blk_height parent + 1
               then Some (Inl (InvalidHeight (blk_height blk) (blk_height parent)), nd)
             else Option.bind (SyncTxs env peer (blkTransactions (blk_data parent)) nd) (\<lambda>(e, nd).
               case e of
                 Some e \<Rightarrow> Some (Inl e, nd)
               | None \<Rightarrow>
                   Option.bind (syncMissingParentRecursive env peer parent nd) (\<lambda>(r, nd).
                     case r of Inl e \<Rightarrow> Some (Inl e, nd) | Inr _ \<Rightarrow> Some (Inr parent, nd)))))"

text \<open>The genesis block has no parent; the value of the result is not used by the callers.\<close>

definition syncParentBlock :: "'s cons_env \<Rightarrow> block \<Rightarrow> 's node \<Rightarrow> ((cons_error, block option) result \<times> 's node) option" where
  "syncParentBlock env blk nd =
     (if blk_height blk = 0 then Some (Inr None, nd)
      else case getBlockByHash env (parent_hash blk) nd of
             (Some parent, nd) \<Rightarrow> Some (Inr (Some parent), nd)
           | (None, nd) \<Rightarrow> do {
               (e, nd) \<leftarrow> syncMissingCommittedBlocks env blk nd;
               case e of
                 Some e \<Rightarrow> Some (Inl e, nd)
               | None \<Rightarrow> do {
                   peer \<leftarrow> Proposer blk;
                   (r, nd) \<leftarrow> syncMissingParentRecursive env peer blk nd;
                   Some (case r of Inl e \<Rightarrow> (Inl e, nd) | Inr p \<Rightarrow> (Inr (Some p), nd))
                 }
             })"

section \<open>Leader approval\<close>

definition isNormalApproval :: "u32 \<Rightarrow> u32 \<Rightarrow> 's node \<Rightarrow> bool" where
  "isNormalApproval view proposer nd \<longleftrightarrow>
     viewChange (nd_status nd) = 0 \<and> view = st_view (nd_status nd) \<and> proposer = leaderIndex (nd_status nd)"

definition isNewViewApproval :: "u32 \<Rightarrow> u32 \<Rightarrow> 's node \<Rightarrow> bool" where
  "isNewViewApproval view proposer nd =
     (let s = nd_status nd
      in if st_view s < view then True
         else if view = st_view s then
           viewChange s = 0 \<and> proposer \<noteq> leaderIndex s \<or> viewChange s = 1 \<and> proposer = leaderIndex s
         else False)"

definition approveViewLeader :: "u32 \<Rightarrow> u32 \<Rightarrow> 's node \<Rightarrow> 's node" where
  "approveViewLeader view proposer nd =
     (let nd = on_status (\<lambda>s. s\<lparr>viewChange := 0, st_view := view, leaderIndex := proposer\<rparr>) nd;
          nd = (if \<not> TwoPhaseBFTFlag \<and> view = 2 then on_status recoverFlag nd else nd)
      in nd\<lparr>nd_timeoutCount := 0, nd_highQCCount := 0\<rparr>)"

text \<open>A normal approval only resets the leader timer.\<close>

definition rot_onReceiveProposal :: "block \<Rightarrow> 's node \<Rightarrow> 's node option" where
  "rot_onReceiveProposal blk nd =
     map_option (\<lambda>pk.
       let proposer = of_nat (GetValidatorIndex (nd_roles nd) (keyStr pk))
       in if isNewViewApproval (blk_view blk) proposer nd then approveViewLeader (blk_view blk) proposer nd else nd)
       (Proposer blk)"

section \<open>Proposals and votes\<close>

definition new_block :: "u32 \<Rightarrow> block \<Rightarrow> bytes list \<Rightarrow> u64 \<Rightarrow> bytes \<Rightarrow> u64 \<Rightarrow> block" where
  "new_block view parent txs execHeight root now =
     \<lparr>blk_data = \<lparr>blkHash = [], blkView = view, blkHeight = blk_height parent + 1, blkParentHash = blk_hash parent,
                  blkExecHeight = execHeight, blkMerkleRoot = root, blkTimestamp = now, blkTransactions = txs,
                  blkQuorumCert = None, blkSignature = None\<rparr>,
      blk_qc = None, blk_sig = None\<rparr>"

text \<open>The log line at the end dereferences the block of the certificate.\<close>

definition createProposal :: "'s cons_env \<Rightarrow> u64 \<Rightarrow> u32 \<Rightarrow> block \<Rightarrow> quorum_cert \<Rightarrow> 's node \<Rightarrow> (block \<times> 's node) option" where
  "createProposal env now view parent qc nd =
     do {
       (txs, pool) \<leftarrow> (if PreserveTxFlag then map_option (\<lambda>hs. (hs, nd_pool nd)) (getTxsFromQueue (ce_BlockTxLimit env) (nd_pool nd))
                      else popTxsFromQueue (ce_BlockTxLimit env) (nd_pool nd));
       let nd = nd\<lparr>nd_pool := pool\<rparr>;
       height \<leftarrow> GetBlockHeight (ce_strg env) (nd_strg nd);
       let root = opt_val (GetMerkleRoot (ce_strg env) (nd_strg nd));
       let blk = Block_Sign (ce_crypto env) (ce_signer env) (SetQuorumCert qc (new_block view parent txs height root now));
       let nd = on_state (st_setBlock blk) nd;
       let nd = on_status (startProposal blk \<circ> (\<lambda>s. s\<lparr>bLeaf := blk\<rparr>)) nd;
       nd \<leftarrow> rot_onReceiveProposal blk nd;
       (_, nd) \<leftarrow> qcRefHeight env qc nd;
       Some (blk, nd)
     }"

text \<open>The log line dereferences the block of the vote.\<close>

definition driver_onReceiveVote :: "'s cons_env \<Rightarrow> vote \<Rightarrow> 's node \<Rightarrow> (cons_error option \<times> 's node) option" where
  "driver_onReceiveVote env v nd =
     (case addVote v (nd_status nd) of
        (Some e, s) \<Rightarrow> Some (Some e, nd)
      | (None, s) \<Rightarrow>
         (case getBlockByHash env (vBlockHash (vote_data v)) (nd\<lparr>nd_status := s\<rparr>) of
            (None, nd) \<Rightarrow> None
          | (Some _, nd) \<Rightarrow> do {
              let s = nd_status nd;
              enough \<leftarrow> (if MajorityValidatorCount (nd_roles nd) \<le> getVoteCount s
                         then map_option (\<lambda>q. MajorityQuotaCount (nd_roles nd) \<le> q) (getQuotaCount s)
                         else Some False);
              if enough then do {
                let qc = QC_Build (ce_crypto env) (ce_signer env)
                           (getVotes (ce_order env (map fst (st_votes s))) s) NewQuorumCert;
                nd \<leftarrow> updateQCHigh env (Some qc) (on_status endProposal nd);
                Some (None, send TriggerPropose nd)
              } else Some (None, nd)
            }))"

section \<open>The validator\<close>

definition verifyMerkleRoot :: "'s cons_env \<Rightarrow> block \<Rightarrow> 's node \<Rightarrow> cons_error option" where
  "verifyMerkleRoot env blk nd =
     (if opt_val (GetMerkleRoot (ce_strg env) (nd_strg nd)) \<noteq> blkMerkleRoot (blk_data blk) then Some InvalidMerkleRoot else None)"

definition verifyExecHeight :: "'s cons_env \<Rightarrow> block \<Rightarrow> 's node \<Rightarrow> cons_error option option" where
  "verifyExecHeight env blk nd =
     map_option (\<lambda>bh. if bh \<noteq> blkExecHeight (blk_data blk) then Some InvalidExecHeight else None)
       (GetBlockHeight (ce_strg env) (nd_strg nd))"

fun verifyBlockTxs_loop :: "'s cons_env \<Rightarrow> u64 \<Rightarrow> 's node \<Rightarrow> bytes list \<Rightarrow> cons_error option" where
  "verifyBlockTxs_loop env height nd [] = None"
| "verifyBlockTxs_loop env height nd (h # hs) =
     (if HasTx (ce_strg env) (nd_strg nd) h then Some (TxCommitted h)
      else case store_getTx (nd_pool nd) h of
             None \<Rightarrow> Some (TxNotFound h)
           | Some tx \<Rightarrow>
               if txExpiry (tx_data tx) \<noteq> 0 \<and> txExpiry (tx_data tx) < height then Some (TxExpired h)
               else verifyBlockTxs_loop env height nd hs)"

definition verifyBlockTxs :: "'s cons_env \<Rightarrow> block \<Rightarrow> 's node \<Rightarrow> cons_error option" where
  "verifyBlockTxs env blk nd = verifyBlockTxs_loop env (blk_height blk) nd (blkTransactions (blk_data blk))"

definition verifyBlockToVote :: "'s cons_env \<Rightarrow> block \<Rightarrow> 's node \<Rightarrow> cons_error option option" where
  "verifyBlockToVote env blk nd =
     (if committedHeight (nd_state nd) \<noteq> 0 then
        (case verifyExecHeight env blk nd of
           None \<Rightarrow> None
         | Some (Some e) \<Rightarrow> Some (Some e)
         | Some None \<Rightarrow>
            (case verifyMerkleRoot env blk nd of
               Some e \<Rightarrow> Some (Some e)
             | None \<Rightarrow> Some (verifyBlockTxs env blk nd)))
      else Some (verifyBlockTxs env blk nd))"

definition voteProposal :: "'s cons_env \<Rightarrow> u64 \<Rightarrow> block \<Rightarrow> 's node \<Rightarrow> (cons_error option \<times> 's node) option" where
  "voteProposal env rnd blk nd =
     do {
       pk \<leftarrow> Proposer blk;
       if \<not> isLeader pk nd then Some (Some (NotLeader (GetValidatorIndex (nd_roles nd) (keyStr pk))), nd)
       else do {
         e \<leftarrow> verifyBlockToVote env blk nd;
         case e of
           Some e \<Rightarrow> Some (Some e, nd)
         | None \<Rightarrow> do {
             q \<leftarrow> getVoteQuota rnd (nd_status nd);
             case q of
               Inl e \<Rightarrow> Some (Some e, nd)
             | Inr quota \<Rightarrow> do {
                 let v = Block_Vote (ce_crypto env) (ce_signer env) quota blk;
                 pool \<leftarrow> (if PreserveTxFlag then Some (nd_pool nd) else setTxsPending (blkTransactions (blk_data blk)) (nd_pool nd));
                 let nd = send (SendVote pk v) (nd\<lparr>nd_pool := pool\<rparr>);
                 qc \<leftarrow> blk_qc blk;
                 (_, nd) \<leftarrow> qcRefHeight env qc nd;
                 Some (None, nd)
               }
           }
       }
     }"

definition vld_onReceiveProposal :: "'s cons_env \<Rightarrow> u64 \<Rightarrow> block \<Rightarrow> 's node \<Rightarrow> (cons_error option \<times> 's node) option" where
  "vld_onReceiveProposal env rnd blk nd =
     (case Block_Validate (ce_crypto env) (nd_roles nd) blk of
        None \<Rightarrow> None
      | Some (rs, Some e) \<Rightarrow> Some (Some (BadMsg e), nd\<lparr>nd_roles := rs\<rparr>)
      | Some (rs, None) \<Rightarrow> do {
          (r, nd) \<leftarrow> syncParentBlock env blk (nd\<lparr>nd_roles := rs\<rparr>);
          case r of
            Inl e \<Rightarrow> Some (Some e, nd)
          | Inr _ \<Rightarrow> do {
              pk \<leftarrow> Proposer blk;
              (e, nd) \<leftarrow> SyncTxs env pk (blkTransactions (blk_data blk)) nd;
              case e of
                Some e \<Rightarrow> Some (Some e, nd)
              | None \<Rightarrow> do {
                  nd \<leftarrow> rot_onReceiveProposal blk (on_state (st_setBlock blk) nd);
                  if blk_view blk < st_view (nd_status nd) then Some (Some NotSameView, nd)
                  else do {
                    (c, nd) \<leftarrow> cmpQCPriority env (blk_qc blk) (Some (qcHigh (nd_status nd))) nd;
                    if c < 0 then Some (Some LowerQC, nd)
                    else do {
                      nd \<leftarrow> updateQCHigh env (blk_qc blk) nd;
                      voteProposal env rnd blk nd
                    }
                  }
                }
            }
        })"

definition vld_onReceiveVote :: "'s cons_env \<Rightarrow> vote \<Rightarrow> 's node \<Rightarrow> (cons_error option \<times> 's node) option" where
  "vld_onReceiveVote env v nd =
     (case Vote_Validate (ce_crypto env) (nd_roles nd) (Some (vote_data v)) of
        Some e \<Rightarrow> Some (Some (BadMsg e), nd)
      | None \<Rightarrow>
          if viewChange (nd_status nd) \<noteq> 0 then Some (Some ViewChanging, nd)
          else driver_onReceiveVote env v nd)"

section \<open>The pacemaker and the rotator\<close>

text \<open>The common end of \<^verbatim>\<open>newProposal\<close> and \<^verbatim>\<open>newViewProposal\<close>; the error of the own vote is ignored.\<close>

definition propose_and_vote :: "'s cons_env \<Rightarrow> u64 \<Rightarrow> block \<times> 's node \<Rightarrow> 's node option" where
  "propose_and_vote env rnd = (\<lambda>(blk, nd).
     do {
       nd \<leftarrow> updateQCHigh env (blk_qc blk) (send (BroadcastProposal blk) nd);
       q \<leftarrow> getVoteQuota rnd (nd_status nd);
       case q of
         Inl e \<Rightarrow> Some nd
       | Inr quota \<Rightarrow> map_option snd (driver_onReceiveVote env (Block_Vote (ce_crypto env) (ce_signer env) quota blk) nd)
     })"

definition newProposal :: "'s cons_env \<Rightarrow> u64 \<Rightarrow> u64 \<Rightarrow> 's node \<Rightarrow> 's node option" where
  "newProposal env now rnd nd =
     (if viewChange (nd_status nd) \<noteq> 0 then Some nd
      else if \<not> isLeader (priv_pubKey (ce_signer env)) nd then Some nd
      else Option.bind (createProposal env now (st_view (nd_status nd)) (bLeaf (nd_status nd)) (qcHigh (nd_status nd)) nd)
             (propose_and_vote env rnd))"

definition newViewProposal :: "'s cons_env \<Rightarrow> u64 \<Rightarrow> u64 \<Rightarrow> 's node \<Rightarrow> 's node option" where
  "newViewProposal env now rnd nd =
     (case getBlockByHash env (qc_hash (qc_data (qcHigh (nd_status nd)))) nd of
        (None, nd) \<Rightarrow> None
      | (Some parent, nd) \<Rightarrow>
          Option.bind (createProposal env now (st_view (nd_status nd)) parent (qcHigh (nd_status nd)) nd)
            (propose_and_vote env rnd))"

text \<open>The modulus panics when there is no validator; \<^verbatim>\<open>Equal\<close> on a nil leader does too.\<close>

definition nextLeaderIdx :: "'s node \<Rightarrow> u32 option" where
  "nextLeaderIdx nd =
     (let n = of_nat (ValidatorCount (nd_roles nd)) in if n = 0 then None else Some ((nd_oldView nd + 1) mod n))"

definition changeView :: "'s cons_env \<Rightarrow> 's node \<Rightarrow> 's node option" where
  "changeView env nd =
     do {
       nextIdx \<leftarrow> nextLeaderIdx nd;
       let nextLeader = GetValidator (nd_roles nd) (int (unat nextIdx));
       if nd_oldView nd = st_view (nd_status nd) then do {
         let nd = (on_status (\<lambda>s. s\<lparr>viewChange := 1\<rparr>) nd)\<lparr>nd_highQCCount := 0\<rparr>;
         leader \<leftarrow> nextLeader;
         if \<not> PublicKey_Equal (priv_pubKey (ce_signer env)) leader
         then Some (send (SendQC leader (qcHigh (nd_status nd))) nd)
         else Some (nd\<lparr>nd_highQCCount := 1\<rparr>)
       } else Some nd
     }"

definition onViewTimeout :: "'s cons_env \<Rightarrow> 's node \<Rightarrow> 's node option" where
  "onViewTimeout env nd = changeView env (nd\<lparr>nd_oldView := st_view (nd_status nd)\<rparr>)"

definition onLeaderTimeout :: "'s cons_env \<Rightarrow> 's node \<Rightarrow> 's node option" where
  "onLeaderTimeout env nd =
     do {
       nd \<leftarrow> changeView env (nd\<lparr>nd_timeoutCount := nd_timeoutCount nd + 1, nd_oldView := st_view (nd_status nd)\<rparr>);
       let faultyCount = int (ValidatorCount (nd_roles nd)) - int (MajorityValidatorCount (nd_roles nd));
       Some (if faultyCount < nd_timeoutCount nd then on_status (\<lambda>s. s\<lparr>viewChange := - 1\<rparr>) nd else nd)
     }"

definition enter_view :: "'s cons_env \<Rightarrow> 's node \<Rightarrow> 's node option" where
  "enter_view env nd =
     (if viewChange (nd_status nd) = 1 \<and> nd_oldView nd = st_view (nd_status nd) then do {
        let nd = on_status (\<lambda>s. s\<lparr>st_view := nd_oldView nd + 1\<rparr>) nd;
        nextIdx \<leftarrow> nextLeaderIdx nd;
        let nd = on_status (\<lambda>s. s\<lparr>leaderIndex := nextIdx\<rparr>) nd;
        (_, nd) \<leftarrow> qcRefHeight env (qcHigh (nd_status nd)) nd;
        Some nd
      } else Some nd)"

text \<open>The proposer of a certificate is its signature's key.\<close>

definition QC_Proposer :: "quorum_cert \<Rightarrow> public_key option" where
  "QC_Proposer qc = map_option sig_pubKey (qc_signature qc)"

definition rot_onReceiveQC :: "'s cons_env \<Rightarrow> u64 \<Rightarrow> u64 \<Rightarrow> quorum_cert \<Rightarrow> 's node \<Rightarrow> (cons_error option \<times> 's node) option" where
  "rot_onReceiveQC env now rnd qc nd =
     (case QC_Validate (ce_crypto env) (nd_roles nd) qc of
        None \<Rightarrow> None
      | Some (rs, Some e) \<Rightarrow> Some (Some (BadMsg e), nd\<lparr>nd_roles := rs\<rparr>)
      | Some (rs, None) \<Rightarrow> do {
          peer \<leftarrow> QC_Proposer qc;
          (r, nd) \<leftarrow> (case getBlockByHash env (qc_hash (qc_data qc)) (nd\<lparr>nd_roles := rs\<rparr>) of
                       (Some b, nd) \<Rightarrow> Some (Inr b, nd)
                     | (None, nd) \<Rightarrow> requestBlock env peer (qc_hash (qc_data qc)) nd);
          case r of
            Inl e \<Rightarrow> Some (Some e, nd)
          | Inr blk \<Rightarrow> do {
              (r, nd) \<leftarrow> syncParentBlock env blk nd;
              case r of
                Inl e \<Rightarrow> Some (Some e, nd)
              | Inr _ \<Rightarrow> do {
                  (e, nd) \<leftarrow> SyncTxs env peer (blkTransactions (blk_data blk)) nd;
                  case e of
                    Some e \<Rightarrow> Some (Some e, nd)
                  | None \<Rightarrow> do {
                      nd \<leftarrow> updateQCHigh env (Some qc) nd;
                      nd \<leftarrow> enter_view env nd;
                      let nd = nd\<lparr>nd_highQCCount := nd_highQCCount nd + 1\<rparr>;
                      nd \<leftarrow> (if int (MajorityValidatorCount (nd_roles nd)) \<le> nd_highQCCount nd \<and> isLeader (priv_pubKey (ce_signer env)) nd
                             then newViewProposal env now rnd nd else Some nd);
                      Some (None, nd)
                    }
                }
            }
        })"

end
