(* ===== verification/Cons_Genesis.thy ===== *)
theory Cons_Genesis
  imports Cons_Driver Executor
begin

text \<open>
  The genesis protocol (\<^verbatim>\<open>src/consensus/genesis.go\<close>) and the registry of built-in chaincodes
  (\<^verbatim>\<open>src/execution/common/util.go\<close>): the leader proposes a block with the three built-in deployments,
  collects the votes of all validators and broadcasts the certificate; the node goes on when the channel
  \<^verbatim>\<open>done\<close> is closed. A message handler is a step; a panic (closing a closed channel is one), a fatal log
  and not returning are \<open>None\<close>. JSON encoding, peers, execution and file errors are arguments; the files
  under the data directory are a map. A vote that completes the set leaves its goroutine in the loop of
  \<^verbatim>\<open>broadcastQC\<close> until \<^verbatim>\<open>done\<close>, in which no other vote is handled.
\<close>

section \<open>Built-in chaincodes\<close>

definition BuiltinCount :: nat where "BuiltinCount = 3"

definition FileCodeXCoin :: string where "FileCodeXCoin = ''xcoin''"
definition FileCodeTAddr :: string where "FileCodeTAddr = ''taddr''"
definition FileCodeSRole :: string where "FileCodeSRole = ''srole''"

definition CodeXCoin :: bytes where "CodeXCoin = replicate 32 4"
definition CodeTAddr :: bytes where "CodeTAddr = replicate 32 5"
definition CodeSRole :: bytes where "CodeSRole = replicate 32 6"

definition RegisterCode :: "string \<Rightarrow> bytes \<Rightarrow> (string \<rightharpoonup> bytes) \<Rightarrow> (string \<rightharpoonup> bytes) option" where
  "RegisterCode key addr codes = (if length addr \<noteq> 32 then None else Some (codes(key \<mapsto> addr)))"

definition GetCodeAddr :: "string \<Rightarrow> (string \<rightharpoonup> bytes) \<Rightarrow> bytes option" where
  "GetCodeAddr key codes = codes key"

text \<open>A write of a file; the argument says which files cannot be written, which is fatal.\<close>

definition DumpFile :: "(string \<Rightarrow> bool) \<Rightarrow> bytes \<Rightarrow> string \<Rightarrow> (string \<rightharpoonup> bytes) \<Rightarrow> (string \<rightharpoonup> bytes) option" where
  "DumpFile fails data file fs = (if fails file then None else Some (fs(file \<mapsto> data)))"

section \<open>State\<close>

record 's gns_env =
  ge_cons :: "'s cons_env"
  ge_ChainID :: u64
  ge_RequestQC :: "public_key \<Rightarrow> bytes \<Rightarrow> (string, quorum_cert) result"
  ge_marshal_xcoin :: "(string \<times> u64) list \<Rightarrow> bytes"
  ge_marshal_taddr :: "string list \<Rightarrow> bytes"
  ge_marshal_srole :: "int \<Rightarrow> (bytes \<times> u64 \<times> string \<times> string) list \<Rightarrow> bytes"
  ge_marshal_deploy :: "deployment_input \<Rightarrow> bytes"
  ge_file_fails :: "string \<Rightarrow> bool"

datatype gns_msg = GBroadcastProposal block | GSendVote public_key vote | GBroadcastQC quorum_cert | GSendQC public_key quorum_cert

text \<open>The genesis object with the components of the node it works on; \<^verbatim>\<open>votes\<close> is nil until the node proposes.\<close>

record 's gns =
  gs_votes :: "(string \<times> vote) list option"
  gs_b0 :: "block option"
  gs_q0 :: "quorum_cert option"
  gs_done :: bool
  gs_once :: bool
  gs_roles :: role_store
  gs_pool :: tx_pool
  gs_strg :: 's
  gs_codes :: "string \<rightharpoonup> bytes"
  gs_files :: "string \<rightharpoonup> bytes"
  gs_sent :: "gns_msg list"

abbreviation g_crypto :: "'s gns_env \<Rightarrow> crypto" where
  "g_crypto env \<equiv> ce_crypto (ge_cons env)"

abbreviation g_signer :: "'s gns_env \<Rightarrow> private_key" where
  "g_signer env \<equiv> ce_signer (ge_cons env)"

abbreviation g_send :: "gns_msg \<Rightarrow> 's gns \<Rightarrow> 's gns" where
  "g_send m st \<equiv> st\<lparr>gs_sent := gs_sent st @ [m]\<rparr>"

definition g_pool_view :: "'s gns_env \<Rightarrow> 's gns \<Rightarrow> pool_env" where
  "g_pool_view env st =
     \<lparr>pe_crypto = g_crypto env, pe_HasTx = HasTx (ce_strg (ge_cons env)) (gs_strg st),
      pe_VerifyTx = ce_VerifyTx (ge_cons env), pe_RequestTxList = ce_RequestTxList (ge_cons env)\<rparr>"

definition g_isLeader :: "role_store \<Rightarrow> public_key \<Rightarrow> bool" where
  "g_isLeader rs pk = (if \<not> IsValidator rs (keyStr pk) then False else GetValidatorIndex rs (keyStr pk) = 0)"

definition hashChainID :: "crypto \<Rightarrow> u64 \<Rightarrow> bytes" where
  "hashChainID c chainID = sha3 c (be_bytes 8 (unat chainID))"

text \<open>\<^verbatim>\<open>close(gns.done)\<close>, which panics when the channel is closed already, and the call under \<^verbatim>\<open>once\<close>.\<close>

definition close_done :: "'s gns \<Rightarrow> 's gns option" where
  "close_done st = (if gs_done st then None else Some (st\<lparr>gs_done := True\<rparr>))"

definition once_close :: "'s gns \<Rightarrow> 's gns option" where
  "once_close st = (if gs_once st then Some st else close_done (st\<lparr>gs_once := True\<rparr>))"

section \<open>Proposing\<close>

fun each_validator :: "(public_key \<Rightarrow> 'a option) \<Rightarrow> role_store \<Rightarrow> nat list \<Rightarrow> 'a list option" where
  "each_validator f rs [] = Some []"
| "each_validator f rs (i # is) =
     (case GetValidator rs (int i) of
        None \<Rightarrow> None
      | Some pk \<Rightarrow> Option.bind (f pk) (\<lambda>x. map_option (Cons x) (each_validator f rs is)))"

definition deploy_tx :: "'s gns_env \<Rightarrow> u64 \<Rightarrow> bytes \<Rightarrow> bytes \<Rightarrow> transaction" where
  "deploy_tx env nonce codeID init =
     (let input = ge_marshal_deploy env \<lparr>diCodeInfo = \<lparr>ciDriverType = 1, ciCodeID = codeID\<rparr>, diInstallData = [], diInitInput = init\<rparr>
      in Tx_Sign (g_crypto env) (g_signer env)
           (NewTransaction\<lparr>tx_data := (tx_data NewTransaction)\<lparr>txNonce := nonce, txInput := input\<rparr>\<rparr>))"

text \<open>The pairs of the first map are in the order of the validators; the error of \<^verbatim>\<open>StoreTxs\<close> is fatal.\<close>

definition genesisTxs :: "'s gns_env \<Rightarrow> u64 \<times> u64 \<times> u64 \<Rightarrow> 's gns \<Rightarrow> (bytes list \<times> 's gns) option" where
  "genesisTxs env nonces st =
     do {
       let rs = gs_roles st;
       let ids = [0..<ValidatorCount rs];
       values0 \<leftarrow> each_validator (\<lambda>pk. map_option (Pair (keyStr pk)) (GetValidatorQuota rs (keyStr pk))) rs ids;
       values1 \<leftarrow> each_validator (\<lambda>pk. Some (keyStr pk)) rs ids;
       peers \<leftarrow> each_validator (\<lambda>pk. do {
                  (point, topic) \<leftarrow> GetValidatorAddr rs (keyStr pk);
                  quota \<leftarrow> GetValidatorQuota rs (keyStr pk);
                  Some (pub_key pk, quota, point, topic)
                }) rs ids;
       let tx0 = deploy_tx env (fst nonces) CodeXCoin (ge_marshal_xcoin env values0);
       let tx1 = deploy_tx env (fst (snd nonces)) CodeTAddr (ge_marshal_taddr env values1);
       let tx2 = deploy_tx env (snd (snd nonces)) CodeSRole (ge_marshal_srole env (windowSize rs) peers);
       let txs = [tx0, tx1, tx2];
       let (missing, _) = storeTxs_list (g_pool_view env st) txs (gs_pool st);
       let (r, pool) = storeTxs (g_pool_view env st) (ce_sched (ge_cons env) missing (pl_store (gs_pool st))) txs (gs_pool st);
       if lr_panic r \<or> lr_result r \<noteq> Some None then None
       else Some (map tx_hash txs, st\<lparr>gs_pool := pool\<rparr>)
     }"

definition genesis_block :: "'s gns_env \<Rightarrow> bytes list \<Rightarrow> u64 \<Rightarrow> block" where
  "genesis_block env txs now =
     Block_Sign (g_crypto env) (g_signer env)
       \<lparr>blk_data = \<lparr>blkHash = [], blkView = 0, blkHeight = 0, blkParentHash = hashChainID (g_crypto env) (ge_ChainID env),
                    blkExecHeight = 0, blkMerkleRoot = [], blkTimestamp = now, blkTransactions = txs,
                    blkQuorumCert = None, blkSignature = None\<rparr>,
        blk_qc = None, blk_sig = None\<rparr>"

section \<open>Votes\<close>

text \<open>The votes are ranged over in the order \<open>ce_order\<close> gives their keys; one turn of \<^verbatim>\<open>broadcastQC\<close> is recorded.\<close>

definition g_broadcastQC :: "quorum_cert \<Rightarrow> 's gns \<Rightarrow> 's gns" where
  "g_broadcastQC qc st = (if gs_done st then st else g_send (GBroadcastQC qc) st)"

definition acceptVote :: "'s gns_env \<Rightarrow> vote \<Rightarrow> (string \<times> vote) list \<Rightarrow> 's gns \<Rightarrow> 's gns" where
  "acceptVote env v votes st =
     (let votes = AList.update (voter_str v) v votes;
          st = st\<lparr>gs_votes := Some votes\<rparr>
      in if length votes < ValidatorCount (gs_roles st) then st
         else let vlist = List.map_filter (map_of votes) (ce_order (ge_cons env) (map fst votes));
                  qc = QC_Build (g_crypto env) (g_signer env) vlist NewQuorumCert
              in g_broadcastQC qc (st\<lparr>gs_q0 := Some qc\<rparr>))"

datatype gns_error =
    GInvalid core_error | NotAcceptingVotes | LeftBehind string | DifferentChain | NotGenesisLeader | WrongTxCount nat
  | NotGenesisBlock | QCRefNotB0 | NoGenesisBlock | InvalidQCRef

definition g_onReceiveVote :: "'s gns_env \<Rightarrow> vote \<Rightarrow> 's gns \<Rightarrow> gns_error option \<times> 's gns" where
  "g_onReceiveVote env v st =
     (case gs_votes st of
        None \<Rightarrow> (Some NotAcceptingVotes, st)
      | Some votes \<Rightarrow>
         (case Vote_Validate (g_crypto env) (gs_roles st) (Some (vote_data v)) of
            Some e \<Rightarrow> (Some (GInvalid e), st)
          | None \<Rightarrow> (None, acceptVote env v votes st)))"

definition g_quota :: "'s gns_env \<Rightarrow> 's gns \<Rightarrow> u64 option" where
  "g_quota env st = map_option (\<lambda>q. (q + 1) div 2) (GetValidatorQuota (gs_roles st) (keyStr (priv_pubKey (g_signer env))))"

definition g_propose :: "'s gns_env \<Rightarrow> u64 \<times> u64 \<times> u64 \<Rightarrow> u64 \<Rightarrow> 's gns \<Rightarrow> 's gns option" where
  "g_propose env nonces now st =
     (if \<not> g_isLeader (gs_roles st) (priv_pubKey (g_signer env)) then Some st
      else do {
        (txs, st) \<leftarrow> genesisTxs env nonces (st\<lparr>gs_votes := Some []\<rparr>);
        let blk = genesis_block env txs now;
        let st = g_send (GBroadcastProposal blk) (st\<lparr>gs_b0 := Some blk\<rparr>);
        quota \<leftarrow> g_quota env st;
        Some (snd (g_onReceiveVote env (Block_Vote (g_crypto env) (g_signer env) quota blk) st))
      })"

section \<open>Proposals and certificates\<close>

definition g_requestBlock :: "'s gns_env \<Rightarrow> public_key \<Rightarrow> u64 \<Rightarrow> 's gns \<Rightarrow> ((gns_error, block) result \<times> 's gns) option" where
  "g_requestBlock env peer height st =
     (case ce_RequestBlockByHeight (ge_cons env) peer height of
        Inl e \<Rightarrow> Some (Inl (LeftBehind e), st)
      | Inr blk \<Rightarrow>
         (case Block_Validate (g_crypto env) (gs_roles st) blk of
            None \<Rightarrow> None
          | Some (rs, Some e) \<Rightarrow> Some (Inl (GInvalid e), st\<lparr>gs_roles := rs\<rparr>)
          | Some (rs, None) \<Rightarrow> Some (Inr blk, st\<lparr>gs_roles := rs\<rparr>)))"

definition g_requestQC :: "'s gns_env \<Rightarrow> public_key \<Rightarrow> bytes \<Rightarrow> 's gns \<Rightarrow> ((gns_error, quorum_cert) result \<times> 's gns) option" where
  "g_requestQC env peer hash st =
     (case ge_RequestQC env peer hash of
        Inl e \<Rightarrow> Some (Inl (LeftBehind e), st)
      | Inr qc \<Rightarrow>
         (case QC_Validate (g_crypto env) (gs_roles st) qc of
            None \<Rightarrow> None
          | Some (rs, Some e) \<Rightarrow> Some (Inl (GInvalid e), st\<lparr>gs_roles := rs\<rparr>)
          | Some (rs, None) \<Rightarrow> Some (Inr qc, st\<lparr>gs_roles := rs\<rparr>)))"

definition fetchGenesisBlockAndQC :: "'s gns_env \<Rightarrow> public_key \<Rightarrow> 's gns \<Rightarrow> (gns_error option \<times> 's gns) option" where
  "fetchGenesisBlockAndQC env peer st =
     do {
       (r, st) \<leftarrow> g_requestBlock env peer 0 st;
       case r of
         Inl e \<Rightarrow> Some (Some e, st)
       | Inr b0 \<Rightarrow>
           if blk_height b0 \<noteq> 0 then Some (Some NotGenesisBlock, st)
           else do {
             (r, st) \<leftarrow> g_requestQC env peer (blk_hash b0) st;
             case r of
               Inl e \<Rightarrow> Some (Some e, st)
             | Inr qc \<Rightarrow>
                 if blk_hash b0 \<noteq> qc_hash (qc_data qc) then Some (Some QCRefNotB0, st)
                 else map_option (Pair None) (once_close (st\<lparr>gs_b0 := Some b0, gs_q0 := Some qc\<rparr>))
           }
     }"

definition g_onReceiveProposal :: "'s gns_env \<Rightarrow> block \<Rightarrow> 's gns \<Rightarrow> (gns_error option \<times> 's gns) option" where
  "g_onReceiveProposal env blk st =
     (case Block_Validate (g_crypto env) (gs_roles st) blk of
        None \<Rightarrow> None
      | Some (rs, Some e) \<Rightarrow> Some (Some (GInvalid e), st\<lparr>gs_roles := rs\<rparr>)
      | Some (rs, None) \<Rightarrow> do {
          let st = st\<lparr>gs_roles := rs\<rparr>;
          pk \<leftarrow> Proposer blk;
          if blk_height blk \<noteq> 0 then fetchGenesisBlockAndQC env pk st
          else if hashChainID (g_crypto env) (ge_ChainID env) \<noteq> parent_hash blk then Some (Some DifferentChain, st)
          else if \<not> g_isLeader rs pk then Some (Some NotGenesisLeader, st)
          else if length (blkTransactions (blk_data blk)) \<noteq> BuiltinCount
            then Some (Some (WrongTxCount (length (blkTransactions (blk_data blk)))), st)
          else do {
            let st = st\<lparr>gs_b0 := Some blk\<rparr>;
            quota \<leftarrow> g_quota env st;
            Some (None, g_send (GSendVote pk (Block_Vote (g_crypto env) (g_signer env) quota blk)) st)
          }
        })"

definition acceptQC :: "'s gns_env \<Rightarrow> quorum_cert \<Rightarrow> block \<Rightarrow> 's gns \<Rightarrow> 's gns option" where
  "acceptQC env qc b0 st =
     (if gs_done st then Some st
      else do {
        let st = st\<lparr>gs_q0 := Some qc\<rparr>;
        st \<leftarrow> (if \<not> g_isLeader (gs_roles st) (priv_pubKey (g_signer env))
              then map_option (\<lambda>pk. g_send (GSendQC pk qc) st) (Proposer b0) else Some st);
        close_done st
      })"

definition g_onReceiveQC :: "'s gns_env \<Rightarrow> quorum_cert \<Rightarrow> 's gns \<Rightarrow> (gns_error option \<times> 's gns) option" where
  "g_onReceiveQC env qc st =
     (case QC_Validate (g_crypto env) (gs_roles st) qc of
        None \<Rightarrow> None
      | Some (rs, Some e) \<Rightarrow> Some (Some (GInvalid e), st\<lparr>gs_roles := rs\<rparr>)
      | Some (rs, None) \<Rightarrow>
         (let st = st\<lparr>gs_roles := rs\<rparr>
          in case gs_b0 st of
               None \<Rightarrow> Some (Some NoGenesisBlock, st)
             | Some b0 \<Rightarrow>
                 if blk_hash b0 \<noteq> qc_hash (qc_data qc) then Some (Some InvalidQCRef, st)
                 else map_option (Pair None) (acceptQC env qc b0 st)))"

section \<open>Running\<close>

definition dumpCodeFile :: "(string \<Rightarrow> bool) \<Rightarrow> transaction list \<Rightarrow> (string \<rightharpoonup> bytes) \<Rightarrow> (string \<rightharpoonup> bytes)
    \<Rightarrow> ((string \<rightharpoonup> bytes) \<times> (string \<rightharpoonup> bytes)) option" where
  "dumpCodeFile fails txs files codes =
     (case txs of
        tx0 # tx1 # tx2 # _ \<Rightarrow> do {
          files \<leftarrow> DumpFile fails (tx_hash tx0) FileCodeXCoin files;
          files \<leftarrow> DumpFile fails (tx_hash tx1) FileCodeTAddr files;
          files \<leftarrow> DumpFile fails (tx_hash tx2) FileCodeSRole files;
          codes \<leftarrow> RegisterCode FileCodeXCoin (tx_hash tx0) codes;
          codes \<leftarrow> RegisterCode FileCodeTAddr (tx_hash tx1) codes;
          codes \<leftarrow> RegisterCode FileCodeSRole (tx_hash tx1) codes;
          Some (files, codes)
        }
      | _ \<Rightarrow> None)"

definition g_commit :: "'s gns_env \<Rightarrow> 's gns \<Rightarrow> 's gns option" where
  "g_commit env st =
     do {
       let strg = ce_strg (ge_cons env);
       q0 \<leftarrow> gs_q0 st;
       let st = st\<lparr>gs_strg := fst (StoreQC strg q0 (gs_strg st))\<rparr>;
       b0 \<leftarrow> gs_b0 st;
       pk \<leftarrow> Proposer b0;
       let hashes = blkTransactions (blk_data b0);
       (e, pool) \<leftarrow> pool_SyncTxs (g_pool_view env st) (ce_sched (ge_cons env)) pk hashes (pl_store (gs_pool st));
       if e \<noteq> None then None
       else do {
         (txs, old, pool) \<leftarrow> getTxsToExecute (g_pool_view env st) hashes pool;
         if length txs \<noteq> BuiltinCount then None
         else do {
           let (bcm, txcs) = ce_Execute (ge_cons env) (gs_strg st) b0 txs;
           (files, codes) \<leftarrow> dumpCodeFile (ge_file_fails env) txs (gs_files st) (gs_codes st);
           (_, s, e) \<leftarrow> commit strg (ce_merkle (ge_cons env))
             \<lparr>cdBlock = b0, cdTransactions = txs, cdBlockCommit = bcm\<lparr>bcOldBlockTxs := old\<rparr>, cdTxCommits = txcs,
              cdMerkleUpdate = None\<rparr> (gs_strg st);
           if e \<noteq> None then None
           else map_option (\<lambda>pool. st\<lparr>gs_strg := s, gs_files := files, gs_codes := codes,
                                       gs_pool := (gs_pool st)\<lparr>pl_store := pool\<rparr>\<rparr>)
                  (removeTxs hashes pool)
         }
       }
     }"

text \<open>The three message loops, each event a turn of its loop, and the rebroadcasts of the leader.\<close>

datatype gns_event = GProposal block | GVote vote | GQC quorum_cert | GRebroadcast

definition vote_loop_busy :: "'s gns \<Rightarrow> bool" where
  "vote_loop_busy st \<longleftrightarrow> \<not> gs_done st \<and>
     (case gs_votes st of None \<Rightarrow> False | Some votes \<Rightarrow> ValidatorCount (gs_roles st) \<le> length votes)"

fun gns_step :: "'s gns_env \<Rightarrow> gns_event \<Rightarrow> 's gns \<Rightarrow> 's gns option" where
  "gns_step env (GProposal blk) st = map_option snd (g_onReceiveProposal env blk st)"
| "gns_step env (GVote v) st = (if vote_loop_busy st then Some st else Some (snd (g_onReceiveVote env v st)))"
| "gns_step env (GQC qc) st = map_option snd (g_onReceiveQC env qc st)"
| "gns_step env GRebroadcast st =
     (if gs_done st \<or> gs_votes st = None then Some st
      else case gs_q0 st of
             Some qc \<Rightarrow> Some (g_send (GBroadcastQC qc) st)
           | None \<Rightarrow> map_option (\<lambda>b. g_send (GBroadcastProposal b) st) (gs_b0 st))"

fun gns_loop :: "'s gns_env \<Rightarrow> gns_event list \<Rightarrow> 's gns \<Rightarrow> 's gns option" where
  "gns_loop env [] st = Some st"
| "gns_loop env (e # es) st = Option.bind (gns_step env e st) (gns_loop env es)"

text \<open>The run waits for \<^verbatim>\<open>done\<close>; with the events that arrive it may wait forever.\<close>

definition gns_run :: "'s gns_env \<Rightarrow> u64 \<times> u64 \<times> u64 \<Rightarrow> u64 \<Rightarrow> gns_event list \<Rightarrow> 's gns \<Rightarrow> 's gns option" where
  "gns_run env nonces now evs st =
     do {
       st \<leftarrow> g_propose env nonces now st;
       st \<leftarrow> gns_loop env evs st;
       if gs_done st then g_commit env st else None
     }"

end
