(* ===== verification/Cons_Setup.thy ===== *)
theory Cons_Setup
  imports Cons_Genesis
begin

text \<open>
  Starting and running the consensus (\<^verbatim>\<open>src/consensus/consensus.go\<close>): the blocks and the certificate it
  starts from, the status and the stake window, the loops of validator, rotator and pacemaker as steps
  of one node, and the status report. The genesis run is the one of \<open>Cons_Genesis\<close>. The stake window is
  part of the status here, which the code fills in two steps.
\<close>

section \<open>Start\<close>

record 's setup_env =
  se_gns :: "'s gns_env"
  se_nonces :: "u64 \<times> u64 \<times> u64"
  se_now :: u64
  se_events :: "gns_event list"
  se_VoteStrategy :: u8

text \<open>The files of the code directory; a file that cannot be read is fatal.\<close>

definition restoreCodeFile :: "(string \<rightharpoonup> bytes) \<Rightarrow> (string \<rightharpoonup> bytes) \<Rightarrow> (string \<rightharpoonup> bytes) option" where
  "restoreCodeFile files codes =
     do {
       xcoinAddr \<leftarrow> files FileCodeXCoin;
       taddrAddr \<leftarrow> files FileCodeTAddr;
       sroleAddr \<leftarrow> files FileCodeSRole;
       codes \<leftarrow> RegisterCode FileCodeXCoin xcoinAddr codes;
       codes \<leftarrow> RegisterCode FileCodeTAddr taddrAddr codes;
       RegisterCode FileCodeSRole sroleAddr codes
     }"

definition getInitialBlockAndQC :: "'s setup_env \<Rightarrow> 's gns \<Rightarrow> (block \<times> block \<times> quorum_cert \<times> 's gns) option" where
  "getInitialBlockAndQC env st =
     do {
       let strg = ce_strg (ge_cons (se_gns env));
       last \<leftarrow> getLastBlock (strgCodec strg) (strgPersist strg) (gs_strg st);
       case last of
         Inr exec \<Rightarrow>
          (case getLastQC (strgCodec strg) (strgPersist strg) (gs_strg st) of
             Inl e \<Rightarrow> None
           | Inr qc \<Rightarrow>
              (case getBlock (strgCodec strg) (strgPersist strg) (gs_strg st) (qc_hash (qc_data qc)) of
                 Inl e \<Rightarrow> None
               | Inr leaf \<Rightarrow> do {
                   codes \<leftarrow> restoreCodeFile (gs_files st) (gs_codes st);
                   Some (exec, leaf, qc, st\<lparr>gs_codes := codes\<rparr>)
                 }))
       | Inl e \<Rightarrow> do {
           st \<leftarrow> gns_run (se_gns env) (se_nonces env) (se_now env) (se_events env) st;
           b0 \<leftarrow> gs_b0 st;
           q0 \<leftarrow> gs_q0 st;
           Some (b0, b0, q0, st)
         }
     }"

definition empty_window :: window where
  "empty_window = \<lparr>qcQuotas_w = [], qcAcc = 0, voteQuotas = [], voteAcc = 0, w_majority = 0, w_limit = 0, w_height = 0,
     w_size = 0, w_strategy = 0, w_recover = False\<rparr>"

definition setupStatus :: "role_store \<Rightarrow> block \<Rightarrow> block \<Rightarrow> quorum_cert \<Rightarrow> status option" where
  "setupStatus rs exec leaf qc =
     map_option (\<lambda>pk.
       \<lparr>bExec = exec, bLeaf = leaf, qcHigh = qc, st_view = qcView (qc_data qc),
        leaderIndex = of_nat (GetValidatorIndex rs (keyStr pk)), viewChange = 0, st_proposal = None, st_votes = [],
        quotaCount_s = 0, st_window = empty_window\<rparr>) (QC_Proposer qc)"

text \<open>
  The loop of \<^verbatim>\<open>setupWindow\<close> from index \<open>i - 1\<close> down: it follows the certificates back; a certificate whose
  block is not found is a nil dereference.
\<close>

fun window_loop :: "'s cons_env \<Rightarrow> nat \<Rightarrow> quorum_cert option \<Rightarrow> window \<Rightarrow> 's node \<Rightarrow> (window \<times> 's node) option" where
  "window_loop env 0 qc w nd = Some (w, nd)"
| "window_loop env (Suc i) None w nd = Some (w, nd)"
| "window_loop env (Suc i) (Some qc) w nd =
     do {
       v \<leftarrow> FindVote (ce_signer env) qc;
       let w = w\<lparr>qcQuotas_w := (qcQuotas_w w)[i := qc_quota qc], qcAcc := qcAcc w + qc_quota qc,
                 voteQuotas := (voteQuotas w)[i := v], voteAcc := voteAcc w + v\<rparr>;
       case getBlockByHash env (qc_hash (qc_data qc)) nd of
         (None, nd) \<Rightarrow> None
       | (Some b, nd) \<Rightarrow> window_loop env i (blk_qc b) w nd
     }"

definition setupWindow :: "'s cons_env \<Rightarrow> u8 \<Rightarrow> quorum_cert \<Rightarrow> 's node \<Rightarrow> 's node option" where
  "setupWindow env strategy qc nd =
     do {
       let rs = nd_roles nd;
       let sz = windowSize rs;
       if sz < 0 then None
       else do {
         limit \<leftarrow> GetValidatorQuota rs (keyStr (priv_pubKey (ce_signer env)));
         (height, nd) \<leftarrow> qcRefHeight env qc nd;
         let w = \<lparr>qcQuotas_w = replicate (nat sz) 0, qcAcc = 0, voteQuotas = replicate (nat sz) 0, voteAcc = 0,
                  w_majority = MajorityQuotaCount rs, w_limit = limit, w_height = height, w_size = sz,
                  w_strategy = strategy, w_recover = False\<rparr>;
         (w, nd) \<leftarrow> window_loop env (nat sz) (Some qc) w nd;
         Some (on_status (\<lambda>s. s\<lparr>st_window := w\<rparr>) nd)
       }
     }"

definition cons_start :: "'s setup_env \<Rightarrow> 's gns \<Rightarrow> ('s node \<times> 's gns) option" where
  "cons_start env st =
     do {
       (exec, leaf, qc, st) \<leftarrow> getInitialBlockAndQC env st;
       let state = st_setQC qc (st_setBlock leaf newState);
       status \<leftarrow> setupStatus (gs_roles st) exec leaf qc;
       let nd = \<lparr>nd_status = status, nd_state = state, nd_roles = gs_roles st, nd_pool = pl_store (gs_pool st),
                 nd_strg = gs_strg st, nd_isExisted = False, nd_timeoutCount = 0, nd_highQCCount = 0, nd_oldView = 0,
                 nd_commits = [], nd_sent = []\<rparr>;
       nd \<leftarrow> setupWindow (ge_cons (se_gns env)) (se_VoteStrategy env) qc nd;
       Some (nd, st)
     }"

section \<open>The loops\<close>

text \<open>One turn of each loop; errors are logged. The wait for transactions before a proposal changes nothing.\<close>

definition proposalLoop_turn :: "'s cons_env \<Rightarrow> u64 \<Rightarrow> block \<Rightarrow> 's node \<Rightarrow> 's node option" where
  "proposalLoop_turn env rnd blk nd = map_option snd (vld_onReceiveProposal env rnd blk nd)"

definition voteLoop_turn :: "'s cons_env \<Rightarrow> vote \<Rightarrow> 's node \<Rightarrow> 's node option" where
  "voteLoop_turn env v nd = map_option snd (vld_onReceiveVote env v nd)"

definition newViewLoop_turn :: "'s cons_env \<Rightarrow> u64 \<Rightarrow> u64 \<Rightarrow> quorum_cert \<Rightarrow> 's node \<Rightarrow> 's node option" where
  "newViewLoop_turn env now rnd qc nd = map_option snd (rot_onReceiveQC env now rnd qc nd)"

datatype rot_timer = ViewTimer | LeaderTimer

fun timerLoop_turn :: "'s cons_env \<Rightarrow> rot_timer \<Rightarrow> 's node \<Rightarrow> 's node option" where
  "timerLoop_turn env ViewTimer nd = onViewTimeout env nd"
| "timerLoop_turn env LeaderTimer nd = onLeaderTimeout env nd"

definition pacemaker_turn :: "'s cons_env \<Rightarrow> u64 \<Rightarrow> u64 \<Rightarrow> 's node \<Rightarrow> 's node option" where
  "pacemaker_turn env now rnd nd = newProposal env now rnd nd"

datatype cons_event =
    ProposalArrives u64 block
  | VoteArrives vote
  | QCArrives u64 u64 quorum_cert
  | TimerExpires rot_timer
  | ProposeTriggered u64 u64

fun cons_step :: "'s cons_env \<Rightarrow> cons_event \<Rightarrow> 's node \<Rightarrow> 's node option" where
  "cons_step env (ProposalArrives rnd blk) nd = proposalLoop_turn env rnd blk nd"
| "cons_step env (VoteArrives v) nd = voteLoop_turn env v nd"
| "cons_step env (QCArrives now rnd qc) nd = newViewLoop_turn env now rnd qc nd"
| "cons_step env (TimerExpires t) nd = timerLoop_turn env t nd"
| "cons_step env (ProposeTriggered now rnd) nd = pacemaker_turn env now rnd nd"

fun cons_run :: "'s cons_env \<Rightarrow> cons_event list \<Rightarrow> 's node \<Rightarrow> 's node option" where
  "cons_run env [] nd = Some nd"
| "cons_run env (e # es) nd = Option.bind (cons_step env e nd) (cons_run env es)"

section \<open>Reports\<close>

record cons_report =
  rp_committedTxCount :: u64
  rp_BlockPoolSize :: nat
  rp_QCPoolSize :: nat
  rp_BLeaf :: u64
  rp_BExec :: u64
  rp_View :: u32
  rp_LeaderIndex :: u32
  rp_ViewChange :: int
  rp_QCHigh :: u64

definition getStatus :: "'s cons_env \<Rightarrow> 's node \<Rightarrow> (cons_report \<times> 's node) option" where
  "getStatus env nd =
     do {
       let s = nd_status nd;
       let st = nd_state nd;
       (h, nd) \<leftarrow> qcRefHeight env (qcHigh s) nd;
       Some (\<lparr>rp_committedTxCount = committedTxCount st, rp_BlockPoolSize = getBlockPoolSize st,
              rp_QCPoolSize = getQCPoolSize st, rp_BLeaf = blk_height (bLeaf s), rp_BExec = blk_height (bExec s),
              rp_View = st_view s, rp_LeaderIndex = leaderIndex s, rp_ViewChange = viewChange s, rp_QCHigh = h\<rparr>, nd)
     }"

text \<open>
  Stopping: the tester flushes its writer, which is nil unless a benchmark path is configured, so the
  argument says whether there is one. The last certificate is broadcast at the end.
\<close>

definition cons_stop :: "bool \<Rightarrow> 's node \<Rightarrow> (quorum_cert \<times> 's node) option" where
  "cons_stop benchmark nd = (if \<not> benchmark then None else Some (qcHigh (nd_status nd), nd\<lparr>nd_isExisted := True\<rparr>))"

end
