(* ===== verification/Cons_Genesis_Props.thy ===== *)
theory Cons_Genesis_Props
  imports Cons_Setup Core_Props Storage_Props
begin

text \<open>
  What the genesis protocol and the start of the consensus guarantee: until it commits the genesis
  protocol leaves the storage alone, and when it ends the node has a genesis block and a valid
  certificate for it. The registry of built-in chaincodes it leaves is not the one a restart restores.
\<close>

section \<open>Steps\<close>

text \<open>What a step of the protocol keeps: the storage, and that the block has height zero.\<close>

definition g_inv :: "'s \<Rightarrow> public_key list \<Rightarrow> 's gns \<Rightarrow> bool" where
  "g_inv s vs st \<longleftrightarrow> gs_strg st = s \<and> validators (gs_roles st) = vs \<and> (\<forall>b. gs_b0 st = Some b \<longrightarrow> blk_height b = 0)"

text \<open>The block and the certificate of a node that has finished.\<close>

definition certified :: "crypto \<Rightarrow> public_key list \<Rightarrow> 's gns \<Rightarrow> bool" where
  "certified c vs st \<longleftrightarrow> (\<exists>b q rs rs'. gs_b0 st = Some b \<and> gs_q0 st = Some q \<and> blk_height b = 0 \<and> qc_hash (qc_data q) = blk_hash b \<and>
     QC_Validate c rs q = Some (rs', None) \<and> validators rs = vs)"

lemma QC_Validate_validators: "QC_Validate c rs qc = Some (rs', e) \<Longrightarrow> validators rs' = validators rs"
  by (auto simp: QC_Validate_def DecAndGetGrace_def Let_def split: if_splits option.splits sum.splits)

lemma Block_Validate_validators: "Block_Validate c rs blk = Some (rs', e) \<Longrightarrow> validators rs' = validators rs"
  by (auto simp: Block_Validate_def Let_def split: if_splits option.splits sum.splits prod.splits dest: QC_Validate_validators)

lemma g_requestBlock_safe [safe_rules]:
  assumes "\<And>r rs. validators rs = validators (gs_roles st) \<Longrightarrow> P (r, st\<lparr>gs_roles := rs\<rparr>)"
  shows "safe P (g_requestBlock env peer h st)"
  using assms [of "gs_roles st"] assms [OF Block_Validate_validators]
  by (auto simp: g_requestBlock_def split: sum.split option.split)

lemma g_requestQC_safe [safe_rules]:
  assumes P: "\<And>r rs. validators rs = validators (gs_roles st) \<Longrightarrow>
    (\<And>q. r = Inr q \<Longrightarrow> QC_Validate (g_crypto env) (gs_roles st) q = Some (rs, None)) \<Longrightarrow> P (r, st\<lparr>gs_roles := rs\<rparr>)"
  shows "safe P (g_requestQC env peer h st)"
proof (cases "ge_RequestQC env peer h")
  case (Inl e)
  with P [of "gs_roles st" "Inl (LeftBehind e)"] show ?thesis by (simp add: g_requestQC_def)
next
  case (Inr qc)
  show ?thesis
  proof (rule safe_pure)
    fix x assume "g_requestQC env peer h st = Some x"
    with Inr QC_Validate_validators [of "g_crypto env" "gs_roles st" qc] show "P x"
      by (auto simp: g_requestQC_def split: option.splits intro!: P)
  qed
qed

text \<open>What a handler does to a node in this state.\<close>

definition g_turn :: "crypto \<Rightarrow> 's \<Rightarrow> public_key list \<Rightarrow> 's gns \<Rightarrow> 's gns \<Rightarrow> bool" where
  "g_turn c s vs st st' \<longleftrightarrow> g_inv s vs st' \<and> (\<not> gs_done st \<and> gs_done st' \<longrightarrow> certified c vs st')"

lemma fetch_turn:
  assumes "g_inv s vs st"
  shows "safe (\<lambda>x. g_turn (g_crypto env) s vs st (snd x)) (fetchGenesisBlockAndQC env peer st)"
  unfolding fetchGenesisBlockAndQC_def
  using assms by (auto simp: g_turn_def g_inv_def once_close_def close_done_def certified_def split: sum.split intro!: safe_rules)
    metis

lemma proposal_turn:
  assumes "g_inv s vs st"
  shows "safe (\<lambda>x. g_turn (g_crypto env) s vs st (snd x)) (g_onReceiveProposal env blk st)"
proof -
  have inv: "g_inv s vs (st\<lparr>gs_roles := rs\<rparr>)" if "Block_Validate (g_crypto env) (gs_roles st) blk = Some (rs, e)" for rs e
    using assms Block_Validate_validators [OF that] by (simp add: g_inv_def)
  show ?thesis
    unfolding g_onReceiveProposal_def Let_def
    using inv fetch_turn [OF inv, of _ _ env] by (auto simp: g_turn_def g_inv_def split: option.split
      intro!: safe_rules safe_pure [where m = "Proposer a" for a] safe_pure [where m = "g_quota a b" for a b])
qed

lemma qc_turn:
  assumes "g_inv s vs st"
  shows "safe (\<lambda>x. g_turn (g_crypto env) s vs st (snd x)) (g_onReceiveQC env qc st)"
proof (rule safe_pure)
  fix x assume r: "g_onReceiveQC env qc st = Some x"
  obtain rs e where v: "QC_Validate (g_crypto env) (gs_roles st) qc = Some (rs, e)"
    using r by (cases "QC_Validate (g_crypto env) (gs_roles st) qc") (auto simp: g_onReceiveQC_def)
  with r assms QC_Validate_validators [OF v] show "g_turn (g_crypto env) s vs st (snd x)"
    by (auto simp: g_onReceiveQC_def acceptQC_def close_done_def Let_def bind_eq_Some_conv g_turn_def g_inv_def certified_def
      split: option.splits if_splits) metis+
qed

lemma vote_turn: "g_inv s vs st \<Longrightarrow> g_turn c s vs st (snd (g_onReceiveVote env v st)) \<and> gs_done (snd (g_onReceiveVote env v st)) = gs_done st"
  by (auto simp: g_onReceiveVote_def acceptVote_def g_broadcastQC_def Let_def g_turn_def g_inv_def split: option.split)

lemma gns_step_turn:
  assumes "g_inv s vs st"
  shows "safe (g_turn (g_crypto env) s vs st) (gns_step env ev st)"
proof (cases ev)
  case (GProposal blk)
  with proposal_turn [OF assms] show ?thesis by simp
next
  case (GQC qc)
  with qc_turn [OF assms] show ?thesis by simp
next
  case (GVote v)
  with vote_turn [OF assms] assms show ?thesis by (simp add: g_turn_def)
qed (use assms in \<open>auto simp: g_turn_def g_inv_def split: option.split intro!: safe_pure\<close>)

lemma gns_loop_inv: "g_inv s vs st \<Longrightarrow> safe (g_inv s vs) (gns_loop env evs st)"
proof (induction evs arbitrary: st)
  case (Cons ev evs)
  from gns_step_turn [OF Cons.prems, of env ev] Cons.IH show ?case
    by (auto simp: safe_def bind_eq_Some_conv g_turn_def)
qed simp

lemma genesisTxs_frame: "safe (\<lambda>x. \<exists>pool. snd x = st\<lparr>gs_pool := pool\<rparr>) (genesisTxs env nonces st)"
  unfolding genesisTxs_def Let_def by (auto split: prod.split intro!: safe_rules safe_pure [where m = "each_validator a b c" for a b c])

lemma genesis_block_height: "blk_height (genesis_block env txs now) = 0"
  by (simp add: genesis_block_def Block_Sign_def Let_def)

lemma g_propose_inv:
  assumes "g_inv s vs st"
  shows "safe (g_inv s vs) (g_propose env nonces now st)"
proof (rule safe_pure)
  fix st' assume p: "g_propose env nonces now st = Some st'"
  show "g_inv s vs st'"
  proof (cases "st' = st")
    case False
    with p obtain txs st1 blk quota where "genesisTxs env nonces (st\<lparr>gs_votes := Some []\<rparr>) = Some (txs, st1)"
      and st': "st' = snd (g_onReceiveVote env (Block_Vote (g_crypto env) (g_signer env) quota blk)
        (g_send (GBroadcastProposal blk) (st1\<lparr>gs_b0 := Some blk\<rparr>)))" and "blk = genesis_block env txs now"
      by (auto simp: g_propose_def bind_eq_Some_conv Let_def split: if_splits)
    then have "g_inv s vs (g_send (GBroadcastProposal blk) (st1\<lparr>gs_b0 := Some blk\<rparr>))"
      using assms genesisTxs_frame [of "st\<lparr>gs_votes := Some []\<rparr>" env nonces] by (auto simp: g_inv_def genesis_block_height)
    from vote_turn [OF this] show ?thesis unfolding st' g_turn_def by blast
  qed (use assms in simp)
qed


text \<open>An observer and one validator, whose block and certificate arrive.\<close>

definition ex_observer :: private_key where
  "ex_observer = \<lparr>priv_key = replicate 64 2, priv_pubKey = \<lparr>pub_key = replicate 32 2, keyStr = b64_encode (replicate 32 2)\<rparr>\<rparr>"

definition ex_cons_env :: "private_key \<Rightarrow> 's storage \<Rightarrow> 's cons_env" where
  "ex_cons_env signer strg =
     \<lparr>ce_crypto = ex_crypto, ce_signer = signer, ce_BlockTxLimit = 5, ce_strg = strg, ce_merkle = (\<lambda>_ ns. ns), ce_VerifyTx = (\<lambda>_. None),
      ce_Execute = (\<lambda>s b txs. (\<lparr>bcHash = blk_hash b, bcOldBlockTxs = [], bcStateChanges = [], bcLeafCount = [], bcMerkleRoot = None\<rparr>, [])),
      ce_RequestTxList = (\<lambda>_ _. Inl ''offline''), ce_RequestBlock = (\<lambda>_ _. Inl ''offline''),
      ce_RequestBlockByHeight = (\<lambda>_ _. Inl ''offline''), ce_sched = (\<lambda>_ _. [Recv]), ce_order = (\<lambda>x. x)\<rparr>"

definition ex_gns_env :: "(bytes \<Rightarrow> bytes option) level_store gns_env" where
  "ex_gns_env =
     \<lparr>ge_cons = ex_cons_env ex_observer ex_strg,
      ge_ChainID = 0, ge_RequestQC = (\<lambda>_ _. Inl ''offline''), ge_marshal_xcoin = (\<lambda>_. []), ge_marshal_taddr = (\<lambda>_. []),
      ge_marshal_srole = (\<lambda>_ _. []), ge_marshal_deploy = (\<lambda>_. []), ge_file_fails = (\<lambda>_. False)\<rparr>"

definition ex_gns :: "(bytes \<Rightarrow> bytes option) level_store gns" where
  "ex_gns = \<lparr>gs_votes = None, gs_b0 = None, gs_q0 = None, gs_done = False, gs_once = False, gs_roles = ex_roles,
     gs_pool = newTxPool False, gs_strg = empty_ls, gs_codes = (\<lambda>_. None), gs_files = (\<lambda>_. None), gs_sent = []\<rparr>"

definition ex_genesis :: block where
  "ex_genesis = genesis_block (ex_gns_env\<lparr>ge_cons := ex_cons_env ex_priv ex_strg\<rparr>) [[1], [2], [3]] 0"

abbreviation ex_cert :: "block \<Rightarrow> quorum_cert" where
  "ex_cert blk \<equiv> QC_Build ex_crypto ex_priv [Block_Vote ex_crypto ex_priv 3 blk] NewQuorumCert"

lemma ex_grace [simp]: "fst (DecAndGetGrace ex_roles) = ex_roles"
  by (simp add: DecAndGetGrace_def ex_roles_def)

lemma ex_cert_valid: "QC_Validate ex_crypto ex_roles (ex_cert blk) = Some (ex_roles, None)"
proof -
  have "Vote_setData (vote_data (Block_Vote ex_crypto ex_priv 3 blk)) = Inr (Block_Vote ex_crypto ex_priv 3 blk)"
    "Vote_Validate ex_crypto ex_roles (Some (vote_data (Block_Vote ex_crypto ex_priv 3 blk))) = None"
    using sign_newSignature [OF ex_priv_ok] sign_verify [OF ex_priv_ok ex_laws] ex_validator
    by (simp_all add: Block_Vote_def Let_def Vote_Validate_def Vote_setData_def)
  then show ?thesis
    using QC_Build_valid [OF ex_laws ex_priv_ok ex_validator, of "[Block_Vote ex_crypto ex_priv 3 blk]"] ex_majority by simp
qed

lemma ex_sign_valid:
  assumes "blk_qc blk = None \<or> blk_qc blk = Some (ex_cert b)"
  shows "Block_Validate ex_crypto ex_roles (Block_Sign ex_crypto ex_priv blk) = Some (ex_roles, None)"
proof -
  have "Block_Sum c (d\<lparr>blkHash := x, blkSignature := y\<rparr>) = Block_Sum c d" for c d x y by (simp add: Block_Sum_def)
  with assms show ?thesis
    using sign_newSignature [OF ex_priv_ok] sign_verify [OF ex_priv_ok ex_laws] ex_validator ex_cert_valid [of b]
    by (auto simp: Block_Validate_def Block_Sign_def Let_def)
qed

lemma ex_leader: "g_isLeader ex_roles ex_pub" "\<not> g_isLeader ex_roles (priv_pubKey ex_observer)"
  using ex_validator
  by (simp_all add: g_isLeader_def GetValidatorIndex_def ex_roles_def ex_priv_def IsValidator_def ex_observer_def ex_pub_def
    replicate_eq_replicate)

lemma ex_genesis_valid:
  "Block_Validate ex_crypto ex_roles ex_genesis = Some (ex_roles, None)" "Proposer ex_genesis = Some ex_pub" "blk_height ex_genesis = 0"
  "parent_hash ex_genesis = hashChainID ex_crypto 0" "length (blkTransactions (blk_data ex_genesis)) = BuiltinCount"
proof -
  show "Block_Validate ex_crypto ex_roles ex_genesis = Some (ex_roles, None)"
    unfolding ex_genesis_def genesis_block_def by (simp add: ex_cons_env_def) (rule ex_sign_valid, simp)
  show "Proposer ex_genesis = Some ex_pub" "blk_height ex_genesis = 0"
    "parent_hash ex_genesis = hashChainID ex_crypto 0" "length (blkTransactions (blk_data ex_genesis)) = BuiltinCount"
    by (simp_all add: ex_genesis_def genesis_block_def Block_Sign_def Let_def Proposer_def ex_cons_env_def ex_priv_def ex_gns_env_def BuiltinCount_def)
qed

lemma ex_cert_hash: "qc_hash (qc_data (ex_cert blk)) = blk_hash blk"
  by (simp add: QC_Build_def Build_step_def NewQuorumCert_def Let_def qc_hash_def Block_Vote_def)


section \<open>The registry\<close>

text \<open>C32. After genesis the role chaincode is registered under the hash of the address chaincode, while the
  files, and so a node that restarts from them, have the hash of its own deployment: the two registries
  agree exactly when the two deployments have the same hash.\<close>

theorem genesis_code_restart:
  assumes "dumpCodeFile fails [tx0, tx1, tx2] files codes = Some (files', codes')" and "length (tx_hash tx2) = 32"
  shows "\<exists>codes''. restoreCodeFile files' codes = Some codes'' \<and> GetCodeAddr FileCodeSRole codes' = Some (tx_hash tx1) \<and>
    GetCodeAddr FileCodeSRole codes'' = Some (tx_hash tx2) \<and> (codes'' = codes' \<longleftrightarrow> tx_hash tx1 = tx_hash tx2)"
proof -
  have names: "FileCodeXCoin \<noteq> FileCodeSRole" "FileCodeTAddr \<noteq> FileCodeSRole" "FileCodeXCoin \<noteq> FileCodeTAddr"
    by (simp_all add: FileCodeXCoin_def FileCodeTAddr_def FileCodeSRole_def)
  let ?base = "codes(FileCodeXCoin \<mapsto> tx_hash tx0, FileCodeTAddr \<mapsto> tx_hash tx1)"
  have dump: "files' = files(FileCodeXCoin \<mapsto> tx_hash tx0, FileCodeTAddr \<mapsto> tx_hash tx1, FileCodeSRole \<mapsto> tx_hash tx2)"
    "codes' = ?base(FileCodeSRole \<mapsto> tx_hash tx1)" "length (tx_hash tx0) = 32" "length (tx_hash tx1) = 32"
    using assms(1) by (simp_all add: dumpCodeFile_def DumpFile_def RegisterCode_def bind_eq_Some_conv split: if_splits)
  have "restoreCodeFile files' codes = Some (?base(FileCodeSRole \<mapsto> tx_hash tx2))"
    using names assms(2) dump(3,4) by (simp add: restoreCodeFile_def RegisterCode_def dump(1))
  moreover have "?base(FileCodeSRole \<mapsto> tx_hash tx2) = ?base(FileCodeSRole \<mapsto> tx_hash tx1) \<longleftrightarrow> tx_hash tx1 = tx_hash tx2"
    by (metis map_upd_eqD1)
  ultimately show ?thesis by (simp add: GetCodeAddr_def dump(2))
qed

theorem genesis_code_restart_witness:
  "let tx = (\<lambda>b. NewTransaction\<lparr>tx_data := (tx_data NewTransaction)\<lparr>txHash := replicate 32 b\<rparr>\<rparr>)
   in \<exists>files codes codes'. dumpCodeFile (\<lambda>_. False) [tx 1, tx 2, tx 3] (\<lambda>_. None) (\<lambda>_. None) = Some (files, codes) \<and>
     restoreCodeFile files (\<lambda>_. None) = Some codes' \<and> GetCodeAddr FileCodeSRole codes \<noteq> GetCodeAddr FileCodeSRole codes'"
proof -
  define tx where "tx = (\<lambda>b. NewTransaction\<lparr>tx_data := (tx_data NewTransaction)\<lparr>txHash := replicate 32 b\<rparr>\<rparr>)"
  have h: "tx_hash (tx b) = replicate 32 b" for b by (simp add: tx_def)
  obtain files codes where d: "dumpCodeFile (\<lambda>_. False) [tx 1, tx 2, tx 3] (\<lambda>_. None) (\<lambda>_. None) = Some (files, codes)"
    by (simp add: dumpCodeFile_def DumpFile_def RegisterCode_def h)
  from genesis_code_restart [OF d] d show ?thesis unfolding Let_def tx_def [symmetric] by (auto simp: h)
qed

end
