(* ===== verification/Cons_Window.thy ===== *)
theory Cons_Window
  imports Cons_Status
begin

text \<open>
  The stake window: its running sums are exact, and a validator that follows the average or the random
  strategy never spends more than its stake over a window.
\<close>

section \<open>Running sums\<close>

definition window_ok :: "window \<Rightarrow> bool" where
  "window_ok w \<longleftrightarrow> 0 < w_size w \<and> w_size w < 2 ^ 63 \<and>
     int (length (qcQuotas_w w)) = w_size w \<and> int (length (voteQuotas w)) = w_size w \<and>
     qcAcc w = sum_list (qcQuotas_w w) \<and> voteAcc w = sum_list (voteQuotas w)"

lemma window_ok_cons:
  assumes "window_ok w"
  obtains q0 qs v0 vs where "qcQuotas_w w = q0 # qs" "voteQuotas w = v0 # vs"
  using assms by (cases "qcQuotas_w w"; cases "voteQuotas w") (auto simp: window_ok_def)

lemma window_update_ok:
  assumes ok: "window_ok w"
  shows "\<exists>w'. window_update qc v height w = Some w' \<and> window_ok w' \<and>
    w_size w' = w_size w \<and> w_limit w' = w_limit w \<and> w_strategy w' = w_strategy w \<and>
    voteQuotas w' = (if w_height w < height then tl (voteQuotas w) @ [v] else voteQuotas w) \<and>
    qcQuotas_w w' = (if w_height w < height then tl (qcQuotas_w w) @ [qc] else qcQuotas_w w)"
proof -
  obtain q0 qs v0 vs where eq: "qcQuotas_w w = q0 # qs" "voteQuotas w = v0 # vs" using window_ok_cons [OF ok] .
  show ?thesis using ok by (auto simp: window_update_def eq window_ok_def)
qed

section \<open>Spending\<close>

text \<open>The sum of the votes as a number, without wrapping around.\<close>

definition spent :: "u64 list \<Rightarrow> nat" where
  "spent vs = sum_list (map unat vs)"

lemma spent_simps [simp]: "spent [] = 0" "spent (v # vs) = unat v + spent vs" "spent (vs @ [v]) = spent vs + unat v"
  by (simp_all add: spent_def)

lemma unat_sum_list: "spent vs < 2 ^ 64 \<Longrightarrow> unat (sum_list vs) = spent vs"
  by (induction vs) (simp_all add: unat_word_ariths)

text \<open>
  Within its stake: the whole window costs at most the limit, and with the average strategy no vote costs
  more than its share.
\<close>

definition stake_ok :: "window \<Rightarrow> bool" where
  "stake_ok w \<longleftrightarrow> window_ok w \<and> unat (w_limit w) < 2 ^ 62 \<and> spent (voteQuotas w) \<le> unat (w_limit w) \<and>
     (w_strategy w = RandomVote \<or>
      w_strategy w = AverageVote \<and> (\<forall>v \<in> set (voteQuotas w). unat v \<le> unat (w_limit w) div nat (w_size w)))"

lemma spent_share: "\<forall>v \<in> set vs. unat v \<le> m \<Longrightarrow> spent vs \<le> length vs * m"
  by (induction vs) auto

lemma unat_clamp:
  assumes "unat x \<le> 2 ^ 62" "unat y \<le> 2 ^ 62"
  shows "unat (clamp (x - y)) = unat x - unat y"
  using assms by (simp add: clamp_def sint_neg_iff unat_diff) linarith

text \<open>A vote of either strategy fits into what is left of the stake.\<close>

lemma average_within:
  assumes ok: "stake_ok w" and st: "w_strategy w = AverageVote"
  shows "\<exists>q. window_vote rnd w = Some (q, True) \<and> unat q = unat (w_limit w) div nat (w_size w) \<and>
    spent (tl (voteQuotas w)) + unat q \<le> unat (w_limit w)"
proof -
  let ?n = "of_int (w_size w) :: u64" and ?share = "unat (w_limit w) div nat (w_size w)"
  have w: "window_ok w" "0 < w_size w" "w_size w < 2 ^ 63" using ok by (simp_all add: stake_ok_def window_ok_def)
  have n: "unat ?n = nat (w_size w)"
    using w by (simp add: unat_eq_nat_uint uint_word_of_int)
  then have n0: "?n \<noteq> 0" using w by auto
  obtain v0 vs where vs: "voteQuotas w = v0 # vs" using window_ok_cons [OF w(1)] .
  have "\<forall>v \<in> set vs. unat v \<le> ?share" using ok st vs by (simp add: stake_ok_def AverageVote_def RandomVote_def)
  then have "spent vs \<le> length vs * ?share" by (rule spent_share)
  moreover have "length vs + 1 = nat (w_size w)" using w(1) vs by (simp add: window_ok_def) linarith
  moreover have "nat (w_size w) * ?share \<le> unat (w_limit w)" by simp
  ultimately have "spent vs + ?share \<le> unat (w_limit w)"
    by (metis add_mult_distrib nat_mult_1 le_trans add_le_cancel_right)
  then show ?thesis using st n0 vs by (simp add: window_vote_def average_quota_def Let_def unat_div n)
qed

lemma random_within:
  assumes ok: "stake_ok w" and st: "w_strategy w = RandomVote"
  shows "\<exists>q. window_vote rnd w = Some (q, True) \<and> spent (tl (voteQuotas w)) + unat q \<le> unat (w_limit w)"
proof -
  let ?l = "unat (w_limit w)"
  have w: "window_ok w" and l: "?l < 2 ^ 62" "spent (voteQuotas w) \<le> ?l" using ok by (simp_all add: stake_ok_def)
  obtain v0 vs where vs: "voteQuotas w = v0 # vs" using window_ok_cons [OF w] .
  have acc: "unat (voteAcc w) = unat v0 + spent vs" using w l vs unat_sum_list [of "voteQuotas w"] by (simp add: window_ok_def)
  then have pre: "unat (voteAcc w - v0) = spent vs" by (simp add: unat_diff)
  show ?thesis
  proof (cases "50 < w_height w")
    case True
    let ?q = "w_limit w - voteAcc w + v0"
    have "unat (w_limit w - voteAcc w) = ?l - (unat v0 + spent vs)" using l vs acc by (simp add: unat_diff)
    then have "unat ?q = ?l - spent vs" using l vs by (simp add: unat_word_ariths)
    then show ?thesis using True st vs l
      by (simp add: window_vote_def Let_def PreserveTxFlag_def RandomVote_def AverageVote_def oldest_vote_def)
  next
    case False
    define hi lo where "hi = clamp ((3 * w_limit w + 3) div 4 - (voteAcc w - v0))"
      and "lo = clamp ((w_limit w + 1) div 2 - (voteAcc w - v0))"
    have "unat (3 * w_limit w + 3) = 3 * ?l + 3" "unat (w_limit w + 1) = ?l + 1" using l by (simp_all add: unat_word_ariths)
    then have b: "unat ((3 * w_limit w + 3) div 4) = (3 * ?l + 3) div 4" "unat ((w_limit w + 1) div 2) = (?l + 1) div 2"
      by (simp_all add: unat_div)
    have h: "unat hi = (3 * ?l + 3) div 4 - spent vs" "unat lo = (?l + 1) div 2 - spent vs"
      using l vs unat_clamp [of "(3 * w_limit w + 3) div 4" "voteAcc w - v0"] unat_clamp [of "(w_limit w + 1) div 2" "voteAcc w - v0"]
      by (simp_all add: hi_def lo_def b pre)
    have le: "unat lo \<le> unat hi" unfolding h by (intro diff_le_mono) linarith
    have hib: "unat hi < 2 ^ 62" unfolding h using l by linarith
    have m: "unat (hi - lo + 1) = unat hi - unat lo + 1" using le hib by (simp add: unat_word_ariths unat_diff)
    define q where "q = rnd mod (hi - lo + 1) + lo"
    have "unat (rnd mod (hi - lo + 1)) < unat hi - unat lo + 1" by (simp add: unat_mod m)
    then have "unat q \<le> unat hi" using le hib by (simp add: q_def unat_word_ariths)
    moreover have "hi - lo + 1 \<noteq> 0" using m by auto
    then have "window_vote rnd w = Some (q, True)" using False st vs
      by (simp add: window_vote_def Let_def RandomVote_def AverageVote_def oldest_vote_def hi_def lo_def q_def)
    moreover have "spent vs + ((3 * ?l + 3) div 4 - spent vs) \<le> ?l" using l vs by simp
    ultimately show ?thesis using vs h by (intro exI [of _ q]) simp
  qed
qed

text \<open>One round: a vote is cast and, counted or not, enters the window with a certificate.\<close>

lemma stake_round:
  assumes ok: "stake_ok w"
  shows "\<exists>q. window_vote rnd w = Some (q, True) \<and>
    (\<forall>v \<in> {q, 0}. \<exists>w'. window_update qc v height w = Some w' \<and> stake_ok w' \<and> w_limit w' = w_limit w)"
proof -
  have w: "window_ok w" using ok by (simp add: stake_ok_def)
  obtain q where q: "window_vote rnd w = Some (q, True)" "spent (tl (voteQuotas w)) + unat q \<le> unat (w_limit w)"
    "w_strategy w = AverageVote \<Longrightarrow> unat q = unat (w_limit w) div nat (w_size w)"
  proof (cases "w_strategy w = AverageVote")
    case True
    then show ?thesis using average_within [OF ok True, of rnd] that by blast
  next
    case False
    then have "w_strategy w = RandomVote" using ok by (auto simp: stake_ok_def)
    then show ?thesis using random_within [OF ok, of rnd] that False by blast
  qed
  have "\<exists>w'. window_update qc v height w = Some w' \<and> stake_ok w' \<and> w_limit w' = w_limit w" if v: "v = q \<or> v = 0" for v
  proof -
    from window_update_ok [OF w, of qc v height] obtain w' where w':
      "window_update qc v height w = Some w'" "window_ok w'" "w_size w' = w_size w" "w_limit w' = w_limit w"
      "w_strategy w' = w_strategy w"
      "voteQuotas w' = (if w_height w < height then tl (voteQuotas w) @ [v] else voteQuotas w)" by blast
    have "spent (voteQuotas w') \<le> unat (w_limit w)" using q(2) v ok by (auto simp: w'(6) stake_ok_def)
    moreover have "unat x \<le> unat (w_limit w) div nat (w_size w)" if "w_strategy w = AverageVote" "x \<in> set (voteQuotas w')" for x
      using that ok v q(3) list.set_sel(2) [of "voteQuotas w" x]
      by (cases "voteQuotas w") (auto simp: w'(6) stake_ok_def AverageVote_def RandomVote_def split: if_splits)
    ultimately have "stake_ok w'" using ok w' unfolding stake_ok_def by auto
    with w' show ?thesis by blast
  qed
  with q(1) show ?thesis by blast
qed

section \<open>Runs\<close>

text \<open>
  Rounds of a validator: each has a random number, whether the vote is counted, the certificate's quota
  and the height of the block.
\<close>

fun vote_rounds :: "(u64 \<times> bool \<times> u64 \<times> u64) list \<Rightarrow> window \<Rightarrow> window option" where
  "vote_rounds [] w = Some w"
| "vote_rounds ((rnd, counted, qc, height) # rs) w =
     (case window_vote rnd w of
        Some (q, True) \<Rightarrow> Option.bind (window_update qc (if counted then q else 0) height w) (vote_rounds rs)
      | Some (q, False) \<Rightarrow> Option.bind (window_update qc 0 height w) (vote_rounds rs)
      | None \<Rightarrow> None)"

lemma vote_rounds_ok:
  "stake_ok w \<Longrightarrow> \<exists>w'. vote_rounds rs w = Some w' \<and> stake_ok w' \<and> w_limit w' = w_limit w"
proof (induction rs arbitrary: w)
  case (Cons r rs)
  obtain rnd counted qc height where r: "r = (rnd, counted, qc, height)" by (cases r)
  from stake_round [OF Cons.prems, of rnd qc height] obtain q where q: "window_vote rnd w = Some (q, True)"
    and upd: "\<And>v. v \<in> {q, 0} \<Longrightarrow> \<exists>w'. window_update qc v height w = Some w' \<and> stake_ok w' \<and> w_limit w' = w_limit w" by blast
  have "(if counted then q else 0) \<in> {q, 0}" by simp
  from upd [OF this] obtain w' where
    w': "window_update qc (if counted then q else 0) height w = Some w'" "stake_ok w'" "w_limit w' = w_limit w" by blast
  from Cons.IH [OF w'(2)] w' q show ?case by (auto simp: r)
qed simp


definition ex_window :: window where
  "ex_window = \<lparr>qcQuotas_w = [0, 0, 0, 0], qcAcc = 0, voteQuotas = [0, 0, 0, 0], voteAcc = 0, w_majority = 50,
     w_limit = 10, w_height = 0, w_size = 4, w_strategy = RandomVote, w_recover = False\<rparr>"

lemma ex_window_ok: "stake_ok ex_window"
  by (simp add: stake_ok_def window_ok_def ex_window_def)


end
