(* ===== verification/Cons_Safety.thy ===== *)
theory Cons_Safety
  imports Cons_Genesis_Props Storage_Props Tx_Pool_Props Cons_Window "HOL-Library.Sublist"
begin

text \<open>
  What a node commits: over any sequence of messages, timeouts and proposals, the blocks that the driver
  hands to the storage form one chain of parent hashes that only grows, and the view of the high
  certificate never goes back.
\<close>

section \<open>Stored blocks\<close>

text \<open>
  What LevelDB documents of a write, successful or not: it is atomic, so every key keeps its value or is
  the key of the write and has the new value.
\<close>

definition put_atomic :: "'s persist \<Rightarrow> bool" where
  "put_atomic p \<longleftrightarrow> (\<forall>k v s s' e k'. pPut p k v s = (s', e) \<longrightarrow>
     pGet p s' k' = pGet p s k' \<or> k' = k \<and> pGet p s' k' = Inr v)"

definition stored_ok :: "'s storage \<Rightarrow> 's \<Rightarrow> bool" where
  "stored_ok strg s \<longleftrightarrow> (\<forall>h b. getBlock (strgCodec strg) (strgPersist strg) s h = Inr b \<longrightarrow> blk_hash b = h)"

definition db_laws :: "'s storage \<Rightarrow> bool" where
  "db_laws strg \<longleftrightarrow> put_atomic (strgPersist strg) \<and> codec_laws (strgCodec strg)"

text \<open>A write that keeps every stored block under its hash.\<close>

definition keeps_blocks :: "'s storage \<Rightarrow> 's updateFunc \<Rightarrow> bool" where
  "keeps_blocks strg fn \<longleftrightarrow> (\<forall>s. stored_ok strg s \<longrightarrow> stored_ok strg (fst (fn s)))"

lemma keeps_put:
  assumes "put_atomic (strgPersist strg)" and "b \<noteq> 1"
  shows "keeps_blocks strg (pPut (strgPersist strg) (b # x) v)"
  unfolding keeps_blocks_def stored_ok_def
proof (intro allI impI)
  fix s h blk
  assume ok: "\<forall>h b. getBlock (strgCodec strg) (strgPersist strg) s h = Inr b \<longrightarrow> blk_hash b = h"
    and get: "getBlock (strgCodec strg) (strgPersist strg) (fst (pPut (strgPersist strg) (b # x) v s)) h = Inr blk"
  have "pGet (strgPersist strg) (fst (pPut (strgPersist strg) (b # x) v s)) (1 # h) = pGet (strgPersist strg) s (1 # h)"
    using assms by (metis list.inject prod.collapse put_atomic_def)
  then have "getBlock (strgCodec strg) (strgPersist strg) s h = Inr blk"
    using get by (simp add: getBlock_def concatBytes_def convertPrefix_def)
  with ok show "blk_hash blk = h" by blast
qed

lemma keeps_put_msg:
  assumes "put_atomic (strgPersist strg)" and "b \<noteq> 1"
  shows "keeps_blocks strg (put_msg (strgPersist strg) (b # x) m)"
  using keeps_put [OF assms, of x] by (auto simp: keeps_blocks_def put_msg_def split: sum.split)

lemma keeps_put_block:
  assumes laws: "db_laws strg"
  shows "keeps_blocks strg (setBlockByHash (strgCodec strg) (strgPersist strg) blk)"
  unfolding keeps_blocks_def stored_ok_def
proof (intro allI impI)
  let ?p = "strgPersist strg" and ?c = "strgCodec strg"
  fix s h b
  assume ok: "\<forall>h b. getBlock ?c ?p s h = Inr b \<longrightarrow> blk_hash b = h"
    and get: "getBlock ?c ?p (fst (setBlockByHash ?c ?p blk s)) h = Inr b"
  have key: "setBlockByHash ?c ?p blk = put_msg ?p (1 # blk_hash blk) (m_block ?c (blk_data blk))"
    by (simp add: setBlockByHash_def concatBytes_def convertPrefix_def)
  show "blk_hash b = h"
  proof (cases "m_block ?c (blk_data blk)")
    case (Inl e)
    then show ?thesis using ok get by (simp add: key put_msg_def)
  next
    case (Inr v)
    let ?s' = "fst (pPut ?p (1 # blk_hash blk) v s)"
    have "pGet ?p ?s' (1 # h) = pGet ?p s (1 # h) \<or> 1 # h = 1 # blk_hash blk \<and> pGet ?p ?s' (1 # h) = Inr v"
      using laws unfolding db_laws_def put_atomic_def by (metis prod.collapse)
    then show ?thesis
    proof
      assume "pGet ?p ?s' (1 # h) = pGet ?p s (1 # h)"
      then have "getBlock ?c ?p s h = Inr b" using get Inr by (simp add: key put_msg_def getBlock_def concatBytes_def convertPrefix_def)
      with ok show ?thesis by blast
    next
      assume new: "1 # h = 1 # blk_hash blk \<and> pGet ?p ?s' (1 # h) = Inr v"
      then have "Block_Unmarshal ?c v = Inr b" using get Inr by (auto simp: key put_msg_def getBlock_def concatBytes_def convertPrefix_def)
      moreover have "u_block ?c v = Inr (blk_data blk)" using laws Inr by (simp add: db_laws_def codec_laws_def)
      ultimately have "blk_data b = blk_data blk"
        by (auto simp: Block_Unmarshal_def Block_setData_def split: sum.splits option.splits)
      with new show ?thesis by simp
    qed
  qed
qed

lemma keeps_update: "\<forall>fn \<in> set fns. keeps_blocks strg fn \<Longrightarrow> keeps_blocks strg (updateLevelDB fns)"
proof (induction fns)
  case (Cons fn fns)
  show ?case
    unfolding keeps_blocks_def
  proof (intro allI impI)
    fix s assume "stored_ok strg s"
    then have "stored_ok strg (fst (fn s))" using Cons.prems by (simp add: keeps_blocks_def)
    with Cons show "stored_ok strg (fst (updateLevelDB (fn # fns) s))"
      by (auto simp: keeps_blocks_def Let_def split: prod.split option.split)
  qed
qed (simp add: keeps_blocks_def)

lemma keeps_writes:
  assumes laws: "db_laws strg"
  shows "keeps_blocks strg (StoreBlock strg blk)" "keeps_blocks strg (StoreQC strg qc)"
    "keeps_blocks strg (writeChainData strg data)" "keeps_blocks strg (writeBlockCommit strg data)"
    "keeps_blocks strg (setCommittedBlockHeight strg n)"
    "keeps_blocks strg (updateLevelDB (commitStateChanges (strgPersist strg) scs @ ms_commitUpdate (strgPersist strg) upd))"
proof -
  have at: "put_atomic (strgPersist strg)" using laws by (simp add: db_laws_def)
  note put = keeps_put [OF at] keeps_put_msg [OF at] keeps_put_block [OF laws] and unf = concatBytes_def convertPrefix_def
  have blk: "\<forall>fn \<in> set (setBlock (strgCodec strg) (strgPersist strg) blk). keeps_blocks strg fn" for blk
    using put by (simp add: setBlock_def setBlockHashByHeight_def unf)
  show "keeps_blocks strg (StoreBlock strg blk)" using blk by (simp add: StoreBlock_def keeps_update)
  show "keeps_blocks strg (StoreQC strg qc)" unfolding StoreQC_def
    by (rule keeps_update) (use put in \<open>simp add: setQC_def setQCByBlockHash_def setLastQCBlockHash_def unf\<close>)
  have "\<forall>fn \<in> set (setTxs (strgCodec strg) (strgPersist strg) txs @ setTxCommits (strgCodec strg) (strgPersist strg) txcs). keeps_blocks strg fn" for txs txcs
    using put by (auto simp: setTxs_def setTx_def setTxCommits_def setTxCommit_def unf)
  then show "keeps_blocks strg (writeChainData strg data)"
    unfolding writeChainData_def Let_def using blk [of "cdBlock data"] by (intro keeps_update) auto
  show "keeps_blocks strg (writeBlockCommit strg data)" unfolding writeBlockCommit_def
    by (rule keeps_update) (use put in \<open>simp add: setBlockCommit_def unf\<close>)
  show "keeps_blocks strg (setCommittedBlockHeight strg n)" unfolding setCommittedBlockHeight_def
    by (rule keeps_update) (use put in \<open>simp add: setBlockHeight_def unf\<close>)
  show "keeps_blocks strg (updateLevelDB (commitStateChanges (strgPersist strg) scs @ ms_commitUpdate (strgPersist strg) upd))"
    by (rule keeps_update) (use put in \<open>auto simp: commitStateChanges_def commitStateChange_def ss_setState_def setTreeIndex_def
      ms_commitUpdate_def ms_setNodes_def ms_setNode_def ms_setLeafCount_def ms_setTreeHeight_def unf\<close>)
qed

lemma commit_keeps_blocks:
  assumes laws: "db_laws strg" and ok: "stored_ok strg s" and c: "commit strg sched data s = Some (data', s', e)"
  shows "stored_ok strg s'"
proof -
  note k = keeps_writes [OF laws, unfolded keeps_blocks_def, rule_format]
  obtain d where w: "writeCommitData strg d s = Some (s', e)"
    using c by (auto simp: commit_def split: option.splits prod.splits if_splits)
  obtain s1 e1 where s1: "writeChainData strg d s = (s1, e1)" by fastforce
  with k(3) [OF ok, of d] have ok1: "stored_ok strg s1" by simp
  obtain s2 e2 where s2: "writeBlockCommit strg d s1 = (s2, e2)" by fastforce
  with k(4) [OF ok1, of d] have ok2: "stored_ok strg s2" by simp
  have ok3: "stored_ok strg s3" if "writeStateMerkleTree strg d s2 = Some (s3, e3)" for s3 e3
    using that ok2 k(6) [OF ok2] by (auto simp: writeStateMerkleTree_def split: if_splits option.splits) (metis fst_conv)
  have ok4: "stored_ok strg s4" if "setCommittedBlockHeight strg n s3 = (s4, e4)" "stored_ok strg s3" for n s3 s4 e4
    using k(5) [OF that(2), of n] that(1) by simp
  from w s1 s2 ok1 ok2 show ?thesis
    by (cases e1; cases e2) (auto simp: writeCommitData_def dest: ok3 ok4 split: option.splits prod.splits)
qed

section \<open>The commit log\<close>

text \<open>A list of blocks that continues the block with hash \<open>g\<close> parent by parent, and the hash it ends in.\<close>

fun linked :: "bytes \<Rightarrow> block list \<Rightarrow> bool" where
  "linked g [] \<longleftrightarrow> True"
| "linked g (b # bs) \<longleftrightarrow> parent_hash b = g \<and> linked (blk_hash b) bs"

definition tip :: "bytes \<Rightarrow> block list \<Rightarrow> bytes" where
  "tip g bs = (if bs = [] then g else blk_hash (last bs))"

lemma tip_simps [simp]: "tip g [] = g" "tip g (bs @ [b]) = blk_hash b" "tip g (b # bs) = tip (blk_hash b) bs"
  by (auto simp: tip_def)

lemma linked_append: "linked g (bs @ cs) \<longleftrightarrow> linked g bs \<and> linked (tip g bs) cs"
  by (induction bs arbitrary: g) auto

lemma tip_append: "tip g (bs @ cs) = tip (tip g bs) cs"
  by (induction bs arbitrary: g) auto

definition blocks_ok :: "'s cons_env \<Rightarrow> 's node \<Rightarrow> bool" where
  "blocks_ok env nd \<longleftrightarrow> (\<forall>h b. map_of (cs_blocks (nd_state nd)) h = Some b \<longrightarrow> blk_hash b = h) \<and>
     stored_ok (ce_strg env) (nd_strg nd)"

lemma lookup_hash: "blocks_ok env nd \<Longrightarrow> getBlockByHash env h nd = (Some b, nd') \<Longrightarrow> blk_hash b = h"
  by (auto simp: blocks_ok_def stored_ok_def getBlockByHash_def st_getBlock_def split: option.splits sum.splits)

text \<open>
  What every handler keeps of a node that is not stopped, relative to the node it started from: blocks
  are found under their hashes, the log has grown to a chain that ends in the executed block, and the
  view of the high certificate has not gone back.
\<close>

definition node_inv :: "'s cons_env \<Rightarrow> 's node \<Rightarrow> 's node \<Rightarrow> bool" where
  "node_inv env nd0 nd \<longleftrightarrow> blocks_ok env nd \<and> \<not> nd_isExisted nd \<and>
     (\<exists>bs. nd_commits nd = nd_commits nd0 @ bs \<and> linked (blk_hash (bExec (nd_status nd0))) bs \<and>
        tip (blk_hash (bExec (nd_status nd0))) bs = blk_hash (bExec (nd_status nd))) \<and>
     qcView (qc_data (qcHigh (nd_status nd0))) \<le> qcView (qc_data (qcHigh (nd_status nd)))"

lemma node_inv_frame:
  assumes "node_inv env nd0 nd" and "blocks_ok env nd'" and "nd_isExisted nd' = nd_isExisted nd"
    and "nd_commits nd' = nd_commits nd" and "blk_hash (bExec (nd_status nd')) = blk_hash (bExec (nd_status nd))"
    and "qcView (qc_data (qcHigh (nd_status nd))) \<le> qcView (qc_data (qcHigh (nd_status nd')))"
  shows "node_inv env nd0 nd'"
  using assms by (auto simp: node_inv_def)

lemma blocks_ok_simps [simp]:
  "blocks_ok env (nd\<lparr>nd_roles := r\<rparr>) = blocks_ok env nd" "blocks_ok env (nd\<lparr>nd_pool := q\<rparr>) = blocks_ok env nd"
  "blocks_ok env (nd\<lparr>nd_sent := m\<rparr>) = blocks_ok env nd" "blocks_ok env (nd\<lparr>nd_status := s\<rparr>) = blocks_ok env nd"
  "blocks_ok env (nd\<lparr>nd_timeoutCount := i\<rparr>) = blocks_ok env nd" "blocks_ok env (nd\<lparr>nd_highQCCount := i\<rparr>) = blocks_ok env nd"
  "blocks_ok env (nd\<lparr>nd_oldView := v\<rparr>) = blocks_ok env nd" "blocks_ok env (nd\<lparr>nd_commits := c\<rparr>) = blocks_ok env nd"
  by (simp_all add: blocks_ok_def)

lemma blocks_ok_setBlock: "blocks_ok env nd \<Longrightarrow> blocks_ok env (on_state (st_setBlock b) nd)"
  by (auto simp: blocks_ok_def st_setBlock_def update_conv' split: if_splits)

lemma node_inv_simps [simp]:
  "node_inv env nd0 (nd\<lparr>nd_roles := r\<rparr>) = node_inv env nd0 nd" "node_inv env nd0 (nd\<lparr>nd_pool := q\<rparr>) = node_inv env nd0 nd"
  "node_inv env nd0 (nd\<lparr>nd_sent := m\<rparr>) = node_inv env nd0 nd"
  "node_inv env nd0 (nd\<lparr>nd_timeoutCount := i\<rparr>) = node_inv env nd0 nd" "node_inv env nd0 (nd\<lparr>nd_highQCCount := i\<rparr>) = node_inv env nd0 nd"
  "node_inv env nd0 (nd\<lparr>nd_oldView := v\<rparr>) = node_inv env nd0 nd"
  by (simp_all add: node_inv_def)

lemma node_inv_status:
  "bExec s = bExec (nd_status nd) \<Longrightarrow> qcHigh s = qcHigh (nd_status nd) \<Longrightarrow> node_inv env nd0 nd \<Longrightarrow> node_inv env nd0 (nd\<lparr>nd_status := s\<rparr>)"
  by (simp add: node_inv_def)

lemma node_inv_setBlock: "node_inv env nd0 nd \<Longrightarrow> node_inv env nd0 (on_state (st_setBlock b) nd)"
  using blocks_ok_setBlock by (auto simp: node_inv_def)

lemma node_inv_setQC: "node_inv env nd0 nd \<Longrightarrow> node_inv env nd0 (on_state (st_setQC qc) nd)"
  by (simp add: node_inv_def blocks_ok_def st_setQC_def)

lemma node_inv_lookup:
  assumes "getBlockByHash env h nd = (r, nd')"
  shows "node_inv env nd0 nd \<Longrightarrow> node_inv env nd0 nd'" "blocks_ok env nd \<Longrightarrow> blocks_ok env nd'" "nd_status nd' = nd_status nd"
    "nd_commits nd' = nd_commits nd" "nd_isExisted nd' = nd_isExisted nd" "nd_strg nd' = nd_strg nd" "nd_roles nd' = nd_roles nd"
  using assms node_inv_setBlock blocks_ok_setBlock by (auto simp: getBlockByHash_def split: option.splits sum.splits)

section \<open>Commit\<close>

text \<open>Cleaning up only takes blocks out of the pool.\<close>

definition cleaned :: "'s node \<Rightarrow> 's node \<Rightarrow> bool" where
  "cleaned nd nd' \<longleftrightarrow> nd_status nd' = nd_status nd \<and> nd_strg nd' = nd_strg nd \<and> nd_commits nd' = nd_commits nd \<and>
     nd_isExisted nd' = nd_isExisted nd \<and>
     (\<forall>h b. map_of (cs_blocks (nd_state nd')) h = Some b \<longrightarrow> map_of (cs_blocks (nd_state nd)) h = Some b)"

lemma cleaned_trans: "cleaned nd nd' \<Longrightarrow> cleaned nd' nd'' \<Longrightarrow> cleaned nd nd''"
  by (simp add: cleaned_def)

lemma cleaned_fold:
  assumes step: "\<And>x nd. cleaned nd (f x nd)"
  shows "cleaned nd (fold f xs nd)"
proof (induction xs arbitrary: nd)
  case (Cons x xs)
  from cleaned_trans [OF step Cons.IH] show ?case by simp
qed (simp add: cleaned_def)

lemma cleaned_clean:
  assumes "cleanStateOnCommitted blk nd = Some nd'"
  shows "cleaned nd nd'"
proof -
  have f: "cleaned nd (forget_block b nd)" for b and nd :: "'a node"
    by (auto simp: cleaned_def forget_block_def deleteBlock_def deleteQC_def delete_conv' split: if_splits)
  define dl where "dl = (\<lambda>b (nd :: 'a node). on_state (deleteCommitted (blk_hash b) \<circ> deleteBlock (blk_hash b)) nd)"
  have d: "cleaned nd (dl b nd)" for b and nd :: "'a node"
    by (auto simp: dl_def cleaned_def deleteBlock_def deleteCommitted_def delete_conv' split: if_splits)
  from assms obtain pool where pool: "removeTxs (blkTransactions (blk_data blk)) (nd_pool nd) = Some pool"
    by (cases "removeTxs (blkTransactions (blk_data blk)) (nd_pool nd)") (simp_all add: cleanStateOnCommitted_def Let_def PreserveTxFlag_def)
  define nd1 where "nd1 = on_state (setCommittedBlock blk) ((on_state (deleteQC (blk_hash blk)) nd)\<lparr>nd_pool := pool\<rparr>)"
  define nd2 where "nd2 = fold forget_block (getUncommittedOlderBlocks blk (nd_state nd1)) nd1"
  have "nd' = (if blk_height blk < 20 then nd2 else fold dl (getOlderBlocks (blk_height blk) (nd_state nd2)) nd2)"
    using assms pool by (simp add: cleanStateOnCommitted_def Let_def PreserveTxFlag_def nd1_def nd2_def dl_def split: if_splits)
  moreover have "cleaned nd nd1" by (simp add: nd1_def cleaned_def setCommittedBlock_def deleteQC_def)
  then have c2: "cleaned nd nd2" unfolding nd2_def by (rule cleaned_trans) (rule cleaned_fold [OF f])
  then have "cleaned nd (fold dl xs nd2)" for xs by (rule cleaned_trans) (rule cleaned_fold [OF d])
  ultimately show ?thesis using c2 by simp
qed

lemma driver_commit_log:
  assumes laws: "db_laws (ce_strg env)" and ok: "blocks_ok env nd" "\<not> nd_isExisted nd" and c: "driver_commit env blk nd = Some nd'"
  shows "blocks_ok env nd' \<and> \<not> nd_isExisted nd' \<and> nd_commits nd' = nd_commits nd @ [blk] \<and> nd_status nd' = nd_status nd"
proof -
  from c ok(2) obtain txs old pool where
    t: "getTxsToExecute (pool_view env nd) (blkTransactions (blk_data blk)) (nd_pool nd) = Some (txs, old, pool)"
    by (auto simp: driver_commit_def bind_eq_Some_conv)
  obtain bcm txcs where x: "ce_Execute env (nd_strg nd) blk txs = (bcm, txcs)" by fastforce
  define data where "data = \<lparr>cdBlock = blk, cdTransactions = txs, cdBlockCommit = bcm\<lparr>bcOldBlockTxs := old\<rparr>, cdTxCommits = txcs, cdMerkleUpdate = None\<rparr>"
  from c ok(2) t x obtain data' s where com: "commit (ce_strg env) (ce_merkle env) data (nd_strg nd) = Some (data', s, None)"
    and cl: "cleanStateOnCommitted blk (on_state (addCommittedTxCount (length txs))
      (nd\<lparr>nd_pool := pool, nd_strg := s, nd_commits := nd_commits nd @ [blk]\<rparr>)) = Some nd'"
    by (auto simp: driver_commit_def bind_eq_Some_conv data_def split: option.splits)
  define nd1 where nd1: "nd1 = on_state (addCommittedTxCount (length txs)) (nd\<lparr>nd_pool := pool, nd_strg := s, nd_commits := nd_commits nd @ [blk]\<rparr>)"
  note cl = cl [folded nd1]
  have "stored_ok (ce_strg env) s" using commit_keeps_blocks [OF laws _ com] ok(1) by (simp add: blocks_ok_def)
  with ok(1) have "blocks_ok env nd1" by (simp add: nd1 blocks_ok_def addCommittedTxCount_def)
  with cleaned_clean [OF cl] ok(2) show ?thesis by (auto simp: cleaned_def blocks_ok_def nd1)
qed

lemma onCommit_log:
  assumes "onCommit env blk nd = Some nd'" and "db_laws (ce_strg env)" "blocks_ok env nd" "\<not> nd_isExisted nd"
  shows "blocks_ok env nd' \<and> \<not> nd_isExisted nd' \<and> nd_status nd' = nd_status nd \<and>
    (\<exists>b bs. blk = Some b \<and> nd_commits nd' = nd_commits nd @ bs \<and> linked (blk_hash (bExec (nd_status nd))) bs \<and>
       tip (blk_hash (bExec (nd_status nd))) bs = blk_hash b)"
  using assms(2-4)
proof (induction rule: onCommit.raw_induct [OF _ assms(1)])
  case (1 onCom env blk nd nd')
  let ?g = "blk_hash (bExec (nd_status nd))"
  note laws = 1(3) and ok = 1(4,5)
  from 1(2) obtain b where b: "blk = Some b" by (auto simp: cmpBlockHeight_def split: option.splits)
  show ?case
  proof (cases "blk_height (bExec (nd_status nd)) < blk_height b")
    case False
    with 1(2) b have "nd' = nd" "blk_hash b = ?g" by (auto simp: cmpBlockHeight_def split: if_splits)
    with ok b show ?thesis by auto
  next
    case True
    obtain p nd1 where p: "getBlockByHash env (parent_hash b) nd = (p, nd1)" by fastforce
    with 1(2) b True obtain nd2 where nd2: "onCom env p nd1 = Some nd2" "driver_commit env b nd2 = Some nd'"
      by (auto simp: cmpBlockHeight_def bind_eq_Some_conv split: if_splits)
    note lk = node_inv_lookup [OF p]
    have "blocks_ok env nd1" "\<not> nd_isExisted nd1" using lk ok by auto
    from 1(1) [OF nd2(1) laws this] lk obtain pb bs where
      nd2': "blocks_ok env nd2" "\<not> nd_isExisted nd2" "nd_status nd2 = nd_status nd" "p = Some pb"
        "nd_commits nd2 = nd_commits nd @ bs" "linked ?g bs" "tip ?g bs = blk_hash pb" by auto
    have "blk_hash pb = parent_hash b" using lookup_hash [OF ok(1)] p nd2'(4) by simp
    with nd2' have "linked ?g (bs @ [b])" "tip ?g (bs @ [b]) = blk_hash b" by (simp_all add: linked_append)
    with driver_commit_log [OF laws nd2'(1,2) nd2(2)] nd2' b show ?thesis by (metis append.assoc)
  qed
qed

lemma commitRecursive_inv:
  assumes c: "commitRecursive env blk nd = Some nd'" and laws: "db_laws (ce_strg env)" and inv: "node_inv env nd0 nd"
  shows "node_inv env nd0 nd'"
proof -
  from c obtain nd1 where nd1: "onCommit env (Some blk) nd = Some nd1" "nd' = on_status (\<lambda>s. s\<lparr>bExec := blk\<rparr>) nd1"
    by (auto simp: commitRecursive_def bind_eq_Some_conv)
  have "blocks_ok env nd" "\<not> nd_isExisted nd" using inv by (simp_all add: node_inv_def)
  from onCommit_log [OF nd1(1) laws this] obtain bs where bs: "blocks_ok env nd1" "\<not> nd_isExisted nd1" "nd_status nd1 = nd_status nd"
    "nd_commits nd1 = nd_commits nd @ bs" "linked (blk_hash (bExec (nd_status nd))) bs" "tip (blk_hash (bExec (nd_status nd))) bs = blk_hash blk" by auto
  from inv obtain cs where "nd_commits nd = nd_commits nd0 @ cs" "linked (blk_hash (bExec (nd_status nd0))) cs"
    "tip (blk_hash (bExec (nd_status nd0))) cs = blk_hash (bExec (nd_status nd))"
    "qcView (qc_data (qcHigh (nd_status nd0))) \<le> qcView (qc_data (qcHigh (nd_status nd)))" by (auto simp: node_inv_def)
  with bs nd1(2) show ?thesis
    by (auto simp: node_inv_def linked_append tip_append intro!: exI [of _ "cs @ bs"])
qed

section \<open>Handlers\<close>

lemma lookup_safe:
  assumes "node_inv env nd0 nd" and "\<And>r nd'. node_inv env nd0 nd' \<Longrightarrow> nd_status nd' = nd_status nd \<Longrightarrow> nd_roles nd' = nd_roles nd \<Longrightarrow> P (r, nd')"
  shows "P (getBlockByHash env h nd)"
proof -
  obtain r nd' where e: "getBlockByHash env h nd = (r, nd')" by fastforce
  from node_inv_lookup [OF e] assms show ?thesis unfolding e by blast
qed

lemma qcRefHeight_safe [safe_rules]:
  assumes inv: "node_inv env nd0 nd" and P: "\<And>r nd'. node_inv env nd0 nd' \<Longrightarrow> nd_status nd' = nd_status nd \<Longrightarrow> P (r, nd')"
  shows "safe P (qcRefHeight env qc nd)"
  unfolding qcRefHeight_def by (rule lookup_safe [OF inv]) (use P in \<open>auto split: option.split\<close>)

lemma cmpQCPriority_safe [safe_rules]:
  assumes inv: "node_inv env nd0 nd"
    and P: "\<And>c nd'. node_inv env nd0 nd' \<Longrightarrow> nd_status nd' = nd_status nd \<Longrightarrow>
      (c = 1 \<Longrightarrow> \<exists>q q'. qc = Some q \<and> qc' = Some q' \<and> qcView (qc_data q') \<le> qcView (qc_data q)) \<Longrightarrow> P (c, nd')"
  shows "safe P (cmpQCPriority env qc qc' nd)"
  using inv by (auto simp: cmpQCPriority_def not_less split: option.split intro!: safe_rules P)

lemma updateWindow_frame: "updateWindow q v h s = Some s' \<Longrightarrow> bExec s' = bExec s \<and> qcHigh s' = qcHigh s"
  by (auto simp: updateWindow_def Let_def split: if_splits option.splits)

lemma commitRecursive_safe [safe_rules]:
  "db_laws (ce_strg env) \<Longrightarrow> node_inv env nd0 nd \<Longrightarrow> (\<And>nd'. node_inv env nd0 nd' \<Longrightarrow> P nd') \<Longrightarrow> safe P (commitRecursive env blk nd)"
  unfolding safe_def using commitRecursive_inv by blast

lemma node_inv_adopt:
  assumes laws: "db_laws (ce_strg env)" and inv: "node_inv env nd0 nd"
    and le: "qcView (qc_data (qcHigh (nd_status nd))) \<le> qcView (qc_data qc)"
    and s: "bExec s = bExec (nd_status nd)" "qcHigh s = qc"
  shows "node_inv env nd0 (nd\<lparr>nd_state := st_setQC qc (nd_state nd), nd_status := s,
    nd_strg := fst (StoreBlock (ce_strg env) b (fst (StoreQC (ce_strg env) qc (nd_strg nd))))\<rparr>)"
proof (rule node_inv_frame [OF inv])
  note k = keeps_writes [OF laws, unfolded keeps_blocks_def, rule_format]
  from inv have "blocks_ok env nd" by (simp add: node_inv_def)
  then show "blocks_ok env (nd\<lparr>nd_state := st_setQC qc (nd_state nd), nd_status := s,
    nd_strg := fst (StoreBlock (ce_strg env) b (fst (StoreQC (ce_strg env) qc (nd_strg nd))))\<rparr>)"
    using k(1,2) by (simp add: blocks_ok_def st_setQC_def)
qed (use le s in simp_all)

lemma updateQCHigh_safe [safe_rules]:
  assumes laws: "db_laws (ce_strg env)" and inv: "node_inv env nd0 nd" and P: "\<And>nd'. node_inv env nd0 nd' \<Longrightarrow> P nd'"
  shows "safe P (updateQCHigh env qc nd)"
  unfolding updateQCHigh_def
proof (rule safe_bind, rule cmpQCPriority_safe [OF inv], goal_cases)
  case (1 c nd1)
  show ?case
  proof (cases "c = 1")
    case False
    with 1(1) P show ?thesis by simp
  next
    case True
    with 1 obtain q where q: "qc = Some q" "qcView (qc_data (qcHigh (nd_status nd1))) \<le> qcView (qc_data q)" by auto
    obtain b1 nd2 where b1: "getBlockByHash env (qc_hash (qc_data q)) nd1 = (b1, nd2)" by fastforce
    obtain b0 nd3 where b0: "getBlockByHash env (parent_hash (the b1)) nd2 = (b0, nd3)" by fastforce
    from node_inv_lookup(1) [OF b1 1(1)] have "node_inv env nd0 nd2" .
    from node_inv_lookup(1) [OF b0 this] have inv3: "node_inv env nd0 nd3" .
    have st: "nd_status nd3 = nd_status nd1" using node_inv_lookup(3) [OF b1] node_inv_lookup(3) [OF b0] by simp
    have adopt: "node_inv env nd0 (nd3\<lparr>nd_state := st_setQC q (nd_state nd3), nd_status := s,
        nd_strg := fst (StoreBlock (ce_strg env) b (fst (StoreQC (ce_strg env) q (nd_strg nd3))))\<rparr>)"
      if "updateWindow (qc_quota q) v h ((nd_status nd3)\<lparr>qcHigh := q, bLeaf := b\<rparr>) = Some s" for v h s b
      using node_inv_adopt [OF laws inv3] updateWindow_frame [OF that] q(2) st by simp
    show ?thesis
      using True q(1) b1 b0 by (auto simp: Let_def split: option.split intro!: safe_rules safe_pure [where m = "FindVote a b" for a b]
        safe_pure [where m = "updateWindow a b c d" for a b c d] safe_pure [where m = "cmpBlockHeight a b" for a b] laws adopt P)
        (erule adopt)+
  qed
qed

text \<open>The operations of synchronisation; a block that arrives is only added to the pool under its hash.\<close>

lemma SyncTxs_safe [safe_rules]:
  assumes "node_inv env nd0 nd" and "\<And>e nd'. node_inv env nd0 nd' \<Longrightarrow> nd_status nd' = nd_status nd \<Longrightarrow> P (e, nd')"
  shows "safe P (SyncTxs env peer hs nd)"
  using assms by (auto simp: SyncTxs_def intro!: safe_pure)

lemma accept_block_safe [safe_rules]:
  assumes "node_inv env nd0 nd" and "\<And>e nd'. node_inv env nd0 nd' \<Longrightarrow> nd_status nd' = nd_status nd \<Longrightarrow> P (e, nd')"
  shows "safe P (accept_block env resp nd)"
  using assms node_inv_setBlock [where nd = "nd\<lparr>nd_roles := r\<rparr>" for r]
  by (auto simp: accept_block_def split: option.split sum.split)

lemma requestBlock_safe [safe_rules]:
  assumes "node_inv env nd0 nd" and "\<And>e nd'. node_inv env nd0 nd' \<Longrightarrow> nd_status nd' = nd_status nd \<Longrightarrow> P (e, nd')"
  shows "safe P (requestBlock env peer h nd)" "safe P (requestBlockByHeight env peer n nd)"
  using assms by (auto simp: requestBlock_def requestBlockByHeight_def intro!: safe_rules)

lemma local_or_request_safe [safe_rules]:
  assumes "node_inv env nd0 nd" and "\<And>e nd'. node_inv env nd0 nd' \<Longrightarrow> P (e, nd')"
  shows "safe P (case getBlockByHash env h nd of (Some b, nd) \<Rightarrow> Some (Inr b, nd) | (None, nd) \<Rightarrow> requestBlock env peer h nd)"
  by (rule lookup_safe [OF assms(1)]) (use assms(2) in \<open>auto split: option.split intro!: safe_rules\<close>)

lemma verifyParent_safe [safe_rules]:
  assumes "db_laws (ce_strg env)" "node_inv env nd0 nd" and "\<And>e nd'. node_inv env nd0 nd' \<Longrightarrow> P (e, nd')"
  shows "safe P (verifyParentAndCommitRecursive env peer blk parent nd)"
  using assms by (auto simp: verifyParentAndCommitRecursive_def split: option.split intro!: safe_rules)

lemma forward_loop_safe [safe_rules]:
  assumes "db_laws (ce_strg env)" "node_inv env nd0 nd" and P: "\<And>e nd'. node_inv env nd0 nd' \<Longrightarrow> P (e, nd')"
  shows "safe P (forward_loop env peer n h nd)"
  using assms(1,2)
proof (induction n arbitrary: h nd)
  case (Suc n)
  have "safe P (case getBlockByHash env hh nd' of (None, nd) \<Rightarrow> Some (Some NoParent, nd)
      | (Some parent, nd) \<Rightarrow> do {
          (e, nd) \<leftarrow> verifyParentAndCommitRecursive env peer blk parent nd;
          case e of Some e \<Rightarrow> Some (Some e, nd) | None \<Rightarrow> forward_loop env peer n h' nd
        })" if "node_inv env nd0 nd'" for nd' hh blk h'
    by (rule lookup_safe [OF that]) (use Suc P in \<open>auto split: option.split intro!: safe_rules\<close>)
  with Suc.prems P show ?case by (auto split: sum.split intro!: safe_rules)
qed (use P in simp)

lemma syncMissingCommitted_safe [safe_rules]:
  assumes "db_laws (ce_strg env)" "node_inv env nd0 nd" and "\<And>e nd'. node_inv env nd0 nd' \<Longrightarrow> P (e, nd')"
  shows "safe P (syncMissingCommittedBlocks env blk nd)"
  using assms by (auto simp: syncMissingCommittedBlocks_def syncForwardCommittedBlocks_def split: sum.split
    intro!: safe_rules safe_pure [where m = "GetBlockHeight a b" for a b] safe_pure [where m = "Proposer a" for a])

lemma syncMissingParent_inv:
  assumes "syncMissingParentRecursive env peer blk nd = Some x" and "node_inv env nd0 nd"
  shows "node_inv env nd0 (snd x)"
  using assms(2)
proof (induction rule: syncMissingParentRecursive.raw_induct [OF _ assms(1)])
  case (1 rec env peer blk nd x)
  have rec: "safe P (rec env peer b nd')" if "node_inv env nd0 nd'" "\<And>r nd'. node_inv env nd0 nd' \<Longrightarrow> P (r, nd')" for P b nd'
    using 1(1) that by (fastforce simp: safe_def)
  have "safe (\<lambda>x. node_inv env nd0 (snd x)) (Some x)"
    unfolding 1(2) [symmetric] using 1(3)
    by (auto split: sum.split option.split intro!: safe_rules rec safe_pure [where m = "GetBlockHeight a b" for a b])
  then show ?case by simp
qed

lemma syncMissingParent_safe [safe_rules]:
  assumes "node_inv env nd0 nd" and "\<And>r nd'. node_inv env nd0 nd' \<Longrightarrow> P (r, nd')"
  shows "safe P (syncMissingParentRecursive env peer blk nd)"
  unfolding safe_def using syncMissingParent_inv assms by (metis prod.collapse)

lemma syncParentBlock_safe [safe_rules]:
  assumes "db_laws (ce_strg env)" "node_inv env nd0 nd" and P: "\<And>r nd'. node_inv env nd0 nd' \<Longrightarrow> P (r, nd')"
  shows "safe P (syncParentBlock env blk nd)"
proof (cases "blk_height blk = 0")
  case False
  show ?thesis
    unfolding syncParentBlock_def if_not_P [OF False]
    by (rule lookup_safe [OF assms(2)]) (use assms(1) P in \<open>auto split: option.split sum.split intro!: safe_rules
      safe_pure [where m = "Proposer a" for a]\<close>)
qed (use assms in \<open>simp add: syncParentBlock_def\<close>)

lemmas node_inv_pool_block = node_inv_setBlock [where nd = "nd\<lparr>nd_pool := q\<rparr>" for nd q, simplified]

text \<open>The rotator's approval and the proposal change neither the executed block nor the high certificate.\<close>

lemma rot_onReceiveProposal_safe [safe_rules]:
  assumes "node_inv env nd0 nd" and P: "\<And>nd'. node_inv env nd0 nd' \<Longrightarrow> P nd'"
  shows "safe P (rot_onReceiveProposal blk nd)"
proof -
  have "node_inv env nd0 (approveViewLeader v i nd)" for v i
    using assms(1) by (auto simp: approveViewLeader_def Let_def recoverFlag_def intro!: node_inv_status)
  with assms show ?thesis by (auto simp: rot_onReceiveProposal_def Let_def intro!: safe_pure [where m = "Proposer a" for a])
qed

lemma createProposal_safe [safe_rules]:
  assumes inv: "node_inv env nd0 nd" and P: "\<And>b nd'. node_inv env nd0 nd' \<Longrightarrow> P (b, nd')"
  shows "safe P (createProposal env now vw parent qc nd)"
  using inv by (auto simp: createProposal_def Let_def PreserveTxFlag_def startProposal_def
    intro!: safe_rules P node_inv_status node_inv_pool_block safe_pure [where m = "popTxsFromQueue a b" for a b]
      safe_pure [where m = "GetBlockHeight a b" for a b])

lemma driver_onReceiveVote_safe [safe_rules]:
  assumes laws: "db_laws (ce_strg env)" and inv: "node_inv env nd0 nd" and P: "\<And>e nd'. node_inv env nd0 nd' \<Longrightarrow> P (e, nd')"
  shows "safe P (driver_onReceiveVote env v nd)"
proof -
  obtain e s where a: "addVote v (nd_status nd) = (e, s)" by fastforce
  then have "bExec s = bExec (nd_status nd)" "qcHigh s = qcHigh (nd_status nd)"
    by (auto simp: addVote_def Let_def split: option.splits if_splits)
  then have inv': "node_inv env nd0 (nd\<lparr>nd_status := s\<rparr>)" using inv by (rule node_inv_status)
  show ?thesis
  proof (cases e)
    case None
    show ?thesis
      unfolding driver_onReceiveVote_def a None prod.case option.case
      by (rule lookup_safe [OF inv']) (use laws P in \<open>auto simp: Let_def endProposal_def split: option.split
        intro!: safe_rules node_inv_status safe_pure [where m = "getQuotaCount a" for a]\<close>)
  qed (use inv P a in \<open>simp add: driver_onReceiveVote_def\<close>)
qed

text \<open>Then the handlers of the messages and of the timers.\<close>

lemmas pure_safe =
  safe_pure [where m = "Proposer a" for a] safe_pure [where m = "QC_Proposer a" for a]
  safe_pure [where m = "verifyBlockToVote a b c" for a b c] safe_pure [where m = "getVoteQuota a b" for a b]
  safe_pure [where m = "setTxsPending a b" for a b] safe_pure [where m = "blk_qc a" for a]
  safe_pure [where m = "nextLeaderIdx a" for a] safe_pure [where m = "GetValidator a b" for a b]

lemma voteProposal_safe [safe_rules]:
  assumes "node_inv env nd0 nd" and "\<And>e nd'. node_inv env nd0 nd' \<Longrightarrow> P (e, nd')"
  shows "safe P (voteProposal env rnd blk nd)"
  using assms by (auto simp: voteProposal_def Let_def PreserveTxFlag_def split: option.split sum.split intro!: safe_rules pure_safe)

lemma vld_onReceiveProposal_safe [safe_rules]:
  assumes "db_laws (ce_strg env)" "node_inv env nd0 nd" and "\<And>e nd'. node_inv env nd0 nd' \<Longrightarrow> P (e, nd')"
  shows "safe P (vld_onReceiveProposal env rnd blk nd)"
  using assms by (auto simp: vld_onReceiveProposal_def split: option.split sum.split
    intro!: safe_rules pure_safe node_inv_setBlock)

lemma vld_onReceiveVote_safe [safe_rules]:
  assumes "db_laws (ce_strg env)" "node_inv env nd0 nd" and "\<And>e nd'. node_inv env nd0 nd' \<Longrightarrow> P (e, nd')"
  shows "safe P (vld_onReceiveVote env v nd)"
  using assms by (auto simp: vld_onReceiveVote_def split: option.split intro!: safe_rules)

lemma propose_and_vote_safe [safe_rules]:
  assumes "db_laws (ce_strg env)" "node_inv env nd0 nd" and "\<And>nd'. node_inv env nd0 nd' \<Longrightarrow> P nd'"
  shows "safe P (propose_and_vote env rnd (blk, nd))"
  using assms by (auto simp: propose_and_vote_def split: sum.split intro!: safe_rules pure_safe)

lemma newProposal_safe [safe_rules]:
  assumes "db_laws (ce_strg env)" "node_inv env nd0 nd" and "\<And>nd'. node_inv env nd0 nd' \<Longrightarrow> P nd'"
  shows "safe P (newProposal env now rnd nd)"
  using assms by (auto simp: newProposal_def intro!: safe_rules)

lemma newViewProposal_safe [safe_rules]:
  assumes "db_laws (ce_strg env)" "node_inv env nd0 nd" and "\<And>nd'. node_inv env nd0 nd' \<Longrightarrow> P nd'"
  shows "safe P (newViewProposal env now rnd nd)"
  unfolding newViewProposal_def
  by (rule lookup_safe [OF assms(2)]) (use assms(1,3) in \<open>auto split: option.split intro!: safe_rules\<close>)

lemma changeView_safe [safe_rules]:
  assumes "node_inv env nd0 nd" and "\<And>nd'. node_inv env nd0 nd' \<Longrightarrow> P nd'"
  shows "safe P (changeView env nd)"
  using assms node_inv_status [of "(nd_status nd)\<lparr>viewChange := 1\<rparr>" nd env nd0]
  by (auto simp: changeView_def Let_def intro!: safe_rules pure_safe)

lemma timeout_safe [safe_rules]:
  assumes "node_inv env nd0 nd" and "\<And>nd'. node_inv env nd0 nd' \<Longrightarrow> P nd'"
  shows "safe P (onViewTimeout env nd)" "safe P (onLeaderTimeout env nd)"
  using assms by (auto simp: onViewTimeout_def onLeaderTimeout_def Let_def intro!: safe_rules assms(2) node_inv_status)

lemma enter_view_safe [safe_rules]:
  assumes "node_inv env nd0 nd" and "\<And>nd'. node_inv env nd0 nd' \<Longrightarrow> P nd'"
  shows "safe P (enter_view env nd)"
  using assms by (auto simp: enter_view_def Let_def intro!: safe_rules pure_safe node_inv_status)

lemma rot_onReceiveQC_safe [safe_rules]:
  assumes "db_laws (ce_strg env)" "node_inv env nd0 nd" and "\<And>e nd'. node_inv env nd0 nd' \<Longrightarrow> P (e, nd')"
  shows "safe P (rot_onReceiveQC env now rnd qc nd)"
  using assms by (auto simp: rot_onReceiveQC_def Let_def split: option.split sum.split intro!: safe_rules assms(3) pure_safe)

lemma cons_step_safe [safe_rules]:
  assumes "db_laws (ce_strg env)" "node_inv env nd0 nd" and "\<And>nd'. node_inv env nd0 nd' \<Longrightarrow> P nd'"
  shows "safe P (cons_step env ev nd)"
proof (cases ev)
  case (TimerExpires t)
  with assms show ?thesis by (cases t) (auto intro!: safe_rules)
qed (use assms in \<open>auto simp: proposalLoop_turn_def voteLoop_turn_def newViewLoop_turn_def pacemaker_turn_def intro!: safe_rules\<close>)

lemma cons_run_safe:
  assumes "db_laws (ce_strg env)" "node_inv env nd0 nd" and "\<And>nd'. node_inv env nd0 nd' \<Longrightarrow> P nd'"
  shows "safe P (cons_run env evs nd)"
  using assms by (induction evs arbitrary: nd) (auto intro!: safe_rules)

section \<open>Start\<close>

lemma g_commit_keeps:
  assumes laws: "db_laws (ce_strg (ge_cons env))" and ok: "stored_ok (ce_strg (ge_cons env)) (gs_strg st)" and c: "g_commit env st = Some st'"
  shows "stored_ok (ce_strg (ge_cons env)) (gs_strg st')"
proof -
  from keeps_writes(2) [OF laws] ok have q: "stored_ok (ce_strg (ge_cons env)) (fst (StoreQC (ce_strg (ge_cons env)) q (gs_strg st)))" for q
    by (simp add: keeps_blocks_def)
  from c show ?thesis
    by (auto simp: g_commit_def bind_eq_Some_conv Let_def split: if_splits prod.splits dest!: commit_keeps_blocks [OF laws q])
qed

lemma gns_run_keeps:
  assumes laws: "db_laws (ce_strg (ge_cons env))" and ok: "stored_ok (ce_strg (ge_cons env)) (gs_strg st)" and b0: "gs_b0 st = None"
    and r: "gns_run env nonces now evs st = Some st'"
  shows "stored_ok (ce_strg (ge_cons env)) (gs_strg st')"
proof -
  from r obtain st1 st2 where st: "g_propose env nonces now st = Some st1" "gns_loop env evs st1 = Some st2" "g_commit env st2 = Some st'"
    by (auto simp: gns_run_def bind_eq_Some_conv split: if_splits)
  have "g_inv (gs_strg st) (validators (gs_roles st)) st" using b0 by (simp add: g_inv_def)
  from g_propose_inv [OF this, of env nonces now] st(1) have "g_inv (gs_strg st) (validators (gs_roles st)) st1" by simp
  from gns_loop_inv [OF this, of env evs] st(2) have "gs_strg st2 = gs_strg st" by (simp add: g_inv_def)
  with g_commit_keeps [OF laws _ st(3)] ok show ?thesis by simp
qed

lemma initial_ok:
  assumes laws: "db_laws (ce_strg (ge_cons (se_gns env)))" and ok: "stored_ok (ce_strg (ge_cons (se_gns env))) (gs_strg st)" and b0: "gs_b0 st = None"
  shows "safe (\<lambda>x. stored_ok (ce_strg (ge_cons (se_gns env))) (gs_strg (snd (snd (snd x))))) (getInitialBlockAndQC env st)"
  unfolding getInitialBlockAndQC_def Let_def
  using ok by (auto split: sum.split intro!: safe_bind safe_pure [where m = "gs_b0 a" for a]
    safe_pure [where m = "gs_q0 a" for a] safe_pure [where m = "getLastBlock a b c" for a b c]
    safe_pure [where m = "restoreCodeFile a b" for a b] safe_pure [where m = "gns_run a b c d e" for a b c d e])
    (erule gns_run_keeps [OF laws ok b0])

lemma window_loop_safe [safe_rules]:
  assumes "node_inv env nd0 nd" and P: "\<And>w' nd'. node_inv env nd0 nd' \<Longrightarrow> nd_status nd' = nd_status nd \<Longrightarrow> P (w', nd')"
  shows "safe P (window_loop env i qc w nd)"
  using assms(1) P
proof (induction i arbitrary: qc w nd)
  case (Suc i)
  show ?case
  proof (cases qc)
    case (Some q)
    have "safe P (case getBlockByHash env (qc_hash (qc_data q)) nd of (None, nd) \<Rightarrow> None | (Some b, nd) \<Rightarrow> window_loop env i (blk_qc b) w' nd)" for w'
      by (rule lookup_safe [OF Suc.prems(1)]) (auto split: option.split intro!: Suc.IH Suc.prems(2))
    with Some show ?thesis by (auto simp: Let_def intro!: safe_rules safe_pure [where m = "FindVote a b" for a b])
  qed (use Suc.prems in simp)
qed simp

lemma setupWindow_safe [safe_rules]:
  assumes "node_inv env nd0 nd" and P: "\<And>nd'. node_inv env nd0 nd' \<Longrightarrow> P nd'"
  shows "safe P (setupWindow env strategy qc nd)"
  using assms(1) by (auto simp: setupWindow_def Let_def intro!: safe_rules P node_inv_status safe_pure [where m = "GetValidatorQuota a b" for a b])

lemma node_inv_self: "node_inv env nd0 nd \<Longrightarrow> node_inv env nd nd"
  by (simp add: node_inv_def exI [of _ "[]"])

lemma cons_start_inv:
  assumes laws: "db_laws (ce_strg (ge_cons (se_gns env)))" and ok: "stored_ok (ce_strg (ge_cons (se_gns env))) (gs_strg st)" and b0: "gs_b0 st = None"
    and s: "cons_start env st = Some (nd, st')"
  shows "node_inv (ge_cons (se_gns env)) nd nd"
proof -
  let ?e = "ge_cons (se_gns env)"
  from s obtain exec leaf qc st1 status nd1 where
    i: "getInitialBlockAndQC env st = Some (exec, leaf, qc, st1)" and w: "setupWindow ?e (se_VoteStrategy env) qc nd1 = Some nd"
    and nd1: "nd1 = \<lparr>nd_status = status, nd_state = st_setQC qc (st_setBlock leaf newState), nd_roles = gs_roles st1,
      nd_pool = pl_store (gs_pool st1), nd_strg = gs_strg st1, nd_isExisted = False, nd_timeoutCount = 0, nd_highQCCount = 0,
      nd_oldView = 0, nd_commits = [], nd_sent = []\<rparr>"
    by (auto simp: cons_start_def Let_def bind_eq_Some_conv)
  from initial_ok [OF laws ok b0] i have "stored_ok (ce_strg ?e) (gs_strg st1)" by simp
  then have "node_inv ?e nd1 nd1"
    by (auto simp: node_inv_def blocks_ok_def nd1 st_setQC_def st_setBlock_def newState_def)
  with setupWindow_safe [of ?e nd1 nd1 "node_inv ?e nd1" "se_VoteStrategy env" qc] w have "node_inv ?e nd1 nd" by simp
  then show ?thesis by (rule node_inv_self)
qed

text \<open>C6. A started node commits one chain: over any messages, timeouts and proposals, whatever the peers answer,
  the blocks handed to the storage between two moments continue the executed block parent by parent,
  the last one is the executed block at the end, nothing is taken back, and the view of the high
  certificate never goes back.\<close>

theorem node_commits_chain:
  assumes "db_laws (ce_strg (ge_cons (se_gns env)))" and "stored_ok (ce_strg (ge_cons (se_gns env))) (gs_strg st)" and "gs_b0 st = None"
    and "cons_start env st = Some (nd, st')"
    and "cons_run (ge_cons (se_gns env)) evs nd = Some nd1" and "cons_run (ge_cons (se_gns env)) evs' nd1 = Some nd2"
  shows "\<exists>bs. nd_commits nd2 = nd_commits nd1 @ bs \<and> linked (blk_hash (bExec (nd_status nd1))) bs \<and>
    tip (blk_hash (bExec (nd_status nd1))) bs = blk_hash (bExec (nd_status nd2)) \<and>
    qcView (qc_data (qcHigh (nd_status nd1))) \<le> qcView (qc_data (qcHigh (nd_status nd2)))"
proof -
  let ?e = "ge_cons (se_gns env)"
  from cons_start_inv [OF assms(1-4)] have "node_inv ?e nd nd" .
  with cons_run_safe [OF assms(1) this, of "node_inv ?e nd" evs] assms(5) have "node_inv ?e nd nd1" by simp
  then have "node_inv ?e nd1 nd1" by (rule node_inv_self)
  with cons_run_safe [OF assms(1) this, of "node_inv ?e nd1" evs'] assms(6) have "node_inv ?e nd1 nd2" by simp
  then show ?thesis by (auto simp: node_inv_def)
qed

end
