(* ===== verification/Cons_Example.thy ===== *)
theory Cons_Example
  imports Cons_Safety
begin

text \<open>
  A run of the consensus: an observer restarts from a storage that holds the genesis block and receives
  three proposals of one validator, each with a certificate for its predecessor; the third makes it
  commit the first. The crypto functions are toys: a hash is the last byte of the height.
\<close>

section \<open>Blocks\<close>

definition xc :: crypto where
  "xc = ex_crypto\<lparr>sha3 := (\<lambda>x. [x ! 11])\<rparr>"

definition xcert :: "block \<Rightarrow> quorum_cert" where
  "xcert b = QC_Build xc ex_priv [Block_Vote xc ex_priv 3 b] NewQuorumCert"

definition xblk :: "block \<Rightarrow> block" where
  "xblk p = Block_Sign xc ex_priv (SetQuorumCert (xcert p) (new_block 0 p [] 0 [] 0))"

definition xb0 :: block where
  "xb0 = Block_Sign xc ex_priv
     \<lparr>blk_data = \<lparr>blkHash = [], blkView = 0, blkHeight = 0, blkParentHash = [9], blkExecHeight = 0, blkMerkleRoot = [],
                  blkTimestamp = 0, blkTransactions = [], blkQuorumCert = None, blkSignature = None\<rparr>,
      blk_qc = None, blk_sig = None\<rparr>"

definition xb1 :: block where "xb1 = xblk xb0"
definition xb2 :: block where "xb2 = xblk xb1"
definition xb3 :: block where "xb3 = xblk xb2"

lemma xc_laws: "crypto_laws xc"
  using ex_laws by (simp add: xc_def crypto_laws_def)

lemma xc_priv: "NewPrivateKey xc (replicate 64 1) = Inr ex_priv"
  using ex_priv_ok by (simp add: xc_def NewPrivateKey_def)

lemma xc_vote: "Vote_setData (vote_data (Block_Vote xc ex_priv q b)) = Inr (Block_Vote xc ex_priv q b)"
  "Vote_Validate xc ex_roles (Some (vote_data (Block_Vote xc ex_priv q b))) = None"
  using sign_newSignature [OF xc_priv] sign_verify [OF xc_priv xc_laws] ex_validator
  by (simp_all add: Block_Vote_def Let_def Vote_Validate_def Vote_setData_def)

lemma xcert_valid: "QC_Validate xc ex_roles (xcert b) = Some (ex_roles, None)" "QC_setData (qc_data (xcert b)) = Inr (xcert b)"
  using QC_Build_valid [OF xc_laws xc_priv ex_validator, of "[Block_Vote xc ex_priv 3 b]"] ex_majority xc_vote
  by (simp_all add: xcert_def)

lemma xcert_sel [simp]:
  "qc_hash (qc_data (xcert b)) = blk_hash b" "qcView (qc_data (xcert b)) = blk_view b" "qc_quota (xcert b) = 3"
  "QC_Proposer (xcert b) = Some ex_pub"
  by (simp_all add: xcert_def QC_Build_def Build_step_def NewQuorumCert_def Let_def qc_hash_def Block_Vote_def QC_Proposer_def ex_priv_def)

lemma be_bytes_low: "be_bytes (Suc k) n ! k = of_nat n"
  by (simp add: be_bytes_def nth_append)

lemma xsum: "Block_Sum xc d = [ucast (blkHeight d)]"
  using be_bytes_low [of 7 "unat (blkHeight d)"] by (simp add: Block_Sum_def xc_def nth_append)

lemma xblk_sel [simp]:
  "blk_height (xblk p) = blk_height p + 1" "blk_view (xblk p) = 0" "parent_hash (xblk p) = blk_hash p" "blk_qc (xblk p) = Some (xcert p)"
  "blkTransactions (blk_data (xblk p)) = []" "Proposer (xblk p) = Some ex_pub" "blkExecHeight (blk_data (xblk p)) = 0"
  "blk_hash (xblk p) = [ucast (blk_height p + 1)]"
  by (simp_all add: xblk_def Block_Sign_def SetQuorumCert_def new_block_def Let_def Proposer_def ex_priv_def xsum)

lemma xb0_sel [simp]: "blk_height xb0 = 0" "blk_view xb0 = 0" "blk_hash xb0 = [0]" "blkExecHeight (blk_data xb0) = 0"
  by (simp_all add: xb0_def Block_Sign_def Let_def xsum)

lemma xb_sel [simp]:
  "blk_height xb1 = 1" "blk_height xb2 = 2" "blk_height xb3 = 3" "blk_hash xb1 = [1]" "blk_hash xb2 = [2]" "blk_hash xb3 = [3]"
  "blk_view xb1 = 0" "blk_view xb2 = 0" "blk_view xb3 = 0" "parent_hash xb1 = [0]" "parent_hash xb2 = [1]" "parent_hash xb3 = [2]"
  "blk_qc xb1 = Some (xcert xb0)" "blk_qc xb2 = Some (xcert xb1)" "blk_qc xb3 = Some (xcert xb2)"
  "blkTransactions (blk_data xb1) = []" "blkTransactions (blk_data xb2) = []" "blkTransactions (blk_data xb3) = []"
  "Proposer xb1 = Some ex_pub" "Proposer xb2 = Some ex_pub" "Proposer xb3 = Some ex_pub"
  "blkExecHeight (blk_data xb3) = 0"
  by (simp_all add: xb1_def xb2_def xb3_def)

lemma xblk_valid: "Block_Validate xc ex_roles (xblk p) = Some (ex_roles, None)"
proof -
  have "Block_Sum c (d\<lparr>blkHash := x, blkSignature := y\<rparr>) = Block_Sum c d" for c d x y by (simp add: Block_Sum_def)
  then show ?thesis
    using sign_newSignature [OF xc_priv] sign_verify [OF xc_priv xc_laws] ex_validator xcert_valid(1) [of p]
    by (simp add: Block_Validate_def xblk_def Block_Sign_def SetQuorumCert_def Let_def)
qed

lemma xb_valid [simp]: "Block_Validate xc ex_roles xb1 = Some (ex_roles, None)" "Block_Validate xc ex_roles xb2 = Some (ex_roles, None)"
  "Block_Validate xc ex_roles xb3 = Some (ex_roles, None)"
  by (simp_all add: xb1_def xb2_def xb3_def xblk_valid)

section \<open>Storage\<close>

definition xcodec :: pb_codec where
  "xcodec = \<lparr>m_block = (\<lambda>d. if d = blk_data xb0 then Inr [0] else if d = blk_data xb1 then Inr [1] else Inl ''size''),
     u_block = (\<lambda>b. Inr (blk_data (if b = [0] then xb0 else xb1))),
     m_qc = (\<lambda>d. if d = qc_data (xcert xb0) then Inr [0] else Inl ''size''), u_qc = (\<lambda>_. Inr (qc_data (xcert xb0))),
     m_bcm = (\<lambda>_. Inr [2]), u_bcm = (\<lambda>_. Inl []), m_tx = (\<lambda>_. Inl []), u_tx = (\<lambda>_. Inl []), m_txc = (\<lambda>_. Inr [4]), u_txc = (\<lambda>_. Inl [])\<rparr>"

definition xs :: "(bytes \<Rightarrow> bytes option) level_store" where
  "xs = \<lparr>ls_db = [[3] \<mapsto> be_bytes 8 0, 2 # be_bytes 8 0 \<mapsto> [0], [1, 0] \<mapsto> [0], [5] \<mapsto> [0], [4, 0] \<mapsto> [0]], ls_batch = None\<rparr>"

definition xstrg :: "(bytes \<Rightarrow> bytes option) level_store storage" where
  "xstrg = Storage_New mem_db xcodec (\<lambda>x. x) 2"

definition xenv :: "(bytes \<Rightarrow> bytes option) level_store cons_env" where
  "xenv = (ex_cons_env ex_observer xstrg)\<lparr>ce_crypto := xc\<rparr>"

definition xsenv :: "(bytes \<Rightarrow> bytes option) level_store setup_env" where
  "xsenv = \<lparr>se_gns = ex_gns_env\<lparr>ge_cons := xenv\<rparr>, se_nonces = (0, 0, 0), se_now = 0, se_events = [], se_VoteStrategy = AverageVote\<rparr>"

definition xgns :: "(bytes \<Rightarrow> bytes option) level_store gns" where
  "xgns = ex_gns\<lparr>gs_strg := xs, gs_files := (\<lambda>_. Some (replicate 32 1))\<rparr>"

lemma mem_get [simp]:
  "pGet (LevelDB_persist mem_db) s k = (case ls_db s k of None \<Rightarrow> Inl NotFound | Some v \<Rightarrow> Inr v)"
  "pPut (LevelDB_persist mem_db) k v s = (s\<lparr>ls_db := (ls_db s)(k \<mapsto> v)\<rparr>, None)"
  by (simp_all add: LevelDB_persist_def LevelDB_Get_def LevelDB_Put_def mem_db_def io_error_def split: option.split)

lemma xenv_sel [simp]:
  "ce_crypto xenv = xc" "ce_signer xenv = ex_observer" "ce_strg xenv = xstrg" "ce_sched xenv = (\<lambda>_ _. [Recv])" "strgCodec xstrg = xcodec"
  "strgPersist xstrg = LevelDB_persist mem_db" "ge_cons (se_gns xsenv) = xenv"
  by (simp_all add: xenv_def ex_cons_env_def xstrg_def xsenv_def)

lemma mem_atomic: "put_atomic (LevelDB_persist mem_db)"
  by (auto simp: put_atomic_def)

lemma xdata_ne: "blk_data xb0 \<noteq> blk_data xb1"
  by (metis xb0_sel(1) xb_sel(1) zero_neq_one)

lemma xs_laws: "db_laws xstrg"
  using mem_atomic xdata_ne by (simp add: db_laws_def codec_laws_def xcodec_def)

lemma xb_set: "Block_setData (blk_data xb0) = Inr xb0" "Block_setData (blk_data xb1) = Inr xb1"
proof -
  note sign = sign_newSignature [OF xc_priv]
  show "Block_setData (blk_data xb0) = Inr xb0" using sign by (simp add: Block_setData_def xb0_def Block_Sign_def Let_def)
  show "Block_setData (blk_data xb1) = Inr xb1" using sign xcert_valid(2)
    by (simp add: Block_setData_def xb1_def xblk_def SetQuorumCert_def Block_Sign_def Let_def)
qed

lemma xget: "getBlock xcodec (LevelDB_persist mem_db) xs h = (if h = [0] then Inr xb0 else Inl NotFound)"
  by (auto simp: getBlock_def xs_def concatBytes_def convertPrefix_def Block_Unmarshal_def xcodec_def xb_set)

lemma xs_ok: "stored_ok xstrg xs"
  by (simp add: stored_ok_def xget)

section \<open>Start\<close>

definition xwin :: window where
  "xwin = \<lparr>qcQuotas_w = [0, 0, 0, 3], qcAcc = 3, voteQuotas = [0, 0, 0, 0], voteAcc = 0, w_majority = 3, w_limit = 5, w_height = 0,
     w_size = 4, w_strategy = AverageVote, w_recover = False\<rparr>"

definition xst :: status where
  "xst = \<lparr>bExec = xb0, bLeaf = xb0, qcHigh = xcert xb0, st_view = 0, leaderIndex = 0, viewChange = 0, st_proposal = None, st_votes = [],
     quotaCount_s = 0, st_window = xwin\<rparr>"

lemma xroles [simp]:
  "GetValidatorIndex ex_roles k = 0" "GetValidatorQuota ex_roles (keyStr (priv_pubKey ex_observer)) = Some 5" "windowSize ex_roles = 4"
  "MajorityQuotaCount ex_roles = 3"
  by (simp_all add: GetValidatorIndex_def ex_roles_def GetValidatorQuota_def MajorityQuotaCount_def ex_observer_def)

lemma xfind [simp]: "FindVote ex_observer (xcert b) = Some 0"
  by (simp add: FindVote_def xcert_def QC_Build_def Build_step_def NewQuorumCert_def Let_def Block_Vote_def ex_observer_def ex_priv_def ex_pub_def
    replicate_eq_replicate)

lemma xlast: "getLastBlock xcodec (LevelDB_persist mem_db) xs = Some (Inr xb0)" "getLastQC xcodec (LevelDB_persist mem_db) xs = Inr (xcert xb0)"
proof -
  have "getBlockHeight (LevelDB_persist mem_db) xs = Some (Inr 0)"
    by (simp add: getBlockHeight_def xs_def convertPrefix_def be_nat_be_bytes)
  moreover have "getBlockHashByHeight (LevelDB_persist mem_db) xs 0 = Inr [0]"
    by (simp add: getBlockHashByHeight_def xs_def concatBytes_def convertPrefix_def uint64BEBytes_def)
  ultimately show "getLastBlock xcodec (LevelDB_persist mem_db) xs = Some (Inr xb0)"
    by (simp add: getLastBlock_def getBlockByHeight_def xget)
  show "getLastQC xcodec (LevelDB_persist mem_db) xs = Inr (xcert xb0)"
    by (simp add: getLastQC_def getQCByBlockHash_def xs_def concatBytes_def convertPrefix_def QC_Unmarshal_def xcodec_def xcert_valid)
qed

lemma xinitial: "\<exists>codes. getInitialBlockAndQC xsenv xgns = Some (xb0, xb0, xcert xb0, xgns\<lparr>gs_codes := codes\<rparr>)"
proof -
  have "gs_strg xgns = xs" "gs_files xgns = (\<lambda>_. Some (replicate 32 1))" by (simp_all add: xgns_def)
  then show ?thesis by (simp add: getInitialBlockAndQC_def xlast xget restoreCodeFile_def RegisterCode_def) blast
qed

definition xnd :: "(bytes \<Rightarrow> bytes option) level_store node" where
  "xnd = \<lparr>nd_status = xst, nd_state = st_setQC (xcert xb0) (st_setBlock xb0 newState), nd_roles = ex_roles, nd_pool = newTxStore,
     nd_strg = xs, nd_isExisted = False, nd_timeoutCount = 0, nd_highQCCount = 0, nd_oldView = 0, nd_commits = [], nd_sent = []\<rparr>"

lemma xlookup: "map_of (cs_blocks (nd_state nd)) h = Some b \<Longrightarrow> getBlockByHash env h nd = (Some b, nd)"
  by (simp add: getBlockByHash_def st_getBlock_def)

lemma xstart: "\<exists>st. cons_start xsenv xgns = Some (xnd, st)"
proof -
  obtain codes where i: "getInitialBlockAndQC xsenv xgns = Some (xb0, xb0, xcert xb0, xgns\<lparr>gs_codes := codes\<rparr>)" using xinitial by blast
  have look: "getBlockByHash xenv [0] (xnd\<lparr>nd_status := s\<rparr>) = (Some xb0, xnd\<lparr>nd_status := s\<rparr>)" for s
    by (rule xlookup) (simp add: xnd_def st_setQC_def st_setBlock_def newState_def)
  have none: "blk_qc xb0 = None" by (simp add: xb0_def Block_Sign_def Let_def)
  define nd where "nd = xnd\<lparr>nd_status := xst\<lparr>st_window := empty_window\<rparr>\<rparr>"
  have nd: "getBlockByHash xenv [0] nd = (Some xb0, nd)" "nd_roles nd = ex_roles"
    "nd\<lparr>nd_status := (nd_status nd)\<lparr>st_window := xwin\<rparr>\<rparr> = xnd"
    unfolding nd_def by (simp_all add: look) (simp_all add: xnd_def xst_def)
  have "setupWindow xenv AverageVote (xcert xb0) nd = Some xnd"
    using nd by (simp add: setupWindow_def qcRefHeight_def none Let_def eval_nat_numeral) (simp add: xwin_def)
  moreover have "setupStatus ex_roles xb0 xb0 (xcert xb0) = Some (xst\<lparr>st_window := empty_window\<rparr>)"
    by (simp add: setupStatus_def xst_def)
  moreover have "\<lparr>nd_status = xst\<lparr>st_window := empty_window\<rparr>, nd_state = st_setQC (xcert xb0) (st_setBlock xb0 newState), nd_roles = ex_roles,
      nd_pool = newTxStore, nd_strg = xs, nd_isExisted = False, nd_timeoutCount = 0, nd_highQCCount = 0, nd_oldView = 0, nd_commits = [],
      nd_sent = []\<rparr> = nd" by (simp add: nd_def xnd_def)
  moreover have "gs_roles xgns = ex_roles" "gs_strg xgns = xs" "pl_store (gs_pool xgns) = newTxStore" "se_VoteStrategy xsenv = AverageVote"
    by (simp_all add: xgns_def ex_gns_def newTxPool_def xsenv_def)
  ultimately show ?thesis by (simp add: cons_start_def i)
qed

section \<open>Proposals\<close>

text \<open>What the node keeps while it commits nothing: the blocks it knows and its place in the view.\<close>

definition xok :: "(bytes \<Rightarrow> bytes option) level_store node \<Rightarrow> bool" where
  "xok nd \<longleftrightarrow> nd_roles nd = ex_roles \<and> st_view (nd_status nd) = 0 \<and> viewChange (nd_status nd) = 0 \<and> leaderIndex (nd_status nd) = 0 \<and>
     map_of (cs_blocks (nd_state nd)) [0] = Some xb0 \<and> committedHeight (nd_state nd) = 0 \<and> \<not> nd_isExisted nd \<and>
     bExec (nd_status nd) = xb0 \<and> w_strategy (st_window (nd_status nd)) = AverageVote \<and> w_size (st_window (nd_status nd)) = 4 \<and>
     length (qcQuotas_w (st_window (nd_status nd))) = 4 \<and> length (voteQuotas (st_window (nd_status nd))) = 4 \<and> nd_commits nd = []"

lemma xsync: "SyncTxs xenv pk [] nd = Some (None, nd)"
  by (simp add: SyncTxs_def pool_SyncTxs_def syncTxs_list_def missing_hashes_def addTxList_def addTxList_start_def list_turn_def list_run_step_def Let_def)

text \<open>A valid proposal of the leader whose parent is known, up to the comparison of the certificates.\<close>

lemma xreceive:
  assumes "xok nd" and "map_of (cs_blocks (nd_state nd)) (parent_hash blk) = Some p" and "blk_view blk = 0" and "Proposer blk = Some ex_pub"
    and "Block_Validate xc ex_roles blk = Some (ex_roles, None)" and "blkTransactions (blk_data blk) = []" and "blk_height blk \<noteq> 0"
  shows "vld_onReceiveProposal xenv rnd blk nd =
    do {
      (c, nd) \<leftarrow> cmpQCPriority xenv (blk_qc blk) (Some (qcHigh (nd_status nd))) (on_state (st_setBlock blk) nd);
      if c < 0 then Some (Some LowerQC, nd)
      else do { nd \<leftarrow> updateQCHigh xenv (blk_qc blk) nd; voteProposal xenv rnd blk nd }
    }"
proof -
  have roles: "nd\<lparr>nd_roles := ex_roles\<rparr> = nd" using assms(1) by (simp add: xok_def)
  have "nd_roles nd = ex_roles" using assms(1) by (simp add: xok_def)
  moreover have "rot_onReceiveProposal blk (on_state (st_setBlock blk) nd) = Some (on_state (st_setBlock blk) nd)"
    using assms(1,3,4) by (simp add: rot_onReceiveProposal_def isNewViewApproval_def xok_def Let_def)
  moreover have "syncParentBlock xenv blk nd = Some (Inr (Some p), nd)"
    unfolding syncParentBlock_def xlookup [OF assms(2)] using assms(7) by simp
  moreover have "\<not> blk_view blk < st_view (nd_status (on_state (st_setBlock blk) nd))" using assms(1,3) by (simp add: xok_def)
  ultimately show ?thesis
    by (simp add: vld_onReceiveProposal_def roles xsync assms(4-6))
qed

lemma xvote:
  assumes "xok nd" and "Proposer blk = Some ex_pub" and "blkTransactions (blk_data blk) = []" and "blk_qc blk = Some (xcert p)"
    and "map_of (cs_blocks (nd_state nd)) (blk_hash p) = Some p"
  shows "\<exists>m. voteProposal xenv rnd blk nd = Some (None, send m nd)"
proof -
  have lead: "isLeader ex_pub nd" using assms(1) ex_validator by (simp add: isLeader_def xok_def ex_priv_def)
  have quota: "\<exists>q. getVoteQuota rnd (nd_status nd) = Some (Inr q)"
    using assms(1) by (simp add: getVoteQuota_def window_vote_def average_quota_def xok_def Let_def)
  have look: "qcRefHeight xenv (xcert p) (send m nd) = Some (blk_height p, send m nd)" for m
    using xlookup [of "send m nd" "blk_hash p" p xenv] assms(5) by (simp add: qcRefHeight_def)
  from quota lead look assms show ?thesis
    by (auto simp: voteProposal_def verifyBlockToVote_def verifyBlockTxs_def xok_def PreserveTxFlag_def setTxsPending_def Let_def)
qed

text \<open>The comparison of two certificates of the same view for known blocks.\<close>

lemma xcmp:
  assumes "map_of (cs_blocks (nd_state nd)) (blk_hash p) = Some p" and "map_of (cs_blocks (nd_state nd)) (blk_hash q) = Some q"
    and "blk_view p = blk_view q"
  shows "cmpQCPriority xenv (Some (xcert p)) (Some (xcert q)) nd =
    Some (if blk_height q < blk_height p then 1 else if blk_height p < blk_height q then - 1 else 0, nd)"
  using assms by (simp add: cmpQCPriority_def qcRefHeight_def xlookup)

lemma xwindow:
  assumes "length (qcQuotas_w w) = 4" "length (voteQuotas w) = 4"
  shows "\<exists>w'. window_update q v h w = Some w' \<and> w_strategy w' = w_strategy w \<and> w_size w' = w_size w \<and>
    length (qcQuotas_w w') = 4 \<and> length (voteQuotas w') = 4"
proof -
  from assms obtain a as b bs where "qcQuotas_w w = a # as" "voteQuotas w = b # bs" "length as = 3" "length bs = 3"
    by (cases "qcQuotas_w w"; cases "voteQuotas w") auto
  with assms show ?thesis by (simp add: window_update_def)
qed

lemma xupdate:
  assumes "xok nd" and "map_of (cs_blocks (nd_state nd)) (blk_hash p) = Some p"
    and "map_of (cs_blocks (nd_state nd)) (parent_hash p) = Some g" and "qcHigh (nd_status nd) = xcert q"
    and "map_of (cs_blocks (nd_state nd)) (blk_hash q) = Some q" and "blk_view p = blk_view q" and "blk_height q < blk_height p"
  shows "\<exists>w s. updateQCHigh xenv (Some (xcert p)) nd =
    (if 0 < blk_height g \<and> blk_view g = blk_view p then commitRecursive xenv g else Some)
      (nd\<lparr>nd_state := st_setQC (xcert p) (nd_state nd), nd_status := (nd_status nd)\<lparr>qcHigh := xcert p, bLeaf := p, st_window := w\<rparr>, nd_strg := s\<rparr>) \<and>
    w_strategy w = AverageVote \<and> w_size w = 4 \<and> length (qcQuotas_w w) = 4 \<and> length (voteQuotas w) = 4"
proof -
  from assms(1) have "length (qcQuotas_w (st_window (nd_status nd))) = 4" "length (voteQuotas (st_window (nd_status nd))) = 4"
    by (simp_all add: xok_def)
  from xwindow [OF this, of 3 0 "blk_height p"] obtain w where w: "window_update 3 0 (blk_height p) (st_window (nd_status nd)) = Some w"
    "w_strategy w = AverageVote" "w_size w = 4" "length (qcQuotas_w w) = 4" "length (voteQuotas w) = 4" using assms(1) by (auto simp: xok_def)
  have "cmpBlockHeight (Some g) (Some xb0) = Some (if 0 < blk_height g then 1 else 0)"
    by (auto simp: cmpBlockHeight_def word_neq_0_conv)
  with w assms show ?thesis
    by (auto simp: updateQCHigh_def xcmp xlookup updateWindow_def Let_def xok_def)
qed

text \<open>The first two proposals; the second brings a certificate for the first.\<close>

lemma xstep1: "\<exists>nd. cons_step xenv (ProposalArrives 0 xb1) xnd = Some nd \<and> xok nd \<and> qcHigh (nd_status nd) = xcert xb0 \<and>
    map_of (cs_blocks (nd_state nd)) [1] = Some xb1"
proof -
  define nd where "nd = on_state (st_setBlock xb1) xnd"
  have xnd: "xok xnd" "map_of (cs_blocks (nd_state xnd)) [0] = Some xb0" "qcHigh (nd_status xnd) = xcert xb0"
    by (simp_all add: xok_def xnd_def xst_def xwin_def st_setQC_def st_setBlock_def newState_def)
  have nd: "xok nd" "map_of (cs_blocks (nd_state nd)) [0] = Some xb0" "map_of (cs_blocks (nd_state nd)) [1] = Some xb1" "qcHigh (nd_status nd) = xcert xb0"
    using xnd by (simp_all add: nd_def xok_def st_setBlock_def update_conv')
  have cmp: "cmpQCPriority xenv (Some (xcert xb0)) (Some (xcert xb0)) nd = Some (0, nd)" using xcmp [of nd xb0 xb0] nd(2) by simp
  obtain m where v: "voteProposal xenv 0 xb1 nd = Some (None, send m nd)" using xvote [OF nd(1), of xb1 xb0 0] nd(2) by auto
  have "vld_onReceiveProposal xenv 0 xb1 xnd = Some (None, send m nd)"
    using xreceive [OF xnd(1), of xb1 xb0 0] xnd cmp v nd(4) by (simp add: updateQCHigh_def nd_def [symmetric])
  with nd show ?thesis by (simp add: proposalLoop_turn_def xok_def)
qed

lemma xstep2:
  assumes "xok nd" and "qcHigh (nd_status nd) = xcert xb0" and "map_of (cs_blocks (nd_state nd)) [1] = Some xb1"
  shows "\<exists>nd'. cons_step xenv (ProposalArrives 0 xb2) nd = Some nd' \<and> xok nd' \<and> qcHigh (nd_status nd') = xcert xb1 \<and>
    map_of (cs_blocks (nd_state nd')) [1] = Some xb1 \<and> map_of (cs_blocks (nd_state nd')) [2] = Some xb2"
proof -
  define nd1 where "nd1 = on_state (st_setBlock xb2) nd"
  have nd1: "xok nd1" "map_of (cs_blocks (nd_state nd1)) [0] = Some xb0" "map_of (cs_blocks (nd_state nd1)) [1] = Some xb1"
    "map_of (cs_blocks (nd_state nd1)) [2] = Some xb2" "qcHigh (nd_status nd1) = xcert xb0"
    using assms by (simp_all add: nd1_def xok_def st_setBlock_def update_conv')
  have cmp: "cmpQCPriority xenv (Some (xcert xb1)) (Some (xcert xb0)) nd1 = Some (1, nd1)" using xcmp [of nd1 xb1 xb0] nd1(2,3) by simp
  from xupdate [OF nd1(1), of xb1 xb0 xb0] nd1 obtain w s nd2 where
    nd2: "nd2 = nd1\<lparr>nd_state := st_setQC (xcert xb1) (nd_state nd1), nd_status := (nd_status nd1)\<lparr>qcHigh := xcert xb1, bLeaf := xb1, st_window := w\<rparr>, nd_strg := s\<rparr>"
    and u: "updateQCHigh xenv (Some (xcert xb1)) nd1 = Some nd2"
    and w: "w_strategy w = AverageVote" "w_size w = 4" "length (qcQuotas_w w) = 4" "length (voteQuotas w) = 4" by auto
  have nd2': "xok nd2" "map_of (cs_blocks (nd_state nd2)) [1] = Some xb1" "map_of (cs_blocks (nd_state nd2)) [2] = Some xb2" "qcHigh (nd_status nd2) = xcert xb1"
    using nd1 w by (simp_all add: nd2 xok_def st_setQC_def)
  obtain m where v: "voteProposal xenv 0 xb2 nd2 = Some (None, send m nd2)" using xvote [OF nd2'(1), of xb2 xb1 0] nd2'(2) by auto
  have "vld_onReceiveProposal xenv 0 xb2 nd = Some (None, send m nd2)"
    using xreceive [OF assms(1), of xb2 xb1 0] assms cmp u v nd1(5) by (simp add: nd1_def [symmetric])
  with nd2' show ?thesis by (simp add: proposalLoop_turn_def xok_def)
qed

text \<open>The commit of the first block.\<close>

lemma xclean:
  assumes "blkTransactions (blk_data blk) = []" and "blk_height blk < 20"
  shows "\<exists>nd'. cleanStateOnCommitted blk nd = Some nd' \<and> committedHeight (nd_state nd') = blk_height blk \<and> nd_roles nd' = nd_roles nd"
proof -
  have "committedHeight (nd_state (fold forget_block bs nd)) = committedHeight (nd_state nd) \<and> nd_roles (fold forget_block bs nd) = nd_roles nd"
    for bs and nd :: "'a node"
    by (induction bs arbitrary: nd) (simp_all add: forget_block_def deleteQC_def deleteBlock_def)
  with assms show ?thesis
    by (simp add: cleanStateOnCommitted_def PreserveTxFlag_def Let_def removeTxs_def setCommittedBlock_def)
qed

lemma xstore:
  "\<exists>s'. commit xstrg sched \<lparr>cdBlock = xb1, cdTransactions = [], cdBlockCommit = bcm\<lparr>bcStateChanges := []\<rparr>, cdTxCommits = [], cdMerkleUpdate = None\<rparr> s =
     Some (\<lparr>cdBlock = xb1, cdTransactions = [], cdBlockCommit = bcm\<lparr>bcStateChanges := []\<rparr>, cdTxCommits = [], cdMerkleUpdate = None\<rparr>, s', None) \<and>
     GetBlockHeight xstrg s' = Some 1"
proof -
  have "m_block xcodec (blk_data xb1) = Inr [1]" using xdata_ne by (simp add: xcodec_def)
  then show ?thesis
    by (simp add: commit_def writeCommitData_def writeChainData_def writeBlockCommit_def writeStateMerkleTree_def setCommittedBlockHeight_def
      setBlock_def setBlockByHash_def setBlockHashByHeight_def setTxs_def setTxCommits_def setBlockCommit_def setBlockHeight_def put_msg_def
      GetBlockHeight_def getBlockHeight_def uint64BEBytes_def be_nat_be_bytes convertPrefix_def concatBytes_def Let_def)
      (simp add: xcodec_def be_nat_be_bytes)
qed

lemma xcommit:
  assumes "xok nd" and "map_of (cs_blocks (nd_state nd)) [1] = Some xb1"
  shows "\<exists>nd'. commitRecursive xenv xb1 nd = Some nd' \<and> nd_commits nd' = [xb1] \<and> committedHeight (nd_state nd') = 1 \<and> nd_roles nd' = ex_roles \<and>
    GetBlockHeight xstrg (nd_strg nd') = Some 1 \<and> leaderIndex (nd_status nd') = 0 \<and> bExec (nd_status nd') = xb1"
proof -
  have look: "getBlockByHash xenv [0] nd = (Some xb0, nd)" using assms(1) by (simp add: xok_def xlookup)
  have "onCommit xenv (Some xb0) nd = Some nd"
    using assms(1) by (subst onCommit.simps) (simp add: cmpBlockHeight_def xok_def)
  then have c: "onCommit xenv (Some xb1) nd = driver_commit xenv xb1 nd"
    using assms(1) look by (subst onCommit.simps) (simp add: cmpBlockHeight_def xok_def)
  define bcm where "bcm = \<lparr>bcHash = [1], bcOldBlockTxs = [], bcStateChanges = [], bcLeafCount = [], bcMerkleRoot = None\<rparr>"
  from xstore [of "ce_merkle xenv" bcm "nd_strg nd"] obtain d s where
    com: "commit xstrg (ce_merkle xenv) \<lparr>cdBlock = xb1, cdTransactions = [], cdBlockCommit = bcm, cdTxCommits = [], cdMerkleUpdate = None\<rparr> (nd_strg nd) = Some (d, s, None)"
    and h: "GetBlockHeight xstrg s = Some 1" by (auto simp: bcm_def)
  define nd1 where "nd1 = on_state (addCommittedTxCount 0) (nd\<lparr>nd_strg := s, nd_commits := [xb1]\<rparr>)"
  have x: "ce_Execute xenv (nd_strg nd) xb1 [] = (bcm, [])" by (simp add: xenv_def ex_cons_env_def bcm_def)
  from xclean [of xb1 nd1] obtain nd2 where cl: "cleanStateOnCommitted xb1 nd1 = Some nd2" "committedHeight (nd_state nd2) = 1" "nd_roles nd2 = nd_roles nd1" by auto
  have "nd1 = on_state (addCommittedTxCount 0) (nd\<lparr>nd_pool := nd_pool nd, nd_strg := s, nd_commits := [xb1]\<rparr>)" by (simp add: nd1_def)
  then have "driver_commit xenv xb1 nd = Some nd2"
    using assms(1) com x cl(1) by (simp add: driver_commit_def xok_def getTxsToExecute_def setTxsPending_def bcm_def)
  moreover from cleaned_clean [OF cl(1)] have "nd_status nd2 = nd_status nd" "nd_commits nd2 = [xb1]" "nd_strg nd2 = s"
    by (simp_all add: cleaned_def nd1_def)
  ultimately show ?thesis using c cl h assms(1) by (simp add: commitRecursive_def nd1_def xok_def)
qed

lemma xstep3:
  assumes "xok nd" and "qcHigh (nd_status nd) = xcert xb1" and "map_of (cs_blocks (nd_state nd)) [1] = Some xb1"
    and "map_of (cs_blocks (nd_state nd)) [2] = Some xb2"
  shows "\<exists>nd'. cons_step xenv (ProposalArrives 0 xb3) nd = Some nd' \<and> nd_commits nd' = [xb1] \<and> bExec (nd_status nd') = xb1"
proof -
  define nd1 where "nd1 = on_state (st_setBlock xb3) nd"
  have nd1: "xok nd1" "map_of (cs_blocks (nd_state nd1)) [1] = Some xb1" "map_of (cs_blocks (nd_state nd1)) [2] = Some xb2" "qcHigh (nd_status nd1) = xcert xb1"
    using assms by (simp_all add: nd1_def xok_def st_setBlock_def update_conv')
  have cmp: "cmpQCPriority xenv (Some (xcert xb2)) (Some (xcert xb1)) nd1 = Some (1, nd1)" using xcmp [of nd1 xb2 xb1] nd1(2,3) by simp
  from xupdate [OF nd1(1), of xb2 xb1 xb1] nd1 obtain w s nd2 where
    nd2: "nd2 = nd1\<lparr>nd_state := st_setQC (xcert xb2) (nd_state nd1), nd_status := (nd_status nd1)\<lparr>qcHigh := xcert xb2, bLeaf := xb2, st_window := w\<rparr>, nd_strg := s\<rparr>"
    and u: "updateQCHigh xenv (Some (xcert xb2)) nd1 = commitRecursive xenv xb1 nd2"
    and w: "w_strategy w = AverageVote" "w_size w = 4" "length (qcQuotas_w w) = 4" "length (voteQuotas w) = 4" by auto
  have "xok nd2" "map_of (cs_blocks (nd_state nd2)) [1] = Some xb1" using nd1 w by (simp_all add: nd2 xok_def st_setQC_def)
  from xcommit [OF this] obtain nd3 where nd3: "commitRecursive xenv xb1 nd2 = Some nd3" "nd_commits nd3 = [xb1]" "committedHeight (nd_state nd3) = 1"
    "nd_roles nd3 = ex_roles" "GetBlockHeight xstrg (nd_strg nd3) = Some 1" "leaderIndex (nd_status nd3) = 0" "bExec (nd_status nd3) = xb1" by auto
  have "isLeader ex_pub nd3" using nd3 ex_validator by (simp add: isLeader_def ex_priv_def)
  then have "voteProposal xenv 0 xb3 nd3 = Some (Some InvalidExecHeight, nd3)"
    using nd3 by (simp add: voteProposal_def verifyBlockToVote_def verifyExecHeight_def)
  then have "vld_onReceiveProposal xenv 0 xb3 nd = Some (Some InvalidExecHeight, nd3)"
    using xreceive [OF assms(1), of xb3 xb2 0] assms cmp u nd3(1) nd1(4) by (simp add: nd1_def [symmetric])
  with nd3 show ?thesis by (simp add: proposalLoop_turn_def)
qed

text \<open>The run, as an instance of the safety theorem.\<close>

theorem node_commits_chain_witness:
  "\<exists>nd st nd'. cons_start xsenv xgns = Some (nd, st) \<and> nd_commits nd = [] \<and>
     cons_run xenv [ProposalArrives 0 xb1, ProposalArrives 0 xb2, ProposalArrives 0 xb3] nd = Some nd' \<and> nd_commits nd' = [xb1] \<and>
     linked (blk_hash (bExec (nd_status nd))) (nd_commits nd') \<and>
     qcView (qc_data (qcHigh (nd_status nd))) \<le> qcView (qc_data (qcHigh (nd_status nd')))"
proof -
  obtain st where st: "cons_start xsenv xgns = Some (xnd, st)" using xstart by blast
  obtain nd' where r: "cons_run xenv [ProposalArrives 0 xb1, ProposalArrives 0 xb2, ProposalArrives 0 xb3] xnd = Some nd'" "nd_commits nd' = [xb1]"
    using xstep1 xstep2 xstep3 by fastforce
  have 0: "gs_b0 xgns = None" "gs_strg xgns = xs" "nd_commits xnd = []" by (simp_all add: xgns_def ex_gns_def xnd_def)
  from node_commits_chain [of xsenv xgns xnd st "[]" xnd, simplified, OF xs_laws _ 0(1) st r(1)] xs_ok 0 r st show ?thesis by auto
qed

end
