(* ===== verification/Evm_Opcodes.thy ===== *)
theory Evm_Opcodes
  imports Prelude
begin

text \<open>
  The opcodes of \<^verbatim>\<open>src/evm/opcodes.go\<close>: the constants of each range, the two name tables and the
  predicates on an opcode. A constant \<^verbatim>\<open>X\<close> of the source is \<open>OP_X\<close> here.
\<close>

type_synonym opcode = u8

named_theorems opcode_defs "the values of the opcodes"

subsection \<open>0x0 range - arithmetic ops\<close>

definition OP_STOP :: opcode where [opcode_defs]: "OP_STOP = 0x00"
definition OP_ADD :: opcode where [opcode_defs]: "OP_ADD = 0x01"
definition OP_MUL :: opcode where [opcode_defs]: "OP_MUL = 0x02"
definition OP_SUB :: opcode where [opcode_defs]: "OP_SUB = 0x03"
definition OP_DIV :: opcode where [opcode_defs]: "OP_DIV = 0x04"
definition OP_SDIV :: opcode where [opcode_defs]: "OP_SDIV = 0x05"
definition OP_MOD :: opcode where [opcode_defs]: "OP_MOD = 0x06"
definition OP_SMOD :: opcode where [opcode_defs]: "OP_SMOD = 0x07"
definition OP_ADDMOD :: opcode where [opcode_defs]: "OP_ADDMOD = 0x08"
definition OP_MULMOD :: opcode where [opcode_defs]: "OP_MULMOD = 0x09"
definition OP_EXP :: opcode where [opcode_defs]: "OP_EXP = 0x0A"
definition OP_SIGNEXTEND :: opcode where [opcode_defs]: "OP_SIGNEXTEND = 0x0B"
subsection \<open>0x10 range - comparison ops\<close>

definition OP_LT :: opcode where [opcode_defs]: "OP_LT = 0x10"
definition OP_GT :: opcode where [opcode_defs]: "OP_GT = 0x11"
definition OP_SLT :: opcode where [opcode_defs]: "OP_SLT = 0x12"
definition OP_SGT :: opcode where [opcode_defs]: "OP_SGT = 0x13"
definition OP_EQ :: opcode where [opcode_defs]: "OP_EQ = 0x14"
definition OP_ISZERO :: opcode where [opcode_defs]: "OP_ISZERO = 0x15"
definition OP_AND :: opcode where [opcode_defs]: "OP_AND = 0x16"
definition OP_OR :: opcode where [opcode_defs]: "OP_OR = 0x17"
definition OP_XOR :: opcode where [opcode_defs]: "OP_XOR = 0x18"
definition OP_NOT :: opcode where [opcode_defs]: "OP_NOT = 0x19"
definition OP_BYTE :: opcode where [opcode_defs]: "OP_BYTE = 0x1A"
definition OP_SHL :: opcode where [opcode_defs]: "OP_SHL = 0x1B"
definition OP_SHR :: opcode where [opcode_defs]: "OP_SHR = 0x1C"
definition OP_SAR :: opcode where [opcode_defs]: "OP_SAR = 0x1D"
definition OP_SHA3 :: opcode where [opcode_defs]: "OP_SHA3 = 0x20"
subsection \<open>0x30 range - closure state\<close>

definition OP_ADDRESS :: opcode where [opcode_defs]: "OP_ADDRESS = 0x30"
definition OP_BALANCE :: opcode where [opcode_defs]: "OP_BALANCE = 0x31"
definition OP_ORIGIN :: opcode where [opcode_defs]: "OP_ORIGIN = 0x32"
definition OP_CALLER :: opcode where [opcode_defs]: "OP_CALLER = 0x33"
definition OP_CALLVALUE :: opcode where [opcode_defs]: "OP_CALLVALUE = 0x34"
definition OP_CALLDATALOAD :: opcode where [opcode_defs]: "OP_CALLDATALOAD = 0x35"
definition OP_CALLDATASIZE :: opcode where [opcode_defs]: "OP_CALLDATASIZE = 0x36"
definition OP_CALLDATACOPY :: opcode where [opcode_defs]: "OP_CALLDATACOPY = 0x37"
definition OP_CODESIZE :: opcode where [opcode_defs]: "OP_CODESIZE = 0x38"
definition OP_CODECOPY :: opcode where [opcode_defs]: "OP_CODECOPY = 0x39"
definition OP_GASPRICE :: opcode where [opcode_defs]: "OP_GASPRICE = 0x3A"
definition OP_EXTCODESIZE :: opcode where [opcode_defs]: "OP_EXTCODESIZE = 0x3B"
definition OP_EXTCODECOPY :: opcode where [opcode_defs]: "OP_EXTCODECOPY = 0x3C"
definition OP_RETURNDATASIZE :: opcode where [opcode_defs]: "OP_RETURNDATASIZE = 0x3D"
definition OP_RETURNDATACOPY :: opcode where [opcode_defs]: "OP_RETURNDATACOPY = 0x3E"
definition OP_EXTCODEHASH :: opcode where [opcode_defs]: "OP_EXTCODEHASH = 0x3F"
subsection \<open>0x40 range - block operations\<close>

definition OP_BLOCKHASH :: opcode where [opcode_defs]: "OP_BLOCKHASH = 0x40"
definition OP_COINBASE :: opcode where [opcode_defs]: "OP_COINBASE = 0x41"
definition OP_TIMESTAMP :: opcode where [opcode_defs]: "OP_TIMESTAMP = 0x42"
definition OP_NUMBER :: opcode where [opcode_defs]: "OP_NUMBER = 0x43"
definition OP_DIFFICULTY :: opcode where [opcode_defs]: "OP_DIFFICULTY = 0x44"
definition OP_GASLIMIT :: opcode where [opcode_defs]: "OP_GASLIMIT = 0x45"
definition OP_CHAINID :: opcode where [opcode_defs]: "OP_CHAINID = 0x46"
definition OP_SELFBALANCE :: opcode where [opcode_defs]: "OP_SELFBALANCE = 0x47"
subsection \<open>0x50 range - storage and execution\<close>

definition OP_POP :: opcode where [opcode_defs]: "OP_POP = 0x50"
definition OP_MLOAD :: opcode where [opcode_defs]: "OP_MLOAD = 0x51"
definition OP_MSTORE :: opcode where [opcode_defs]: "OP_MSTORE = 0x52"
definition OP_MSTORE8 :: opcode where [opcode_defs]: "OP_MSTORE8 = 0x53"
definition OP_SLOAD :: opcode where [opcode_defs]: "OP_SLOAD = 0x54"
definition OP_SSTORE :: opcode where [opcode_defs]: "OP_SSTORE = 0x55"
definition OP_JUMP :: opcode where [opcode_defs]: "OP_JUMP = 0x56"
definition OP_JUMPI :: opcode where [opcode_defs]: "OP_JUMPI = 0x57"
definition OP_PC :: opcode where [opcode_defs]: "OP_PC = 0x58"
definition OP_MSIZE :: opcode where [opcode_defs]: "OP_MSIZE = 0x59"
definition OP_GAS :: opcode where [opcode_defs]: "OP_GAS = 0x5A"
definition OP_JUMPDEST :: opcode where [opcode_defs]: "OP_JUMPDEST = 0x5B"
definition OP_BEGINSUB :: opcode where [opcode_defs]: "OP_BEGINSUB = 0x5C"
definition OP_RETURNSUB :: opcode where [opcode_defs]: "OP_RETURNSUB = 0x5D"
definition OP_JUMPSUB :: opcode where [opcode_defs]: "OP_JUMPSUB = 0x5E"
subsection \<open>0x60 range\<close>

definition OP_PUSH1 :: opcode where [opcode_defs]: "OP_PUSH1 = 0x60"
definition OP_PUSH2 :: opcode where [opcode_defs]: "OP_PUSH2 = 0x61"
definition OP_PUSH3 :: opcode where [opcode_defs]: "OP_PUSH3 = 0x62"
definition OP_PUSH4 :: opcode where [opcode_defs]: "OP_PUSH4 = 0x63"
definition OP_PUSH5 :: opcode where [opcode_defs]: "OP_PUSH5 = 0x64"
definition OP_PUSH6 :: opcode where [opcode_defs]: "OP_PUSH6 = 0x65"
definition OP_PUSH7 :: opcode where [opcode_defs]: "OP_PUSH7 = 0x66"
definition OP_PUSH8 :: opcode where [opcode_defs]: "OP_PUSH8 = 0x67"
definition OP_PUSH9 :: opcode where [opcode_defs]: "OP_PUSH9 = 0x68"
definition OP_PUSH10 :: opcode where [opcode_defs]: "OP_PUSH10 = 0x69"
definition OP_PUSH11 :: opcode where [opcode_defs]: "OP_PUSH11 = 0x6A"
definition OP_PUSH12 :: opcode where [opcode_defs]: "OP_PUSH12 = 0x6B"
definition OP_PUSH13 :: opcode where [opcode_defs]: "OP_PUSH13 = 0x6C"
definition OP_PUSH14 :: opcode where [opcode_defs]: "OP_PUSH14 = 0x6D"
definition OP_PUSH15 :: opcode where [opcode_defs]: "OP_PUSH15 = 0x6E"
definition OP_PUSH16 :: opcode where [opcode_defs]: "OP_PUSH16 = 0x6F"
definition OP_PUSH17 :: opcode where [opcode_defs]: "OP_PUSH17 = 0x70"
definition OP_PUSH18 :: opcode where [opcode_defs]: "OP_PUSH18 = 0x71"
definition OP_PUSH19 :: opcode where [opcode_defs]: "OP_PUSH19 = 0x72"
definition OP_PUSH20 :: opcode where [opcode_defs]: "OP_PUSH20 = 0x73"
definition OP_PUSH21 :: opcode where [opcode_defs]: "OP_PUSH21 = 0x74"
definition OP_PUSH22 :: opcode where [opcode_defs]: "OP_PUSH22 = 0x75"
definition OP_PUSH23 :: opcode where [opcode_defs]: "OP_PUSH23 = 0x76"
definition OP_PUSH24 :: opcode where [opcode_defs]: "OP_PUSH24 = 0x77"
definition OP_PUSH25 :: opcode where [opcode_defs]: "OP_PUSH25 = 0x78"
definition OP_PUSH26 :: opcode where [opcode_defs]: "OP_PUSH26 = 0x79"
definition OP_PUSH27 :: opcode where [opcode_defs]: "OP_PUSH27 = 0x7A"
definition OP_PUSH28 :: opcode where [opcode_defs]: "OP_PUSH28 = 0x7B"
definition OP_PUSH29 :: opcode where [opcode_defs]: "OP_PUSH29 = 0x7C"
definition OP_PUSH30 :: opcode where [opcode_defs]: "OP_PUSH30 = 0x7D"
definition OP_PUSH31 :: opcode where [opcode_defs]: "OP_PUSH31 = 0x7E"
definition OP_PUSH32 :: opcode where [opcode_defs]: "OP_PUSH32 = 0x7F"
definition OP_DUP1 :: opcode where [opcode_defs]: "OP_DUP1 = 0x80"
definition OP_DUP2 :: opcode where [opcode_defs]: "OP_DUP2 = 0x81"
definition OP_DUP3 :: opcode where [opcode_defs]: "OP_DUP3 = 0x82"
definition OP_DUP4 :: opcode where [opcode_defs]: "OP_DUP4 = 0x83"
definition OP_DUP5 :: opcode where [opcode_defs]: "OP_DUP5 = 0x84"
definition OP_DUP6 :: opcode where [opcode_defs]: "OP_DUP6 = 0x85"
definition OP_DUP7 :: opcode where [opcode_defs]: "OP_DUP7 = 0x86"
definition OP_DUP8 :: opcode where [opcode_defs]: "OP_DUP8 = 0x87"
definition OP_DUP9 :: opcode where [opcode_defs]: "OP_DUP9 = 0x88"
definition OP_DUP10 :: opcode where [opcode_defs]: "OP_DUP10 = 0x89"
definition OP_DUP11 :: opcode where [opcode_defs]: "OP_DUP11 = 0x8A"
definition OP_DUP12 :: opcode where [opcode_defs]: "OP_DUP12 = 0x8B"
definition OP_DUP13 :: opcode where [opcode_defs]: "OP_DUP13 = 0x8C"
definition OP_DUP14 :: opcode where [opcode_defs]: "OP_DUP14 = 0x8D"
definition OP_DUP15 :: opcode where [opcode_defs]: "OP_DUP15 = 0x8E"
definition OP_DUP16 :: opcode where [opcode_defs]: "OP_DUP16 = 0x8F"
definition OP_SWAP1 :: opcode where [opcode_defs]: "OP_SWAP1 = 0x90"
definition OP_SWAP2 :: opcode where [opcode_defs]: "OP_SWAP2 = 0x91"
definition OP_SWAP3 :: opcode where [opcode_defs]: "OP_SWAP3 = 0x92"
definition OP_SWAP4 :: opcode where [opcode_defs]: "OP_SWAP4 = 0x93"
definition OP_SWAP5 :: opcode where [opcode_defs]: "OP_SWAP5 = 0x94"
definition OP_SWAP6 :: opcode where [opcode_defs]: "OP_SWAP6 = 0x95"
definition OP_SWAP7 :: opcode where [opcode_defs]: "OP_SWAP7 = 0x96"
definition OP_SWAP8 :: opcode where [opcode_defs]: "OP_SWAP8 = 0x97"
definition OP_SWAP9 :: opcode where [opcode_defs]: "OP_SWAP9 = 0x98"
definition OP_SWAP10 :: opcode where [opcode_defs]: "OP_SWAP10 = 0x99"
definition OP_SWAP11 :: opcode where [opcode_defs]: "OP_SWAP11 = 0x9A"
definition OP_SWAP12 :: opcode where [opcode_defs]: "OP_SWAP12 = 0x9B"
definition OP_SWAP13 :: opcode where [opcode_defs]: "OP_SWAP13 = 0x9C"
definition OP_SWAP14 :: opcode where [opcode_defs]: "OP_SWAP14 = 0x9D"
definition OP_SWAP15 :: opcode where [opcode_defs]: "OP_SWAP15 = 0x9E"
definition OP_SWAP16 :: opcode where [opcode_defs]: "OP_SWAP16 = 0x9F"
subsection \<open>0xa0 range - logging ops\<close>

definition OP_LOG0 :: opcode where [opcode_defs]: "OP_LOG0 = 0xA0"
definition OP_LOG1 :: opcode where [opcode_defs]: "OP_LOG1 = 0xA1"
definition OP_LOG2 :: opcode where [opcode_defs]: "OP_LOG2 = 0xA2"
definition OP_LOG3 :: opcode where [opcode_defs]: "OP_LOG3 = 0xA3"
definition OP_LOG4 :: opcode where [opcode_defs]: "OP_LOG4 = 0xA4"
subsection \<open>Unofficial opcodes used for parsing\<close>

definition OP_PUSH :: opcode where [opcode_defs]: "OP_PUSH = 0xB0"
definition OP_DUP :: opcode where [opcode_defs]: "OP_DUP = 0xB1"
definition OP_SWAP :: opcode where [opcode_defs]: "OP_SWAP = 0xB2"
subsection \<open>0xf0 range - closures\<close>

definition OP_CREATE :: opcode where [opcode_defs]: "OP_CREATE = 0xF0"
definition OP_CALL :: opcode where [opcode_defs]: "OP_CALL = 0xF1"
definition OP_CALLCODE :: opcode where [opcode_defs]: "OP_CALLCODE = 0xF2"
definition OP_RETURN :: opcode where [opcode_defs]: "OP_RETURN = 0xF3"
definition OP_DELEGATECALL :: opcode where [opcode_defs]: "OP_DELEGATECALL = 0xF4"
definition OP_CREATE2 :: opcode where [opcode_defs]: "OP_CREATE2 = 0xF5"
definition OP_STATICCALL :: opcode where [opcode_defs]: "OP_STATICCALL = 0xFA"
definition OP_REVERT :: opcode where [opcode_defs]: "OP_REVERT = 0xFD"
definition OP_SELFDESTRUCT :: opcode where [opcode_defs]: "OP_SELFDESTRUCT = 0xFF"

section \<open>Names\<close>

definition opCodeToString :: "(opcode \<times> string) list" where
  "opCodeToString = [
    (OP_STOP, ''STOP''), (OP_ADD, ''ADD''), (OP_MUL, ''MUL''), (OP_SUB, ''SUB''),
    (OP_DIV, ''DIV''), (OP_SDIV, ''SDIV''), (OP_MOD, ''MOD''), (OP_SMOD, ''SMOD''),
    (OP_EXP, ''EXP''), (OP_NOT, ''NOT''), (OP_LT, ''LT''), (OP_GT, ''GT''),
    (OP_SLT, ''SLT''), (OP_SGT, ''SGT''), (OP_EQ, ''EQ''), (OP_ISZERO, ''ISZERO''),
    (OP_SIGNEXTEND, ''SIGNEXTEND''), (OP_AND, ''AND''), (OP_OR, ''OR''), (OP_XOR, ''XOR''),
    (OP_BYTE, ''BYTE''), (OP_SHL, ''SHL''), (OP_SHR, ''SHR''), (OP_SAR, ''SAR''),
    (OP_ADDMOD, ''ADDMOD''), (OP_MULMOD, ''MULMOD''), (OP_SHA3, ''SHA3''), (OP_ADDRESS, ''ADDRESS''),
    (OP_BALANCE, ''BALANCE''), (OP_ORIGIN, ''ORIGIN''), (OP_CALLER, ''CALLER''), (OP_CALLVALUE, ''CALLVALUE''),
    (OP_CALLDATALOAD, ''CALLDATALOAD''), (OP_CALLDATASIZE, ''CALLDATASIZE''), (OP_CALLDATACOPY, ''CALLDATACOPY''), (OP_CODESIZE, ''CODESIZE''),
    (OP_CODECOPY, ''CODECOPY''), (OP_GASPRICE, ''GASPRICE''), (OP_EXTCODESIZE, ''EXTCODESIZE''), (OP_EXTCODECOPY, ''EXTCODECOPY''),
    (OP_RETURNDATASIZE, ''RETURNDATASIZE''), (OP_RETURNDATACOPY, ''RETURNDATACOPY''), (OP_EXTCODEHASH, ''EXTCODEHASH''), (OP_BLOCKHASH, ''BLOCKHASH''),
    (OP_COINBASE, ''COINBASE''), (OP_TIMESTAMP, ''TIMESTAMP''), (OP_NUMBER, ''NUMBER''), (OP_DIFFICULTY, ''DIFFICULTY''),
    (OP_GASLIMIT, ''GASLIMIT''), (OP_CHAINID, ''CHAINID''), (OP_SELFBALANCE, ''SELFBALANCE''), (OP_POP, ''POP''),
    (OP_MLOAD, ''MLOAD''), (OP_MSTORE, ''MSTORE''), (OP_MSTORE8, ''MSTORE8''), (OP_SLOAD, ''SLOAD''),
    (OP_SSTORE, ''SSTORE''), (OP_JUMP, ''JUMP''), (OP_JUMPI, ''JUMPI''), (OP_PC, ''PC''),
    (OP_MSIZE, ''MSIZE''), (OP_GAS, ''GAS''), (OP_JUMPDEST, ''JUMPDEST''), (OP_BEGINSUB, ''BEGINSUB''),
    (OP_JUMPSUB, ''JUMPSUB''), (OP_RETURNSUB, ''RETURNSUB''), (OP_PUSH1, ''PUSH1''), (OP_PUSH2, ''PUSH2''),
    (OP_PUSH3, ''PUSH3''), (OP_PUSH4, ''PUSH4''), (OP_PUSH5, ''PUSH5''), (OP_PUSH6, ''PUSH6''),
    (OP_PUSH7, ''PUSH7''), (OP_PUSH8, ''PUSH8''), (OP_PUSH9, ''PUSH9''), (OP_PUSH10, ''PUSH10''),
    (OP_PUSH11, ''PUSH11''), (OP_PUSH12, ''PUSH12''), (OP_PUSH13, ''PUSH13''), (OP_PUSH14, ''PUSH14''),
    (OP_PUSH15, ''PUSH15''), (OP_PUSH16, ''PUSH16''), (OP_PUSH17, ''PUSH17''), (OP_PUSH18, ''PUSH18''),
    (OP_PUSH19, ''PUSH19''), (OP_PUSH20, ''PUSH20''), (OP_PUSH21, ''PUSH21''), (OP_PUSH22, ''PUSH22''),
    (OP_PUSH23, ''PUSH23''), (OP_PUSH24, ''PUSH24''), (OP_PUSH25, ''PUSH25''), (OP_PUSH26, ''PUSH26''),
    (OP_PUSH27, ''PUSH27''), (OP_PUSH28, ''PUSH28''), (OP_PUSH29, ''PUSH29''), (OP_PUSH30, ''PUSH30''),
    (OP_PUSH31, ''PUSH31''), (OP_PUSH32, ''PUSH32''), (OP_DUP1, ''DUP1''), (OP_DUP2, ''DUP2''),
    (OP_DUP3, ''DUP3''), (OP_DUP4, ''DUP4''), (OP_DUP5, ''DUP5''), (OP_DUP6, ''DUP6''),
    (OP_DUP7, ''DUP7''), (OP_DUP8, ''DUP8''), (OP_DUP9, ''DUP9''), (OP_DUP10, ''DUP10''),
    (OP_DUP11, ''DUP11''), (OP_DUP12, ''DUP12''), (OP_DUP13, ''DUP13''), (OP_DUP14, ''DUP14''),
    (OP_DUP15, ''DUP15''), (OP_DUP16, ''DUP16''), (OP_SWAP1, ''SWAP1''), (OP_SWAP2, ''SWAP2''),
    (OP_SWAP3, ''SWAP3''), (OP_SWAP4, ''SWAP4''), (OP_SWAP5, ''SWAP5''), (OP_SWAP6, ''SWAP6''),
    (OP_SWAP7, ''SWAP7''), (OP_SWAP8, ''SWAP8''), (OP_SWAP9, ''SWAP9''), (OP_SWAP10, ''SWAP10''),
    (OP_SWAP11, ''SWAP11''), (OP_SWAP12, ''SWAP12''), (OP_SWAP13, ''SWAP13''), (OP_SWAP14, ''SWAP14''),
    (OP_SWAP15, ''SWAP15''), (OP_SWAP16, ''SWAP16''), (OP_LOG0, ''LOG0''), (OP_LOG1, ''LOG1''),
    (OP_LOG2, ''LOG2''), (OP_LOG3, ''LOG3''), (OP_LOG4, ''LOG4''), (OP_CREATE, ''CREATE''),
    (OP_CALL, ''CALL''), (OP_RETURN, ''RETURN''), (OP_CALLCODE, ''CALLCODE''), (OP_DELEGATECALL, ''DELEGATECALL''),
    (OP_CREATE2, ''CREATE2''), (OP_STATICCALL, ''STATICCALL''), (OP_REVERT, ''REVERT''), (OP_SELFDESTRUCT, ''SELFDESTRUCT''),
    (OP_PUSH, ''PUSH''), (OP_DUP, ''DUP''), (OP_SWAP, ''SWAP'')]"

definition stringToOp :: "(string \<times> opcode) list" where
  "stringToOp = [
    (''STOP'', OP_STOP), (''ADD'', OP_ADD), (''MUL'', OP_MUL), (''SUB'', OP_SUB),
    (''DIV'', OP_DIV), (''SDIV'', OP_SDIV), (''MOD'', OP_MOD), (''SMOD'', OP_SMOD),
    (''EXP'', OP_EXP), (''NOT'', OP_NOT), (''LT'', OP_LT), (''GT'', OP_GT),
    (''SLT'', OP_SLT), (''SGT'', OP_SGT), (''EQ'', OP_EQ), (''ISZERO'', OP_ISZERO),
    (''SIGNEXTEND'', OP_SIGNEXTEND), (''AND'', OP_AND), (''OR'', OP_OR), (''XOR'', OP_XOR),
    (''BYTE'', OP_BYTE), (''SHL'', OP_SHL), (''SHR'', OP_SHR), (''SAR'', OP_SAR),
    (''ADDMOD'', OP_ADDMOD), (''MULMOD'', OP_MULMOD), (''SHA3'', OP_SHA3), (''ADDRESS'', OP_ADDRESS),
    (''BALANCE'', OP_BALANCE), (''ORIGIN'', OP_ORIGIN), (''CALLER'', OP_CALLER), (''CALLVALUE'', OP_CALLVALUE),
    (''CALLDATALOAD'', OP_CALLDATALOAD), (''CALLDATASIZE'', OP_CALLDATASIZE), (''CALLDATACOPY'', OP_CALLDATACOPY), (''CHAINID'', OP_CHAINID),
    (''DELEGATECALL'', OP_DELEGATECALL), (''STATICCALL'', OP_STATICCALL), (''CODESIZE'', OP_CODESIZE), (''CODECOPY'', OP_CODECOPY),
    (''GASPRICE'', OP_GASPRICE), (''EXTCODESIZE'', OP_EXTCODESIZE), (''EXTCODECOPY'', OP_EXTCODECOPY), (''RETURNDATASIZE'', OP_RETURNDATASIZE),
    (''RETURNDATACOPY'', OP_RETURNDATACOPY), (''EXTCODEHASH'', OP_EXTCODEHASH), (''BLOCKHASH'', OP_BLOCKHASH), (''COINBASE'', OP_COINBASE),
    (''TIMESTAMP'', OP_TIMESTAMP), (''NUMBER'', OP_NUMBER), (''DIFFICULTY'', OP_DIFFICULTY), (''GASLIMIT'', OP_GASLIMIT),
    (''SELFBALANCE'', OP_SELFBALANCE), (''POP'', OP_POP), (''MLOAD'', OP_MLOAD), (''MSTORE'', OP_MSTORE),
    (''MSTORE8'', OP_MSTORE8), (''SLOAD'', OP_SLOAD), (''SSTORE'', OP_SSTORE), (''JUMP'', OP_JUMP),
    (''JUMPI'', OP_JUMPI), (''PC'', OP_PC), (''MSIZE'', OP_MSIZE), (''GAS'', OP_GAS),
    (''JUMPDEST'', OP_JUMPDEST), (''BEGINSUB'', OP_BEGINSUB), (''RETURNSUB'', OP_RETURNSUB), (''JUMPSUB'', OP_JUMPSUB),
    (''PUSH1'', OP_PUSH1), (''PUSH2'', OP_PUSH2), (''PUSH3'', OP_PUSH3), (''PUSH4'', OP_PUSH4),
    (''PUSH5'', OP_PUSH5), (''PUSH6'', OP_PUSH6), (''PUSH7'', OP_PUSH7), (''PUSH8'', OP_PUSH8),
    (''PUSH9'', OP_PUSH9), (''PUSH10'', OP_PUSH10), (''PUSH11'', OP_PUSH11), (''PUSH12'', OP_PUSH12),
    (''PUSH13'', OP_PUSH13), (''PUSH14'', OP_PUSH14), (''PUSH15'', OP_PUSH15), (''PUSH16'', OP_PUSH16),
    (''PUSH17'', OP_PUSH17), (''PUSH18'', OP_PUSH18), (''PUSH19'', OP_PUSH19), (''PUSH20'', OP_PUSH20),
    (''PUSH21'', OP_PUSH21), (''PUSH22'', OP_PUSH22), (''PUSH23'', OP_PUSH23), (''PUSH24'', OP_PUSH24),
    (''PUSH25'', OP_PUSH25), (''PUSH26'', OP_PUSH26), (''PUSH27'', OP_PUSH27), (''PUSH28'', OP_PUSH28),
    (''PUSH29'', OP_PUSH29), (''PUSH30'', OP_PUSH30), (''PUSH31'', OP_PUSH31), (''PUSH32'', OP_PUSH32),
    (''DUP1'', OP_DUP1), (''DUP2'', OP_DUP2), (''DUP3'', OP_DUP3), (''DUP4'', OP_DUP4),
    (''DUP5'', OP_DUP5), (''DUP6'', OP_DUP6), (''DUP7'', OP_DUP7), (''DUP8'', OP_DUP8),
    (''DUP9'', OP_DUP9), (''DUP10'', OP_DUP10), (''DUP11'', OP_DUP11), (''DUP12'', OP_DUP12),
    (''DUP13'', OP_DUP13), (''DUP14'', OP_DUP14), (''DUP15'', OP_DUP15), (''DUP16'', OP_DUP16),
    (''SWAP1'', OP_SWAP1), (''SWAP2'', OP_SWAP2), (''SWAP3'', OP_SWAP3), (''SWAP4'', OP_SWAP4),
    (''SWAP5'', OP_SWAP5), (''SWAP6'', OP_SWAP6), (''SWAP7'', OP_SWAP7), (''SWAP8'', OP_SWAP8),
    (''SWAP9'', OP_SWAP9), (''SWAP10'', OP_SWAP10), (''SWAP11'', OP_SWAP11), (''SWAP12'', OP_SWAP12),
    (''SWAP13'', OP_SWAP13), (''SWAP14'', OP_SWAP14), (''SWAP15'', OP_SWAP15), (''SWAP16'', OP_SWAP16),
    (''LOG0'', OP_LOG0), (''LOG1'', OP_LOG1), (''LOG2'', OP_LOG2), (''LOG3'', OP_LOG3),
    (''LOG4'', OP_LOG4), (''CREATE'', OP_CREATE), (''CREATE2'', OP_CREATE2), (''CALL'', OP_CALL),
    (''RETURN'', OP_RETURN), (''CALLCODE'', OP_CALLCODE), (''REVERT'', OP_REVERT), (''SELFDESTRUCT'', OP_SELFDESTRUCT)]"
text \<open>\<^verbatim>\<open>fmt.Sprintf("%x", n)\<close> of a byte: lower-case digits without padding.\<close>

definition hex_digit :: "nat \<Rightarrow> char" where
  "hex_digit n = ''0123456789abcdef'' ! (n mod 16)"

definition hex_u8 :: "u8 \<Rightarrow> string" where
  "hex_u8 b = (if unat b < 16 then [hex_digit (unat b)]
     else [hex_digit (unat b div 16), hex_digit (unat b mod 16)])"

definition OpCode_String :: "opcode \<Rightarrow> string" where
  "OpCode_String op = (case map_of opCodeToString op of
     None \<Rightarrow> ''opcode 0x'' @ hex_u8 op @ '' not defined''
   | Some str \<Rightarrow> if str = [] then ''opcode 0x'' @ hex_u8 op @ '' not defined'' else str)"

section \<open>Predicates\<close>

definition IsPush :: "opcode \<Rightarrow> bool" where
  "IsPush op \<longleftrightarrow> op \<in> set [OP_PUSH1, OP_PUSH2, OP_PUSH3, OP_PUSH4, OP_PUSH5, OP_PUSH6, OP_PUSH7,
     OP_PUSH8, OP_PUSH9, OP_PUSH10, OP_PUSH11, OP_PUSH12, OP_PUSH13, OP_PUSH14, OP_PUSH15, OP_PUSH16,
     OP_PUSH17, OP_PUSH18, OP_PUSH19, OP_PUSH20, OP_PUSH21, OP_PUSH22, OP_PUSH23, OP_PUSH24,
     OP_PUSH25, OP_PUSH26, OP_PUSH27, OP_PUSH28, OP_PUSH29, OP_PUSH30, OP_PUSH31, OP_PUSH32]"

definition IsStaticJump :: "opcode \<Rightarrow> bool" where
  "IsStaticJump op \<longleftrightarrow> op = OP_JUMP"

lemma IsPush_iff: "IsPush op \<longleftrightarrow> OP_PUSH1 \<le> op \<and> op \<le> OP_PUSH32"
proof
  assume "IsPush op"
  then show "OP_PUSH1 \<le> op \<and> op \<le> OP_PUSH32"
    by (auto simp: IsPush_def opcode_defs)
next
  assume "OP_PUSH1 \<le> op \<and> op \<le> OP_PUSH32"
  then have "unat op \<in> {96..<128}"
    by (simp add: word_le_nat_alt opcode_defs)
  moreover have "list_all (\<lambda>n. IsPush (of_nat n)) [96..<128]"
    by (simp add: IsPush_def opcode_defs)
  ultimately have "IsPush (of_nat (unat op))"
    unfolding list_all_iff set_upt by blast
  then show "IsPush op" by simp
qed

end
