(* ===== verification/Evm_Base.thy ===== *)
theory Evm_Base
  imports Evm_Opcodes "HOL-Library.Monad_Syntax"
begin

text \<open>
  The data the virtual machine of \<^verbatim>\<open>src/evm\<close> works on: the errors of \<^verbatim>\<open>errors.go\<close>, the operand and
  return stacks of \<^verbatim>\<open>stack.go\<close> with the limits of \<^verbatim>\<open>stack_table.go\<close>, the memory of \<^verbatim>\<open>memory.go\<close>, the
  size computations of \<^verbatim>\<open>common.go\<close> and \<^verbatim>\<open>memory_table.go\<close>.

  The third-party packages the machine is built on are arguments. They are collected in the record
  \<open>lib\<close>: the methods of \<^verbatim>\<open>uint256.Int\<close> that the instructions call, the helpers of go-ethereum's
  \<^verbatim>\<open>common\<close>, \<^verbatim>\<open>common/math\<close> and \<^verbatim>\<open>crypto\<close>, and the constants of its \<^verbatim>\<open>params\<close>. A method with a
  receiver that is overwritten returns the new value. \<open>lib_ok\<close> states the documented behaviour the
  machine relies on.

  An index out of range, a failed type assertion and the explicit panics of \<^verbatim>\<open>memory.go\<close> are the
  value \<open>None\<close>.
\<close>

unbundle bit_operations_syntax

type_synonym u256 = "256 word"
type_synonym address = bytes
type_synonym hash = bytes

text \<open>\<^verbatim>\<open>math.MaxUint64\<close>.\<close>

abbreviation MaxUint64 :: u64 where "MaxUint64 \<equiv> 0xFFFFFFFFFFFFFFFF"

section \<open>Third-party packages\<close>

type_synonym param = string

datatype u256_op = UAdd | USub | UMul | UDiv | USDiv | UMod | USMod | UExp | UExtendSign
  | UAnd | UOr | UXor | UByte

datatype u256_mod3 = UAddMod | UMulMod

datatype u256_shift = ULsh | URsh | USRsh

datatype u256_rel = ULt | UGt | USlt | USgt | UEq

record lib =
  params :: "param \<Rightarrow> u64"
  SafeAdd :: "u64 \<Rightarrow> u64 \<Rightarrow> u64 \<times> bool"
  SafeMul :: "u64 \<Rightarrow> u64 \<Rightarrow> u64 \<times> bool"
  RightPadBytes :: "bytes \<Rightarrow> int \<Rightarrow> bytes"
  LeftPadBytes :: "bytes \<Rightarrow> int \<Rightarrow> bytes"
  BytesToAddress :: "bytes \<Rightarrow> address"
  BytesToHash :: "bytes \<Rightarrow> hash"
  Keccak256 :: "bytes \<Rightarrow> hash"
  CreateAddress :: "address \<Rightarrow> u64 \<Rightarrow> address"
  CreateAddress2 :: "address \<Rightarrow> bytes \<Rightarrow> bytes \<Rightarrow> address"
  u_op :: "u256_op \<Rightarrow> u256 \<Rightarrow> u256 \<Rightarrow> u256"
  u_mod3 :: "u256_mod3 \<Rightarrow> u256 \<Rightarrow> u256 \<Rightarrow> u256 \<Rightarrow> u256"
  u_shift :: "u256_shift \<Rightarrow> u256 \<Rightarrow> u64 \<Rightarrow> u256"
  u_rel :: "u256_rel \<Rightarrow> u256 \<Rightarrow> u256 \<Rightarrow> bool"
  u_Not :: "u256 \<Rightarrow> u256"
  u_IsZero :: "u256 \<Rightarrow> bool"
  u_Sign :: "u256 \<Rightarrow> int"
  u_LtUint64 :: "u256 \<Rightarrow> u64 \<Rightarrow> bool"
  u_GtUint64 :: "u256 \<Rightarrow> u64 \<Rightarrow> bool"
  u_BitLen :: "u256 \<Rightarrow> nat"
  u_Uint64 :: "u256 \<Rightarrow> u64"
  u_IsUint64 :: "u256 \<Rightarrow> bool"
  u_Uint64WithOverflow :: "u256 \<Rightarrow> u64 \<times> bool"
  u_SetUint64 :: "u64 \<Rightarrow> u256"
  u_SetBytes :: "bytes \<Rightarrow> u256"
  u_FromBig :: "int \<Rightarrow> u256"
  u_ToBig :: "u256 \<Rightarrow> int"
  u_Bytes20 :: "u256 \<Rightarrow> address"
  u_Bytes32 :: "u256 \<Rightarrow> hash"
  u_WriteToSlice :: "u256 \<Rightarrow> bytes \<Rightarrow> bytes"

text \<open>
  The documented behaviour that is relied on: the overflow flags of \<^verbatim>\<open>SafeAdd\<close> and \<^verbatim>\<open>SafeMul\<close>, the
  conversions of \<^verbatim>\<open>uint256.Int\<close> to \<^verbatim>\<open>uint64\<close>, its zero tests and its addition, that
  \<^verbatim>\<open>WriteToSlice\<close> stays inside its slice, that Keccak yields 32 bytes and that no two
  inputs share a hash other than the zero hash, which the machine reads as a missing one, that the
  prices of the protocol parameters are positive, and that a value transfer costs at least the
  stipend it grants.
\<close>

definition price_params :: "param list" where
  "price_params = [''BalanceGasEIP150'', ''BalanceGasEIP1884'', ''BalanceGasFrontier'', ''CallGasEIP150'',
     ''CallGasFrontier'', ''Create2Gas'', ''CreateGas'', ''ExpGas'', ''ExtcodeCopyBaseEIP150'', ''ExtcodeCopyBaseFrontier'',
     ''ExtcodeHashGasConstantinople'', ''ExtcodeHashGasEIP1884'', ''ExtcodeSizeGasEIP150'',
     ''ExtcodeSizeGasFrontier'', ''JumpdestGas'', ''Keccak256Gas'', ''LogGas'', ''NetSstoreCleanGas'',
     ''NetSstoreDirtyGas'', ''NetSstoreInitGas'', ''NetSstoreNoopGas'', ''SloadGasEIP150'', ''SloadGasEIP1884'',
     ''SloadGasEIP2200'', ''SloadGasFrontier'', ''SstoreClearGas'', ''SstoreResetGas'', ''SstoreResetGasEIP2200'',
     ''SstoreSetGas'', ''SstoreSetGasEIP2200'']"

definition params_ok :: "(param \<Rightarrow> u64) \<Rightarrow> bool" where
  "params_ok p \<longleftrightarrow> list_all (\<lambda>c. 0 < p c) price_params \<and> p ''StackLimit'' = 1024 \<and>
     p ''CallStipend'' \<le> p ''CallValueTransferGas'' \<and>
     unat (p ''CallValueTransferGas'') + unat (p ''CallNewAccountGas'') < 2 ^ 32"

definition zeroHash :: hash where
  "zeroHash = replicate 32 0"

definition no_collision :: "(bytes \<Rightarrow> hash) \<Rightarrow> bool" where
  "no_collision h \<longleftrightarrow> (\<forall>x y. h x = h y \<longrightarrow> x = y \<or> h x = zeroHash)"

definition lib_ok :: "lib \<Rightarrow> bool" where
  "lib_ok L \<longleftrightarrow>
     (\<forall>x y. SafeAdd L x y = (x + y, 2 ^ 64 \<le> unat x + unat y)) \<and>
     (\<forall>x y. SafeMul L x y = (x * y, 2 ^ 64 \<le> unat x * unat y)) \<and>
     (\<forall>x. u_Uint64 L x = ucast x) \<and>
     (\<forall>x. u_IsUint64 L x \<longleftrightarrow> unat x < 2 ^ 64) \<and>
     (\<forall>x. u_Uint64WithOverflow L x = (ucast x, 2 ^ 64 \<le> unat x)) \<and>
     (\<forall>x. u_IsZero L x \<longleftrightarrow> x = 0) \<and>
     (\<forall>x. u_Sign L x = 0 \<longleftrightarrow> x = 0) \<and>
     (\<forall>x y. u_op L UAdd x y = x + y) \<and>
     (\<forall>x bs. length (u_WriteToSlice L x bs) = length bs) \<and>
     no_collision (Keccak256 L) \<and>
     params_ok (params L) \<and>
     (\<forall>bs. length (Keccak256 L bs) = 32)"

section \<open>Errors\<close>

text \<open>
  The errors of \<^verbatim>\<open>errors.go\<close>; \<open>ErrText\<close> stands for an \<^verbatim>\<open>errors.New\<close> made elsewhere. \<open>Panicked\<close> is not
  an error of the source: it is the panic of a state database or of a precompiled contract, which
  unwinds every frame.
\<close>

datatype evm_err =
    ErrInvalidSubroutineEntry | ErrOutOfGas | ErrCodeStoreOutOfGas | ErrDepth
  | ErrInsufficientBalance | ErrContractAddressCollision | ErrExecutionReverted
  | ErrMaxCodeSizeExceeded | ErrInvalidJump | ErrWriteProtection | ErrReturnDataOutOfBounds
  | ErrGasUintOverflow | ErrInvalidRetsub | ErrReturnStackExceeded
  | ErrStackUnderflow int int | ErrStackOverflow int int | ErrInvalidOpCode opcode
  | ErrText string
  | Panicked

section \<open>Stacks\<close>

text \<open>
  A stack is kept with its top first: \<^verbatim>\<open>st.data[len-1-i]\<close> is element \<open>i\<close>. The pools that recycle the
  backing arrays hand out empty stacks.
\<close>

type_synonym stack = "u256 list"
type_synonym return_stack = "u32 list"

definition stack_push :: "u256 \<Rightarrow> stack \<Rightarrow> stack" where
  "stack_push d st = d # st"

definition stack_pushN :: "u256 list \<Rightarrow> stack \<Rightarrow> stack" where
  "stack_pushN ds st = rev ds @ st"

fun stack_pop :: "stack \<Rightarrow> (u256 \<times> stack) option" where
  "stack_pop [] = None"
| "stack_pop (x # st) = Some (x, st)"

fun stack_peek :: "stack \<Rightarrow> u256 option" where
  "stack_peek [] = None"
| "stack_peek (x # st) = Some x"

text \<open>The code writes through the pointer \<^verbatim>\<open>peek\<close> returns: \<open>stack_poke\<close> is that write.\<close>

fun stack_poke :: "u256 \<Rightarrow> stack \<Rightarrow> stack option" where
  "stack_poke v [] = None"
| "stack_poke v (x # st) = Some (v # st)"

definition stack_Back :: "nat \<Rightarrow> stack \<Rightarrow> u256 option" where
  "stack_Back n st = (if n < length st then Some (st ! n) else None)"

definition stack_swap :: "nat \<Rightarrow> stack \<Rightarrow> stack option" where
  "stack_swap n st = (if 1 \<le> n \<and> n \<le> length st
     then Some (st[n - 1 := st ! 0, 0 := st ! (n - 1)]) else None)"

definition stack_dup :: "nat \<Rightarrow> stack \<Rightarrow> stack option" where
  "stack_dup n st = (if 1 \<le> n \<and> n \<le> length st then Some (stack_push (st ! (n - 1)) st) else None)"

definition rstack_push :: "u32 \<Rightarrow> return_stack \<Rightarrow> return_stack" where
  "rstack_push d st = d # st"

fun rstack_pop :: "return_stack \<Rightarrow> (u32 \<times> return_stack) option" where
  "rstack_pop [] = None"
| "rstack_pop (x # st) = Some (x, st)"

definition maxStack :: "lib \<Rightarrow> nat \<Rightarrow> nat \<Rightarrow> int" where
  "maxStack L pops pushes = sint (params L ''StackLimit'') + int pops - int pushes"

definition minStack :: "nat \<Rightarrow> nat \<Rightarrow> int" where
  "minStack pops pushes = int pops"

definition minSwapStack :: "nat \<Rightarrow> int" where
  "minSwapStack n = minStack n n"

definition maxSwapStack :: "lib \<Rightarrow> nat \<Rightarrow> int" where
  "maxSwapStack L n = maxStack L n n"

definition minDupStack :: "nat \<Rightarrow> int" where
  "minDupStack n = minStack n (n + 1)"

definition maxDupStack :: "lib \<Rightarrow> nat \<Rightarrow> int" where
  "maxDupStack L n = maxStack L n (n + 1)"

section \<open>Memory\<close>

record mem =
  store :: bytes
  lastGasCost :: u64

definition NewMemory :: mem where
  "NewMemory = \<lparr>store = [], lastGasCost = 0\<rparr>"

definition mem_Len :: "mem \<Rightarrow> nat" where
  "mem_Len m = length (store m)"

text \<open>The slice expression \<^verbatim>\<open>xs[i:j]\<close>, and \<^verbatim>\<open>copy\<close> into a slice from an offset.\<close>

definition go_slice :: "'a list \<Rightarrow> int \<Rightarrow> int \<Rightarrow> 'a list option" where
  "go_slice xs i j = (if 0 \<le> i \<and> i \<le> j \<and> j \<le> int (length xs)
     then Some (take (nat j - nat i) (drop (nat i) xs)) else None)"

definition copy_at :: "'a list \<Rightarrow> nat \<Rightarrow> 'a list \<Rightarrow> 'a list" where
  "copy_at xs i v = take i xs @ take (length xs - i) v @ drop (i + length v) xs"

definition mem_Set :: "mem \<Rightarrow> u64 \<Rightarrow> u64 \<Rightarrow> bytes \<Rightarrow> mem option" where
  "mem_Set m offset sz v = (if sz > 0
     then if offset + sz > of_nat (length (store m)) then None
       else do {
         dst \<leftarrow> go_slice (store m) (uint offset) (uint (offset + sz));
         Some (m\<lparr>store := copy_at (store m) (unat offset) (take (length dst) v)\<rparr>)
       }
     else Some m)"

definition mem_Set32 :: "lib \<Rightarrow> mem \<Rightarrow> u64 \<Rightarrow> u256 \<Rightarrow> mem option" where
  "mem_Set32 L m offset val = (if offset + 32 > of_nat (length (store m)) then None
     else do {
       dst \<leftarrow> go_slice (store m) (uint offset) (uint (offset + 32));
       let zeroed = copy_at (store m) (unat offset) (take (length dst) (replicate 32 0));
       tail \<leftarrow> go_slice zeroed (uint offset) (int (length zeroed));
       Some (m\<lparr>store := copy_at zeroed (unat offset) (u_WriteToSlice L val tail)\<rparr>)
     })"

definition mem_Resize :: "mem \<Rightarrow> u64 \<Rightarrow> mem" where
  "mem_Resize m sz = (if of_nat (mem_Len m) < sz
     then m\<lparr>store := store m @ replicate (unat (sz - of_nat (mem_Len m))) 0\<rparr> else m)"

text \<open>The arguments of \<^verbatim>\<open>GetCopy\<close> and \<^verbatim>\<open>GetPtr\<close> are the \<^verbatim>\<open>int64\<close> reading of a 64-bit word.\<close>

definition mem_GetPtr :: "mem \<Rightarrow> u64 \<Rightarrow> u64 \<Rightarrow> bytes option" where
  "mem_GetPtr m offset sz = (if sz = 0 then Some []
     else if sint offset < int (length (store m))
       then go_slice (store m) (sint offset) (sint (offset + sz))
     else Some [])"

definition mem_GetCopy :: "mem \<Rightarrow> u64 \<Rightarrow> u64 \<Rightarrow> bytes option" where
  "mem_GetCopy m offset sz = (if sz = 0 then Some []
     else if sint offset < int (length (store m))
       then if sint sz < 0 then None
       else do {
         src \<leftarrow> go_slice (store m) (sint offset) (sint (offset + sz));
         Some (copy_at (replicate (nat (sint sz)) 0) 0 src)
       }
     else Some [])"

section \<open>Sizes\<close>

definition calcMemSize64WithUint :: "lib \<Rightarrow> u256 \<Rightarrow> u64 \<Rightarrow> u64 \<times> bool" where
  "calcMemSize64WithUint L off length64 = (if length64 = 0 then (0, False)
     else let (offset64, overflow) = u_Uint64WithOverflow L off
       in if overflow then (0, True)
       else let val = offset64 + length64 in (val, val < offset64))"

definition calcMemSize64 :: "lib \<Rightarrow> u256 \<Rightarrow> u256 \<Rightarrow> u64 \<times> bool" where
  "calcMemSize64 L off l = (if \<not> u_IsUint64 L l then (0, True)
     else calcMemSize64WithUint L off (u_Uint64 L l))"

definition getData :: "lib \<Rightarrow> bytes \<Rightarrow> u64 \<Rightarrow> u64 \<Rightarrow> bytes option" where
  "getData L data start sz = (
     let len = of_nat (length data);
         start = (if start > len then len else start);
         end' = start + sz;
         end' = (if end' > len then len else end')
     in do {
       d \<leftarrow> go_slice data (uint start) (uint end');
       Some (RightPadBytes L d (sint sz))
     })"

definition toWordSize :: "u64 \<Rightarrow> u64" where
  "toWordSize sz = (if sz > MaxUint64 - 31 then MaxUint64 div 32 + 1 else (sz + 31) div 32)"

definition allZero :: "bytes \<Rightarrow> bool" where
  "allZero b = list_all (\<lambda>x. x = 0) b"

section \<open>The memory an operation needs\<close>

text \<open>
  A function of \<^verbatim>\<open>memory_table.go\<close> reads the operands below the top: the result is the size in bytes
  and whether it overflowed.
\<close>

type_synonym memorySizeFunc = "stack \<Rightarrow> (u64 \<times> bool) option"

definition calcMem_at :: "lib \<Rightarrow> nat \<Rightarrow> nat \<Rightarrow> memorySizeFunc" where
  "calcMem_at L i j st = do {
     off \<leftarrow> stack_Back i st;
     l \<leftarrow> stack_Back j st;
     Some (calcMemSize64 L off l)
   }"

definition calcMem_fixed :: "lib \<Rightarrow> nat \<Rightarrow> u64 \<Rightarrow> memorySizeFunc" where
  "calcMem_fixed L i n st = do {
     off \<leftarrow> stack_Back i st;
     Some (calcMemSize64WithUint L off n)
   }"

definition calcMem_max :: "lib \<Rightarrow> nat \<Rightarrow> nat \<Rightarrow> nat \<Rightarrow> nat \<Rightarrow> memorySizeFunc" where
  "calcMem_max L i j k l st = do {
     (x, overflow) \<leftarrow> calcMem_at L i j st;
     if overflow then Some (0, True)
     else do {
       (y, overflow) \<leftarrow> calcMem_at L k l st;
       if overflow then Some (0, True)
       else if x > y then Some (x, False) else Some (y, False)
     }
   }"

definition memorySha3 :: "lib \<Rightarrow> memorySizeFunc" where
  "memorySha3 L = calcMem_at L 0 1"

definition memoryCallDataCopy :: "lib \<Rightarrow> memorySizeFunc" where
  "memoryCallDataCopy L = calcMem_at L 0 2"

definition memoryReturnDataCopy :: "lib \<Rightarrow> memorySizeFunc" where
  "memoryReturnDataCopy L = calcMem_at L 0 2"

definition memoryCodeCopy :: "lib \<Rightarrow> memorySizeFunc" where
  "memoryCodeCopy L = calcMem_at L 0 2"

definition memoryExtCodeCopy :: "lib \<Rightarrow> memorySizeFunc" where
  "memoryExtCodeCopy L = calcMem_at L 1 3"

definition memoryMLoad :: "lib \<Rightarrow> memorySizeFunc" where
  "memoryMLoad L = calcMem_fixed L 0 32"

definition memoryMStore8 :: "lib \<Rightarrow> memorySizeFunc" where
  "memoryMStore8 L = calcMem_fixed L 0 1"

definition memoryMStore :: "lib \<Rightarrow> memorySizeFunc" where
  "memoryMStore L = calcMem_fixed L 0 32"

definition memoryCreate :: "lib \<Rightarrow> memorySizeFunc" where
  "memoryCreate L = calcMem_at L 1 2"

definition memoryCreate2 :: "lib \<Rightarrow> memorySizeFunc" where
  "memoryCreate2 L = calcMem_at L 1 2"

definition memoryCall :: "lib \<Rightarrow> memorySizeFunc" where
  "memoryCall L = calcMem_max L 5 6 3 4"

definition memoryDelegateCall :: "lib \<Rightarrow> memorySizeFunc" where
  "memoryDelegateCall L = calcMem_max L 4 5 2 3"

definition memoryStaticCall :: "lib \<Rightarrow> memorySizeFunc" where
  "memoryStaticCall L = calcMem_max L 4 5 2 3"

definition memoryReturn :: "lib \<Rightarrow> memorySizeFunc" where
  "memoryReturn L = calcMem_at L 0 1"

definition memoryRevert :: "lib \<Rightarrow> memorySizeFunc" where
  "memoryRevert L = calcMem_at L 0 1"

definition memoryLog :: "lib \<Rightarrow> memorySizeFunc" where
  "memoryLog L = calcMem_at L 0 1"

lemmas memory_table_defs = memorySha3_def memoryCallDataCopy_def memoryReturnDataCopy_def
  memoryCodeCopy_def memoryExtCodeCopy_def memoryMLoad_def memoryMStore8_def memoryMStore_def
  memoryCreate_def memoryCreate2_def memoryCall_def memoryDelegateCall_def memoryStaticCall_def
  memoryReturn_def memoryRevert_def memoryLog_def

end
