(* ===== verification/Evm_Code.thy ===== *)
theory Evm_Code
  imports Evm_Base
begin

text \<open>
  The jump destination analysis of \<^verbatim>\<open>src/evm/analysis.go\<close> and the contract object of
  \<^verbatim>\<open>src/evm/contract.go\<close>. The section after the definitions proves that the bitmap marks exactly the
  bytes that are data of a PUSH, so that a jump lands on an instruction boundary, and that no
  access to the bitmap is out of range.

  Inside \<^verbatim>\<open>codeBitmap\<close> the positions are natural numbers: they stay below \<^verbatim>\<open>len(code) + 33\<close>, far from the
  end of \<^verbatim>\<open>uint64\<close>.
\<close>

section \<open>Code analysis\<close>

type_synonym bitvec = bytes

definition bits_or :: "bitvec \<Rightarrow> nat \<Rightarrow> u8 \<Rightarrow> bitvec option" where
  "bits_or bits i msk = (if i < length bits then Some (bits[i := bits ! i OR msk]) else None)"

definition bitvec_set :: "bitvec \<Rightarrow> nat \<Rightarrow> bitvec option" where
  "bitvec_set bits pos = bits_or bits (pos div 8) (drop_bit (pos mod 8) 0x80)"

definition bitvec_set8 :: "bitvec \<Rightarrow> nat \<Rightarrow> bitvec option" where
  "bitvec_set8 bits pos = do {
     bits \<leftarrow> bits_or bits (pos div 8) (drop_bit (pos mod 8) 0xFF);
     bits_or bits (pos div 8 + 1) (NOT (drop_bit (pos mod 8) 0xFF))
   }"

definition codeSegment :: "bitvec \<Rightarrow> nat \<Rightarrow> bool option" where
  "codeSegment bits pos = (if pos div 8 < length bits
     then Some (bits ! (pos div 8) AND drop_bit (pos mod 8) 0x80 = 0) else None)"

text \<open>The two inner loops of \<^verbatim>\<open>codeBitmap\<close>, over the number of data bytes left.\<close>

fun set_data8 :: "nat \<Rightarrow> nat \<Rightarrow> bitvec \<Rightarrow> (nat \<times> nat \<times> bitvec) option" where
  "set_data8 numbits pc bits = (if numbits \<ge> 8
     then do { bits \<leftarrow> bitvec_set8 bits pc; set_data8 (numbits - 8) (pc + 8) bits }
     else Some (numbits, pc, bits))"

declare set_data8.simps [simp del]

fun set_data :: "nat \<Rightarrow> nat \<Rightarrow> bitvec \<Rightarrow> (nat \<times> bitvec) option" where
  "set_data 0 pc bits = Some (pc, bits)"
| "set_data (Suc numbits) pc bits = do { bits \<leftarrow> bitvec_set bits pc; set_data numbits (pc + 1) bits }"

fun codeBitmap_loop :: "nat \<Rightarrow> bytes \<Rightarrow> nat \<Rightarrow> bitvec \<Rightarrow> bitvec option" where
  "codeBitmap_loop 0 code pc bits = (if pc < length code then None else Some bits)"
| "codeBitmap_loop (Suc k) code pc bits = (if pc < length code
     then let op = code ! pc in
       if op \<ge> OP_PUSH1 \<and> op \<le> OP_PUSH32
       then do {
         (numbits, pc, bits) \<leftarrow> set_data8 (unat (op - OP_PUSH1 + 1)) (pc + 1) bits;
         (pc, bits) \<leftarrow> set_data numbits pc bits;
         codeBitmap_loop k code pc bits
       }
       else codeBitmap_loop k code (pc + 1) bits
     else Some bits)"

text \<open>The loop advances by at least one byte a turn, so \<open>length code\<close> turns are enough.\<close>

definition codeBitmap :: "bytes \<Rightarrow> bitvec option" where
  "codeBitmap code = codeBitmap_loop (length code) code 0 (replicate (length code div 8 + 1 + 4) 0)"

section \<open>Contracts\<close>

text \<open>
  A \<^verbatim>\<open>ContractRef\<close> is an account or the contract that makes the call; of the latter the code reads
  its address, its caller's address and its value, and shares its table of analyses. That table is
  the same map for all contracts of a transaction: it is threaded beside the contract.
\<close>

type_synonym jumpdests = "hash \<Rightarrow> bitvec option"

datatype contract_ref =
    AccountRef address
  | ParentContract address address int

primrec ref_Address :: "contract_ref \<Rightarrow> address" where
  "ref_Address (AccountRef a) = a"
| "ref_Address (ParentContract a c v) = a"

record contract =
  CallerAddress :: address
  c_caller :: contract_ref
  c_self :: address
  c_analysis :: "bitvec option"
  c_Code :: bytes
  c_CodeHash :: hash
  c_CodeAddr :: address
  c_Input :: bytes
  c_Gas :: u64
  c_value :: int

definition zeroAddress :: address where
  "zeroAddress = replicate 20 0"

definition NewContract :: "contract_ref \<Rightarrow> address \<Rightarrow> int \<Rightarrow> u64 \<Rightarrow> jumpdests \<Rightarrow> contract \<times> jumpdests" where
  "NewContract caller object value gas jd =
     (\<lparr>CallerAddress = ref_Address caller, c_caller = caller, c_self = object, c_analysis = None,
       c_Code = [], c_CodeHash = zeroHash, c_CodeAddr = zeroAddress, c_Input = [],
       c_Gas = gas, c_value = value\<rparr>,
      case caller of ParentContract a c v \<Rightarrow> jd | AccountRef a \<Rightarrow> Map.empty)"

definition isCode :: "contract \<Rightarrow> jumpdests \<Rightarrow> u64 \<Rightarrow> (bool \<times> contract \<times> jumpdests) option" where
  "isCode c jd udest = (case c_analysis c of
     Some bits \<Rightarrow> do { b \<leftarrow> codeSegment bits (unat udest); Some (b, c, jd) }
   | None \<Rightarrow>
       if c_CodeHash c \<noteq> zeroHash
       then do {
         (analysis, jd) \<leftarrow> (case jd (c_CodeHash c) of
             Some analysis \<Rightarrow> Some (analysis, jd)
           | None \<Rightarrow> do { analysis \<leftarrow> codeBitmap (c_Code c); Some (analysis, jd(c_CodeHash c \<mapsto> analysis)) });
         b \<leftarrow> codeSegment analysis (unat udest);
         Some (b, c\<lparr>c_analysis := Some analysis\<rparr>, jd)
       }
       else do {
         analysis \<leftarrow> codeBitmap (c_Code c);
         b \<leftarrow> codeSegment analysis (unat udest);
         Some (b, c\<lparr>c_analysis := Some analysis\<rparr>, jd)
       })"

definition validJumpdest :: "lib \<Rightarrow> contract \<Rightarrow> jumpdests \<Rightarrow> u256 \<Rightarrow> (bool \<times> contract \<times> jumpdests) option" where
  "validJumpdest L c jd dest = (
     let (udest, overflow) = u_Uint64WithOverflow L dest in
     if overflow \<or> udest \<ge> of_nat (length (c_Code c)) then Some (False, c, jd)
     else if c_Code c ! unat udest \<noteq> OP_JUMPDEST then Some (False, c, jd)
     else isCode c jd udest)"

definition validJumpSubdest :: "contract \<Rightarrow> jumpdests \<Rightarrow> u64 \<Rightarrow> (bool \<times> contract \<times> jumpdests) option" where
  "validJumpSubdest c jd udest = (
     if sint udest < 0 \<or> udest \<ge> of_nat (length (c_Code c)) then Some (False, c, jd)
     else if c_Code c ! unat udest \<noteq> OP_BEGINSUB then Some (False, c, jd)
     else isCode c jd udest)"

text \<open>The type assertion of \<^verbatim>\<open>AsDelegate\<close> panics when the caller is no contract.\<close>

definition AsDelegate :: "contract \<Rightarrow> contract option" where
  "AsDelegate c = (case c_caller c of
     AccountRef a \<Rightarrow> None
   | ParentContract a caller v \<Rightarrow> Some (c\<lparr>CallerAddress := caller, c_value := v\<rparr>))"

definition GetByte :: "contract \<Rightarrow> u64 \<Rightarrow> u8" where
  "GetByte c n = (if n < of_nat (length (c_Code c)) then c_Code c ! unat n else 0)"

definition GetOp :: "contract \<Rightarrow> u64 \<Rightarrow> opcode" where
  "GetOp c n = GetByte c n"

definition con_Caller :: "contract \<Rightarrow> address" where
  "con_Caller c = CallerAddress c"

definition con_Address :: "contract \<Rightarrow> address" where
  "con_Address c = c_self c"

definition con_Value :: "contract \<Rightarrow> int" where
  "con_Value c = c_value c"

definition UseGas :: "contract \<Rightarrow> u64 \<Rightarrow> contract option" where
  "UseGas c gas = (if c_Gas c < gas then None else Some (c\<lparr>c_Gas := c_Gas c - gas\<rparr>))"

definition SetCallCode :: "contract \<Rightarrow> address \<Rightarrow> hash \<Rightarrow> bytes \<Rightarrow> contract" where
  "SetCallCode c addr h code = c\<lparr>c_Code := code, c_CodeHash := h, c_CodeAddr := addr\<rparr>"

text \<open>\<^verbatim>\<open>codeAndHash\<close>: the deployment code with its hash, computed on demand.\<close>

record codeAndHash =
  ch_code :: bytes
  ch_hash :: hash

definition codeAndHash_Hash :: "lib \<Rightarrow> codeAndHash \<Rightarrow> hash \<times> codeAndHash" where
  "codeAndHash_Hash L ch = (
     let ch = (if ch_hash ch = zeroHash then ch\<lparr>ch_hash := Keccak256 L (ch_code ch)\<rparr> else ch)
     in (ch_hash ch, ch))"

definition SetCodeOptionalHash :: "contract \<Rightarrow> address \<Rightarrow> codeAndHash \<Rightarrow> contract" where
  "SetCodeOptionalHash c addr ch = c\<lparr>c_Code := ch_code ch, c_CodeHash := ch_hash ch, c_CodeAddr := addr\<rparr>"

text \<open>The reference under which a running contract makes calls.\<close>

definition con_ref :: "contract \<Rightarrow> contract_ref" where
  "con_ref c = ParentContract (c_self c) (CallerAddress c) (c_value c)"

section \<open>The bitmap is right\<close>

text \<open>
  The reference: the positions where an instruction starts, found by walking the code from its
  first byte and skipping the data of each PUSH.
\<close>

definition op_size :: "opcode \<Rightarrow> nat" where
  "op_size op = (if OP_PUSH1 \<le> op \<and> op \<le> OP_PUSH32 then 1 + unat (op - OP_PUSH1 + 1) else 1)"

inductive instr_at :: "bytes \<Rightarrow> nat \<Rightarrow> bool" for code where
  start: "instr_at code 0"
| step: "instr_at code pc \<Longrightarrow> pc < length code \<Longrightarrow> instr_at code (pc + op_size (code ! pc))"

primrec walk :: "bytes \<Rightarrow> nat \<Rightarrow> nat" where
  "walk code 0 = 0"
| "walk code (Suc k) = (if walk code k < length code
     then walk code k + op_size (code ! walk code k) else walk code k)"

lemma op_size_bounds: "1 \<le> op_size op" "op_size op \<le> 33"
proof -
  show "1 \<le> op_size op" by (simp add: op_size_def)
  show "op_size op \<le> 33"
  proof (cases "OP_PUSH1 \<le> op \<and> op \<le> OP_PUSH32")
    case True
    then have "unat (op - OP_PUSH1 + 1) \<le> 32"
      unfolding opcode_defs by unat_arith
    with True show ?thesis by (simp add: op_size_def)
  qed (auto simp: op_size_def)
qed

lemma instr_at_walk: "instr_at code p \<longleftrightarrow> (\<exists>k. walk code k = p)"
proof
  assume "instr_at code p"
  then show "\<exists>k. walk code k = p"
  proof induction
    case start
    show ?case by (rule exI [of _ 0]) simp
  next
    case (step pc)
    then obtain k where "walk code k = pc" by blast
    with step.hyps have "walk code (Suc k) = pc + op_size (code ! pc)" by simp
    then show ?case by blast
  qed
next
  assume "\<exists>k. walk code k = p"
  then obtain k where "walk code k = p" ..
  moreover have "instr_at code (walk code k)"
    by (induction k) (auto intro: instr_at.intros)
  ultimately show "instr_at code p" by simp
qed

lemma walk_mono: "i \<le> j \<Longrightarrow> walk code i \<le> walk code j"
  by (rule lift_Suc_mono_le) auto

lemma instr_at_gap:
  assumes "instr_at code a" "instr_at code b" "a < b"
  shows "a < length code \<and> a + op_size (code ! a) \<le> b"
proof -
  obtain i j where ij: "walk code i = a" "walk code j = b"
    using assms(1,2) by (auto simp: instr_at_walk)
  have "\<not> j \<le> i"
    using walk_mono [of j i code] ij assms(3) by auto
  then have "walk code (Suc i) \<le> b"
    using walk_mono [of "Suc i" j code] ij by simp
  moreover have "a < length code"
  proof (rule ccontr)
    assume "\<not> a < length code"
    then have "walk code (i + k) = a" for k
      by (induction k) (simp_all add: ij)
    from this [of "j - i"] \<open>\<not> j \<le> i\<close> ij assms(3) show False by simp
  qed
  ultimately show ?thesis using ij by simp
qed

text \<open>The bit of a position, most significant first in each byte.\<close>

definition is_data :: "bitvec \<Rightarrow> nat \<Rightarrow> bool" where
  "is_data bits p \<longleftrightarrow> p div 8 < length bits \<and> bit (bits ! (p div 8)) (7 - p mod 8)"

lemma less_8_cases: "(n :: nat) < 8 \<Longrightarrow> n \<in> {0, 1, 2, 3, 4, 5, 6, 7}"
  by auto

lemma bit_0x80: "bit (drop_bit k (0x80 :: u8)) n \<longleftrightarrow> n + k = 7"
proof -
  have "bit (0x80 :: u8) m \<longleftrightarrow> m = 7" for m
  proof (cases "m < 8")
    case True
    then show ?thesis by (auto dest!: less_8_cases)
  next
    case False
    then show ?thesis by (auto dest: bit_imp_le_length)
  qed
  then show ?thesis by (simp add: bit_drop_bit_eq ac_simps)
qed

lemma bit_0xFF: "bit (drop_bit k (0xFF :: u8)) n \<longleftrightarrow> n + k < 8"
proof -
  have "bit (0xFF :: u8) m \<longleftrightarrow> m < 8" for m
  proof (cases "m < 8")
    case True
    then show ?thesis by (auto dest!: less_8_cases)
  next
    case False
    then show ?thesis by (auto dest: bit_imp_le_length)
  qed
  then show ?thesis by (simp add: bit_drop_bit_eq ac_simps)
qed

lemma codeSegment_is_data:
  assumes "p div 8 < length bits"
  shows "codeSegment bits p = Some (\<not> is_data bits p)"
proof -
  have "b AND drop_bit (p mod 8) 0x80 = 0 \<longleftrightarrow> \<not> bit b (7 - p mod 8)" for b :: u8
  proof -
    have "p mod 8 < 8" by simp
    then have e: "n + p mod 8 = 7 \<longleftrightarrow> n = 7 - p mod 8" for n by linarith
    have "bit (b AND drop_bit (p mod 8) 0x80) n \<longleftrightarrow> bit b n \<and> n = 7 - p mod 8" for n
      by (simp only: bit_and_iff bit_0x80 e)
    then show ?thesis
      by (metis bit_0_eq bot_apply bot_bool_def bit_eqI)
  qed
  with assms show ?thesis by (simp add: codeSegment_def is_data_def)
qed

lemma is_data_bits_or:
  "i < length bits \<Longrightarrow> bits_or bits i m = Some bits' \<Longrightarrow>
   is_data bits' p \<longleftrightarrow> is_data bits p \<or> p div 8 = i \<and> bit m (7 - p mod 8)"
  by (auto simp: bits_or_def is_data_def nth_list_update bit_or_iff split: if_splits)

lemma pos_split:
  fixes p q :: nat
  shows "p div 8 = q div 8 \<and> 7 - p mod 8 + q mod 8 = 7 \<longleftrightarrow> p = q"
    and "p div 8 = q div 8 \<and> 7 - p mod 8 + q mod 8 < 8 \<or>
         p div 8 = q div 8 + 1 \<and> \<not> 7 - p mod 8 + q mod 8 < 8 \<longleftrightarrow> q \<le> p \<and> p < q + 8"
proof -
  define a i b j where defs: "a = p div 8" "i = p mod 8" "b = q div 8" "j = q mod 8"
  have "p = 8 * a + i" "q = 8 * b + j" "i < 8" "j < 8"
    by (simp_all add: defs)
  then show "p div 8 = q div 8 \<and> 7 - p mod 8 + q mod 8 = 7 \<longleftrightarrow> p = q"
    "p div 8 = q div 8 \<and> 7 - p mod 8 + q mod 8 < 8 \<or>
     p div 8 = q div 8 + 1 \<and> \<not> 7 - p mod 8 + q mod 8 < 8 \<longleftrightarrow> q \<le> p \<and> p < q + 8"
    unfolding defs(1-4) [symmetric] by arith+
qed

lemma bitvec_set_ok:
  assumes "pos div 8 < length bits"
  obtains bits' where "bitvec_set bits pos = Some bits'" "length bits' = length bits"
    "\<And>p. is_data bits' p \<longleftrightarrow> is_data bits p \<or> p = pos"
proof -
  define bits' where "bits' = bits[pos div 8 := bits ! (pos div 8) OR drop_bit (pos mod 8) 0x80]"
  have e: "bits_or bits (pos div 8) (drop_bit (pos mod 8) 0x80) = Some bits'"
    using assms by (simp add: bits_or_def bits'_def)
  show ?thesis
  proof (rule that)
    show "bitvec_set bits pos = Some bits'" by (simp add: bitvec_set_def e)
    show "length bits' = length bits" by (simp add: bits'_def)
    show "is_data bits' p \<longleftrightarrow> is_data bits p \<or> p = pos" for p
      using pos_split(1) [of p pos] by (simp add: is_data_bits_or [OF assms e] bit_0x80)
  qed
qed

lemma bitvec_set8_ok:
  assumes "pos div 8 + 1 < length bits"
  obtains bits' where "bitvec_set8 bits pos = Some bits'" "length bits' = length bits"
    "\<And>p. is_data bits' p \<longleftrightarrow> is_data bits p \<or> pos \<le> p \<and> p < pos + 8"
proof -
  define b1 where "b1 = bits[pos div 8 := bits ! (pos div 8) OR drop_bit (pos mod 8) 0xFF]"
  define b2 where "b2 = b1[pos div 8 + 1 := b1 ! (pos div 8 + 1) OR NOT (drop_bit (pos mod 8) 0xFF)]"
  have l: "pos div 8 < length bits" "pos div 8 + 1 < length b1" "length b1 = length bits"
    using assms by (simp_all add: b1_def)
  have e1: "bits_or bits (pos div 8) (drop_bit (pos mod 8) 0xFF) = Some b1"
    using l by (simp add: bits_or_def b1_def)
  have e2: "bits_or b1 (pos div 8 + 1) (NOT (drop_bit (pos mod 8) 0xFF)) = Some b2"
    using l by (simp add: bits_or_def b2_def)
  have n: "bit (NOT (drop_bit (pos mod 8) (0xFF :: u8))) (7 - p mod 8) \<longleftrightarrow>
      \<not> 7 - p mod 8 + pos mod 8 < 8" for p
    by (simp add: bit_not_iff bit_0xFF) linarith
  show ?thesis
  proof (rule that)
    show "bitvec_set8 bits pos = Some b2" by (simp add: bitvec_set8_def e1 e2 [simplified])
    show "length b2 = length bits" by (simp add: b2_def l)
    show "is_data b2 p \<longleftrightarrow> is_data bits p \<or> pos \<le> p \<and> p < pos + 8" for p
      using pos_split(2) [of p pos]
      by (simp add: is_data_bits_or [OF l(1) e1] is_data_bits_or [OF l(2) e2] n bit_0xFF disj_assoc)
  qed
qed

lemma set_data8_ok:
  assumes "(pc + numbits) div 8 < length bits"
  shows "\<exists>n pc' bits'. set_data8 numbits pc bits = Some (n, pc', bits') \<and>
     pc' + n = pc + numbits \<and> pc \<le> pc' \<and> length bits' = length bits \<and>
     (\<forall>p. is_data bits' p \<longleftrightarrow> is_data bits p \<or> pc \<le> p \<and> p < pc')"
  using assms
proof (induction numbits pc bits rule: set_data8.induct)
  case (1 numbits pc bits)
  show ?case
  proof (cases "numbits \<ge> 8")
    case True
    with 1(2) have "pc div 8 + 1 < length bits" by linarith
    then obtain b1 where b1: "bitvec_set8 bits pc = Some b1" "length b1 = length bits"
      "\<And>p. is_data b1 p \<longleftrightarrow> is_data bits p \<or> pc \<le> p \<and> p < pc + 8"
      using bitvec_set8_ok by blast
    from True 1(2) have "(pc + 8 + (numbits - 8)) div 8 < length b1"
      by (simp add: b1)
    from 1(1) [OF True b1(1) this] obtain n pc' bits' where ih:
      "set_data8 (numbits - 8) (pc + 8) b1 = Some (n, pc', bits')"
      "pc' + n = pc + 8 + (numbits - 8)" "pc + 8 \<le> pc'" "length bits' = length b1"
      "\<forall>p. is_data bits' p \<longleftrightarrow> is_data b1 p \<or> pc + 8 \<le> p \<and> p < pc'"
      by blast
    have "set_data8 numbits pc bits = Some (n, pc', bits')"
      using True ih(1) b1(1) by (subst set_data8.simps) simp
    moreover have "pc' + n = pc + numbits" "pc \<le> pc'" "length bits' = length bits"
      using True ih(2-4) b1(2) by simp_all
    moreover have "is_data bits' p \<longleftrightarrow> is_data bits p \<or> pc \<le> p \<and> p < pc'" for p
      using ih(3,5) b1(3) by (simp add: not_le) linarith
    ultimately show ?thesis by blast
  next
    case False
    then show ?thesis by (subst set_data8.simps) auto
  qed
qed

lemma set_data_ok:
  assumes "(pc + numbits) div 8 < length bits"
  shows "\<exists>bits'. set_data numbits pc bits = Some (pc + numbits, bits') \<and> length bits' = length bits \<and>
     (\<forall>p. is_data bits' p \<longleftrightarrow> is_data bits p \<or> pc \<le> p \<and> p < pc + numbits)"
  using assms
proof (induction numbits arbitrary: pc bits)
  case 0
  then show ?case by auto
next
  case (Suc numbits)
  have "pc div 8 \<le> (pc + Suc numbits) div 8" by (rule div_le_mono) simp
  with Suc.prems obtain b1 where b1: "bitvec_set bits pc = Some b1" "length b1 = length bits"
    "\<And>p. is_data b1 p \<longleftrightarrow> is_data bits p \<or> p = pc"
    using bitvec_set_ok [of pc bits] by (metis le_less_trans)
  from Suc.IH [of "pc + 1" b1] Suc.prems b1(2) obtain b2 where
    "set_data numbits (pc + 1) b1 = Some (pc + 1 + numbits, b2)" "length b2 = length b1"
    "\<forall>p. is_data b2 p \<longleftrightarrow> is_data b1 p \<or> pc + 1 \<le> p \<and> p < pc + 1 + numbits"
    by auto
  moreover have "p = pc \<or> pc + 1 \<le> p \<and> p < pc + 1 + numbits \<longleftrightarrow> pc \<le> p \<and> p < pc + Suc numbits" for p
    by linarith
  ultimately show ?case using b1 by (simp add: disj_assoc)
qed

lemma push_size: "OP_PUSH1 \<le> op \<Longrightarrow> op \<le> OP_PUSH32 \<Longrightarrow> op_size op = 1 + unat (op - OP_PUSH1 + 1)"
  by (simp add: op_size_def)

lemma codeBitmap_loop_ok:
  assumes "instr_at code pc" "length bits = length code div 8 + 5" "length code \<le> pc + k"
    and "\<forall>p. is_data bits p \<longleftrightarrow> p < pc \<and> \<not> instr_at code p"
  shows "\<exists>bits'. codeBitmap_loop k code pc bits = Some bits' \<and> length bits' = length bits \<and>
     (\<forall>p < length code. is_data bits' p \<longleftrightarrow> \<not> instr_at code p)"
  using assms
proof (induction k arbitrary: pc bits)
  case 0
  then show ?case by auto
next
  case (Suc k)
  show ?case
  proof (cases "pc < length code")
    case True
    define op where "op = code ! pc"
    have next_at: "instr_at code (pc + op_size op)"
      unfolding op_def by (rule instr_at.step [OF Suc.prems(1) True])
    have between: "\<not> instr_at code p" if "pc < p" "p < pc + op_size op" for p
      using instr_at_gap [OF Suc.prems(1), of p] that by (auto simp: op_def)
    have inv: "\<forall>p. is_data bits' p \<longleftrightarrow> p < pc + op_size op \<and> \<not> instr_at code p"
      if "\<forall>p. is_data bits' p \<longleftrightarrow> is_data bits p \<or> pc < p \<and> p < pc + op_size op" for bits'
    proof
      fix p
      consider "p < pc" | "p = pc" | "pc < p" by linarith
      then show "is_data bits' p \<longleftrightarrow> p < pc + op_size op \<and> \<not> instr_at code p"
        using that Suc.prems(1,4) between by cases auto
    qed
    note ih = Suc.IH [OF next_at]
    show ?thesis
    proof (cases "OP_PUSH1 \<le> op \<and> op \<le> OP_PUSH32")
      case push: True
      define n where "n = unat (op - OP_PUSH1 + 1)"
      have sz: "op_size op = 1 + n" "n \<le> 32"
        using push op_size_bounds(2) [of op] by (simp_all add: n_def push_size)
      have "(pc + 1 + n) div 8 \<le> (length code + 32) div 8"
        by (rule div_le_mono) (use True sz in simp)
      then have room: "(pc + 1 + n) div 8 < length bits"
        using Suc.prems(2) by simp
      from set_data8_ok [OF room] obtain m pc1 b1 where b1:
        "set_data8 n (pc + 1) bits = Some (m, pc1, b1)" "pc1 + m = pc + 1 + n" "pc + 1 \<le> pc1"
        "length b1 = length bits" "\<forall>p. is_data b1 p \<longleftrightarrow> is_data bits p \<or> pc + 1 \<le> p \<and> p < pc1"
        by blast
      with room have "(pc1 + m) div 8 < length b1" by simp
      from set_data_ok [OF this] obtain b2 where b2:
        "set_data m pc1 b1 = Some (pc + op_size op, b2)" "length b2 = length bits"
        "\<forall>p. is_data b2 p \<longleftrightarrow> is_data b1 p \<or> pc1 \<le> p \<and> p < pc1 + m"
        using b1 sz by auto
      have "pc + 1 \<le> p \<and> p < pc1 \<or> pc1 \<le> p \<and> p < pc1 + m \<longleftrightarrow> pc < p \<and> p < pc + op_size op" for p
        using b1(2,3) sz(1) by linarith
      then have "\<forall>p. is_data b2 p \<longleftrightarrow> is_data bits p \<or> pc < p \<and> p < pc + op_size op"
        by (simp add: b1(5) b2(3) disj_assoc)
      from ih [OF _ _ inv [OF this]] Suc.prems(2,3) b2(2) sz obtain bits' where
        "codeBitmap_loop k code (pc + op_size op) b2 = Some bits'" "length bits' = length b2"
        "\<forall>p < length code. is_data bits' p \<longleftrightarrow> \<not> instr_at code p"
        by auto
      with True push b1(1) b2 show ?thesis
        by (simp add: op_def [symmetric] n_def [symmetric])
    next
      case False
      then have sz: "op_size op = 1" by (auto simp: op_size_def)
      then have "\<forall>p. is_data bits p \<longleftrightarrow> is_data bits p \<or> pc < p \<and> p < pc + op_size op" by auto
      from ih [OF _ _ inv [OF this]] Suc.prems(2,3) sz show ?thesis
        using True False by (auto simp: op_def [symmetric])
    qed
  next
    case False
    with Suc.prems show ?thesis by auto
  qed
qed

lemma codeBitmap_ok:
  obtains bits where "codeBitmap code = Some bits" "length bits = length code div 8 + 5"
    "\<And>p. p < length code \<Longrightarrow> codeSegment bits p = Some (instr_at code p)"
proof -
  let ?z = "replicate (length code div 8 + 5) 0"
  have "\<forall>p. is_data ?z p \<longleftrightarrow> p < 0 \<and> \<not> instr_at code p"
    by (auto simp: is_data_def)
  from codeBitmap_loop_ok [OF instr_at.start _ _ this, of "length code"] obtain bits where
    "codeBitmap code = Some bits" "length bits = length code div 8 + 5"
    "\<forall>p < length code. is_data bits p \<longleftrightarrow> \<not> instr_at code p"
    by (auto simp: codeBitmap_def ac_simps)
  moreover have "p div 8 < length code div 8 + 5" if "p < length code" for p
    using div_le_mono [of p "length code" 8] that by simp
  ultimately show ?thesis
    by (intro that) (auto simp: codeSegment_is_data)
qed

end
