(* ===== verification/Evm_Gas.thy ===== *)
theory Evm_Gas
  imports Evm_Code
begin

text \<open>
  The interface \<^verbatim>\<open>StateDB\<close> of \<^verbatim>\<open>src/evm/interface.go\<close>, the environment and the mutable part of the
  objects \<^verbatim>\<open>EVM\<close> and \<^verbatim>\<open>EVMInterpreter\<close>, and the gas functions of \<^verbatim>\<open>src/evm/gas_table.go\<close>.

  A state database is a record of operations over a type \<open>'d\<close> of states. The methods that may panic
  return an option. The state database keeps the last error of its backend in a field that nothing
  reads, so its getters are functions of the state.
\<close>

section \<open>State databases\<close>

record storage_log =
  log_Address :: address
  log_Topics :: "hash list"
  log_Data :: bytes

record 'd sdb =
  CreateAccount :: "'d \<Rightarrow> address \<Rightarrow> 'd"
  SubBalance :: "'d \<Rightarrow> address \<Rightarrow> int \<Rightarrow> 'd"
  AddBalance :: "'d \<Rightarrow> address \<Rightarrow> int \<Rightarrow> 'd"
  GetBalance :: "'d \<Rightarrow> address \<Rightarrow> int"
  GetNonce :: "'d \<Rightarrow> address \<Rightarrow> u64"
  SetNonce :: "'d \<Rightarrow> address \<Rightarrow> u64 \<Rightarrow> 'd"
  GetCodeHash :: "'d \<Rightarrow> address \<Rightarrow> hash"
  GetCode :: "'d \<Rightarrow> address \<Rightarrow> bytes"
  SetCode :: "'d \<Rightarrow> address \<Rightarrow> bytes \<Rightarrow> 'd"
  GetCodeSize :: "'d \<Rightarrow> address \<Rightarrow> nat"
  AddRefund :: "'d \<Rightarrow> u64 \<Rightarrow> 'd"
  SubRefund :: "'d \<Rightarrow> u64 \<Rightarrow> 'd option"
  GetRefund :: "'d \<Rightarrow> u64"
  GetCommittedState :: "'d \<Rightarrow> address \<Rightarrow> hash \<Rightarrow> hash"
  GetState :: "'d \<Rightarrow> address \<Rightarrow> hash \<Rightarrow> hash"
  SetState :: "'d \<Rightarrow> address \<Rightarrow> hash \<Rightarrow> hash \<Rightarrow> 'd"
  Suicide :: "'d \<Rightarrow> address \<Rightarrow> bool \<times> 'd"
  HasSuicided :: "'d \<Rightarrow> address \<Rightarrow> bool"
  Exist :: "'d \<Rightarrow> address \<Rightarrow> bool"
  Empty :: "'d \<Rightarrow> address \<Rightarrow> bool"
  RevertToSnapshot :: "'d \<Rightarrow> nat \<Rightarrow> 'd option"
  Snapshot :: "'d \<Rightarrow> nat \<times> 'd"
  AddLog :: "'d \<Rightarrow> storage_log \<Rightarrow> 'd"
  AddPreimage :: "'d \<Rightarrow> hash \<Rightarrow> bytes \<Rightarrow> 'd option"

section \<open>The machine\<close>

text \<open>\<^verbatim>\<open>params.Rules\<close>: the hard forks that are active.\<close>

record rules =
  IsHomestead :: bool
  IsEIP150 :: bool
  IsEIP158 :: bool
  IsByzantium :: bool
  IsConstantinople :: bool
  IsPetersburg :: bool
  IsIstanbul :: bool

text \<open>A precompiled contract: its price, and its result or error; \<open>None\<close> is a panic.\<close>

record precompiled =
  RequiredGas :: "bytes \<Rightarrow> u64"
  pre_Run :: "bytes \<Rightarrow> (evm_err + bytes) option"

text \<open>
  What a run does not change: the packages, the state database's operations, the chain rules, the
  block and transaction contexts, the chain identifier and the two switches of the configuration.
  The precompiled contracts of the active fork are a table.
\<close>

record 'd env =
  e_lib :: lib
  e_db :: "'d sdb"
  e_rules :: rules
  e_precompile :: "address \<Rightarrow> precompiled option"
  CanTransfer :: "'d \<Rightarrow> address \<Rightarrow> int \<Rightarrow> bool"
  Transfer :: "'d \<Rightarrow> address \<Rightarrow> address \<Rightarrow> int \<Rightarrow> 'd"
  GetHash :: "u64 \<Rightarrow> hash"
  Coinbase :: address
  GasLimit :: u64
  BlockNumber :: int
  Time :: int
  Difficulty :: int
  Origin :: address
  GasPrice :: int
  ChainID :: int
  NoRecursion :: bool
  EnablePreimageRecording :: bool

text \<open>
  What a run changes. \<open>aborts\<close> are the values that the successive atomic loads of the abort flag
  will see: another goroutine sets it.
\<close>

record 'd evm =
  StateDB :: 'd
  depth :: nat
  callGasTemp :: u64
  readOnly :: bool
  returnData :: bytes
  jumpdests :: jumpdests
  aborts :: "bool list"

section \<open>Gas\<close>

definition GasQuickStep :: u64 where "GasQuickStep = 2"
definition GasFastestStep :: u64 where "GasFastestStep = 3"
definition GasFastStep :: u64 where "GasFastStep = 5"
definition GasMidStep :: u64 where "GasMidStep = 8"
definition GasSlowStep :: u64 where "GasSlowStep = 10"
definition GasExtStep :: u64 where "GasExtStep = 20"

lemmas gas_step_defs = GasQuickStep_def GasFastestStep_def GasFastStep_def GasMidStep_def
  GasSlowStep_def GasExtStep_def

type_synonym 'd gasFunc = "'d env \<Rightarrow> 'd evm \<Rightarrow> contract \<Rightarrow> stack \<Rightarrow> mem \<Rightarrow> u64 \<Rightarrow>
  ((evm_err + u64) \<times> 'd evm \<times> mem) option"

text \<open>\<^verbatim>\<open>if x, overflow = f(..); overflow { return 0, ErrGasUintOverflow }\<close>.\<close>

definition no_overflow :: "u64 \<times> bool \<Rightarrow> (u64 \<Rightarrow> evm_err + 'a) \<Rightarrow> evm_err + 'a" where
  "no_overflow r k = (case r of (v, overflow) \<Rightarrow> if overflow then Inl ErrGasUintOverflow else k v)"

definition callGas :: "lib \<Rightarrow> bool \<Rightarrow> u64 \<Rightarrow> u64 \<Rightarrow> u256 \<Rightarrow> evm_err + u64" where
  "callGas L isEip150 availableGas base callCost = (
     let availableGas = availableGas - base;
         gas = availableGas - availableGas div 64
     in if isEip150 \<and> (\<not> u_IsUint64 L callCost \<or> gas < u_Uint64 L callCost) then Inr gas
     else if \<not> u_IsUint64 L callCost then Inl ErrGasUintOverflow
     else Inr (u_Uint64 L callCost))"

definition memoryGasCost :: "lib \<Rightarrow> mem \<Rightarrow> u64 \<Rightarrow> (evm_err + u64) \<times> mem" where
  "memoryGasCost L m newMemSize = (
     if newMemSize = 0 then (Inr 0, m)
     else if newMemSize > 0x1FFFFFFFE0 then (Inl ErrGasUintOverflow, m)
     else let newMemSizeWords = toWordSize newMemSize;
              newMemSize = newMemSizeWords * 32
       in if newMemSize > of_nat (mem_Len m)
         then let square = newMemSizeWords * newMemSizeWords;
                  linCoef = newMemSizeWords * params L ''MemoryGas'';
                  quadCoef = square div params L ''QuadCoeffDiv'';
                  newTotalFee = linCoef + quadCoef;
                  fee = newTotalFee - lastGasCost m
           in (Inr fee, m\<lparr>lastGasCost := newTotalFee\<rparr>)
         else (Inr 0, m))"

text \<open>
  The shape most gas functions share: charge for the memory, and if that is possible go on with the
  fee; the error of the memory charge is the result otherwise.
\<close>

definition with_memory_gas :: "'d env \<Rightarrow> 'd evm \<Rightarrow> mem \<Rightarrow> u64 \<Rightarrow>
    (u64 \<Rightarrow> ((evm_err + u64) \<times> 'd evm) option) \<Rightarrow> ((evm_err + u64) \<times> 'd evm \<times> mem) option" where
  "with_memory_gas E ev m memorySize k = (case memoryGasCost (e_lib E) m memorySize of
     (Inl err, m) \<Rightarrow> Some (Inl err, ev, m)
   | (Inr gas, m) \<Rightarrow> do { (r, ev) \<leftarrow> k gas; Some (r, ev, m) })"

definition memoryCopierGas :: "nat \<Rightarrow> 'd gasFunc" where
  "memoryCopierGas stackpos E ev c st m memorySize = with_memory_gas E ev m memorySize (\<lambda>gas. do {
     w \<leftarrow> stack_Back stackpos st;
     Some (no_overflow (u_Uint64WithOverflow (e_lib E) w) (\<lambda>words.
       no_overflow (SafeMul (e_lib E) (toWordSize words) (params (e_lib E) ''CopyGas'')) (\<lambda>words.
       no_overflow (SafeAdd (e_lib E) gas words) Inr)), ev)
   })"

definition gasCallDataCopy :: "'d gasFunc" where "gasCallDataCopy = memoryCopierGas 2"
definition gasCodeCopy :: "'d gasFunc" where "gasCodeCopy = memoryCopierGas 2"
definition gasExtCodeCopy :: "'d gasFunc" where "gasExtCodeCopy = memoryCopierGas 3"
definition gasReturnDataCopy :: "'d gasFunc" where "gasReturnDataCopy = memoryCopierGas 2"

text \<open>A refund: \<^verbatim>\<open>SubRefund\<close> panics when the counter would go below zero.\<close>

definition add_refund :: "'d env \<Rightarrow> 'd evm \<Rightarrow> u64 \<Rightarrow> 'd evm" where
  "add_refund E ev gas = ev\<lparr>StateDB := AddRefund (e_db E) (StateDB ev) gas\<rparr>"

definition sub_refund :: "'d env \<Rightarrow> 'd evm \<Rightarrow> u64 \<Rightarrow> 'd evm option" where
  "sub_refund E ev gas = do {
     d \<leftarrow> SubRefund (e_db E) (StateDB ev) gas;
     Some (ev\<lparr>StateDB := d\<rparr>)
   }"

text \<open>
  The branch that both net-metered prices share, from the dirty slot on: the refunds for the slot
  and the price of a dirty write.
\<close>

definition sstore_dirty :: "'d env \<Rightarrow> 'd evm \<Rightarrow> hash \<Rightarrow> hash \<Rightarrow> hash \<Rightarrow> u64 \<Rightarrow> u64 \<Rightarrow> u64 \<Rightarrow> u64 \<Rightarrow>
    (evm_err + u64) \<times> 'd evm" where
  "sstore_dirty E ev original current val clearRefund resetClearRefund resetRefund dirtyGas = (
     case (if original \<noteq> zeroHash
           then if current = zeroHash then sub_refund E ev clearRefund
             else if val = zeroHash then Some (add_refund E ev clearRefund)
             else Some ev
           else Some ev) of
       None \<Rightarrow> (Inl Panicked, ev)
     | Some ev \<Rightarrow>
         (Inr dirtyGas,
          if original = val
          then if original = zeroHash then add_refund E ev resetClearRefund
            else add_refund E ev resetRefund
          else ev))"

definition gasSStore :: "'d gasFunc" where
  "gasSStore E ev c st m memorySize = (
     let L = e_lib E; S = e_db E; p = params L in do {
     y \<leftarrow> stack_Back 1 st;
     x \<leftarrow> stack_Back 0 st;
     let current = GetState S (StateDB ev) (con_Address c) (u_Bytes32 L x);
     if IsPetersburg (e_rules E) \<or> \<not> IsConstantinople (e_rules E)
     then Some (
       if current = zeroHash \<and> u_Sign L y \<noteq> 0 then (Inr (p ''SstoreSetGas''), ev, m)
       else if current \<noteq> zeroHash \<and> u_Sign L y = 0
       then (Inr (p ''SstoreClearGas''), add_refund E ev (p ''SstoreRefundGas''), m)
       else (Inr (p ''SstoreResetGas''), ev, m))
     else
       let val = u_Bytes32 L y;
           original = GetCommittedState S (StateDB ev) (con_Address c) (u_Bytes32 L x)
       in Some (
       if current = val then (Inr (p ''NetSstoreNoopGas''), ev, m)
       else if original = current
       then if original = zeroHash then (Inr (p ''NetSstoreInitGas''), ev, m)
         else (Inr (p ''NetSstoreCleanGas''),
               (if val = zeroHash then add_refund E ev (p ''NetSstoreClearRefund'') else ev), m)
       else let (r, ev) = sstore_dirty E ev original current val (p ''NetSstoreClearRefund'')
                  (p ''NetSstoreResetClearRefund'') (p ''NetSstoreResetRefund'') (p ''NetSstoreDirtyGas'')
         in (r, ev, m))
   })"

definition gasSStoreEIP2200 :: "'d gasFunc" where
  "gasSStoreEIP2200 E ev c st m memorySize = (
     let L = e_lib E; S = e_db E; p = params L in
     if c_Gas c \<le> p ''SstoreSentryGasEIP2200''
     then Some (Inl (ErrText ''not enough gas for reentrancy sentry''), ev, m)
     else do {
     y \<leftarrow> stack_Back 1 st;
     x \<leftarrow> stack_Back 0 st;
     let current = GetState S (StateDB ev) (con_Address c) (u_Bytes32 L x);
     let val = u_Bytes32 L y;
     let original = GetCommittedState S (StateDB ev) (con_Address c) (u_Bytes32 L x);
     Some (
       if current = val then (Inr (p ''SloadGasEIP2200''), ev, m)
       else if original = current
       then if original = zeroHash then (Inr (p ''SstoreSetGasEIP2200''), ev, m)
         else (Inr (p ''SstoreResetGasEIP2200''),
               (if val = zeroHash
                then add_refund E ev (p ''SstoreClearsScheduleRefundEIP2200'') else ev), m)
       else let (r, ev) = sstore_dirty E ev original current val
                  (p ''SstoreClearsScheduleRefundEIP2200'')
                  (p ''SstoreSetGasEIP2200'' - p ''SloadGasEIP2200'')
                  (p ''SstoreResetGasEIP2200'' - p ''SloadGasEIP2200'') (p ''SloadGasEIP2200'')
         in (r, ev, m))
   })"

definition makeGasLog :: "u64 \<Rightarrow> 'd gasFunc" where
  "makeGasLog n E ev c st m memorySize = (let L = e_lib E in do {
     w \<leftarrow> stack_Back 1 st;
     case u_Uint64WithOverflow L w of (requestedSize, overflow) \<Rightarrow>
       if overflow then Some (Inl ErrGasUintOverflow, ev, m)
       else with_memory_gas E ev m memorySize (\<lambda>gas. Some (
         no_overflow (SafeAdd L gas (params L ''LogGas'')) (\<lambda>gas.
         no_overflow (SafeAdd L gas (n * params L ''LogTopicGas'')) (\<lambda>gas.
         no_overflow (SafeMul L requestedSize (params L ''LogDataGas'')) (\<lambda>memorySizeGas.
         no_overflow (SafeAdd L gas memorySizeGas) Inr))), ev))
   })"

text \<open>The charge per word of hashed data that SHA3 and CREATE2 share.\<close>

definition hash_words_gas :: "nat \<Rightarrow> 'd gasFunc" where
  "hash_words_gas pos E ev c st m memorySize = with_memory_gas E ev m memorySize (\<lambda>gas. do {
     w \<leftarrow> stack_Back pos st;
     Some (no_overflow (u_Uint64WithOverflow (e_lib E) w) (\<lambda>wordGas.
       no_overflow (SafeMul (e_lib E) (toWordSize wordGas) (params (e_lib E) ''Keccak256WordGas'')) (\<lambda>wordGas.
       no_overflow (SafeAdd (e_lib E) gas wordGas) Inr)), ev)
   })"

definition gasSha3 :: "'d gasFunc" where
  "gasSha3 = hash_words_gas 1"

definition gasCreate2 :: "'d gasFunc" where
  "gasCreate2 = hash_words_gas 2"

definition pureMemoryGascost :: "'d gasFunc" where
  "pureMemoryGascost E ev c st m memorySize =
     with_memory_gas E ev m memorySize (\<lambda>gas. Some (Inr gas, ev))"

definition gasReturn :: "'d gasFunc" where "gasReturn = pureMemoryGascost"
definition gasRevert :: "'d gasFunc" where "gasRevert = pureMemoryGascost"
definition gasMLoad :: "'d gasFunc" where "gasMLoad = pureMemoryGascost"
definition gasMStore8 :: "'d gasFunc" where "gasMStore8 = pureMemoryGascost"
definition gasMStore :: "'d gasFunc" where "gasMStore = pureMemoryGascost"
definition gasCreate :: "'d gasFunc" where "gasCreate = pureMemoryGascost"

definition gasExp_at :: "param \<Rightarrow> 'd gasFunc" where
  "gasExp_at byteGas E ev c st m memorySize = (let L = e_lib E in do {
     e \<leftarrow> stack_Back 1 st;
     let expByteLen = of_nat ((u_BitLen L e + 7) div 8);
     Some (no_overflow (SafeAdd L (expByteLen * params L byteGas) (params L ''ExpGas'')) Inr, ev, m)
   })"

definition gasExpFrontier :: "'d gasFunc" where
  "gasExpFrontier = gasExp_at ''ExpByteFrontier''"

definition gasExpEIP158 :: "'d gasFunc" where
  "gasExpEIP158 = gasExp_at ''ExpByteEIP158''"

text \<open>
  The end of the four call prices: the gas for the callee is stored in \<^verbatim>\<open>callGasTemp\<close> and added to
  the price.
\<close>

definition charge_callee :: "'d env \<Rightarrow> 'd evm \<Rightarrow> contract \<Rightarrow> stack \<Rightarrow> u64 \<Rightarrow>
    ((evm_err + u64) \<times> 'd evm) option" where
  "charge_callee E ev c st gas = do {
     requested \<leftarrow> stack_Back 0 st;
     Some (case callGas (e_lib E) (IsEIP150 (e_rules E)) (c_Gas c) gas requested of
       Inl err \<Rightarrow> (Inl err, ev\<lparr>callGasTemp := 0\<rparr>)
     | Inr temp \<Rightarrow> (no_overflow (SafeAdd (e_lib E) gas temp) Inr, ev\<lparr>callGasTemp := temp\<rparr>))
   }"

definition gasCall :: "'d gasFunc" where
  "gasCall E ev c st m memorySize = (let L = e_lib E; S = e_db E in do {
     value \<leftarrow> stack_Back 2 st;
     a \<leftarrow> stack_Back 1 st;
     let transfersValue = \<not> u_IsZero L value;
     let address = u_Bytes20 L a;
     let gas = (if IsEIP158 (e_rules E)
       then if transfersValue \<and> Empty S (StateDB ev) address
         then params L ''CallNewAccountGas'' else 0
       else if \<not> Exist S (StateDB ev) address then params L ''CallNewAccountGas'' else 0);
     let gas = (if transfersValue then gas + params L ''CallValueTransferGas'' else gas);
     with_memory_gas E ev m memorySize (\<lambda>memoryGas.
       case SafeAdd L gas memoryGas of (gas, overflow) \<Rightarrow>
         if overflow then Some (Inl ErrGasUintOverflow, ev) else charge_callee E ev c st gas)
   })"

definition gasCallCode :: "'d gasFunc" where
  "gasCallCode E ev c st m memorySize = (let L = e_lib E in
     with_memory_gas E ev m memorySize (\<lambda>memoryGas. do {
       value \<leftarrow> stack_Back 2 st;
       let gas = (if u_Sign L value \<noteq> 0 then params L ''CallValueTransferGas'' else 0);
       case SafeAdd L gas memoryGas of (gas, overflow) \<Rightarrow>
         if overflow then Some (Inl ErrGasUintOverflow, ev) else charge_callee E ev c st gas
     }))"

definition gasDelegateCall :: "'d gasFunc" where
  "gasDelegateCall E ev c st m memorySize =
     with_memory_gas E ev m memorySize (charge_callee E ev c st)"

definition gasStaticCall :: "'d gasFunc" where
  "gasStaticCall E ev c st m memorySize =
     with_memory_gas E ev m memorySize (charge_callee E ev c st)"

definition gasSelfdestruct :: "'d gasFunc" where
  "gasSelfdestruct E ev c st m memorySize = (let L = e_lib E; S = e_db E; d = StateDB ev in do {
     gas \<leftarrow> (if IsEIP150 (e_rules E)
       then do {
         b \<leftarrow> stack_Back 0 st;
         let address = u_Bytes20 L b;
         let new = (if IsEIP158 (e_rules E)
           then Empty S d address \<and> GetBalance S d (con_Address c) \<noteq> 0
           else \<not> Exist S d address);
         Some (params L ''SelfdestructGasEIP150'' +
           (if new then params L ''CreateBySelfdestructGas'' else 0))
       }
       else Some 0);
     let ev = (if \<not> HasSuicided S d (con_Address c)
       then add_refund E ev (params L ''SelfdestructRefundGas'') else ev);
     Some (Inr gas, ev, m)
   })"

end
