(* ===== verification/Evm_Instr.thy ===== *)
theory Evm_Instr
  imports Evm_Gas
begin

text \<open>
  The instructions of \<^verbatim>\<open>src/evm/instructions.go\<close> and \<^verbatim>\<open>src/evm/eips.go\<close>. An instruction gets the
  environment, the entry points of the machine for calls and creations (\<open>calls\<close>, since the interpreter
  and the instructions call each other) and the frame, and returns the frame, the bytes and the error.
  \<open>None\<close> is a Go panic, or a nested call that does not end within its fuel.
\<close>

section \<open>Frames\<close>

record 'd mach =
  m_pc :: u64
  m_stack :: stack
  m_rstack :: return_stack
  m_mem :: mem
  m_con :: contract
  m_evm :: "'d evm"

record 'd calls =
  to_Call :: "contract_ref \<Rightarrow> address \<Rightarrow> bytes \<Rightarrow> u64 \<Rightarrow> int \<Rightarrow> 'd evm \<Rightarrow>
    (bytes \<times> u64 \<times> evm_err option \<times> 'd evm) option"
  to_CallCode :: "contract_ref \<Rightarrow> address \<Rightarrow> bytes \<Rightarrow> u64 \<Rightarrow> int \<Rightarrow> 'd evm \<Rightarrow>
    (bytes \<times> u64 \<times> evm_err option \<times> 'd evm) option"
  to_DelegateCall :: "contract_ref \<Rightarrow> address \<Rightarrow> bytes \<Rightarrow> u64 \<Rightarrow> 'd evm \<Rightarrow>
    (bytes \<times> u64 \<times> evm_err option \<times> 'd evm) option"
  to_StaticCall :: "contract_ref \<Rightarrow> address \<Rightarrow> bytes \<Rightarrow> u64 \<Rightarrow> 'd evm \<Rightarrow>
    (bytes \<times> u64 \<times> evm_err option \<times> 'd evm) option"
  to_Create :: "contract_ref \<Rightarrow> bytes \<Rightarrow> u64 \<Rightarrow> int \<Rightarrow> 'd evm \<Rightarrow>
    (bytes \<times> address \<times> u64 \<times> evm_err option \<times> 'd evm) option"
  to_Create2 :: "contract_ref \<Rightarrow> bytes \<Rightarrow> u64 \<Rightarrow> int \<Rightarrow> u256 \<Rightarrow> 'd evm \<Rightarrow>
    (bytes \<times> address \<times> u64 \<times> evm_err option \<times> 'd evm) option"

type_synonym 'd outcome = "'d mach \<times> bytes \<times> evm_err option"
type_synonym 'd executionFunc = "'d env \<Rightarrow> 'd calls \<Rightarrow> 'd mach \<Rightarrow> 'd outcome option"

abbreviation m_db :: "'d mach \<Rightarrow> 'd" where
  "m_db m \<equiv> StateDB (m_evm m)"

text \<open>\<^verbatim>\<open>return nil, nil\<close> and \<^verbatim>\<open>return nil, err\<close>.\<close>

definition op_done :: "'d mach \<Rightarrow> 'd outcome option" where
  "op_done m = Some (m, [], None)"

definition op_fail :: "'d mach \<Rightarrow> evm_err \<Rightarrow> 'd outcome option" where
  "op_fail m err = Some (m, [], Some err)"

definition set_db :: "'d mach \<Rightarrow> 'd \<Rightarrow> 'd mach" where
  "set_db m d = m\<lparr>m_evm := (m_evm m)\<lparr>StateDB := d\<rparr>\<rparr>"

text \<open>
  The recurring shapes: overwrite the top, pop one and overwrite the next, pop two and overwrite the
  third, push a value.
\<close>

definition on_top :: "(u256 \<Rightarrow> u256) \<Rightarrow> 'd mach \<Rightarrow> 'd outcome option" where
  "on_top f m = do {
     x \<leftarrow> stack_peek (m_stack m);
     st \<leftarrow> stack_poke (f x) (m_stack m);
     op_done (m\<lparr>m_stack := st\<rparr>)
   }"

definition pop1_poke :: "(u256 \<Rightarrow> u256 \<Rightarrow> u256) \<Rightarrow> 'd mach \<Rightarrow> 'd outcome option" where
  "pop1_poke f m = do {
     (x, st) \<leftarrow> stack_pop (m_stack m);
     y \<leftarrow> stack_peek st;
     st \<leftarrow> stack_poke (f x y) st;
     op_done (m\<lparr>m_stack := st\<rparr>)
   }"

definition pop2_poke :: "(u256 \<Rightarrow> u256 \<Rightarrow> u256 \<Rightarrow> u256) \<Rightarrow> 'd mach \<Rightarrow> 'd outcome option" where
  "pop2_poke f m = do {
     (x, st) \<leftarrow> stack_pop (m_stack m);
     (y, st) \<leftarrow> stack_pop st;
     z \<leftarrow> stack_peek st;
     st \<leftarrow> stack_poke (f x y z) st;
     op_done (m\<lparr>m_stack := st\<rparr>)
   }"

definition push_val :: "u256 \<Rightarrow> 'd mach \<Rightarrow> 'd outcome option" where
  "push_val v m = op_done (m\<lparr>m_stack := stack_push v (m_stack m)\<rparr>)"

definition bool_word :: "bool \<Rightarrow> u256" where
  "bool_word b = (if b then 1 else 0)"

lemmas op_shape_defs = op_done_def op_fail_def on_top_def pop1_poke_def pop2_poke_def push_val_def

section \<open>Arithmetic and comparison\<close>

definition opAdd :: "'d executionFunc" where
  "opAdd E C = pop1_poke (u_op (e_lib E) UAdd)"

definition opSub :: "'d executionFunc" where
  "opSub E C = pop1_poke (u_op (e_lib E) USub)"

definition opMul :: "'d executionFunc" where
  "opMul E C = pop1_poke (u_op (e_lib E) UMul)"

definition opDiv :: "'d executionFunc" where
  "opDiv E C = pop1_poke (u_op (e_lib E) UDiv)"

definition opSdiv :: "'d executionFunc" where
  "opSdiv E C = pop1_poke (u_op (e_lib E) USDiv)"

definition opMod :: "'d executionFunc" where
  "opMod E C = pop1_poke (u_op (e_lib E) UMod)"

definition opSmod :: "'d executionFunc" where
  "opSmod E C = pop1_poke (u_op (e_lib E) USMod)"

definition opExp :: "'d executionFunc" where
  "opExp E C = pop1_poke (u_op (e_lib E) UExp)"

definition opSignExtend :: "'d executionFunc" where
  "opSignExtend E C = pop1_poke (\<lambda>back num. u_op (e_lib E) UExtendSign num back)"

definition opNot :: "'d executionFunc" where
  "opNot E C = on_top (u_Not (e_lib E))"

definition opLt :: "'d executionFunc" where
  "opLt E C = pop1_poke (\<lambda>x y. bool_word (u_rel (e_lib E) ULt x y))"

definition opGt :: "'d executionFunc" where
  "opGt E C = pop1_poke (\<lambda>x y. bool_word (u_rel (e_lib E) UGt x y))"

definition opSlt :: "'d executionFunc" where
  "opSlt E C = pop1_poke (\<lambda>x y. bool_word (u_rel (e_lib E) USlt x y))"

definition opSgt :: "'d executionFunc" where
  "opSgt E C = pop1_poke (\<lambda>x y. bool_word (u_rel (e_lib E) USgt x y))"

definition opEq :: "'d executionFunc" where
  "opEq E C = pop1_poke (\<lambda>x y. bool_word (u_rel (e_lib E) UEq x y))"

definition opIszero :: "'d executionFunc" where
  "opIszero E C = on_top (\<lambda>x. bool_word (u_IsZero (e_lib E) x))"

definition opAnd :: "'d executionFunc" where
  "opAnd E C = pop1_poke (u_op (e_lib E) UAnd)"

definition opOr :: "'d executionFunc" where
  "opOr E C = pop1_poke (u_op (e_lib E) UOr)"

definition opXor :: "'d executionFunc" where
  "opXor E C = pop1_poke (u_op (e_lib E) UXor)"

definition opByte :: "'d executionFunc" where
  "opByte E C = pop1_poke (\<lambda>th val. u_op (e_lib E) UByte val th)"

definition opAddmod :: "'d executionFunc" where
  "opAddmod E C = pop2_poke (\<lambda>x y z. if u_IsZero (e_lib E) z then 0 else u_mod3 (e_lib E) UAddMod x y z)"

definition opMulmod :: "'d executionFunc" where
  "opMulmod E C = pop2_poke (u_mod3 (e_lib E) UMulMod)"

definition opSHL :: "'d executionFunc" where
  "opSHL E C = pop1_poke (\<lambda>shift value. if u_LtUint64 (e_lib E) shift 256
     then u_shift (e_lib E) ULsh value (u_Uint64 (e_lib E) shift) else 0)"

definition opSHR :: "'d executionFunc" where
  "opSHR E C = pop1_poke (\<lambda>shift value. if u_LtUint64 (e_lib E) shift 256
     then u_shift (e_lib E) URsh value (u_Uint64 (e_lib E) shift) else 0)"

definition opSAR :: "'d executionFunc" where
  "opSAR E C = pop1_poke (\<lambda>shift value. if u_GtUint64 (e_lib E) shift 256
     then if u_Sign (e_lib E) value \<ge> 0 then 0 else - 1
     else u_shift (e_lib E) USRsh value (u_Uint64 (e_lib E) shift))"

section \<open>Hashing, context and code\<close>

text \<open>The state database may panic on a preimage.\<close>

definition opSha3 :: "'d executionFunc" where
  "opSha3 E C m = (let L = e_lib E in do {
     (offset, st) \<leftarrow> stack_pop (m_stack m);
     sz \<leftarrow> stack_peek st;
     data \<leftarrow> mem_GetPtr (m_mem m) (u_Uint64 L offset) (u_Uint64 L sz);
     let h = Keccak256 L data;
     st' \<leftarrow> stack_poke (u_SetBytes L h) st;
     if EnablePreimageRecording E
     then case AddPreimage (e_db E) (m_db m) h data of
         None \<Rightarrow> op_fail m Panicked
       | Some d \<Rightarrow> op_done ((set_db m d)\<lparr>m_stack := st'\<rparr>)
     else op_done (m\<lparr>m_stack := st'\<rparr>)
   })"

definition opAddress :: "'d executionFunc" where
  "opAddress E C m = push_val (u_SetBytes (e_lib E) (con_Address (m_con m))) m"

definition opBalance :: "'d executionFunc" where
  "opBalance E C m = on_top (\<lambda>slot.
     u_FromBig (e_lib E) (GetBalance (e_db E) (m_db m) (u_Bytes20 (e_lib E) slot))) m"

definition opOrigin :: "'d executionFunc" where
  "opOrigin E C = push_val (u_SetBytes (e_lib E) (Origin E))"

definition opCaller :: "'d executionFunc" where
  "opCaller E C m = push_val (u_SetBytes (e_lib E) (con_Caller (m_con m))) m"

definition opCallValue :: "'d executionFunc" where
  "opCallValue E C m = push_val (u_FromBig (e_lib E) (c_value (m_con m))) m"

definition opCallDataLoad :: "'d executionFunc" where
  "opCallDataLoad E C m = (let L = e_lib E in do {
     x \<leftarrow> stack_peek (m_stack m);
     v \<leftarrow> (case u_Uint64WithOverflow L x of (offset, overflow) \<Rightarrow>
       if \<not> overflow
       then do { data \<leftarrow> getData L (c_Input (m_con m)) offset 32; Some (u_SetBytes L data) }
       else Some 0);
     st \<leftarrow> stack_poke v (m_stack m);
     op_done (m\<lparr>m_stack := st\<rparr>)
   })"

definition opCallDataSize :: "'d executionFunc" where
  "opCallDataSize E C m = push_val (u_SetUint64 (e_lib E) (of_nat (length (c_Input (m_con m))))) m"

text \<open>The three copies of a byte string into the memory.\<close>

definition copy_data :: "'d env \<Rightarrow> 'd mach \<Rightarrow> bytes \<Rightarrow> u256 \<Rightarrow> u256 \<Rightarrow> u256 \<Rightarrow> stack \<Rightarrow> 'd outcome option" where
  "copy_data E m src memOffset dataOffset len st = (let L = e_lib E;
       off = (case u_Uint64WithOverflow L dataOffset of (off, overflow) \<Rightarrow>
         if overflow then 0xffffffffffffffff else off)
     in do {
       data \<leftarrow> getData L src off (u_Uint64 L len);
       mm \<leftarrow> mem_Set (m_mem m) (u_Uint64 L memOffset) (u_Uint64 L len) data;
       op_done (m\<lparr>m_stack := st, m_mem := mm\<rparr>)
     })"

definition opCallDataCopy :: "'d executionFunc" where
  "opCallDataCopy E C m = do {
     (memOffset, st) \<leftarrow> stack_pop (m_stack m);
     (dataOffset, st) \<leftarrow> stack_pop st;
     (len, st) \<leftarrow> stack_pop st;
     copy_data E m (c_Input (m_con m)) memOffset dataOffset len st
   }"

definition opReturnDataSize :: "'d executionFunc" where
  "opReturnDataSize E C m = push_val (u_SetUint64 (e_lib E) (of_nat (length (returnData (m_evm m))))) m"

definition opReturnDataCopy :: "'d executionFunc" where
  "opReturnDataCopy E C m = (let L = e_lib E; data = returnData (m_evm m) in do {
     (memOffset, st) \<leftarrow> stack_pop (m_stack m);
     (dataOffset, st) \<leftarrow> stack_pop st;
     (len, st) \<leftarrow> stack_pop st;
     case u_Uint64WithOverflow L dataOffset of (offset64, overflow) \<Rightarrow>
       if overflow then op_fail (m\<lparr>m_stack := st\<rparr>) ErrReturnDataOutOfBounds
       else case u_Uint64WithOverflow L (u_op L UAdd dataOffset len) of (end64, overflow) \<Rightarrow>
         if overflow \<or> of_nat (length data) < end64
         then op_fail (m\<lparr>m_stack := st\<rparr>) ErrReturnDataOutOfBounds
         else do {
           d \<leftarrow> go_slice data (uint offset64) (uint end64);
           mm \<leftarrow> mem_Set (m_mem m) (u_Uint64 L memOffset) (u_Uint64 L len) d;
           op_done (m\<lparr>m_stack := st, m_mem := mm\<rparr>)
         }
   })"

definition opExtCodeSize :: "'d executionFunc" where
  "opExtCodeSize E C m = on_top (\<lambda>slot.
     u_SetUint64 (e_lib E) (of_nat (GetCodeSize (e_db E) (m_db m) (u_Bytes20 (e_lib E) slot)))) m"

definition opCodeSize :: "'d executionFunc" where
  "opCodeSize E C m = push_val (u_SetUint64 (e_lib E) (of_nat (length (c_Code (m_con m))))) m"

definition opCodeCopy :: "'d executionFunc" where
  "opCodeCopy E C m = do {
     (memOffset, st) \<leftarrow> stack_pop (m_stack m);
     (codeOffset, st) \<leftarrow> stack_pop st;
     (len, st) \<leftarrow> stack_pop st;
     copy_data E m (c_Code (m_con m)) memOffset codeOffset len st
   }"

definition opExtCodeCopy :: "'d executionFunc" where
  "opExtCodeCopy E C m = do {
     (a, st) \<leftarrow> stack_pop (m_stack m);
     (memOffset, st) \<leftarrow> stack_pop st;
     (codeOffset, st) \<leftarrow> stack_pop st;
     (len, st) \<leftarrow> stack_pop st;
     copy_data E m (GetCode (e_db E) (m_db m) (u_Bytes20 (e_lib E) a)) memOffset codeOffset len st
   }"

definition opExtCodeHash :: "'d executionFunc" where
  "opExtCodeHash E C m = on_top (\<lambda>slot. let address = u_Bytes20 (e_lib E) slot in
     if Empty (e_db E) (m_db m) address then 0
     else u_SetBytes (e_lib E) (GetCodeHash (e_db E) (m_db m) address)) m"

definition opGasprice :: "'d executionFunc" where
  "opGasprice E C = push_val (u_FromBig (e_lib E) (GasPrice E))"

definition opBlockhash :: "'d executionFunc" where
  "opBlockhash E C = on_top (\<lambda>num.
     case u_Uint64WithOverflow (e_lib E) num of (num64, overflow) \<Rightarrow>
       if overflow then 0
       else let upper = (word_of_int (BlockNumber E) :: u64);
                lower = (if upper < 257 then 0 else upper - 256)
         in if num64 \<ge> lower \<and> num64 < upper then u_SetBytes (e_lib E) (GetHash E num64) else 0)"

definition opCoinbase :: "'d executionFunc" where
  "opCoinbase E C = push_val (u_SetBytes (e_lib E) (Coinbase E))"

definition opTimestamp :: "'d executionFunc" where
  "opTimestamp E C = push_val (u_FromBig (e_lib E) (Time E))"

definition opNumber :: "'d executionFunc" where
  "opNumber E C = push_val (u_FromBig (e_lib E) (BlockNumber E))"

definition opDifficulty :: "'d executionFunc" where
  "opDifficulty E C = push_val (u_FromBig (e_lib E) (Difficulty E))"

definition opGasLimit :: "'d executionFunc" where
  "opGasLimit E C = push_val (u_SetUint64 (e_lib E) (GasLimit E))"

definition opSelfBalance :: "'d executionFunc" where
  "opSelfBalance E C m =
     push_val (u_FromBig (e_lib E) (GetBalance (e_db E) (m_db m) (con_Address (m_con m)))) m"

definition opChainID :: "'d executionFunc" where
  "opChainID E C = push_val (u_FromBig (e_lib E) (ChainID E))"

section \<open>Stack, memory, storage and flow\<close>

definition opPop :: "'d executionFunc" where
  "opPop E C m = do { (x, st) \<leftarrow> stack_pop (m_stack m); op_done (m\<lparr>m_stack := st\<rparr>) }"

definition opMload :: "'d executionFunc" where
  "opMload E C m = (let L = e_lib E in do {
     v \<leftarrow> stack_peek (m_stack m);
     data \<leftarrow> mem_GetPtr (m_mem m) (u_Uint64 L v) 32;
     st \<leftarrow> stack_poke (u_SetBytes L data) (m_stack m);
     op_done (m\<lparr>m_stack := st\<rparr>)
   })"

definition opMstore :: "'d executionFunc" where
  "opMstore E C m = do {
     (mStart, st) \<leftarrow> stack_pop (m_stack m);
     (val, st) \<leftarrow> stack_pop st;
     mm \<leftarrow> mem_Set32 (e_lib E) (m_mem m) (u_Uint64 (e_lib E) mStart) val;
     op_done (m\<lparr>m_stack := st, m_mem := mm\<rparr>)
   }"

definition opMstore8 :: "'d executionFunc" where
  "opMstore8 E C m = (let L = e_lib E in do {
     (off, st) \<leftarrow> stack_pop (m_stack m);
     (val, st) \<leftarrow> stack_pop st;
     let i = unat (u_Uint64 L off);
     if i < length (store (m_mem m))
     then op_done (m\<lparr>m_stack := st,
            m_mem := (m_mem m)\<lparr>store := (store (m_mem m))[i := ucast (u_Uint64 L val)]\<rparr>\<rparr>)
     else None
   })"

definition opSload :: "'d executionFunc" where
  "opSload E C m = on_top (\<lambda>loc. u_SetBytes (e_lib E)
     (GetState (e_db E) (m_db m) (con_Address (m_con m)) (u_Bytes32 (e_lib E) loc))) m"

definition opSstore :: "'d executionFunc" where
  "opSstore E C m = (let L = e_lib E in do {
     (loc, st) \<leftarrow> stack_pop (m_stack m);
     (val, st) \<leftarrow> stack_pop st;
     op_done ((set_db m (SetState (e_db E) (m_db m) (con_Address (m_con m))
       (u_Bytes32 L loc) (u_Bytes32 L val)))\<lparr>m_stack := st\<rparr>)
   })"

text \<open>A jump checks its destination, which may extend the analysis of the contract.\<close>

definition jump_to :: "'d env \<Rightarrow> 'd mach \<Rightarrow> u256 \<Rightarrow> 'd outcome option" where
  "jump_to E m pos = do {
     (valid, c, jd) \<leftarrow> validJumpdest (e_lib E) (m_con m) (jumpdests (m_evm m)) pos;
     let m = m\<lparr>m_con := c, m_evm := (m_evm m)\<lparr>jumpdests := jd\<rparr>\<rparr>;
     if \<not> valid then op_fail m ErrInvalidJump
     else op_done (m\<lparr>m_pc := u_Uint64 (e_lib E) pos\<rparr>)
   }"

definition opJump :: "'d executionFunc" where
  "opJump E C m = do {
     (pos, st) \<leftarrow> stack_pop (m_stack m);
     jump_to E (m\<lparr>m_stack := st\<rparr>) pos
   }"

definition opJumpi :: "'d executionFunc" where
  "opJumpi E C m = do {
     (pos, st) \<leftarrow> stack_pop (m_stack m);
     (cond, st) \<leftarrow> stack_pop st;
     if \<not> u_IsZero (e_lib E) cond then jump_to E (m\<lparr>m_stack := st\<rparr>) pos
     else op_done (m\<lparr>m_stack := st, m_pc := m_pc m + 1\<rparr>)
   }"

definition opJumpdest :: "'d executionFunc" where
  "opJumpdest E C m = op_done m"

definition opBeginSub :: "'d executionFunc" where
  "opBeginSub E C m = op_fail m ErrInvalidSubroutineEntry"

definition opJumpSub :: "'d executionFunc" where
  "opJumpSub E C m = (let L = e_lib E in
     if length (m_rstack m) \<ge> 1023 then op_fail m ErrReturnStackExceeded
     else do {
       (pos, st) \<leftarrow> stack_pop (m_stack m);
       let m = m\<lparr>m_stack := st\<rparr>;
       if \<not> u_IsUint64 L pos then op_fail m ErrInvalidJump
       else do {
         (valid, c, jd) \<leftarrow> validJumpSubdest (m_con m) (jumpdests (m_evm m)) (u_Uint64 L pos);
         let m = m\<lparr>m_con := c, m_evm := (m_evm m)\<lparr>jumpdests := jd\<rparr>\<rparr>;
         if \<not> valid then op_fail m ErrInvalidJump
         else op_done (m\<lparr>m_rstack := rstack_push (ucast (m_pc m)) (m_rstack m),
                m_pc := u_Uint64 L pos + 1\<rparr>)
       }
     })"

definition opReturnSub :: "'d executionFunc" where
  "opReturnSub E C m = (if length (m_rstack m) = 0 then op_fail m ErrInvalidRetsub
     else do {
       (r, rs) \<leftarrow> rstack_pop (m_rstack m);
       op_done (m\<lparr>m_rstack := rs, m_pc := ucast r + 1\<rparr>)
     })"

definition opPc :: "'d executionFunc" where
  "opPc E C m = push_val (u_SetUint64 (e_lib E) (m_pc m)) m"

definition opMsize :: "'d executionFunc" where
  "opMsize E C m = push_val (u_SetUint64 (e_lib E) (of_nat (mem_Len (m_mem m)))) m"

definition opGas :: "'d executionFunc" where
  "opGas E C m = push_val (u_SetUint64 (e_lib E) (c_Gas (m_con m))) m"

section \<open>Creations and calls\<close>

definition add_gas :: "'d mach \<Rightarrow> u64 \<Rightarrow> 'd mach" where
  "add_gas m gas = m\<lparr>m_con := (m_con m)\<lparr>c_Gas := c_Gas (m_con m) + gas\<rparr>\<rparr>"

text \<open>\<^verbatim>\<open>contract.UseGas(gas)\<close> with its result ignored.\<close>

definition use_gas :: "'d mach \<Rightarrow> u64 \<Rightarrow> 'd mach" where
  "use_gas m gas = (case UseGas (m_con m) gas of None \<Rightarrow> m | Some c \<Rightarrow> m\<lparr>m_con := c\<rparr>)"

text \<open>\<^verbatim>\<open>big0\<close>, or the value read as a big integer.\<close>

definition big_value :: "lib \<Rightarrow> u256 \<Rightarrow> int" where
  "big_value L v = (if \<not> u_IsZero L v then u_ToBig L v else 0)"

text \<open>What both creations do with the result; a panic in the callee goes on unwinding.\<close>

definition finish_create :: "'d mach \<Rightarrow> stack \<Rightarrow> u256 \<Rightarrow> bytes \<Rightarrow> u64 \<Rightarrow> evm_err option \<Rightarrow> 'd evm \<Rightarrow>
    'd outcome option" where
  "finish_create m st stackvalue res returnGas suberr ev = (
     if suberr = Some Panicked then op_fail (m\<lparr>m_evm := ev\<rparr>) Panicked
     else let m = add_gas (m\<lparr>m_stack := stack_push stackvalue st, m_evm := ev\<rparr>) returnGas
       in if suberr = Some ErrExecutionReverted then Some (m, res, None) else op_done m)"

definition opCreate :: "'d executionFunc" where
  "opCreate E C m = (let L = e_lib E in do {
     (value, st) \<leftarrow> stack_pop (m_stack m);
     (offset, st) \<leftarrow> stack_pop st;
     (sz, st) \<leftarrow> stack_pop st;
     input \<leftarrow> mem_GetCopy (m_mem m) (u_Uint64 L offset) (u_Uint64 L sz);
     let gas = c_Gas (m_con m);
     let gas = (if IsEIP150 (e_rules E) then gas - gas div 64 else gas);
     let m = use_gas m gas;
     (res, addr, returnGas, suberr, ev) \<leftarrow>
       to_Create C (con_ref (m_con m)) input gas (big_value L value) (m_evm m);
     let stackvalue = (if IsHomestead (e_rules E) \<and> suberr = Some ErrCodeStoreOutOfGas then 0
       else if suberr \<noteq> None \<and> suberr \<noteq> Some ErrCodeStoreOutOfGas then 0
       else u_SetBytes L addr);
     finish_create m st stackvalue res returnGas suberr ev
   })"

definition opCreate2 :: "'d executionFunc" where
  "opCreate2 E C m = (let L = e_lib E in do {
     (endowment, st) \<leftarrow> stack_pop (m_stack m);
     (offset, st) \<leftarrow> stack_pop st;
     (sz, st) \<leftarrow> stack_pop st;
     (salt, st) \<leftarrow> stack_pop st;
     input \<leftarrow> mem_GetCopy (m_mem m) (u_Uint64 L offset) (u_Uint64 L sz);
     let gas = c_Gas (m_con m);
     let gas = gas - gas div 64;
     let m = use_gas m gas;
     (res, addr, returnGas, suberr, ev) \<leftarrow>
       to_Create2 C (con_ref (m_con m)) input gas (big_value L endowment) salt (m_evm m);
     let stackvalue = (if suberr \<noteq> None then 0 else u_SetBytes L addr);
     finish_create m st stackvalue res returnGas suberr ev
   })"

text \<open>What the four calls do with the result.\<close>

definition finish_call :: "'d env \<Rightarrow> 'd mach \<Rightarrow> stack \<Rightarrow> u256 \<Rightarrow> u256 \<Rightarrow>
    bytes \<times> u64 \<times> evm_err option \<times> 'd evm \<Rightarrow> 'd outcome option" where
  "finish_call E m st retOffset retSize r = (case r of (ret, returnGas, err, ev) \<Rightarrow>
     if err = Some Panicked then op_fail (m\<lparr>m_evm := ev\<rparr>) Panicked
     else do {
       let temp = (if err \<noteq> None then 0 else 1);
       mm \<leftarrow> (if err = None \<or> err = Some ErrExecutionReverted
         then mem_Set (m_mem m) (u_Uint64 (e_lib E) retOffset) (u_Uint64 (e_lib E) retSize) ret
         else Some (m_mem m));
       Some (add_gas (m\<lparr>m_stack := stack_push temp st, m_mem := mm, m_evm := ev\<rparr>) returnGas, ret, None)
     })"

definition opCall :: "'d executionFunc" where
  "opCall E C m = (let L = e_lib E in do {
     (temp, st) \<leftarrow> stack_pop (m_stack m);
     let gas = callGasTemp (m_evm m);
     (addr, st) \<leftarrow> stack_pop st;
     (value, st) \<leftarrow> stack_pop st;
     (inOffset, st) \<leftarrow> stack_pop st;
     (inSize, st) \<leftarrow> stack_pop st;
     (retOffset, st) \<leftarrow> stack_pop st;
     (retSize, st) \<leftarrow> stack_pop st;
     args \<leftarrow> mem_GetPtr (m_mem m) (u_Uint64 L inOffset) (u_Uint64 L inSize);
     let gas = (if \<not> u_IsZero L value then gas + params L ''CallStipend'' else gas);
     r \<leftarrow> to_Call C (con_ref (m_con m)) (u_Bytes20 L addr) args gas (big_value L value) (m_evm m);
     finish_call E m st retOffset retSize r
   })"

definition opCallCode :: "'d executionFunc" where
  "opCallCode E C m = (let L = e_lib E in do {
     (temp, st) \<leftarrow> stack_pop (m_stack m);
     let gas = callGasTemp (m_evm m);
     (addr, st) \<leftarrow> stack_pop st;
     (value, st) \<leftarrow> stack_pop st;
     (inOffset, st) \<leftarrow> stack_pop st;
     (inSize, st) \<leftarrow> stack_pop st;
     (retOffset, st) \<leftarrow> stack_pop st;
     (retSize, st) \<leftarrow> stack_pop st;
     args \<leftarrow> mem_GetPtr (m_mem m) (u_Uint64 L inOffset) (u_Uint64 L inSize);
     let gas = (if \<not> u_IsZero L value then gas + params L ''CallStipend'' else gas);
     r \<leftarrow> to_CallCode C (con_ref (m_con m)) (u_Bytes20 L addr) args gas (big_value L value) (m_evm m);
     finish_call E m st retOffset retSize r
   })"

definition opDelegateCall :: "'d executionFunc" where
  "opDelegateCall E C m = (let L = e_lib E in do {
     (temp, st) \<leftarrow> stack_pop (m_stack m);
     let gas = callGasTemp (m_evm m);
     (addr, st) \<leftarrow> stack_pop st;
     (inOffset, st) \<leftarrow> stack_pop st;
     (inSize, st) \<leftarrow> stack_pop st;
     (retOffset, st) \<leftarrow> stack_pop st;
     (retSize, st) \<leftarrow> stack_pop st;
     args \<leftarrow> mem_GetPtr (m_mem m) (u_Uint64 L inOffset) (u_Uint64 L inSize);
     r \<leftarrow> to_DelegateCall C (con_ref (m_con m)) (u_Bytes20 L addr) args gas (m_evm m);
     finish_call E m st retOffset retSize r
   })"

definition opStaticCall :: "'d executionFunc" where
  "opStaticCall E C m = (let L = e_lib E in do {
     (temp, st) \<leftarrow> stack_pop (m_stack m);
     let gas = callGasTemp (m_evm m);
     (addr, st) \<leftarrow> stack_pop st;
     (inOffset, st) \<leftarrow> stack_pop st;
     (inSize, st) \<leftarrow> stack_pop st;
     (retOffset, st) \<leftarrow> stack_pop st;
     (retSize, st) \<leftarrow> stack_pop st;
     args \<leftarrow> mem_GetPtr (m_mem m) (u_Uint64 L inOffset) (u_Uint64 L inSize);
     r \<leftarrow> to_StaticCall C (con_ref (m_con m)) (u_Bytes20 L addr) args gas (m_evm m);
     finish_call E m st retOffset retSize r
   })"

section \<open>Returning and logging\<close>

definition return_data :: "'d executionFunc" where
  "return_data E C m = (let L = e_lib E in do {
     (offset, st) \<leftarrow> stack_pop (m_stack m);
     (sz, st) \<leftarrow> stack_pop st;
     ret \<leftarrow> mem_GetPtr (m_mem m) (u_Uint64 L offset) (u_Uint64 L sz);
     Some (m\<lparr>m_stack := st\<rparr>, ret, None)
   })"

definition opReturn :: "'d executionFunc" where
  "opReturn = return_data"

definition opRevert :: "'d executionFunc" where
  "opRevert = return_data"

definition opStop :: "'d executionFunc" where
  "opStop E C m = op_done m"

definition MakeOngTransferLog :: "lib \<Rightarrow> 'd sdb \<Rightarrow> 'd \<Rightarrow> address \<Rightarrow> address \<Rightarrow> int \<Rightarrow> 'd" where
  "MakeOngTransferLog L S d from to value = (if value > 0
     then AddLog S d \<lparr>log_Address = BytesToAddress L [],
       log_Topics = [Keccak256 L (map (of_nat \<circ> of_char) ''Transfer(address,address,uint256)''),
         BytesToHash L from, BytesToHash L to],
       log_Data = BytesToHash L (big_bytes (nat value))\<rparr>
     else d)"

definition opSuicide :: "'d executionFunc" where
  "opSuicide E C m = (let L = e_lib E; S = e_db E in do {
     (beneficiary, st) \<leftarrow> stack_pop (m_stack m);
     let self = con_Address (m_con m);
     let balance = GetBalance S (m_db m) self;
     let d = AddBalance S (m_db m) (u_Bytes20 L beneficiary) balance;
     let d = MakeOngTransferLog L S d self (u_Bytes20 L beneficiary) balance;
     let d = snd (Suicide S d self);
     op_done ((set_db m d)\<lparr>m_stack := st\<rparr>)
   })"

fun pop_topics :: "lib \<Rightarrow> nat \<Rightarrow> stack \<Rightarrow> (hash list \<times> stack) option" where
  "pop_topics L 0 st = Some ([], st)"
| "pop_topics L (Suc n) st = do {
     (addr, st) \<leftarrow> stack_pop st;
     (topics, st) \<leftarrow> pop_topics L n st;
     Some (u_Bytes32 L addr # topics, st)
   }"

definition makeLog :: "nat \<Rightarrow> 'd executionFunc" where
  "makeLog n E C m = (let L = e_lib E in do {
     (mStart, st) \<leftarrow> stack_pop (m_stack m);
     (mSize, st) \<leftarrow> stack_pop st;
     (topics, st) \<leftarrow> pop_topics L n st;
     d \<leftarrow> mem_GetCopy (m_mem m) (u_Uint64 L mStart) (u_Uint64 L mSize);
     op_done ((set_db m (AddLog (e_db E) (m_db m)
       \<lparr>log_Address = con_Address (m_con m), log_Topics = topics, log_Data = d\<rparr>))\<lparr>m_stack := st\<rparr>)
   })"

section \<open>Pushes, copies and exchanges\<close>

definition opPush1 :: "'d executionFunc" where
  "opPush1 E C m = (let code = c_Code (m_con m); pc = m_pc m + 1; m = m\<lparr>m_pc := pc\<rparr> in
     if pc < of_nat (length code)
     then push_val (u_SetUint64 (e_lib E) (ucast (code ! unat pc))) m
     else push_val 0 m)"

definition makePush :: "u64 \<Rightarrow> nat \<Rightarrow> 'd executionFunc" where
  "makePush sz pushByteSize E C m = (
     let code = c_Code (m_con m);
         codeLen = int (length code);
         startMin = (if sint (m_pc m + 1) < codeLen then sint (m_pc m + 1) else codeLen);
         endMin = (if startMin + int pushByteSize < codeLen then startMin + int pushByteSize else codeLen)
     in do {
       d \<leftarrow> go_slice code startMin endMin;
       push_val (u_SetBytes (e_lib E) (RightPadBytes (e_lib E) d (int pushByteSize)))
         (m\<lparr>m_pc := m_pc m + sz\<rparr>)
     })"

definition makeDup :: "nat \<Rightarrow> 'd executionFunc" where
  "makeDup sz E C m = do { st \<leftarrow> stack_dup sz (m_stack m); op_done (m\<lparr>m_stack := st\<rparr>) }"

definition makeSwap :: "nat \<Rightarrow> 'd executionFunc" where
  "makeSwap sz E C m = do { st \<leftarrow> stack_swap (sz + 1) (m_stack m); op_done (m\<lparr>m_stack := st\<rparr>) }"

end
