(* ===== verification/Evm_Table.thy ===== *)
theory Evm_Table
  imports Evm_Instr
begin

text \<open>
  The jump tables of \<^verbatim>\<open>src/evm/jump_table.go\<close>, the EIPs of \<^verbatim>\<open>src/evm/eips.go\<close> that change them, and
  the choice of a table in \<^verbatim>\<open>NewEVMInterpreter\<close>. A table maps an opcode to its operation; a missing
  operation is a nil pointer, whose update panics (\<open>None\<close>).

  The tables are values here. In the source a table is an array of pointers into the one set of
  operations of its fork, so that an EIP enabled for one machine also changes the operations of the
  others.
\<close>

section \<open>Operations\<close>

record 'd operation =
  execute :: "'d executionFunc"
  constantGas :: u64
  dynamicGas :: "'d gasFunc option"
  op_minStack :: int
  op_maxStack :: int
  memorySize :: "memorySizeFunc option"
  op_halts :: bool
  op_jumps :: bool
  op_writes :: bool
  op_reverts :: bool
  op_returns :: bool

type_synonym 'd jump_table = "opcode \<Rightarrow> 'd operation option"

text \<open>An \<^verbatim>\<open>&operation{..}\<close> with the limits \<^verbatim>\<open>minStack(pops, pushes)\<close> and \<^verbatim>\<open>maxStack(pops, pushes)\<close>.\<close>

definition new_op :: "lib \<Rightarrow> 'd executionFunc \<Rightarrow> nat \<Rightarrow> nat \<Rightarrow> 'd operation" where
  "new_op L ex pops pushes = \<lparr>execute = ex, constantGas = 0, dynamicGas = None,
     op_minStack = minStack pops pushes, op_maxStack = maxStack L pops pushes, memorySize = None,
     op_halts = False, op_jumps = False, op_writes = False, op_reverts = False, op_returns = False\<rparr>"

text \<open>\<^verbatim>\<open>instructionSet[op].constantGas = gas\<close> and \<^verbatim>\<open>instructionSet[op].dynamicGas = f\<close>.\<close>

definition set_constantGas :: "opcode \<Rightarrow> u64 \<Rightarrow> 'd jump_table \<Rightarrow> 'd jump_table option" where
  "set_constantGas op gas jt = map_option (\<lambda>oper. jt(op \<mapsto> oper\<lparr>constantGas := gas\<rparr>)) (jt op)"

definition set_dynamicGas :: "opcode \<Rightarrow> 'd gasFunc \<Rightarrow> 'd jump_table \<Rightarrow> 'd jump_table option" where
  "set_dynamicGas op f jt = map_option (\<lambda>oper. jt(op \<mapsto> oper\<lparr>dynamicGas := Some f\<rparr>)) (jt op)"

section \<open>Extra EIPs\<close>

definition enable1884 :: "lib \<Rightarrow> 'd jump_table \<Rightarrow> 'd jump_table option" where
  "enable1884 L jt = do {
     jt \<leftarrow> set_constantGas OP_SLOAD (params L ''SloadGasEIP1884'') jt;
     jt \<leftarrow> set_constantGas OP_BALANCE (params L ''BalanceGasEIP1884'') jt;
     jt \<leftarrow> set_constantGas OP_EXTCODEHASH (params L ''ExtcodeHashGasEIP1884'') jt;
     Some (jt(OP_SELFBALANCE \<mapsto> (new_op L opSelfBalance 0 1)\<lparr>constantGas := GasFastStep\<rparr>))
   }"

definition enable1344 :: "lib \<Rightarrow> 'd jump_table \<Rightarrow> 'd jump_table option" where
  "enable1344 L jt = Some (jt(OP_CHAINID \<mapsto> (new_op L opChainID 0 1)\<lparr>constantGas := GasQuickStep\<rparr>))"

definition enable2200 :: "lib \<Rightarrow> 'd jump_table \<Rightarrow> 'd jump_table option" where
  "enable2200 L jt = do {
     jt \<leftarrow> set_constantGas OP_SLOAD (params L ''SloadGasEIP2200'') jt;
     set_dynamicGas OP_SSTORE gasSStoreEIP2200 jt
   }"

definition enable2315 :: "lib \<Rightarrow> 'd jump_table \<Rightarrow> 'd jump_table option" where
  "enable2315 L jt = Some (jt(
     OP_BEGINSUB \<mapsto> (new_op L opBeginSub 0 0)\<lparr>constantGas := GasQuickStep\<rparr>,
     OP_JUMPSUB \<mapsto> (new_op L opJumpSub 1 0)\<lparr>constantGas := GasSlowStep, op_jumps := True\<rparr>,
     OP_RETURNSUB \<mapsto> (new_op L opReturnSub 0 0)\<lparr>constantGas := GasFastStep, op_jumps := True\<rparr>))"

definition activators :: "lib \<Rightarrow> int \<Rightarrow> ('d jump_table \<Rightarrow> 'd jump_table option) option" where
  "activators L = map_of [(2200, enable2200 L), (1884, enable1884 L), (1344, enable1344 L), (2315, enable2315 L)]"

text \<open>\<open>Inl\<close> is the error for an unknown EIP.\<close>

definition EnableEIP :: "lib \<Rightarrow> int \<Rightarrow> 'd jump_table \<Rightarrow> (int + 'd jump_table) option" where
  "EnableEIP L eipNum jt = (case activators L eipNum of
     None \<Rightarrow> Some (Inl eipNum)
   | Some enablerFn \<Rightarrow> map_option Inr (enablerFn jt))"

section \<open>The instruction set of each fork\<close>

definition frontier_arith :: "lib \<Rightarrow> (opcode \<times> 'd operation) list" where
  "frontier_arith L = [
     (OP_STOP, (new_op L opStop 0 0)\<lparr>op_halts := True\<rparr>),
     (OP_ADD, (new_op L opAdd 2 1)\<lparr>constantGas := GasFastestStep\<rparr>),
     (OP_MUL, (new_op L opMul 2 1)\<lparr>constantGas := GasFastStep\<rparr>),
     (OP_SUB, (new_op L opSub 2 1)\<lparr>constantGas := GasFastestStep\<rparr>),
     (OP_DIV, (new_op L opDiv 2 1)\<lparr>constantGas := GasFastStep\<rparr>),
     (OP_SDIV, (new_op L opSdiv 2 1)\<lparr>constantGas := GasFastStep\<rparr>),
     (OP_MOD, (new_op L opMod 2 1)\<lparr>constantGas := GasFastStep\<rparr>),
     (OP_SMOD, (new_op L opSmod 2 1)\<lparr>constantGas := GasFastStep\<rparr>),
     (OP_ADDMOD, (new_op L opAddmod 3 1)\<lparr>constantGas := GasMidStep\<rparr>),
     (OP_MULMOD, (new_op L opMulmod 3 1)\<lparr>constantGas := GasMidStep\<rparr>),
     (OP_EXP, (new_op L opExp 2 1)\<lparr>dynamicGas := Some gasExpFrontier\<rparr>),
     (OP_SIGNEXTEND, (new_op L opSignExtend 2 1)\<lparr>constantGas := GasFastStep\<rparr>),
     (OP_LT, (new_op L opLt 2 1)\<lparr>constantGas := GasFastestStep\<rparr>),
     (OP_GT, (new_op L opGt 2 1)\<lparr>constantGas := GasFastestStep\<rparr>),
     (OP_SLT, (new_op L opSlt 2 1)\<lparr>constantGas := GasFastestStep\<rparr>),
     (OP_SGT, (new_op L opSgt 2 1)\<lparr>constantGas := GasFastestStep\<rparr>),
     (OP_EQ, (new_op L opEq 2 1)\<lparr>constantGas := GasFastestStep\<rparr>),
     (OP_ISZERO, (new_op L opIszero 1 1)\<lparr>constantGas := GasFastestStep\<rparr>),
     (OP_AND, (new_op L opAnd 2 1)\<lparr>constantGas := GasFastestStep\<rparr>),
     (OP_XOR, (new_op L opXor 2 1)\<lparr>constantGas := GasFastestStep\<rparr>),
     (OP_OR, (new_op L opOr 2 1)\<lparr>constantGas := GasFastestStep\<rparr>),
     (OP_NOT, (new_op L opNot 1 1)\<lparr>constantGas := GasFastestStep\<rparr>),
     (OP_BYTE, (new_op L opByte 2 1)\<lparr>constantGas := GasFastestStep\<rparr>)]"

definition frontier_context :: "lib \<Rightarrow> (opcode \<times> 'd operation) list" where
  "frontier_context L = [
     (OP_SHA3, (new_op L opSha3 2 1)\<lparr>constantGas := params L ''Keccak256Gas'', dynamicGas := Some gasSha3,
        memorySize := Some (memorySha3 L)\<rparr>),
     (OP_ADDRESS, (new_op L opAddress 0 1)\<lparr>constantGas := GasQuickStep\<rparr>),
     (OP_BALANCE, (new_op L opBalance 1 1)\<lparr>constantGas := params L ''BalanceGasFrontier''\<rparr>),
     (OP_ORIGIN, (new_op L opOrigin 0 1)\<lparr>constantGas := GasQuickStep\<rparr>),
     (OP_CALLER, (new_op L opCaller 0 1)\<lparr>constantGas := GasQuickStep\<rparr>),
     (OP_CALLVALUE, (new_op L opCallValue 0 1)\<lparr>constantGas := GasQuickStep\<rparr>),
     (OP_CALLDATALOAD, (new_op L opCallDataLoad 1 1)\<lparr>constantGas := GasFastestStep\<rparr>),
     (OP_CALLDATASIZE, (new_op L opCallDataSize 0 1)\<lparr>constantGas := GasQuickStep\<rparr>),
     (OP_CALLDATACOPY, (new_op L opCallDataCopy 3 0)\<lparr>constantGas := GasFastestStep, dynamicGas := Some gasCallDataCopy,
        memorySize := Some (memoryCallDataCopy L)\<rparr>),
     (OP_CODESIZE, (new_op L opCodeSize 0 1)\<lparr>constantGas := GasQuickStep\<rparr>),
     (OP_CODECOPY, (new_op L opCodeCopy 3 0)\<lparr>constantGas := GasFastestStep, dynamicGas := Some gasCodeCopy,
        memorySize := Some (memoryCodeCopy L)\<rparr>),
     (OP_GASPRICE, (new_op L opGasprice 0 1)\<lparr>constantGas := GasQuickStep\<rparr>),
     (OP_EXTCODESIZE, (new_op L opExtCodeSize 1 1)\<lparr>constantGas := params L ''ExtcodeSizeGasFrontier''\<rparr>),
     (OP_EXTCODECOPY, (new_op L opExtCodeCopy 4 0)\<lparr>constantGas := params L ''ExtcodeCopyBaseFrontier'', dynamicGas := Some gasExtCodeCopy,
        memorySize := Some (memoryExtCodeCopy L)\<rparr>),
     (OP_BLOCKHASH, (new_op L opBlockhash 1 1)\<lparr>constantGas := GasExtStep\<rparr>),
     (OP_COINBASE, (new_op L opCoinbase 0 1)\<lparr>constantGas := GasQuickStep\<rparr>),
     (OP_TIMESTAMP, (new_op L opTimestamp 0 1)\<lparr>constantGas := GasQuickStep\<rparr>),
     (OP_NUMBER, (new_op L opNumber 0 1)\<lparr>constantGas := GasQuickStep\<rparr>),
     (OP_DIFFICULTY, (new_op L opDifficulty 0 1)\<lparr>constantGas := GasQuickStep\<rparr>),
     (OP_GASLIMIT, (new_op L opGasLimit 0 1)\<lparr>constantGas := GasQuickStep\<rparr>)]"

definition frontier_flow :: "lib \<Rightarrow> (opcode \<times> 'd operation) list" where
  "frontier_flow L = [
     (OP_POP, (new_op L opPop 1 0)\<lparr>constantGas := GasQuickStep\<rparr>),
     (OP_MLOAD, (new_op L opMload 1 1)\<lparr>constantGas := GasFastestStep, dynamicGas := Some gasMLoad,
        memorySize := Some (memoryMLoad L)\<rparr>),
     (OP_MSTORE, (new_op L opMstore 2 0)\<lparr>constantGas := GasFastestStep, dynamicGas := Some gasMStore,
        memorySize := Some (memoryMStore L)\<rparr>),
     (OP_MSTORE8, (new_op L opMstore8 2 0)\<lparr>constantGas := GasFastestStep, dynamicGas := Some gasMStore8,
        memorySize := Some (memoryMStore8 L)\<rparr>),
     (OP_SLOAD, (new_op L opSload 1 1)\<lparr>constantGas := params L ''SloadGasFrontier''\<rparr>),
     (OP_SSTORE, (new_op L opSstore 2 0)\<lparr>dynamicGas := Some gasSStore, op_writes := True\<rparr>),
     (OP_JUMP, (new_op L opJump 1 0)\<lparr>constantGas := GasMidStep, op_jumps := True\<rparr>),
     (OP_JUMPI, (new_op L opJumpi 2 0)\<lparr>constantGas := GasSlowStep, op_jumps := True\<rparr>),
     (OP_PC, (new_op L opPc 0 1)\<lparr>constantGas := GasQuickStep\<rparr>),
     (OP_MSIZE, (new_op L opMsize 0 1)\<lparr>constantGas := GasQuickStep\<rparr>),
     (OP_GAS, (new_op L opGas 0 1)\<lparr>constantGas := GasQuickStep\<rparr>),
     (OP_JUMPDEST, (new_op L opJumpdest 0 0)\<lparr>constantGas := params L ''JumpdestGas''\<rparr>)]"

text \<open>The source spells out PUSH2 to PUSH32, DUP1 to DUP16 and SWAP1 to SWAP16 one by one.\<close>

definition frontier_push :: "lib \<Rightarrow> (opcode \<times> 'd operation) list" where
  "frontier_push L = (OP_PUSH1, (new_op L opPush1 0 1)\<lparr>constantGas := GasFastestStep\<rparr>) #
     map (\<lambda>n. (OP_PUSH1 + of_nat (n - 1),
            (new_op L (makePush (of_nat n) n) 0 1)\<lparr>constantGas := GasFastestStep\<rparr>)) [2..<33]"

definition frontier_dup :: "lib \<Rightarrow> (opcode \<times> 'd operation) list" where
  "frontier_dup L = map (\<lambda>n. (OP_DUP1 + of_nat (n - 1),
     (new_op L (makeDup n) 0 0)\<lparr>constantGas := GasFastestStep,
        op_minStack := minDupStack n, op_maxStack := maxDupStack L n\<rparr>)) [1..<17]"

definition frontier_swap :: "lib \<Rightarrow> (opcode \<times> 'd operation) list" where
  "frontier_swap L = map (\<lambda>n. (OP_SWAP1 + of_nat (n - 1),
     (new_op L (makeSwap n) 0 0)\<lparr>constantGas := GasFastestStep,
        op_minStack := minSwapStack (n + 1), op_maxStack := maxSwapStack L (n + 1)\<rparr>)) [1..<17]"

definition frontier_system :: "lib \<Rightarrow> (opcode \<times> 'd operation) list" where
  "frontier_system L = [
     (OP_LOG0, (new_op L (makeLog 0) 2 0)\<lparr>dynamicGas := Some (makeGasLog 0),
        memorySize := Some (memoryLog L), op_writes := True\<rparr>),
     (OP_LOG1, (new_op L (makeLog 1) 3 0)\<lparr>dynamicGas := Some (makeGasLog 1),
        memorySize := Some (memoryLog L), op_writes := True\<rparr>),
     (OP_LOG2, (new_op L (makeLog 2) 4 0)\<lparr>dynamicGas := Some (makeGasLog 2),
        memorySize := Some (memoryLog L), op_writes := True\<rparr>),
     (OP_LOG3, (new_op L (makeLog 3) 5 0)\<lparr>dynamicGas := Some (makeGasLog 3),
        memorySize := Some (memoryLog L), op_writes := True\<rparr>),
     (OP_LOG4, (new_op L (makeLog 4) 6 0)\<lparr>dynamicGas := Some (makeGasLog 4),
        memorySize := Some (memoryLog L), op_writes := True\<rparr>),
     (OP_CREATE, (new_op L opCreate 3 1)\<lparr>constantGas := params L ''CreateGas'', dynamicGas := Some gasCreate,
        memorySize := Some (memoryCreate L), op_writes := True, op_returns := True\<rparr>),
     (OP_CALL, (new_op L opCall 7 1)\<lparr>constantGas := params L ''CallGasFrontier'', dynamicGas := Some gasCall,
        memorySize := Some (memoryCall L), op_returns := True\<rparr>),
     (OP_CALLCODE, (new_op L opCallCode 7 1)\<lparr>constantGas := params L ''CallGasFrontier'', dynamicGas := Some gasCallCode,
        memorySize := Some (memoryCall L), op_returns := True\<rparr>),
     (OP_RETURN, (new_op L opReturn 2 0)\<lparr>dynamicGas := Some gasReturn,
        memorySize := Some (memoryReturn L), op_halts := True\<rparr>),
     (OP_SELFDESTRUCT, (new_op L opSuicide 1 0)\<lparr>dynamicGas := Some gasSelfdestruct, op_halts := True, op_writes := True\<rparr>)]"

definition newFrontierInstructionSet :: "lib \<Rightarrow> 'd jump_table" where
  "newFrontierInstructionSet L = map_of (frontier_arith L @ frontier_context L @ frontier_flow L @
     frontier_push L @ frontier_dup L @ frontier_swap L @ frontier_system L)"

definition newHomesteadInstructionSet :: "lib \<Rightarrow> 'd jump_table" where
  "newHomesteadInstructionSet L = (newFrontierInstructionSet L)(
     OP_DELEGATECALL \<mapsto> (new_op L opDelegateCall 6 1)\<lparr>dynamicGas := Some gasDelegateCall,
       constantGas := params L ''CallGasFrontier'', memorySize := Some (memoryDelegateCall L),
       op_returns := True\<rparr>)"

definition newTangerineWhistleInstructionSet :: "lib \<Rightarrow> 'd jump_table option" where
  "newTangerineWhistleInstructionSet L = do {
     let jt = newHomesteadInstructionSet L;
     jt \<leftarrow> set_constantGas OP_BALANCE (params L ''BalanceGasEIP150'') jt;
     jt \<leftarrow> set_constantGas OP_EXTCODESIZE (params L ''ExtcodeSizeGasEIP150'') jt;
     jt \<leftarrow> set_constantGas OP_SLOAD (params L ''SloadGasEIP150'') jt;
     jt \<leftarrow> set_constantGas OP_EXTCODECOPY (params L ''ExtcodeCopyBaseEIP150'') jt;
     jt \<leftarrow> set_constantGas OP_CALL (params L ''CallGasEIP150'') jt;
     jt \<leftarrow> set_constantGas OP_CALLCODE (params L ''CallGasEIP150'') jt;
     set_constantGas OP_DELEGATECALL (params L ''CallGasEIP150'') jt
   }"

definition newSpuriousDragonInstructionSet :: "lib \<Rightarrow> 'd jump_table option" where
  "newSpuriousDragonInstructionSet L = do {
     jt \<leftarrow> newTangerineWhistleInstructionSet L;
     set_dynamicGas OP_EXP gasExpEIP158 jt
   }"

definition newByzantiumInstructionSet :: "lib \<Rightarrow> 'd jump_table option" where
  "newByzantiumInstructionSet L = do {
     jt \<leftarrow> newSpuriousDragonInstructionSet L;
     Some (jt(
       OP_STATICCALL \<mapsto> (new_op L opStaticCall 6 1)\<lparr>constantGas := params L ''CallGasEIP150'',
         dynamicGas := Some gasStaticCall,
        memorySize := Some (memoryStaticCall L), op_returns := True\<rparr>,
       OP_RETURNDATASIZE \<mapsto> (new_op L opReturnDataSize 0 1)\<lparr>constantGas := GasQuickStep\<rparr>,
       OP_RETURNDATACOPY \<mapsto> (new_op L opReturnDataCopy 3 0)\<lparr>constantGas := GasFastestStep,
         dynamicGas := Some gasReturnDataCopy, memorySize := Some (memoryReturnDataCopy L)\<rparr>,
       OP_REVERT \<mapsto> (new_op L opRevert 2 0)\<lparr>dynamicGas := Some gasRevert,
         memorySize := Some (memoryRevert L), op_reverts := True, op_returns := True\<rparr>))
   }"

definition newConstantinopleInstructionSet :: "lib \<Rightarrow> 'd jump_table option" where
  "newConstantinopleInstructionSet L = do {
     jt \<leftarrow> newByzantiumInstructionSet L;
     Some (jt(
       OP_SHL \<mapsto> (new_op L opSHL 2 1)\<lparr>constantGas := GasFastestStep\<rparr>,
       OP_SHR \<mapsto> (new_op L opSHR 2 1)\<lparr>constantGas := GasFastestStep\<rparr>,
       OP_SAR \<mapsto> (new_op L opSAR 2 1)\<lparr>constantGas := GasFastestStep\<rparr>,
       OP_EXTCODEHASH \<mapsto> (new_op L opExtCodeHash 1 1)\<lparr>
         constantGas := params L ''ExtcodeHashGasConstantinople''\<rparr>,
       OP_CREATE2 \<mapsto> (new_op L opCreate2 4 1)\<lparr>constantGas := params L ''Create2Gas'',
         dynamicGas := Some gasCreate2, memorySize := Some (memoryCreate2 L), op_writes := True,
         op_returns := True\<rparr>))
   }"

definition newIstanbulInstructionSet :: "lib \<Rightarrow> 'd jump_table option" where
  "newIstanbulInstructionSet L = do {
     jt \<leftarrow> newConstantinopleInstructionSet L;
     jt \<leftarrow> enable1344 L jt;
     jt \<leftarrow> enable1884 L jt;
     enable2200 L jt
   }"

section \<open>The table of a machine\<close>

definition fork_table :: "lib \<Rightarrow> rules \<Rightarrow> 'd jump_table option" where
  "fork_table L r = (
     if IsIstanbul r then newIstanbulInstructionSet L
     else if IsConstantinople r then newConstantinopleInstructionSet L
     else if IsByzantium r then newByzantiumInstructionSet L
     else if IsEIP158 r then newSpuriousDragonInstructionSet L
     else if IsEIP150 r then newTangerineWhistleInstructionSet L
     else if IsHomestead r then Some (newHomesteadInstructionSet L)
     else Some (newFrontierInstructionSet L))"

text \<open>
  The loop over \<^verbatim>\<open>cfg.ExtraEips\<close>: \<open>arr\<close> is the backing array, which the removal of an unknown EIP
  shifts under the running loop, and \<open>len\<close> the length the slice has left. A second unknown EIP may
  find its index behind that length, which panics.
\<close>

fun enable_extra :: "lib \<Rightarrow> nat \<Rightarrow> nat \<Rightarrow> int list \<Rightarrow> nat \<Rightarrow> 'd jump_table \<Rightarrow> (int list \<times> 'd jump_table) option" where
  "enable_extra L 0 i arr len jt = Some (take len arr, jt)"
| "enable_extra L (Suc k) i arr len jt = do {
     r \<leftarrow> EnableEIP L (arr ! i) jt;
     case r of
       Inr jt \<Rightarrow> enable_extra L k (i + 1) arr len jt
     | Inl e \<Rightarrow>
         if i + 1 \<le> len
         then enable_extra L k (i + 1)
           (take i arr @ take (len - (i + 1)) (drop (i + 1) arr) @ drop (len - 1) arr) (len - 1) jt
         else None
   }"

text \<open>A configured table is used as it is; the default one depends on the rules.\<close>

definition NewEVMInterpreter :: "lib \<Rightarrow> rules \<Rightarrow> 'd jump_table \<Rightarrow> int list \<Rightarrow> 'd jump_table option" where
  "NewEVMInterpreter L r configured extraEips = (case configured OP_STOP of
     Some oper \<Rightarrow> Some configured
   | None \<Rightarrow> do {
       jt \<leftarrow> fork_table L r;
       (eips, jt) \<leftarrow> enable_extra L (length extraEips) 0 extraEips (length extraEips) jt;
       Some jt
     })"

end
