(* ===== verification/Evm_Run.thy ===== *)
theory Evm_Run
  imports Evm_Table
begin

text \<open>
  The interpreter loop of \<^verbatim>\<open>src/evm/interpreter.go\<close> and the entry points of \<^verbatim>\<open>src/evm/evm.go\<close>:
  calls, static calls, delegate calls and creations. The tracer, which only observes, is left out.

  The loop runs with fuel, one unit a turn, which the runs of nested calls share: a call made with
  \<open>n\<close> units left runs with \<open>n\<close> units. The theorem about the machine shows that as many units as there
  is gas, and one more, are enough.
\<close>

section \<open>One turn of the loop\<close>

datatype 'd step_result =
    Continue "'d mach"
  | Finish bytes "evm_err option" "'d mach"

definition step_fail :: "evm_err \<Rightarrow> 'd mach \<Rightarrow> 'd step_result option" where
  "step_fail err m = Some (Finish [] (Some err) m)"

definition required_memory :: "'d env \<Rightarrow> 'd operation \<Rightarrow> stack \<Rightarrow> (evm_err + u64) option" where
  "required_memory E oper st = (case memorySize oper of
     None \<Rightarrow> Some (Inr 0)
   | Some f \<Rightarrow> do {
       (memSize, overflow) \<leftarrow> f st;
       if overflow then Some (Inl ErrGasUintOverflow)
       else Some (no_overflow (SafeMul (e_lib E) (toWordSize memSize) 32) Inr)
     })"

text \<open>Any error of the gas function becomes \<^verbatim>\<open>ErrOutOfGas\<close>; a panic does not.\<close>

definition charge_dynamic :: "'d env \<Rightarrow> 'd operation \<Rightarrow> 'd mach \<Rightarrow> u64 \<Rightarrow> (evm_err option \<times> 'd mach) option" where
  "charge_dynamic E oper m memSize = (case dynamicGas oper of
     None \<Rightarrow> Some (None, m)
   | Some f \<Rightarrow> do {
       (r, ev, mm) \<leftarrow> f E (m_evm m) (m_con m) (m_stack m) (m_mem m) memSize;
       let m = m\<lparr>m_evm := ev, m_mem := mm\<rparr>;
       Some (case r of
         Inl err \<Rightarrow> (Some (if err = Panicked then Panicked else ErrOutOfGas), m)
       | Inr dynamicCost \<Rightarrow> (case UseGas (m_con m) dynamicCost of
           None \<Rightarrow> (Some ErrOutOfGas, m)
         | Some c \<Rightarrow> (None, m\<lparr>m_con := c\<rparr>)))
     })"

definition after_execute :: "'d operation \<Rightarrow> 'd outcome \<Rightarrow> 'd step_result" where
  "after_execute oper r = (case r of (m, res, err) \<Rightarrow>
     let m = (if op_returns oper then m\<lparr>m_evm := (m_evm m)\<lparr>returnData := res\<rparr>\<rparr> else m) in
     case err of
       Some e \<Rightarrow> Finish [] (Some e) m
     | None \<Rightarrow>
         if op_reverts oper then Finish res (Some ErrExecutionReverted) m
         else if op_halts oper then Finish res None m
         else if \<not> op_jumps oper then Continue (m\<lparr>m_pc := m_pc m + 1\<rparr>)
         else Continue m)"

definition write_forbidden :: "'d env \<Rightarrow> opcode \<Rightarrow> 'd operation \<Rightarrow> 'd mach \<Rightarrow> bool option" where
  "write_forbidden E op oper m = (
     if readOnly (m_evm m) \<and> IsByzantium (e_rules E)
     then if op_writes oper then Some True
       else if op = OP_CALL
         then do { v \<leftarrow> stack_Back 2 (m_stack m); Some (u_Sign (e_lib E) v \<noteq> 0) }
       else Some False
     else Some False)"

definition interp_step :: "'d env \<Rightarrow> 'd jump_table \<Rightarrow> 'd calls \<Rightarrow> 'd mach \<Rightarrow> 'd step_result option" where
  "interp_step E jt C m = (let op = GetOp (m_con m) (m_pc m); sLen = int (length (m_stack m)) in
     case jt op of
       None \<Rightarrow> step_fail (ErrInvalidOpCode op) m
     | Some oper \<Rightarrow>
         if sLen < op_minStack oper then step_fail (ErrStackUnderflow sLen (op_minStack oper)) m
         else if sLen > op_maxStack oper then step_fail (ErrStackOverflow sLen (op_maxStack oper)) m
         else do {
           forbidden \<leftarrow> write_forbidden E op oper m;
           if forbidden then step_fail ErrWriteProtection m
           else case UseGas (m_con m) (constantGas oper) of
             None \<Rightarrow> step_fail ErrOutOfGas m
           | Some c \<Rightarrow> do {
               let m = m\<lparr>m_con := c\<rparr>;
               memSize \<leftarrow> required_memory E oper (m_stack m);
               case memSize of
                 Inl err \<Rightarrow> step_fail err m
               | Inr memSize \<Rightarrow> do {
                   (err, m) \<leftarrow> charge_dynamic E oper m memSize;
                   case err of
                     Some err \<Rightarrow> step_fail err m
                   | None \<Rightarrow> do {
                       let m = (if memSize > 0 then m\<lparr>m_mem := mem_Resize (m_mem m) memSize\<rparr> else m);
                       r \<leftarrow> execute oper E C m;
                       Some (after_execute oper r)
                     }
                 }
             }
         })"

text \<open>Every thousandth turn looks at the abort flag.\<close>

definition load_abort :: "'d mach \<Rightarrow> bool \<times> 'd mach" where
  "load_abort m = (case aborts (m_evm m) of
     [] \<Rightarrow> (False, m)
   | b # bs \<Rightarrow> (b, m\<lparr>m_evm := (m_evm m)\<lparr>aborts := bs\<rparr>\<rparr>))"

definition loop_turn :: "'d env \<Rightarrow> 'd jump_table \<Rightarrow> 'd calls \<Rightarrow> nat \<Rightarrow> 'd mach \<Rightarrow> 'd step_result option" where
  "loop_turn E jt C steps m = (
     let (stop, m) = (if (steps + 1) mod 1000 = 0 then load_abort m else (False, m)) in
     if stop then Some (Finish [] None m) else interp_step E jt C m)"

section \<open>A run\<close>

type_synonym 'd runner = "contract \<Rightarrow> 'd evm \<Rightarrow> bytes \<Rightarrow> bool \<Rightarrow>
  (bytes \<times> evm_err option \<times> contract \<times> 'd evm) option"

text \<open>
  \<^verbatim>\<open>Run\<close> around its loop: the depth and the read-only flag are set before and restored by the
  deferred functions.
\<close>

definition Run_with :: "('d mach \<Rightarrow> (bytes \<times> evm_err option \<times> 'd mach) option) \<Rightarrow> 'd runner" where
  "Run_with loop c ev input ro = (
     let setRO = (ro \<and> \<not> readOnly ev);
         ev = ev\<lparr>depth := depth ev + 1, readOnly := (readOnly ev \<or> ro), returnData := []\<rparr>
     in do {
       (ret, err, c, ev) \<leftarrow> (if c_Code c = [] then Some ([], None, c, ev)
         else do {
           (ret, err, m) \<leftarrow> loop \<lparr>m_pc = 0, m_stack = [], m_rstack = [], m_mem = NewMemory,
              m_con = c\<lparr>c_Input := input\<rparr>, m_evm = ev\<rparr>;
           Some (ret, err, m_con m, m_evm m)
         });
       Some (ret, err, c,
         ev\<lparr>readOnly := (if setRO then False else readOnly ev), depth := depth ev - 1\<rparr>)
     })"

section \<open>Calls\<close>

definition RunPrecompiledContract :: "precompiled \<Rightarrow> bytes \<Rightarrow> u64 \<Rightarrow> bytes \<times> u64 \<times> evm_err option" where
  "RunPrecompiledContract p input suppliedGas = (
     let gasCost = RequiredGas p input in
     if suppliedGas < gasCost then ([], 0, Some ErrOutOfGas)
     else case pre_Run p input of
       None \<Rightarrow> ([], suppliedGas - gasCost, Some Panicked)
     | Some (Inl err) \<Rightarrow> ([], suppliedGas - gasCost, Some err)
     | Some (Inr output) \<Rightarrow> (output, suppliedGas - gasCost, None))"

text \<open>The end of the four calls: an error reverts the state and, unless it is a revert, takes the gas.\<close>

definition revert_on_error :: "'d env \<Rightarrow> nat \<Rightarrow> bytes \<Rightarrow> u64 \<Rightarrow> evm_err option \<Rightarrow> 'd evm \<Rightarrow>
    (bytes \<times> u64 \<times> evm_err option \<times> 'd evm) option" where
  "revert_on_error E snapshot ret gas err ev = (
     if err \<noteq> None
     then do {
       d \<leftarrow> RevertToSnapshot (e_db E) (StateDB ev) snapshot;
       Some (ret, if err \<noteq> Some ErrExecutionReverted then 0 else gas, err, ev\<lparr>StateDB := d\<rparr>)
     }
     else Some (ret, gas, err, ev))"

text \<open>Run the code of an address, or its precompiled contract, in a prepared contract.\<close>

definition run_code :: "'d env \<Rightarrow> 'd runner \<Rightarrow> contract \<Rightarrow> address \<Rightarrow> bytes \<Rightarrow> bool \<Rightarrow> 'd evm \<Rightarrow>
    (bytes \<times> u64 \<times> evm_err option \<times> 'd evm) option" where
  "run_code E run c addr input ro ev = (
     let c = SetCallCode c addr (GetCodeHash (e_db E) (StateDB ev) addr) (GetCode (e_db E) (StateDB ev) addr)
     in do {
       (ret, err, c, ev) \<leftarrow> run c ev input ro;
       Some (ret, c_Gas c, err, ev)
     })"

definition new_contract :: "contract_ref \<Rightarrow> address \<Rightarrow> int \<Rightarrow> u64 \<Rightarrow> 'd evm \<Rightarrow> contract \<times> 'd evm" where
  "new_contract caller object value gas ev = (
     let (c, jd) = NewContract caller object value gas (jumpdests ev) in (c, ev\<lparr>jumpdests := jd\<rparr>))"

definition EVM_Call :: "'d env \<Rightarrow> 'd runner \<Rightarrow> contract_ref \<Rightarrow> address \<Rightarrow> bytes \<Rightarrow> u64 \<Rightarrow> int \<Rightarrow> 'd evm \<Rightarrow>
    (bytes \<times> u64 \<times> evm_err option \<times> 'd evm) option" where
  "EVM_Call E run caller addr input gas value ev = (let S = e_db E in
     if NoRecursion E \<and> depth ev > 0 then Some ([], gas, None, ev)
     else if int (depth ev) > sint (params (e_lib E) ''CallCreateDepth'') then Some ([], gas, Some ErrDepth, ev)
     else if value \<noteq> 0 \<and> \<not> CanTransfer E (StateDB ev) (ref_Address caller) value
     then Some ([], gas, Some ErrInsufficientBalance, ev)
     else let (snapshot, d) = Snapshot S (StateDB ev);
              p = e_precompile E addr
       in if \<not> Exist S d addr \<and> p = None \<and> IsEIP158 (e_rules E) \<and> value = 0
       then Some ([], gas, None, ev\<lparr>StateDB := d\<rparr>)
       else let d = (if \<not> Exist S d addr then CreateAccount S d addr else d);
                d = Transfer E d (ref_Address caller) addr value;
                ev = ev\<lparr>StateDB := d\<rparr>
         in do {
           (ret, gas, err, ev) \<leftarrow> (case p of
             Some p \<Rightarrow> (case RunPrecompiledContract p input gas of (ret, gas, err) \<Rightarrow> Some (ret, gas, err, ev))
           | None \<Rightarrow>
               if GetCode S d addr = [] then Some ([], gas, None, ev)
               else let (c, ev) = new_contract caller addr value gas ev
                 in run_code E run c addr input False ev);
           revert_on_error E snapshot ret gas err ev
         })"

definition EVM_CallCode :: "'d env \<Rightarrow> 'd runner \<Rightarrow> contract_ref \<Rightarrow> address \<Rightarrow> bytes \<Rightarrow> u64 \<Rightarrow> int \<Rightarrow> 'd evm \<Rightarrow>
    (bytes \<times> u64 \<times> evm_err option \<times> 'd evm) option" where
  "EVM_CallCode E run caller addr input gas value ev = (let S = e_db E in
     if NoRecursion E \<and> depth ev > 0 then Some ([], gas, None, ev)
     else if int (depth ev) > sint (params (e_lib E) ''CallCreateDepth'') then Some ([], gas, Some ErrDepth, ev)
     else if \<not> CanTransfer E (StateDB ev) (ref_Address caller) value
     then Some ([], gas, Some ErrInsufficientBalance, ev)
     else let (snapshot, d) = Snapshot S (StateDB ev); ev = ev\<lparr>StateDB := d\<rparr> in do {
       (ret, gas, err, ev) \<leftarrow> (case e_precompile E addr of
         Some p \<Rightarrow> (case RunPrecompiledContract p input gas of (ret, gas, err) \<Rightarrow> Some (ret, gas, err, ev))
       | None \<Rightarrow>
           let (c, ev) = new_contract caller (ref_Address caller) value gas ev
           in run_code E run c addr input False ev);
       revert_on_error E snapshot ret gas err ev
     })"

text \<open>The value of a delegate contract is nil until \<^verbatim>\<open>AsDelegate\<close> sets it.\<close>

definition EVM_DelegateCall :: "'d env \<Rightarrow> 'd runner \<Rightarrow> contract_ref \<Rightarrow> address \<Rightarrow> bytes \<Rightarrow> u64 \<Rightarrow> 'd evm \<Rightarrow>
    (bytes \<times> u64 \<times> evm_err option \<times> 'd evm) option" where
  "EVM_DelegateCall E run caller addr input gas ev = (let S = e_db E in
     if NoRecursion E \<and> depth ev > 0 then Some ([], gas, None, ev)
     else if int (depth ev) > sint (params (e_lib E) ''CallCreateDepth'') then Some ([], gas, Some ErrDepth, ev)
     else let (snapshot, d) = Snapshot S (StateDB ev); ev = ev\<lparr>StateDB := d\<rparr> in do {
       (ret, gas, err, ev) \<leftarrow> (case e_precompile E addr of
         Some p \<Rightarrow> (case RunPrecompiledContract p input gas of (ret, gas, err) \<Rightarrow> Some (ret, gas, err, ev))
       | None \<Rightarrow> do {
           let (c, ev) = new_contract caller (ref_Address caller) 0 gas ev;
           c \<leftarrow> AsDelegate c;
           run_code E run c addr input False ev
         });
       revert_on_error E snapshot ret gas err ev
     })"

definition EVM_StaticCall :: "'d env \<Rightarrow> 'd runner \<Rightarrow> contract_ref \<Rightarrow> address \<Rightarrow> bytes \<Rightarrow> u64 \<Rightarrow> 'd evm \<Rightarrow>
    (bytes \<times> u64 \<times> evm_err option \<times> 'd evm) option" where
  "EVM_StaticCall E run caller addr input gas ev = (let S = e_db E in
     if NoRecursion E \<and> depth ev > 0 then Some ([], gas, None, ev)
     else if int (depth ev) > sint (params (e_lib E) ''CallCreateDepth'') then Some ([], gas, Some ErrDepth, ev)
     else let (snapshot, d) = Snapshot S (StateDB ev);
              ev = ev\<lparr>StateDB := AddBalance S d addr 0\<rparr>
       in do {
       (ret, gas, err, ev) \<leftarrow> (case e_precompile E addr of
         Some p \<Rightarrow> (case RunPrecompiledContract p input gas of (ret, gas, err) \<Rightarrow> Some (ret, gas, err, ev))
       | None \<Rightarrow>
           let (c, ev) = new_contract caller addr 0 gas ev
           in run_code E run c addr input True ev);
       revert_on_error E snapshot ret gas err ev
     })"

section \<open>Creations\<close>

text \<open>
  After the deployment code has run: the code it returned is stored if there is gas for it, and an
  error reverts the state and takes the gas.
\<close>

definition finish_creation :: "'d env \<Rightarrow> nat \<Rightarrow> address \<Rightarrow> bytes \<Rightarrow> evm_err option \<Rightarrow> contract \<Rightarrow> 'd evm \<Rightarrow>
    (bytes \<times> address \<times> u64 \<times> evm_err option \<times> 'd evm) option" where
  "finish_creation E snapshot address ret err c ev = (let S = e_db E; L = e_lib E;
       maxCodeSizeExceeded = (IsEIP158 (e_rules E) \<and> int (length ret) > sint (params L ''MaxCodeSize''));
       (err, c, ev) = (if err = None \<and> \<not> maxCodeSizeExceeded
         then case UseGas c (of_nat (length ret) * params L ''CreateDataGas'') of
             Some c \<Rightarrow> (None, c, ev\<lparr>StateDB := SetCode S (StateDB ev) address ret\<rparr>)
           | None \<Rightarrow> (Some ErrCodeStoreOutOfGas, c, ev)
         else (err, c, ev))
     in do {
       (c, ev) \<leftarrow> (if maxCodeSizeExceeded \<or>
             (err \<noteq> None \<and> (IsHomestead (e_rules E) \<or> err \<noteq> Some ErrCodeStoreOutOfGas))
         then do {
           d \<leftarrow> RevertToSnapshot S (StateDB ev) snapshot;
           Some (if err \<noteq> Some ErrExecutionReverted then c\<lparr>c_Gas := 0\<rparr> else c, ev\<lparr>StateDB := d\<rparr>)
         }
         else Some (c, ev));
       let err = (if maxCodeSizeExceeded \<and> err = None then Some ErrMaxCodeSizeExceeded else err);
       Some (ret, address, c_Gas c, err, ev)
     })"

definition EVM_create :: "'d env \<Rightarrow> 'd runner \<Rightarrow> contract_ref \<Rightarrow> codeAndHash \<Rightarrow> u64 \<Rightarrow> int \<Rightarrow> address \<Rightarrow> 'd evm \<Rightarrow>
    (bytes \<times> address \<times> u64 \<times> evm_err option \<times> 'd evm) option" where
  "EVM_create E run caller ch gas value address ev = (let S = e_db E; L = e_lib E; a = ref_Address caller in
     if int (depth ev) > sint (params L ''CallCreateDepth'') then Some ([], zeroAddress, gas, Some ErrDepth, ev)
     else if \<not> CanTransfer E (StateDB ev) a value
     then Some ([], zeroAddress, gas, Some ErrInsufficientBalance, ev)
     else let d = SetNonce S (StateDB ev) a (GetNonce S (StateDB ev) a + 1);
              contractHash = GetCodeHash S d address
       in if GetNonce S d address \<noteq> 0 \<or> (contractHash \<noteq> zeroHash \<and> contractHash \<noteq> Keccak256 L [])
       then Some ([], zeroAddress, 0, Some ErrContractAddressCollision, ev\<lparr>StateDB := d\<rparr>)
       else let (snapshot, d) = Snapshot S d;
                d = CreateAccount S d address;
                d = (if IsEIP158 (e_rules E) then SetNonce S d address 1 else d);
                d = Transfer E d a address value;
                (c, ev) = new_contract caller address value gas (ev\<lparr>StateDB := d\<rparr>);
                c = SetCodeOptionalHash c address ch
         in if NoRecursion E \<and> depth ev > 0 then Some ([], address, gas, None, ev)
         else do {
           (ret, err, c, ev) \<leftarrow> run c ev [] False;
           finish_creation E snapshot address ret err c ev
         })"

definition EVM_Create :: "'d env \<Rightarrow> 'd runner \<Rightarrow> contract_ref \<Rightarrow> bytes \<Rightarrow> u64 \<Rightarrow> int \<Rightarrow> 'd evm \<Rightarrow>
    (bytes \<times> address \<times> u64 \<times> evm_err option \<times> 'd evm) option" where
  "EVM_Create E run caller code gas value ev = (
     let contractAddr = CreateAddress (e_lib E) (ref_Address caller)
           (GetNonce (e_db E) (StateDB ev) (ref_Address caller))
     in EVM_create E run caller \<lparr>ch_code = code, ch_hash = zeroHash\<rparr> gas value contractAddr ev)"

definition EVM_Create2 :: "'d env \<Rightarrow> 'd runner \<Rightarrow> contract_ref \<Rightarrow> bytes \<Rightarrow> u64 \<Rightarrow> int \<Rightarrow> u256 \<Rightarrow> 'd evm \<Rightarrow>
    (bytes \<times> address \<times> u64 \<times> evm_err option \<times> 'd evm) option" where
  "EVM_Create2 E run caller code gas endowment salt ev = (
     let (h, ch) = codeAndHash_Hash (e_lib E) \<lparr>ch_code = code, ch_hash = zeroHash\<rparr>;
         contractAddr = CreateAddress2 (e_lib E) (ref_Address caller) (u_Bytes32 (e_lib E) salt) h
     in EVM_create E run caller ch gas endowment contractAddr ev)"

section \<open>The loop\<close>

definition evm_calls :: "'d env \<Rightarrow> 'd runner \<Rightarrow> 'd calls" where
  "evm_calls E run = \<lparr>to_Call = EVM_Call E run, to_CallCode = EVM_CallCode E run,
     to_DelegateCall = EVM_DelegateCall E run, to_StaticCall = EVM_StaticCall E run,
     to_Create = EVM_Create E run, to_Create2 = EVM_Create2 E run\<rparr>"

primrec interp :: "nat \<Rightarrow> 'd env \<Rightarrow> 'd jump_table \<Rightarrow> nat \<Rightarrow> 'd mach \<Rightarrow>
    (bytes \<times> evm_err option \<times> 'd mach) option" where
  "interp 0 E jt steps m = None"
| "interp (Suc n) E jt steps m = do {
     r \<leftarrow> loop_turn E jt (evm_calls E (Run_with (interp n E jt 0))) steps m;
     case r of
       Finish ret err m \<Rightarrow> Some (ret, err, m)
     | Continue m \<Rightarrow> interp n E jt (steps + 1) m
   }"

definition Run :: "nat \<Rightarrow> 'd env \<Rightarrow> 'd jump_table \<Rightarrow> 'd runner" where
  "Run fuel E jt = Run_with (interp fuel E jt 0)"

end
