(* ===== verification/Evm_Mem.thy ===== *)
theory Evm_Mem
  imports Evm_Run
begin

text \<open>
  Accesses to the memory and to byte strings stay in range: whenever the size that
  \<^verbatim>\<open>memory_table.go\<close> computes for an operation has been provided, the operation's reads and writes
  succeed and keep the length of the memory.
\<close>

section \<open>The packages\<close>

named_theorems lib_simps "the documented behaviour of the packages"

lemma lib_okD [lib_simps]:
  assumes "lib_ok L"
  shows "SafeAdd L x y = (x + y, 2 ^ 64 \<le> unat x + unat y)"
    "SafeMul L x y = (x * y, 2 ^ 64 \<le> unat x * unat y)"
    "u_Uint64 L w = ucast w"
    "u_IsUint64 L w \<longleftrightarrow> unat w < 2 ^ 64"
    "u_Uint64WithOverflow L w = (ucast w, 2 ^ 64 \<le> unat w)"
    "u_IsZero L w \<longleftrightarrow> w = 0"
    "u_Sign L w = 0 \<longleftrightarrow> w = 0"
    "u_op L UAdd v w = v + w"
    "length (u_WriteToSlice L w bs) = length bs"
    "no_collision (Keccak256 L)"
    "params_ok (params L)"
    "length (Keccak256 L bs) = 32"
  using assms by (auto simp: lib_ok_def)

lemma price_pos: "lib_ok L \<Longrightarrow> c \<in> set price_params \<Longrightarrow> 0 < params L c"
  using lib_okD(11) [of L] by (auto simp: params_ok_def list_all_iff)

lemma StackLimit: "lib_ok L \<Longrightarrow> params L ''StackLimit'' = 1024"
  using lib_okD(11) [of L] by (simp add: params_ok_def)

lemma max_stack: "lib_ok L \<Longrightarrow> maxStack L pops pushes = 1024 + int pops - int pushes"
  by (simp add: maxStack_def StackLimit)

lemma unat_ucast_256: "unat (ucast (w :: u256) :: u64) = unat w mod 2 ^ 64"
  by (simp add: unsigned_ucast_eq take_bit_eq_mod)

section \<open>Slices\<close>

lemma go_slice_ok:
  assumes "i = int a" "j = int b" "a \<le> b" "b \<le> length xs"
  shows "\<exists>ys. go_slice xs i j = Some ys \<and> length ys = b - a"
  using assms by (auto simp: go_slice_def)

lemma length_copy_at [simp]: "i \<le> length xs \<Longrightarrow> length (copy_at xs i v) = length xs"
  by (auto simp: copy_at_def)

text \<open>The bytes \<open>off\<close> to \<open>off + sz\<close> are inside a memory of length \<open>len\<close>.\<close>

definition region_ok :: "u64 \<Rightarrow> u64 \<Rightarrow> nat \<Rightarrow> bool" where
  "region_ok off sz len \<longleftrightarrow> sz = 0 \<or> unat off + unat sz \<le> len"

abbreviation memLimit :: nat where
  "memLimit \<equiv> 0x1FFFFFFFE0"

lemma unat_add_small:
  "unat (x :: u64) + unat y < 2 ^ 63 \<Longrightarrow> unat (x + y) = unat x + unat y"
  by (subst unat_add_lem [THEN iffD1]) auto

lemma sint_small: "unat (x :: u64) < 2 ^ 63 \<Longrightarrow> sint x = int (unat x)"
  proof -
  assume "unat x < 2 ^ 63"
  then have "int (unat x) < int (2 ^ 63)" by (simp only: of_nat_less_iff)
  then have "uint x < 2 ^ 63" by simp
  moreover have "- (2 ^ 63) \<le> uint x"
    by (rule order_trans [OF _ uint_ge_0]) simp
  ultimately have "sint x = uint x"
    by (subst sint_uint) (simp add: signed_take_bit_int_eq_self)
  then show ?thesis by simp
qed

lemma unat_of_len: "(n :: nat) < 2 ^ 63 \<Longrightarrow> unat (of_nat n :: u64) = n"
  by (simp add: unat_of_nat)

lemma region_sum:
  assumes "region_ok off sz len" "sz \<noteq> 0" "len \<le> memLimit"
  shows "unat (off + sz) = unat off + unat sz" "unat off + unat sz \<le> len"
    "sint off = int (unat off)" "sint (off + sz) = int (unat off + unat sz)"
    "sint sz = int (unat sz)" "0 < unat sz"
proof -
  show le: "unat off + unat sz \<le> len" using assms by (simp add: region_ok_def)
  then show s: "unat (off + sz) = unat off + unat sz"
    using assms(3) by (intro unat_add_small) simp
  show "sint off = int (unat off)" "sint (off + sz) = int (unat off + unat sz)" "sint sz = int (unat sz)"
    using le assms(3) s by (simp_all add: sint_small)
  show "0 < unat sz" using assms(2) by (simp add: unat_gt_0)
qed

lemma mem_Set_ok:
  assumes "region_ok off sz (length (store m))" "length (store m) \<le> memLimit"
  shows "\<exists>m'. mem_Set m off sz v = Some m' \<and> length (store m') = length (store m)"
proof (cases "sz = 0")
  case True
  then show ?thesis by (simp add: mem_Set_def)
next
  case False
  note r = region_sum [OF assms(1) False assms(2)]
  have "\<not> of_nat (length (store m)) < off + sz"
    using r assms(2) by (simp add: word_less_nat_alt unat_of_len)
  moreover obtain dst where "go_slice (store m) (uint off) (uint (off + sz)) = Some dst"
    using go_slice_ok [OF uint_nat uint_nat, of off "off + sz" "store m"] r by auto
  ultimately show ?thesis
    using False r by (simp add: mem_Set_def word_neq_0_conv)
qed

lemma mem_Set32_ok:
  assumes "lib_ok L" "unat off + 32 \<le> length (store m)" "length (store m) \<le> memLimit"
  shows "\<exists>m'. mem_Set32 L m off v = Some m' \<and> length (store m') = length (store m)"
proof -
  have r: "region_ok off 32 (length (store m))" using assms by (simp add: region_ok_def)
  note r = region_sum [OF r _ assms(3)]
  have "\<not> of_nat (length (store m)) < off + 32"
    using r assms(3) by (simp add: word_less_nat_alt unat_of_len)
  moreover obtain dst where "go_slice (store m) (uint off) (uint (off + 32)) = Some dst"
    using go_slice_ok [OF uint_nat uint_nat, of off "off + 32" "store m"] r by auto
  moreover define z where "z = copy_at (store m) (unat off) (take (length dst) (replicate 32 0))"
  moreover have lz: "length z = length (store m)" using r by (simp add: z_def)
  moreover obtain tl where "go_slice z (uint off) (int (length z)) = Some tl"
    using go_slice_ok [OF uint_nat refl, of off "length z" z] r lz by auto
  ultimately show ?thesis using r lz
    by (simp add: mem_Set32_def Let_def)
qed

lemma mem_GetPtr_ok:
  assumes "region_ok off sz (length (store m))" "length (store m) \<le> memLimit"
  shows "\<exists>bs. mem_GetPtr m off sz = Some bs \<and> length bs \<le> memLimit"
proof (cases "sz = 0")
  case True
  then show ?thesis by (simp add: mem_GetPtr_def)
next
  case False
  note r = region_sum [OF assms(1) False assms(2)]
  have "\<exists>bs. go_slice (store m) (sint off) (sint (off + sz)) = Some bs \<and> length bs = unat sz"
    using go_slice_ok [OF r(3,4), of "store m"] r(2) by auto
  with False r assms(2) show ?thesis by (auto simp: mem_GetPtr_def)
qed

lemma mem_GetCopy_ok:
  assumes "region_ok off sz (length (store m))" "length (store m) \<le> memLimit"
  shows "\<exists>bs. mem_GetCopy m off sz = Some bs \<and> length bs \<le> memLimit"
proof (cases "sz = 0")
  case True
  then show ?thesis by (simp add: mem_GetCopy_def)
next
  case False
  note r = region_sum [OF assms(1) False assms(2)]
  have "\<exists>bs. go_slice (store m) (sint off) (sint (off + sz)) = Some bs"
    using go_slice_ok [OF r(3,4), of "store m"] r(2) by auto
  with False r assms(2) show ?thesis by (auto simp: mem_GetCopy_def)
qed

lemma getData_ok:
  assumes "length data < 2 ^ 63" "unat sz \<le> memLimit"
  shows "\<exists>bs. getData L data start sz = Some bs"
proof -
  define len where "len = (of_nat (length data) :: u64)"
  define s where "s = (if start > len then len else start)"
  define e where "e = (if s + sz > len then len else s + sz)"
  have len: "unat len = length data" using assms(1) by (simp add: len_def unat_of_len)
  have s: "unat s \<le> unat len" by (auto simp: s_def word_less_nat_alt)
  have "unat (s + sz) = unat s + unat sz"
    using s len assms by (subst unat_add_lem [THEN iffD1]) auto
  then have e: "unat s \<le> unat e" "unat e \<le> unat len"
    using s by (auto simp: e_def word_less_nat_alt)
  have "\<exists>bs. go_slice data (uint s) (uint e) = Some bs"
    using go_slice_ok [OF uint_nat uint_nat, of s e data] s e len by auto
  then show ?thesis
    unfolding getData_def Let_def len_def [symmetric] s_def [symmetric] e_def [symmetric] by auto
qed

section \<open>Required sizes\<close>

lemma calcMemSize64_region:
  assumes "lib_ok L" "calcMemSize64 L off l = (sz, False)" "unat sz \<le> len"
  shows "region_ok (ucast off) (ucast l) len" "unat l < 2 ^ 64" "unat (ucast l :: u64) \<le> len"
proof -
  note L = lib_okD [OF assms(1)]
  show l: "unat l < 2 ^ 64"
    using assms(2) by (simp add: calcMemSize64_def L split: if_splits)
  have "(ucast l :: u64) = 0 \<or> unat (ucast off :: u64) + unat (ucast l :: u64) = unat sz"
  proof (cases "(ucast l :: u64) = 0")
    case False
    then have "sz = ucast off + ucast l" "\<not> (ucast off + ucast l :: u64) < ucast off"
      using assms(2) l by (auto simp: calcMemSize64_def calcMemSize64WithUint_def L Let_def split: if_splits)
    then show ?thesis
      by (metis no_plus_overflow_uint_size word_le_nat_alt word_less_nat_alt le_add1 not_less unat_plus_simple)
  qed simp
  then show "region_ok (ucast off) (ucast l) len" "unat (ucast l :: u64) \<le> len"
    using assms(3) by (auto simp: region_ok_def)
qed

lemma calcMemSize64WithUint_region:
  assumes "lib_ok L" "calcMemSize64WithUint L off n = (sz, False)" "unat sz \<le> len" "n \<noteq> 0"
  shows "unat (ucast off :: u64) + unat n \<le> len"
proof -
  note L = lib_okD [OF assms(1)]
  have "sz = ucast off + n" "\<not> (ucast off + n :: u64) < ucast off"
    using assms(2,4) by (auto simp: calcMemSize64WithUint_def L Let_def split: if_splits)
  then have "unat (ucast off :: u64) + unat n = unat sz"
    by (metis not_less unat_plus_simple)
  with assms(3) show ?thesis by simp
qed

text \<open>The pair of operands \<open>(i, j)\<close> of a stack is a region of the memory.\<close>

definition operand_region :: "stack \<Rightarrow> nat \<Rightarrow> nat \<Rightarrow> nat \<Rightarrow> bool" where
  "operand_region st i j len \<longleftrightarrow> region_ok (ucast (st ! i)) (ucast (st ! j)) len \<and>
     unat (st ! j) < 2 ^ 64 \<and> unat (ucast (st ! j) :: u64) \<le> len"

lemma calcMem_at_region:
  "lib_ok L \<Longrightarrow> calcMem_at L i j st = Some (sz, False) \<Longrightarrow> unat sz \<le> len \<Longrightarrow> operand_region st i j len"
  by (auto simp: calcMem_at_def stack_Back_def operand_region_def bind_eq_Some_conv
      dest: calcMemSize64_region split: if_splits)

lemma calcMem_max_region:
  assumes "lib_ok L" "calcMem_max L i j k l st = Some (sz, False)" "unat sz \<le> len"
  shows "operand_region st i j len" "operand_region st k l len"
proof -
  obtain x o1 where x: "calcMem_at L i j st = Some (x, o1)"
    using assms(2) by (cases "calcMem_at L i j st") (auto simp: calcMem_max_def)
  obtain y o2 where y: "calcMem_at L k l st = Some (y, o2)"
    using assms(2) x
    by (cases "calcMem_at L k l st") (auto simp: calcMem_max_def split: if_splits)
  have "\<not> o1" "\<not> o2" "sz = (if x > y then x else y)"
    using assms(2) by (auto simp: calcMem_max_def x y split: if_splits)
  with x y have "calcMem_at L i j st = Some (x, False)" "calcMem_at L k l st = Some (y, False)"
    "sz = (if x > y then x else y)"
    by simp_all
  moreover from this have "unat x \<le> len" "unat y \<le> len"
    using assms(3) by (auto simp: word_less_nat_alt not_less split: if_splits)
  ultimately show "operand_region st i j len" "operand_region st k l len"
    using calcMem_at_region [OF assms(1)] by blast+
qed

end
