(* ===== verification/Evm_Safety.thy ===== *)
theory Evm_Safety
  imports Evm_Mem
begin

text \<open>
  What a run of the machine keeps. The contract of a state database is the locale \<open>evm_db\<close>, over a
  view of its states: an invariant, the part of the state that a snapshot saves, and the saved
  parts. The frame invariant bounds the stack and the memory, and says that every cached jump
  analysis is the analysis of the code it is used for. This theory proves the contract of the gas
  functions; \<open>Evm_Ops\<close> proves that of the instructions.
\<close>

section \<open>State databases\<close>

record ('d, 's) db_view =
  v_inv :: "'d \<Rightarrow> bool"
  v_saved :: "'d \<Rightarrow> 's list"
  v_core :: "'d \<Rightarrow> 's"

definition db_upd :: "('d, 's) db_view \<Rightarrow> 'd \<Rightarrow> 'd \<Rightarrow> bool" where
  "db_upd V d d' \<longleftrightarrow> v_inv V d' \<and> v_saved V d' = v_saved V d"

definition db_same :: "'d env \<Rightarrow> ('d, 's) db_view \<Rightarrow> 'd \<Rightarrow> 'd \<Rightarrow> bool" where
  "db_same E V d d' \<longleftrightarrow> v_core V d' = v_core V d \<and> GetBalance (e_db E) d' = GetBalance (e_db E) d"

text \<open>Later states keep the snapshots of earlier ones; in read-only mode they agree with them.\<close>

definition db_rel :: "'d env \<Rightarrow> ('d, 's) db_view \<Rightarrow> bool \<Rightarrow> 'd \<Rightarrow> 'd \<Rightarrow> bool" where
  "db_rel E V ro d d' \<longleftrightarrow> v_inv V d' \<and> (\<exists>zs. v_saved V d' = v_saved V d @ zs) \<and> (ro \<longrightarrow> db_same E V d d')"

lemma db_rel_refl: "v_inv V d \<Longrightarrow> db_rel E V ro d d"
  by (simp add: db_rel_def db_same_def)

lemma db_rel_trans: "db_rel E V ro d d' \<Longrightarrow> db_rel E V ro d' d'' \<Longrightarrow> db_rel E V ro d d''"
  by (auto simp: db_rel_def db_same_def)

lemma db_rel_upd: "db_upd V d d' \<Longrightarrow> (ro \<Longrightarrow> db_same E V d d') \<Longrightarrow> db_rel E V ro d d'"
  by (auto simp: db_rel_def db_upd_def)

locale evm_db =
  fixes E :: "'d env" and V :: "('d, 's) db_view"
  assumes lib: "lib_ok (e_lib E)"
    and CreateAccount_law: "v_inv V d \<Longrightarrow> db_upd V d (CreateAccount (e_db E) d a) \<and> db_same E V d (CreateAccount (e_db E) d a)"
    and AddBalance_law: "v_inv V d \<Longrightarrow> db_upd V d (AddBalance (e_db E) d a v) \<and>
          (v = 0 \<longrightarrow> db_same E V d (AddBalance (e_db E) d a v))"
    and Transfer_law: "v_inv V d \<Longrightarrow> db_upd V d (Transfer E d a b v) \<and> (v = 0 \<longrightarrow> db_same E V d (Transfer E d a b v))"
    and SetNonce_law: "v_inv V d \<Longrightarrow> db_upd V d (SetNonce (e_db E) d a k)"
    and SetCode_law: "v_inv V d \<Longrightarrow> length code < 2 ^ 63 \<Longrightarrow> db_upd V d (SetCode (e_db E) d a code)"
    and AddRefund_law: "v_inv V d \<Longrightarrow> db_upd V d (AddRefund (e_db E) d g)"
    and SubRefund_law: "v_inv V d \<Longrightarrow> SubRefund (e_db E) d g = Some d' \<Longrightarrow> db_upd V d d'"
    and SetState_law: "v_inv V d \<Longrightarrow> db_upd V d (SetState (e_db E) d a h x)"
    and Suicide_law: "v_inv V d \<Longrightarrow> db_upd V d (snd (Suicide (e_db E) d a))"
    and AddLog_law: "v_inv V d \<Longrightarrow> db_upd V d (AddLog (e_db E) d l)"
    and AddPreimage_law: "v_inv V d \<Longrightarrow> AddPreimage (e_db E) d h x = Some d' \<Longrightarrow>
          db_upd V d d' \<and> db_same E V d d'"
    and Snapshot_law: "v_inv V d \<Longrightarrow> Snapshot (e_db E) d = (i, d') \<Longrightarrow>
          i = length (v_saved V d) \<and> v_inv V d' \<and> v_saved V d' = v_saved V d @ [v_core V d] \<and> db_same E V d d'"
    and Revert_law: "v_inv V d \<Longrightarrow> i < length (v_saved V d) \<Longrightarrow>
          \<exists>d'. RevertToSnapshot (e_db E) d i = Some d' \<and> v_inv V d' \<and> v_saved V d' = take i (v_saved V d) \<and>
            v_core V d' = v_saved V d ! i \<and> GetBalance (e_db E) d' = GetBalance (e_db E) d"
    and GetCodeHash_law: "v_inv V d \<Longrightarrow>
          GetCodeHash (e_db E) d a = zeroHash \<or> GetCodeHash (e_db E) d a = Keccak256 (e_lib E) (GetCode (e_db E) d a)"
    and GetCode_law: "v_inv V d \<Longrightarrow> length (GetCode (e_db E) d a) < 2 ^ 63"

section \<open>Frames\<close>

definition jd_ok :: "lib \<Rightarrow> jumpdests \<Rightarrow> bool" where
  "jd_ok L jd \<longleftrightarrow> (\<forall>h bits. jd h = Some bits \<longrightarrow> (\<exists>code. Keccak256 L code = h \<and> codeBitmap code = Some bits))"

definition con_ok :: "lib \<Rightarrow> contract \<Rightarrow> bool" where
  "con_ok L c \<longleftrightarrow> (\<forall>bits. c_analysis c = Some bits \<longrightarrow> codeBitmap (c_Code c) = Some bits) \<and>
     (c_CodeHash c \<noteq> zeroHash \<longrightarrow> c_CodeHash c = Keccak256 L (c_Code c)) \<and>
     length (c_Code c) < 2 ^ 63 \<and> length (c_Input c) < 2 ^ 63"

definition evm_ok :: "'d env \<Rightarrow> ('d, 's) db_view \<Rightarrow> 'd evm \<Rightarrow> bool" where
  "evm_ok E V ev \<longleftrightarrow> v_inv V (StateDB ev) \<and> jd_ok (e_lib E) (jumpdests ev)"

definition ro_mode :: "'d env \<Rightarrow> 'd evm \<Rightarrow> bool" where
  "ro_mode E ev \<longleftrightarrow> readOnly ev \<and> IsByzantium (e_rules E)"

definition evm_rel :: "'d env \<Rightarrow> ('d, 's) db_view \<Rightarrow> 'd evm \<Rightarrow> 'd evm \<Rightarrow> bool" where
  "evm_rel E V ev ev' \<longleftrightarrow> db_rel E V (ro_mode E ev) (StateDB ev) (StateDB ev') \<and>
     jd_ok (e_lib E) (jumpdests ev') \<and> depth ev' = depth ev \<and> readOnly ev' = readOnly ev"

definition frame_ok :: "'d env \<Rightarrow> ('d, 's) db_view \<Rightarrow> 'd mach \<Rightarrow> bool" where
  "frame_ok E V m \<longleftrightarrow> length (m_stack m) \<le> 1024 \<and> length (store (m_mem m)) \<le> memLimit \<and>
     con_ok (e_lib E) (m_con m) \<and> evm_ok E V (m_evm m)"

lemma evm_rel_refl [simp]: "evm_rel E V ev ev \<longleftrightarrow> evm_ok E V ev"
  by (auto simp: evm_rel_def evm_ok_def db_rel_def db_same_def)

lemma evm_rel_ok: "evm_rel E V ev ev' \<Longrightarrow> evm_ok E V ev'"
  by (simp add: evm_rel_def evm_ok_def db_rel_def)

lemma ro_mode_rel: "evm_rel E V ev ev' \<Longrightarrow> ro_mode E ev' = ro_mode E ev"
  by (simp add: evm_rel_def ro_mode_def)

lemma evm_rel_trans [trans]: "evm_rel E V ev ev' \<Longrightarrow> evm_rel E V ev' ev'' \<Longrightarrow> evm_rel E V ev ev''"
  by (auto simp: evm_rel_def ro_mode_def intro: db_rel_trans)

text \<open>The fields that carry no invariant.\<close>

lemma evm_rel_fields [simp]:
  "evm_rel E V ev (ev'\<lparr>callGasTemp := g\<rparr>) = evm_rel E V ev ev'"
  "evm_rel E V ev (ev'\<lparr>returnData := r\<rparr>) = evm_rel E V ev ev'"
  "evm_rel E V ev (ev'\<lparr>aborts := b\<rparr>) = evm_rel E V ev ev'"
  "evm_ok E V (ev\<lparr>callGasTemp := g\<rparr>) = evm_ok E V ev"
  "evm_ok E V (ev\<lparr>returnData := r\<rparr>) = evm_ok E V ev"
  "evm_ok E V (ev\<lparr>aborts := b\<rparr>) = evm_ok E V ev"
  "evm_ok E V (ev\<lparr>depth := k\<rparr>) = evm_ok E V ev"
  "evm_ok E V (ev\<lparr>readOnly := ro\<rparr>) = evm_ok E V ev"
  by (simp_all add: evm_rel_def evm_ok_def)

lemma evm_rel_db:
  "evm_ok E V ev \<Longrightarrow> db_rel E V (ro_mode E ev) (StateDB ev) d \<Longrightarrow> evm_rel E V ev (ev\<lparr>StateDB := d\<rparr>)"
  by (simp add: evm_rel_def evm_ok_def)

lemma evm_rel_jd:
  "evm_ok E V ev \<Longrightarrow> jd_ok (e_lib E) jd \<Longrightarrow> evm_rel E V ev (ev\<lparr>jumpdests := jd\<rparr>)"
  by (simp add: evm_rel_def evm_ok_def db_rel_refl)

section \<open>Jump destinations\<close>

lemma isCode_ok:
  assumes "no_collision (Keccak256 L)" "con_ok L c" "jd_ok L jd" "unat udest < length (c_Code c)"
  shows "\<exists>bits jd'. isCode c jd udest = Some (instr_at (c_Code c) (unat udest), c\<lparr>c_analysis := Some bits\<rparr>, jd') \<and>
     codeBitmap (c_Code c) = Some bits \<and> jd_ok L jd'"
proof -
  obtain bits where bits: "codeBitmap (c_Code c) = Some bits"
    "\<And>p. p < length (c_Code c) \<Longrightarrow> codeSegment bits p = Some (instr_at (c_Code c) p)"
    using codeBitmap_ok [of "c_Code c"] by metis
  note seg = bits(2) [OF assms(4)]
  show ?thesis
  proof (cases "c_analysis c")
    case (Some b)
    then have "b = bits" using assms(2) bits(1) by (simp add: con_ok_def)
    moreover from this Some have "c\<lparr>c_analysis := Some bits\<rparr> = c" by simp
    ultimately show ?thesis using Some seg bits(1) assms(3) by (simp add: isCode_def)
  next
    case None
    show ?thesis
    proof (cases "c_CodeHash c \<noteq> zeroHash \<and> jd (c_CodeHash c) \<noteq> None")
      case True
      then obtain b code where b: "jd (c_CodeHash c) = Some b" "Keccak256 L code = c_CodeHash c"
          "codeBitmap code = Some b"
        using assms(3) unfolding jd_ok_def by blast
      moreover have "c_CodeHash c = Keccak256 L (c_Code c)"
        using True assms(2) by (simp add: con_ok_def)
      ultimately have "code = c_Code c"
        using assms(1) True by (auto simp: no_collision_def)
      with b bits(1) have "b = bits" by simp
      then show ?thesis using None True b(1) seg bits(1) assms(3) by (simp add: isCode_def)
    next
      case False
      then show ?thesis
      proof (cases "c_CodeHash c = zeroHash")
        case True
        then show ?thesis using None seg bits(1) assms(3) by (simp add: isCode_def)
      next
        case hash: False
        then have "c_CodeHash c = Keccak256 L (c_Code c)" using assms(2) by (simp add: con_ok_def)
        then have "jd_ok L (jd(c_CodeHash c \<mapsto> bits))"
          using assms(3) bits(1) by (auto simp: jd_ok_def)
        then show ?thesis using None False hash seg bits(1) by (simp add: isCode_def)
      qed
    qed
  qed
qed

lemma con_ok_analysis: "con_ok L c \<Longrightarrow> codeBitmap (c_Code c) = Some bits \<Longrightarrow> con_ok L (c\<lparr>c_analysis := Some bits\<rparr>)"
  by (simp add: con_ok_def)

text \<open>
  A destination is valid exactly if it is a JUMPDEST on an instruction boundary; the check keeps
  the caches right.
\<close>

lemma validJumpdest_ok:
  assumes "lib_ok L" "con_ok L c" "jd_ok L jd"
  shows "\<exists>an jd'. validJumpdest L c jd dest = Some
       (unat dest < length (c_Code c) \<and> c_Code c ! unat dest = OP_JUMPDEST \<and> instr_at (c_Code c) (unat dest),
        c\<lparr>c_analysis := an\<rparr>, jd') \<and>
     con_ok L (c\<lparr>c_analysis := an\<rparr>) \<and> jd_ok L jd'"
proof -
  note L = lib_okD [OF assms(1)]
  have len: "length (c_Code c) < 2 ^ 63" using assms(2) by (simp add: con_ok_def)
  have bound: "2 ^ 64 \<le> unat dest \<or> of_nat (length (c_Code c)) \<le> (ucast dest :: u64) \<longleftrightarrow>
      \<not> unat dest < length (c_Code c)"
    using len by (cases "unat dest < 2 ^ 64") (auto simp: word_le_nat_alt unat_of_len unat_ucast_256)
  show ?thesis
  proof (cases "unat dest < length (c_Code c) \<and> c_Code c ! unat dest = OP_JUMPDEST")
    case True
    then have u: "unat (ucast dest :: u64) = unat dest"
      using len by (simp add: unat_ucast_256)
    obtain bits jd' where
      "isCode c jd (ucast dest) = Some (instr_at (c_Code c) (unat dest), c\<lparr>c_analysis := Some bits\<rparr>, jd')"
      "codeBitmap (c_Code c) = Some bits" "jd_ok L jd'"
      using isCode_ok [OF L(10) assms(2,3), of "ucast dest"] True u by auto
    with True bound u show ?thesis
      using con_ok_analysis [OF assms(2)] by (auto simp: validJumpdest_def L)
  next
    case False
    have "validJumpdest L c jd dest = Some (False, c, jd)"
    proof (cases "unat dest < length (c_Code c)")
      case True
      then have "unat (ucast dest :: u64) = unat dest" using len by (simp add: unat_ucast_256)
      with True False bound show ?thesis by (auto simp: validJumpdest_def L)
    next
      case False
      with bound show ?thesis by (auto simp: validJumpdest_def L)
    qed
    with False assms show ?thesis
      by (intro exI [of _ "c_analysis c"] exI [of _ jd]) auto
  qed
qed

lemma validJumpSubdest_ok:
  assumes "no_collision (Keccak256 L)" "con_ok L c" "jd_ok L jd"
  shows "\<exists>v an jd'. validJumpSubdest c jd udest = Some (v, c\<lparr>c_analysis := an\<rparr>, jd') \<and>
     con_ok L (c\<lparr>c_analysis := an\<rparr>) \<and> jd_ok L jd'"
proof (cases "sint udest < 0 \<or> udest \<ge> of_nat (length (c_Code c)) \<or> c_Code c ! unat udest \<noteq> OP_BEGINSUB")
  case True
  then have "validJumpSubdest c jd udest = Some (False, c\<lparr>c_analysis := c_analysis c\<rparr>, jd)"
    by (auto simp: validJumpSubdest_def)
  with assms show ?thesis
    by (intro exI [of _ False] exI [of _ "c_analysis c"] exI [of _ jd]) simp
next
  case False
  then have "unat udest < length (c_Code c)"
    using assms(2) by (simp add: con_ok_def word_le_nat_alt unat_of_len not_le)
  from isCode_ok [OF assms this] False con_ok_analysis [OF assms(2)] show ?thesis
    by (fastforce simp: validJumpSubdest_def)
qed

section \<open>Gas functions\<close>

text \<open>
  A gas function succeeds on a stack of at least \<open>k\<close> items, and its price covers the gas it grants a
  callee (\<open>cr\<close>), strictly where \<open>pos\<close> holds. With \<open>mem\<close> it only succeeds for a memory size within the
  limit; with \<open>w\<close> it writes to the state, which read-only mode excludes.
\<close>

type_synonym 'd credit = "stack \<Rightarrow> 'd evm \<Rightarrow> nat"

definition no_credit :: "'d credit" where
  "no_credit st ev = 0"

definition gas_ok :: "'d env \<Rightarrow> ('d, 's) db_view \<Rightarrow> nat \<Rightarrow> bool \<Rightarrow> bool \<Rightarrow> bool \<Rightarrow> 'd credit \<Rightarrow> 'd gasFunc \<Rightarrow> bool" where
  "gas_ok E V k w mem pos cr f \<longleftrightarrow> (\<forall>ev c st m sz. evm_ok E V ev \<longrightarrow> k \<le> length st \<longrightarrow> (w \<longrightarrow> \<not> ro_mode E ev) \<longrightarrow>
     (\<exists>r ev' m'. f E ev c st m sz = Some (r, ev', m') \<and> store m' = store m \<and> evm_rel E V ev ev' \<and>
       (\<forall>cost. r = Inr cost \<longrightarrow> (mem \<longrightarrow> unat sz \<le> memLimit) \<and> cr st ev' \<le> unat cost \<and>
          (pos \<longrightarrow> cr st ev' < unat cost))))"

lemma gas_okI:
  assumes "\<And>ev c st m sz. evm_ok E V ev \<Longrightarrow> k \<le> length st \<Longrightarrow> (w \<Longrightarrow> \<not> ro_mode E ev) \<Longrightarrow>
     \<exists>r ev' m'. f E ev c st m sz = Some (r, ev', m') \<and> store m' = store m \<and> evm_rel E V ev ev' \<and>
       (\<forall>cost. r = Inr cost \<longrightarrow> (mem \<longrightarrow> unat sz \<le> memLimit) \<and> cr st ev' \<le> unat cost \<and>
          (pos \<longrightarrow> cr st ev' < unat cost))"
  shows "gas_ok E V k w mem pos cr f"
  using assms unfolding gas_ok_def by blast

lemma stack_Back_ok [simp]: "n < length st \<Longrightarrow> stack_Back n st = Some (st ! n)"
  by (simp add: stack_Back_def)

lemma memoryGasCost_ok:
  "memoryGasCost L m sz = (r, m') \<Longrightarrow> store m' = store m \<and> (\<forall>g. r = Inr g \<longrightarrow> unat sz \<le> memLimit)"
  by (auto simp: memoryGasCost_def Let_def word_less_nat_alt not_less split: if_splits)

lemma no_overflow_Inr:
  "no_overflow r k = Inr x \<longleftrightarrow> \<not> snd r \<and> k (fst r) = Inr x"
  by (auto simp: no_overflow_def split: prod.splits)

lemma with_memory_gas_ok:
  assumes "evm_ok E V ev"
    and "\<And>g. \<exists>r ev'. kf g = Some (r, ev') \<and> evm_rel E V ev ev' \<and> (\<forall>cost. r = Inr cost \<longrightarrow> P ev' cost)"
  shows "\<exists>r ev' m'. with_memory_gas E ev m sz kf = Some (r, ev', m') \<and> store m' = store m \<and>
     evm_rel E V ev ev' \<and> (\<forall>cost. r = Inr cost \<longrightarrow> unat sz \<le> memLimit \<and> P ev' cost)"
proof -
  obtain r m' where r: "memoryGasCost (e_lib E) m sz = (r, m')" by (cases "memoryGasCost (e_lib E) m sz")
  note mem = memoryGasCost_ok [OF r]
  show ?thesis
  proof (cases r)
    case (Inl err)
    with r mem assms(1) show ?thesis by (simp add: with_memory_gas_def)
  next
    case (Inr g)
    obtain r' ev' where "kf g = Some (r', ev')" "evm_rel E V ev ev'" "\<forall>cost. r' = Inr cost \<longrightarrow> P ev' cost"
      using assms(2) [of g] by blast
    with r mem Inr show ?thesis by (simp add: with_memory_gas_def)
  qed
qed

lemma memory_gas_okI:
  assumes "\<And>ev c st m sz. f E ev c st m sz = with_memory_gas E ev m sz (kf ev c st)"
    and "\<And>ev c st g. evm_ok E V ev \<Longrightarrow> k \<le> length st \<Longrightarrow> (w \<Longrightarrow> \<not> ro_mode E ev) \<Longrightarrow>
      \<exists>r ev'. kf ev c st g = Some (r, ev') \<and> evm_rel E V ev ev' \<and>
        (\<forall>cost. r = Inr cost \<longrightarrow> cr st ev' \<le> unat cost \<and> (pos \<longrightarrow> cr st ev' < unat cost))"
  shows "gas_ok E V k w True pos cr f"
proof (rule gas_okI)
  fix ev c and st :: stack and m sz
  assume a: "evm_ok E V ev" "k \<le> length st" "w \<Longrightarrow> \<not> ro_mode E ev"
  show "\<exists>r ev' m'. f E ev c st m sz = Some (r, ev', m') \<and> store m' = store m \<and> evm_rel E V ev ev' \<and>
      (\<forall>cost. r = Inr cost \<longrightarrow> (True \<longrightarrow> unat sz \<le> memLimit) \<and> cr st ev' \<le> unat cost \<and>
         (pos \<longrightarrow> cr st ev' < unat cost))"
    unfolding assms(1) using with_memory_gas_ok [OF a(1) assms(2) [OF a]] by simp
qed

text \<open>The result of a storage price: nothing is charged for less than one unit of gas.\<close>

definition priced :: "'d env \<Rightarrow> ('d, 's) db_view \<Rightarrow> 'd evm \<Rightarrow> mem \<Rightarrow> (evm_err + u64) \<times> 'd evm \<times> mem \<Rightarrow> bool" where
  "priced E V ev m x \<longleftrightarrow> (\<exists>r ev'. x = (r, ev', m) \<and> evm_rel E V ev ev' \<and> (\<forall>cost. r = Inr cost \<longrightarrow> 0 < unat cost))"

context evm_db
begin

lemmas L = lib_okD [OF lib]

lemma pureMemoryGascost_ok: "gas_ok E V 0 False True False no_credit pureMemoryGascost"
  by (rule memory_gas_okI [OF pureMemoryGascost_def]) (simp add: no_credit_def)

lemma memoryCopierGas_ok: "gas_ok E V (Suc n) False True False no_credit (memoryCopierGas n)"
  by (rule memory_gas_okI [OF memoryCopierGas_def]) (simp add: no_credit_def)

lemma hash_words_gas_ok: "gas_ok E V (Suc n) False True False no_credit (hash_words_gas n)"
  by (rule memory_gas_okI [OF hash_words_gas_def]) (simp add: no_credit_def)

lemma SafeAdd_Inr:
  "no_overflow (SafeAdd (e_lib E) a b) k = Inr x \<Longrightarrow> k (a + b) = Inr x \<and> unat (a + b) = unat a + unat b"
  by (auto simp: no_overflow_Inr L not_le unat_word_ariths)

lemma no_overflow_Ex: "no_overflow (SafeMul L a b) k = Inr x \<Longrightarrow> \<exists>y. k y = Inr x"
  by (auto simp: no_overflow_Inr)

lemma makeGasLog_ok: "gas_ok E V 2 False True True no_credit (makeGasLog n)"
proof (rule gas_okI)
  fix ev c st m sz
  assume a: "evm_ok E V ev" "2 \<le> length (st :: stack)"
  then have b: "stack_Back 1 st = Some (st ! 1)" by simp
  have pos: "0 < unat (params (e_lib E) ''LogGas'')"
    using price_pos [OF lib, of "''LogGas''"] by (simp add: price_params_def unat_gt_0 word_gt_0)
  show "\<exists>r ev' m'. makeGasLog n E ev c st m sz = Some (r, ev', m') \<and> store m' = store m \<and>
      evm_rel E V ev ev' \<and> (\<forall>cost. r = Inr cost \<longrightarrow> (True \<longrightarrow> unat sz \<le> memLimit) \<and>
        no_credit st ev' \<le> unat cost \<and> (True \<longrightarrow> no_credit st ev' < unat cost))"
  proof (cases "2 ^ 64 \<le> unat (st ! 1)")
    case True
    with a b show ?thesis by (simp add: makeGasLog_def L)
  next
    case False
    let ?kf = "\<lambda>gas. Some (
         no_overflow (SafeAdd (e_lib E) gas (params (e_lib E) ''LogGas'')) (\<lambda>gas.
         no_overflow (SafeAdd (e_lib E) gas (n * params (e_lib E) ''LogTopicGas'')) (\<lambda>gas.
         no_overflow (SafeMul (e_lib E) (ucast (st ! 1)) (params (e_lib E) ''LogDataGas'')) (\<lambda>memorySizeGas.
         no_overflow (SafeAdd (e_lib E) gas memorySizeGas) Inr))), ev)"
    have e: "makeGasLog n E ev c st m sz = with_memory_gas E ev m sz ?kf"
      using False b by (simp add: makeGasLog_def L(5) Let_def)
    have "\<exists>r ev'. ?kf g = Some (r, ev') \<and> evm_rel E V ev ev' \<and> (\<forall>cost. r = Inr cost \<longrightarrow> 0 < unat cost)" for g
    proof -
      have "0 < unat cost" if "fst (the (?kf g)) = Inr cost" for cost
        using that pos by (auto dest!: SafeAdd_Inr no_overflow_Ex)
      then show ?thesis using a(1) by simp
    qed
    from with_memory_gas_ok [where P = "\<lambda>ev' cost. 0 < unat cost", OF a(1) this, of m sz] show ?thesis
      unfolding e no_credit_def by simp
  qed
qed

lemma gasExp_ok: "gas_ok E V 2 False False True no_credit (gasExp_at p)"
proof (rule gas_okI)
  fix ev c st m sz
  assume a: "evm_ok E V ev" "2 \<le> length (st :: stack)"
  have pos: "0 < unat (params (e_lib E) ''ExpGas'')"
    using price_pos [OF lib, of "''ExpGas''"] by (simp add: price_params_def unat_gt_0 word_gt_0)
  show "\<exists>r ev' m'. gasExp_at p E ev c st m sz = Some (r, ev', m') \<and> store m' = store m \<and>
      evm_rel E V ev ev' \<and> (\<forall>cost. r = Inr cost \<longrightarrow> (False \<longrightarrow> unat sz \<le> memLimit) \<and>
        no_credit st ev' \<le> unat cost \<and> (True \<longrightarrow> no_credit st ev' < unat cost))"
    using a pos by (auto simp: gasExp_at_def no_credit_def Let_def dest!: SafeAdd_Inr)
qed

lemma add_refund_ok:
  "evm_ok E V ev \<Longrightarrow> \<not> ro_mode E ev \<Longrightarrow> evm_rel E V ev (add_refund E ev g)"
  by (auto simp: add_refund_def evm_ok_def intro!: evm_rel_db db_rel_upd AddRefund_law)

lemma sub_refund_ok:
  "evm_ok E V ev \<Longrightarrow> \<not> ro_mode E ev \<Longrightarrow> sub_refund E ev g = Some ev' \<Longrightarrow> evm_rel E V ev ev'"
  by (auto simp: sub_refund_def evm_ok_def bind_eq_Some_conv intro!: evm_rel_db db_rel_upd dest: SubRefund_law)

lemma sstore_dirty_ok:
  assumes "evm_ok E V ev" "\<not> ro_mode E ev" "sstore_dirty E ev orig cur val a b c g = (r, ev')"
  shows "evm_rel E V ev ev' \<and> (\<forall>cost. r = Inr cost \<longrightarrow> cost = g)"
proof -
  define ev1 where "ev1 = (if orig \<noteq> zeroHash
           then if cur = zeroHash then sub_refund E ev a
             else if val = zeroHash then Some (add_refund E ev a)
             else Some ev
           else Some ev)"
  show ?thesis
  proof (cases ev1)
    case None
    then show ?thesis using assms by (auto simp: sstore_dirty_def ev1_def [symmetric])
  next
    case (Some e)
    have e: "evm_rel E V ev e"
      using Some assms(1,2) sub_refund_ok add_refund_ok
      by (auto simp: ev1_def split: if_splits)
    have ok: "evm_ok E V e" "\<not> ro_mode E e"
      using evm_rel_ok [OF e] ro_mode_rel [OF e] assms(2) by simp_all
    have "r = Inr g" "ev' = (if orig = val then if orig = zeroHash then add_refund E e b
        else add_refund E e c else e)"
      using assms(3) Some by (auto simp: sstore_dirty_def ev1_def [symmetric])
    with e ok show ?thesis
      by (auto intro: evm_rel_trans add_refund_ok)
  qed
qed

lemma price_unat: "c \<in> set price_params \<Longrightarrow> 0 < unat (params (e_lib E) c)"
  using price_pos [OF lib] by (simp add: unat_gt_0 word_gt_0)

lemma priced_const: "evm_ok E V ev \<Longrightarrow> 0 < unat g \<Longrightarrow> priced E V ev m (Inr g, ev, m)"
  by (simp add: priced_def)

lemma priced_refund:
  "evm_ok E V ev \<Longrightarrow> \<not> ro_mode E ev \<Longrightarrow> 0 < unat g \<Longrightarrow> priced E V ev m (Inr g, add_refund E ev a, m)"
  by (simp add: priced_def add_refund_ok)

lemma priced_err: "evm_ok E V ev \<Longrightarrow> priced E V ev m (Inl err, ev, m)"
  by (simp add: priced_def)

lemma priced_dirty:
  assumes "evm_ok E V ev" "\<not> ro_mode E ev" "0 < unat g"
  shows "priced E V ev m (case sstore_dirty E ev orig cur val a b c g of (r, ev') \<Rightarrow> (r, ev', m))"
proof -
  obtain r ev' where r: "sstore_dirty E ev orig cur val a b c g = (r, ev')"
    by (cases "sstore_dirty E ev orig cur val a b c g")
  with sstore_dirty_ok [OF assms(1,2) r] assms(3) show ?thesis by (auto simp: priced_def)
qed

lemma gasSStore_ok: "gas_ok E V 2 True False True no_credit gasSStore"
proof (rule gas_okI)
  fix ev c and st :: stack and m sz
  assume a: "evm_ok E V ev" "2 \<le> length st" "True \<Longrightarrow> \<not> ro_mode E ev"
  then have ro: "\<not> ro_mode E ev" by simp
  have len: "0 < length st" "1 < length st" using a(2) by linarith+
  note good = priced_const [OF a(1)] priced_refund [OF a(1) ro] priced_err [OF a(1)] priced_dirty [OF a(1) ro]
  have price: "0 < unat (params (e_lib E) p)"
    if "p \<in> {''SstoreSetGas'', ''SstoreClearGas'', ''SstoreResetGas'', ''NetSstoreNoopGas'',
      ''NetSstoreInitGas'', ''NetSstoreCleanGas'', ''NetSstoreDirtyGas''}" for p
    using that by (intro price_unat) (auto simp: price_params_def)
  have "case gasSStore E ev c st m sz of None \<Rightarrow> False | Some x \<Rightarrow> priced E V ev m x"
    unfolding gasSStore_def Let_def stack_Back_ok [OF len(1)] stack_Back_ok [OF len(2)]
    by (simp add: good price)
  then show "\<exists>r ev' m'. gasSStore E ev c st m sz = Some (r, ev', m') \<and> store m' = store m \<and>
      evm_rel E V ev ev' \<and> (\<forall>cost. r = Inr cost \<longrightarrow> (False \<longrightarrow> unat sz \<le> memLimit) \<and>
        no_credit st ev' \<le> unat cost \<and> (True \<longrightarrow> no_credit st ev' < unat cost))"
    by (auto simp: no_credit_def priced_def split: option.splits)
qed

lemma gasSStoreEIP2200_ok: "gas_ok E V 2 True False True no_credit gasSStoreEIP2200"
proof (rule gas_okI)
  fix ev c and st :: stack and m sz
  assume a: "evm_ok E V ev" "2 \<le> length st" "True \<Longrightarrow> \<not> ro_mode E ev"
  then have ro: "\<not> ro_mode E ev" by simp
  have len: "0 < length st" "1 < length st" using a(2) by linarith+
  note good = priced_const [OF a(1)] priced_refund [OF a(1) ro] priced_err [OF a(1)] priced_dirty [OF a(1) ro]
  have price: "0 < unat (params (e_lib E) p)"
    if "p \<in> {''SloadGasEIP2200'', ''SstoreSetGasEIP2200'', ''SstoreResetGasEIP2200''}" for p
    using that by (intro price_unat) (auto simp: price_params_def)
  have "case gasSStoreEIP2200 E ev c st m sz of None \<Rightarrow> False | Some x \<Rightarrow> priced E V ev m x"
    unfolding gasSStoreEIP2200_def Let_def stack_Back_ok [OF len(1)] stack_Back_ok [OF len(2)]
    by (simp add: good price)
  then show "\<exists>r ev' m'. gasSStoreEIP2200 E ev c st m sz = Some (r, ev', m') \<and> store m' = store m \<and>
      evm_rel E V ev ev' \<and> (\<forall>cost. r = Inr cost \<longrightarrow> (False \<longrightarrow> unat sz \<le> memLimit) \<and>
        no_credit st ev' \<le> unat cost \<and> (True \<longrightarrow> no_credit st ev' < unat cost))"
    by (auto simp: no_credit_def priced_def split: option.splits)
qed

lemma gasSelfdestruct_ok: "gas_ok E V 1 True False False no_credit gasSelfdestruct"
proof (rule gas_okI)
  fix ev c and st :: stack and m sz
  assume a: "evm_ok E V ev" "1 \<le> length st" "True \<Longrightarrow> \<not> ro_mode E ev"
  have len: "0 < length st" using a(2) by linarith
  from a have "\<And>g. evm_rel E V ev (add_refund E ev g)" "evm_rel E V ev ev"
    by (simp_all add: add_refund_ok)
  then show "\<exists>r ev' m'. gasSelfdestruct E ev c st m sz = Some (r, ev', m') \<and> store m' = store m \<and>
      evm_rel E V ev ev' \<and> (\<forall>cost. r = Inr cost \<longrightarrow> (False \<longrightarrow> unat sz \<le> memLimit) \<and>
        no_credit st ev' \<le> unat cost \<and> (False \<longrightarrow> no_credit st ev' < unat cost))"
    unfolding gasSelfdestruct_def Let_def stack_Back_ok [OF len] no_credit_def by auto
qed

end

text \<open>What a call grants its callee: the gas in \<^verbatim>\<open>callGasTemp\<close>, and the stipend if it carries value.\<close>

definition plain_credit :: "'d credit" where
  "plain_credit st ev = unat (callGasTemp ev)"

definition value_credit :: "'d env \<Rightarrow> 'd credit" where
  "value_credit E st ev = unat (callGasTemp ev) + (if st ! 2 \<noteq> 0 then unat (params (e_lib E) ''CallStipend'') else 0)"

context evm_db
begin

lemma charge_callee_ok:
  assumes "evm_ok E V ev" "1 \<le> length st"
  shows "\<exists>r ev'. charge_callee E ev c st gas = Some (r, ev') \<and> evm_rel E V ev ev' \<and>
     (\<forall>cost. r = Inr cost \<longrightarrow> unat cost = unat gas + unat (callGasTemp ev'))"
proof -
  have "stack_Back 0 st = Some (st ! 0)" using assms(2) by (intro stack_Back_ok) linarith
  then show ?thesis
    using assms(1) by (auto simp: charge_callee_def dest!: SafeAdd_Inr split: sum.splits)
qed

lemma charge_plain:
  assumes "evm_ok E V ev" "1 \<le> length st"
  shows "\<exists>r ev'. charge_callee E ev c st g = Some (r, ev') \<and> evm_rel E V ev ev' \<and>
     (\<forall>cost. r = Inr cost \<longrightarrow> plain_credit st ev' \<le> unat cost \<and> (False \<longrightarrow> plain_credit st ev' < unat cost))"
  using charge_callee_ok [OF assms, of c g] by (auto simp: plain_credit_def)

lemma gasDelegateCall_ok: "gas_ok E V 1 False True False plain_credit gasDelegateCall"
  by (rule memory_gas_okI [OF gasDelegateCall_def]) (rule charge_plain)

lemma gasStaticCall_ok: "gas_ok E V 1 False True False plain_credit gasStaticCall"
  by (rule memory_gas_okI [OF gasStaticCall_def]) (rule charge_plain)

lemma stipend:
  "unat (params (e_lib E) ''CallStipend'') \<le> unat (params (e_lib E) ''CallValueTransferGas'')"
  "unat (params (e_lib E) ''CallNewAccountGas'' + params (e_lib E) ''CallValueTransferGas'') =
   unat (params (e_lib E) ''CallNewAccountGas'') + unat (params (e_lib E) ''CallValueTransferGas'')"
  using L(11) by (auto simp: params_ok_def word_le_nat_alt unat_word_ariths)

text \<open>The tail that \<^verbatim>\<open>gasCall\<close> and \<^verbatim>\<open>gasCallCode\<close> share, from the base price on.\<close>

lemma value_call_ok:
  assumes "evm_ok E V ev" "3 \<le> length st"
    and "st ! 2 \<noteq> 0 \<Longrightarrow> unat (params (e_lib E) ''CallStipend'') \<le> unat gas"
  shows "\<exists>r ev'. (case SafeAdd (e_lib E) gas memoryGas of (gas, overflow) \<Rightarrow>
         if overflow then Some (Inl ErrGasUintOverflow, ev) else charge_callee E ev c st gas) = Some (r, ev') \<and>
     evm_rel E V ev ev' \<and> (\<forall>cost. r = Inr cost \<longrightarrow> value_credit E st ev' \<le> unat cost)"
proof (cases "2 ^ 64 \<le> unat gas + unat memoryGas")
  case True
  with assms(1) show ?thesis by (simp add: L)
next
  case False
  then have "unat (gas + memoryGas) = unat gas + unat memoryGas"
    by (simp add: unat_word_ariths)
  with False charge_callee_ok [OF assms(1), of st c "gas + memoryGas"] assms(2,3) show ?thesis
    by (auto simp: L value_credit_def)
qed

lemma gasCallCode_ok: "gas_ok E V 3 False True False (value_credit E) gasCallCode"
proof (rule memory_gas_okI [where kf = "\<lambda>ev c st memoryGas. do {
       value \<leftarrow> stack_Back 2 st;
       let gas = (if u_Sign (e_lib E) value \<noteq> 0 then params (e_lib E) ''CallValueTransferGas'' else 0);
       case SafeAdd (e_lib E) gas memoryGas of (gas, overflow) \<Rightarrow>
         if overflow then Some (Inl ErrGasUintOverflow, ev) else charge_callee E ev c st gas
     }"])
  show "gasCallCode E ev c st m sz = with_memory_gas E ev m sz (\<lambda>memoryGas. do {
       value \<leftarrow> stack_Back 2 st;
       let gas = (if u_Sign (e_lib E) value \<noteq> 0 then params (e_lib E) ''CallValueTransferGas'' else 0);
       case SafeAdd (e_lib E) gas memoryGas of (gas, overflow) \<Rightarrow>
         if overflow then Some (Inl ErrGasUintOverflow, ev) else charge_callee E ev c st gas
     })" for ev c st m sz
    by (simp add: gasCallCode_def Let_def)
next
  fix ev c and st :: stack and g
  assume a: "evm_ok E V ev" "3 \<le> length st"
  let ?gas = "if u_Sign (e_lib E) (st ! 2) \<noteq> 0 then params (e_lib E) ''CallValueTransferGas'' else 0"
  have b: "stack_Back 2 st = Some (st ! 2)" using a(2) by simp
  have "st ! 2 \<noteq> 0 \<Longrightarrow> unat (params (e_lib E) ''CallStipend'') \<le> unat ?gas"
    using stipend(1) by (simp add: L)
  from value_call_ok [OF a this, of c g] show "\<exists>r ev'. do {
       value \<leftarrow> stack_Back 2 st;
       let gas = (if u_Sign (e_lib E) value \<noteq> 0 then params (e_lib E) ''CallValueTransferGas'' else 0);
       case SafeAdd (e_lib E) gas g of (gas, overflow) \<Rightarrow>
         if overflow then Some (Inl ErrGasUintOverflow, ev) else charge_callee E ev c st gas
     } = Some (r, ev') \<and> evm_rel E V ev ev' \<and>
     (\<forall>cost. r = Inr cost \<longrightarrow> value_credit E st ev' \<le> unat cost \<and> (False \<longrightarrow> value_credit E st ev' < unat cost))"
    by (simp add: b Let_def split del: if_split)
qed

lemma gasCall_ok: "gas_ok E V 3 False True False (value_credit E) gasCall"
proof (rule gas_okI)
  fix ev c and st :: stack and m sz
  assume a: "evm_ok E V ev" "3 \<le> length st"
  define gas0 where "gas0 = (if IsEIP158 (e_rules E)
       then if \<not> u_IsZero (e_lib E) (st ! 2) \<and> Empty (e_db E) (StateDB ev) (u_Bytes20 (e_lib E) (st ! 1))
         then params (e_lib E) ''CallNewAccountGas'' else 0
       else if \<not> Exist (e_db E) (StateDB ev) (u_Bytes20 (e_lib E) (st ! 1)) then params (e_lib E) ''CallNewAccountGas'' else 0)"
  define gas where "gas = (if \<not> u_IsZero (e_lib E) (st ! 2)
       then gas0 + params (e_lib E) ''CallValueTransferGas'' else gas0)"
  have "unat (gas0 + params (e_lib E) ''CallValueTransferGas'') = unat gas0 + unat (params (e_lib E) ''CallValueTransferGas'')"
    using stipend(2) by (simp add: gas0_def)
  then have "st ! 2 \<noteq> 0 \<Longrightarrow> unat (params (e_lib E) ''CallStipend'') \<le> unat gas"
    using stipend(1) by (simp add: gas_def L)
  note v = value_call_ok [OF a this]
  have "stack_Back 2 st = Some (st ! 2)" "stack_Back 1 st = Some (st ! 1)"
    using a(2) by (intro stack_Back_ok; simp)+
  then have "gasCall E ev c st m sz = with_memory_gas E ev m sz (\<lambda>memoryGas.
       case SafeAdd (e_lib E) gas memoryGas of (gas, overflow) \<Rightarrow>
         if overflow then Some (Inl ErrGasUintOverflow, ev) else charge_callee E ev c st gas)"
    unfolding gasCall_def Let_def gas_def gas0_def by simp
  then show "\<exists>r ev' m'. gasCall E ev c st m sz = Some (r, ev', m') \<and> store m' = store m \<and> evm_rel E V ev ev' \<and>
      (\<forall>cost. r = Inr cost \<longrightarrow> (True \<longrightarrow> unat sz \<le> memLimit) \<and> value_credit E st ev' \<le> unat cost \<and>
        (False \<longrightarrow> value_credit E st ev' < unat cost))"
    using with_memory_gas_ok [OF a(1) v] by simp
qed

end

end
