(* ===== verification/Evm_Ops.thy ===== *)
theory Evm_Ops
  imports Evm_Safety
begin

text \<open>
  The contract of the instructions. Started with the operands, the memory and the gas that the
  interpreter checks for, an instruction never indexes out of range, keeps the frame invariant,
  writes only outside read-only mode, and hands back at most the gas it was granted for a callee.
  The instructions that call or create rely on the same contract for the entry points of the machine.
\<close>

section \<open>Contracts\<close>

definition call_post :: "'d env \<Rightarrow> ('d, 's) db_view \<Rightarrow> 'd evm \<Rightarrow> u64 \<Rightarrow> bytes \<times> u64 \<times> evm_err option \<times> 'd evm \<Rightarrow> bool" where
  "call_post E V ev gas r \<longleftrightarrow> (case r of (ret, gas', err, ev') \<Rightarrow>
     gas' \<le> gas \<and> evm_rel E V ev ev' \<and> (err \<noteq> None \<longrightarrow> v_core V (StateDB ev') = v_core V (StateDB ev)))"

definition create_post :: "'d env \<Rightarrow> ('d, 's) db_view \<Rightarrow> 'd evm \<Rightarrow> u64 \<Rightarrow>
    bytes \<times> address \<times> u64 \<times> evm_err option \<times> 'd evm \<Rightarrow> bool" where
  "create_post E V ev gas r \<longleftrightarrow> (case r of (ret, addr, gas', err, ev') \<Rightarrow> gas' \<le> gas \<and> evm_rel E V ev ev')"

definition call_pre :: "'d env \<Rightarrow> ('d, 's) db_view \<Rightarrow> nat \<Rightarrow> bytes \<Rightarrow> u64 \<Rightarrow> 'd evm \<Rightarrow> bool" where
  "call_pre E V n input gas ev \<longleftrightarrow> evm_ok E V ev \<and> length input < 2 ^ 63 \<and> unat gas < n"

definition calls_ok :: "nat \<Rightarrow> 'd env \<Rightarrow> ('d, 's) db_view \<Rightarrow> 'd calls \<Rightarrow> bool" where
  "calls_ok n E V C \<longleftrightarrow>
     (\<forall>caller addr input gas value ev. call_pre E V n input gas ev \<longrightarrow> (ro_mode E ev \<longrightarrow> value = 0) \<longrightarrow>
        (\<exists>r. to_Call C caller addr input gas value ev = Some r \<and> call_post E V ev gas r)) \<and>
     (\<forall>caller addr input gas value ev. call_pre E V n input gas ev \<longrightarrow>
        (\<exists>r. to_CallCode C caller addr input gas value ev = Some r \<and> call_post E V ev gas r)) \<and>
     (\<forall>c addr input gas ev. call_pre E V n input gas ev \<longrightarrow>
        (\<exists>r. to_DelegateCall C (con_ref c) addr input gas ev = Some r \<and> call_post E V ev gas r)) \<and>
     (\<forall>caller addr input gas ev. call_pre E V n input gas ev \<longrightarrow>
        (\<exists>r. to_StaticCall C caller addr input gas ev = Some r \<and> call_post E V ev gas r)) \<and>
     (\<forall>caller code gas value ev. call_pre E V n code gas ev \<longrightarrow> \<not> ro_mode E ev \<longrightarrow>
        (\<exists>r. to_Create C caller code gas value ev = Some r \<and> create_post E V ev gas r)) \<and>
     (\<forall>caller code gas value salt ev. call_pre E V n code gas ev \<longrightarrow> \<not> ro_mode E ev \<longrightarrow>
        (\<exists>r. to_Create2 C caller code gas value salt ev = Some r \<and> create_post E V ev gas r))"

text \<open>The memory has the size that the operation asks for.\<close>

definition mem_ready :: "memorySizeFunc option \<Rightarrow> stack \<Rightarrow> mem \<Rightarrow> bool" where
  "mem_ready ms st m \<longleftrightarrow> (\<forall>f. ms = Some f \<longrightarrow> (\<exists>v. f st = Some (v, False) \<and> unat v \<le> length (store m)))"

text \<open>
  An instruction that takes \<open>pops\<close> operands and leaves \<open>pushes\<close> runs with fuel \<open>n\<close> for its callees. \<open>w\<close>
  tells on which operands it writes; \<open>h\<close> holds for the instructions that end a run.
\<close>

definition exec_pre :: "'d env \<Rightarrow> ('d, 's) db_view \<Rightarrow> nat \<Rightarrow> nat \<Rightarrow> nat \<Rightarrow> (stack \<Rightarrow> bool) \<Rightarrow>
    memorySizeFunc option \<Rightarrow> 'd credit \<Rightarrow> bool \<Rightarrow> 'd mach \<Rightarrow> bool" where
  "exec_pre E V n pops pushes w ms cr h m \<longleftrightarrow> frame_ok E V m \<and>
     pops \<le> length (m_stack m) \<and> length (m_stack m) + pushes \<le> 1024 + pops \<and>
     (ro_mode E (m_evm m) \<longrightarrow> \<not> w (m_stack m)) \<and> mem_ready ms (m_stack m) (m_mem m) \<and>
     (h \<or> unat (m_pc m) < length (c_Code (m_con m))) \<and>
     unat (c_Gas (m_con m)) + cr (m_stack m) (m_evm m) < min (if h then 2 ^ 64 else n) (2 ^ 64)"

definition exec_post :: "'d env \<Rightarrow> ('d, 's) db_view \<Rightarrow> 'd credit \<Rightarrow> bool \<Rightarrow> 'd mach \<Rightarrow> 'd outcome \<Rightarrow> bool" where
  "exec_post E V cr h m r \<longleftrightarrow> (case r of (m', res, err) \<Rightarrow>
     frame_ok E V m' \<and> evm_rel E V (m_evm m) (m_evm m') \<and>
     unat (c_Gas (m_con m')) \<le> unat (c_Gas (m_con m)) + cr (m_stack m) (m_evm m) \<and>
     (h \<longrightarrow> length res < 2 ^ 63))"

definition exec_ok :: "'d env \<Rightarrow> ('d, 's) db_view \<Rightarrow> nat \<Rightarrow> nat \<Rightarrow> (stack \<Rightarrow> bool) \<Rightarrow>
    memorySizeFunc option \<Rightarrow> 'd credit \<Rightarrow> bool \<Rightarrow> 'd executionFunc \<Rightarrow> bool" where
  "exec_ok E V pops pushes w ms cr h ex \<longleftrightarrow> (\<forall>n C m. calls_ok n E V C \<longrightarrow>
     exec_pre E V n pops pushes w ms cr h m \<longrightarrow> (\<exists>r. ex E C m = Some r \<and> exec_post E V cr h m r))"

lemma exec_okI:
  assumes "\<And>n C m. calls_ok n E V C \<Longrightarrow> exec_pre E V n pops pushes w ms cr h m \<Longrightarrow>
     \<exists>r. ex E C m = Some r \<and> exec_post E V cr h m r"
  shows "exec_ok E V pops pushes w ms cr h ex"
  using assms unfolding exec_ok_def by blast

lemma exec_preD:
  assumes "exec_pre E V n pops pushes w ms cr h m"
  shows "frame_ok E V m" "pops \<le> length (m_stack m)" "length (m_stack m) + pushes \<le> 1024 + pops"
    "ro_mode E (m_evm m) \<Longrightarrow> \<not> w (m_stack m)" "mem_ready ms (m_stack m) (m_mem m)"
    "h \<or> unat (m_pc m) < length (c_Code (m_con m))"
    "\<not> h \<Longrightarrow> unat (c_Gas (m_con m)) + cr (m_stack m) (m_evm m) < n"
    "unat (c_Gas (m_con m)) + cr (m_stack m) (m_evm m) < 2 ^ 64"
  using assms by (simp_all add: exec_pre_def)

text \<open>What only touches the stack, the memory and the program counter.\<close>

lemma post_stack:
  assumes "frame_ok E V m" "length st \<le> 1024" "length (store mm) \<le> memLimit" "h \<Longrightarrow> length res < 2 ^ 63"
  shows "exec_post E V cr h m (m\<lparr>m_stack := st, m_mem := mm, m_pc := pc, m_rstack := rs\<rparr>, res, err)"
  using assms by (simp add: exec_post_def frame_ok_def)

lemma post_pc:
  assumes "frame_ok E V m" "length st \<le> 1024" "h \<Longrightarrow> length res < 2 ^ 63"
  shows "exec_post E V cr h m (m\<lparr>m_stack := st, m_pc := pc, m_rstack := rs\<rparr>, res, err)"
    "exec_post E V cr h m (m\<lparr>m_stack := st, m_pc := pc\<rparr>, res, err)"
    "exec_post E V cr h m (m\<lparr>m_stack := st\<rparr>, res, err)"
  using assms by (simp_all add: exec_post_def frame_ok_def)

lemma post_same: "frame_ok E V m \<Longrightarrow> exec_post E V cr h m (m, [], err)"
  by (simp add: exec_post_def frame_ok_def)

lemma exec_on_top:
  assumes "\<And>C m. ex E C m = on_top (f C m) m"
  shows "exec_ok E V 1 1 w ms cr h ex"
proof (rule exec_okI)
  fix n C m assume "exec_pre E V n 1 1 w ms cr h m"
  note p = exec_preD [OF this]
  obtain x st where st: "m_stack m = x # st" using p(2) by (cases "m_stack m") auto
  with p(1,3) show "\<exists>r. ex E C m = Some r \<and> exec_post E V cr h m r"
    by (simp add: assms on_top_def op_done_def post_pc)
qed

lemma exec_pop1:
  assumes "\<And>C m. ex E C m = pop1_poke (f C m) m"
  shows "exec_ok E V 2 1 w ms cr h ex"
proof (rule exec_okI)
  fix n C m assume "exec_pre E V n 2 1 w ms cr h m"
  note p = exec_preD [OF this]
  obtain x y st where st: "m_stack m = x # y # st"
    using p(2) by (auto simp: numeral_2_eq_2 Suc_le_length_iff)
  with p(1,3) show "\<exists>r. ex E C m = Some r \<and> exec_post E V cr h m r"
    by (simp add: assms pop1_poke_def op_done_def post_pc)
qed

lemma exec_pop2:
  assumes "\<And>C m. ex E C m = pop2_poke (f C m) m"
  shows "exec_ok E V 3 1 w ms cr h ex"
proof (rule exec_okI)
  fix n C m assume "exec_pre E V n 3 1 w ms cr h m"
  note p = exec_preD [OF this]
  obtain x y z st where st: "m_stack m = x # y # z # st"
    using p(2) by (auto simp: numeral_3_eq_3 Suc_le_length_iff)
  with p(1,3) show "\<exists>r. ex E C m = Some r \<and> exec_post E V cr h m r"
    by (simp add: assms pop2_poke_def op_done_def post_pc)
qed

lemma exec_push:
  assumes "\<And>C m. ex E C m = push_val (f C m) m"
  shows "exec_ok E V 0 1 w ms cr h ex"
proof (rule exec_okI)
  fix n C m assume "exec_pre E V n 0 1 w ms cr h m"
  note p = exec_preD [OF this]
  from p(1,3) show "\<exists>r. ex E C m = Some r \<and> exec_post E V cr h m r"
    by (simp add: assms push_val_def op_done_def stack_push_def post_pc)
qed

section \<open>Arithmetic, context and stack\<close>

lemma exec_arith:
  "exec_ok E V 2 1 w ms cr h opAdd" "exec_ok E V 2 1 w ms cr h opSub" "exec_ok E V 2 1 w ms cr h opMul"
  "exec_ok E V 2 1 w ms cr h opDiv" "exec_ok E V 2 1 w ms cr h opSdiv" "exec_ok E V 2 1 w ms cr h opMod"
  "exec_ok E V 2 1 w ms cr h opSmod" "exec_ok E V 2 1 w ms cr h opExp" "exec_ok E V 2 1 w ms cr h opSignExtend"
  "exec_ok E V 2 1 w ms cr h opLt" "exec_ok E V 2 1 w ms cr h opGt" "exec_ok E V 2 1 w ms cr h opSlt"
  "exec_ok E V 2 1 w ms cr h opSgt" "exec_ok E V 2 1 w ms cr h opEq" "exec_ok E V 2 1 w ms cr h opAnd"
  "exec_ok E V 2 1 w ms cr h opOr" "exec_ok E V 2 1 w ms cr h opXor" "exec_ok E V 2 1 w ms cr h opByte"
  "exec_ok E V 2 1 w ms cr h opSHL" "exec_ok E V 2 1 w ms cr h opSHR" "exec_ok E V 2 1 w ms cr h opSAR"
  by (rule exec_pop1, simp only: opAdd_def opSub_def opMul_def opDiv_def opSdiv_def opMod_def opSmod_def
      opExp_def opSignExtend_def opLt_def opGt_def opSlt_def opSgt_def opEq_def opAnd_def opOr_def
      opXor_def opByte_def opSHL_def opSHR_def opSAR_def)+

lemma exec_unary:
  "exec_ok E V 1 1 w ms cr h opNot" "exec_ok E V 1 1 w ms cr h opIszero" "exec_ok E V 1 1 w ms cr h opBalance"
  "exec_ok E V 1 1 w ms cr h opExtCodeSize" "exec_ok E V 1 1 w ms cr h opExtCodeHash"
  "exec_ok E V 1 1 w ms cr h opBlockhash" "exec_ok E V 1 1 w ms cr h opSload"
  by (rule exec_on_top, simp only: opNot_def opIszero_def opBalance_def opExtCodeSize_def
      opExtCodeHash_def opBlockhash_def opSload_def)+

lemma exec_ternary:
  "exec_ok E V 3 1 w ms cr h opAddmod" "exec_ok E V 3 1 w ms cr h opMulmod"
  by (rule exec_pop2, simp only: opAddmod_def opMulmod_def)+

lemma exec_context:
  "exec_ok E V 0 1 w ms cr h opAddress" "exec_ok E V 0 1 w ms cr h opOrigin" "exec_ok E V 0 1 w ms cr h opCaller"
  "exec_ok E V 0 1 w ms cr h opCallValue" "exec_ok E V 0 1 w ms cr h opCallDataSize"
  "exec_ok E V 0 1 w ms cr h opReturnDataSize" "exec_ok E V 0 1 w ms cr h opCodeSize"
  "exec_ok E V 0 1 w ms cr h opGasprice" "exec_ok E V 0 1 w ms cr h opCoinbase"
  "exec_ok E V 0 1 w ms cr h opTimestamp" "exec_ok E V 0 1 w ms cr h opNumber"
  "exec_ok E V 0 1 w ms cr h opDifficulty" "exec_ok E V 0 1 w ms cr h opGasLimit"
  "exec_ok E V 0 1 w ms cr h opSelfBalance" "exec_ok E V 0 1 w ms cr h opChainID"
  "exec_ok E V 0 1 w ms cr h opPc" "exec_ok E V 0 1 w ms cr h opMsize" "exec_ok E V 0 1 w ms cr h opGas"
  by (rule exec_push, simp only: opAddress_def opOrigin_def opCaller_def opCallValue_def
      opCallDataSize_def opReturnDataSize_def opCodeSize_def opGasprice_def opCoinbase_def
      opTimestamp_def opNumber_def opDifficulty_def opGasLimit_def opSelfBalance_def opChainID_def
      opPc_def opMsize_def opGas_def)+

lemma exec_opPop: "exec_ok E V 1 0 w ms cr h opPop"
proof (rule exec_okI)
  fix n C m assume "exec_pre E V n 1 0 w ms cr h m"
  note p = exec_preD [OF this]
  obtain x st where "m_stack m = x # st" using p(2) by (cases "m_stack m") auto
  with p(1,3) show "\<exists>r. opPop E C m = Some r \<and> exec_post E V cr h m r"
    by (simp add: opPop_def op_done_def post_pc)
qed

lemma exec_nop:
  "exec_ok E V 0 0 w ms cr h opStop" "exec_ok E V 0 0 w ms cr h opJumpdest" "exec_ok E V 0 0 w ms cr h opBeginSub"
  by (rule exec_okI, drule exec_preD(1), simp add: opStop_def opJumpdest_def opBeginSub_def op_done_def op_fail_def
      exec_post_def frame_ok_def)+

lemma exec_makeDup: "1 \<le> k \<Longrightarrow> exec_ok E V k (k + 1) w ms cr h (makeDup k)"
proof (rule exec_okI)
  fix n C m assume k: "1 \<le> k" and "exec_pre E V n k (k + 1) w ms cr h m"
  note p = exec_preD [OF this(2)]
  from p(1-3) k show "\<exists>r. makeDup k E C m = Some r \<and> exec_post E V cr h m r"
    by (simp add: makeDup_def op_done_def stack_dup_def stack_push_def post_pc)
qed

lemma exec_makeSwap: "exec_ok E V (k + 1) (k + 1) w ms cr h (makeSwap k)"
proof (rule exec_okI)
  fix n C m assume "exec_pre E V n (k + 1) (k + 1) w ms cr h m"
  note p = exec_preD [OF this]
  from p(1-3) show "\<exists>r. makeSwap k E C m = Some r \<and> exec_post E V cr h m r"
    by (simp add: makeSwap_def op_done_def stack_swap_def post_pc)
qed

text \<open>A push is only run inside the code, so the counter behind it does not become negative.\<close>

lemma exec_opPush1: "exec_ok E V 0 1 w ms cr h opPush1"
proof (rule exec_okI)
  fix n C m assume "exec_pre E V n 0 1 w ms cr h m"
  note p = exec_preD [OF this]
  from p(1,3) show "\<exists>r. opPush1 E C m = Some r \<and> exec_post E V cr h m r"
    by (simp add: opPush1_def push_val_def op_done_def stack_push_def Let_def exec_post_def frame_ok_def)
qed

lemma exec_makePush: "exec_ok E V 0 1 w ms cr False (makePush sz k)"
proof (rule exec_okI)
  fix n C m assume "exec_pre E V n 0 1 w ms cr False m"
  note p = exec_preD [OF this]
  let ?code = "c_Code (m_con m)"
  have len: "length ?code < 2 ^ 63" "unat (m_pc m) < length ?code"
    using p(1,6) by (simp_all add: frame_ok_def con_ok_def)
  then have "unat (m_pc m + 1) = unat (m_pc m) + 1" by (subst unat_add_small) simp_all
  moreover from this len have "sint (m_pc m + 1) = int (unat (m_pc m) + 1)" by (simp add: sint_small)
  ultimately have "\<exists>d. go_slice ?code
      (if sint (m_pc m + 1) < int (length ?code) then sint (m_pc m + 1) else int (length ?code))
      (if (if sint (m_pc m + 1) < int (length ?code) then sint (m_pc m + 1) else int (length ?code)) + int k < int (length ?code)
       then (if sint (m_pc m + 1) < int (length ?code) then sint (m_pc m + 1) else int (length ?code)) + int k
       else int (length ?code)) = Some d"
    by (auto simp: go_slice_def)
  then obtain d where d: "go_slice ?code
      (if sint (m_pc m + 1) < int (length ?code) then sint (m_pc m + 1) else int (length ?code))
      (if (if sint (m_pc m + 1) < int (length ?code) then sint (m_pc m + 1) else int (length ?code)) + int k < int (length ?code)
       then (if sint (m_pc m + 1) < int (length ?code) then sint (m_pc m + 1) else int (length ?code)) + int k
       else int (length ?code)) = Some d" by blast
  show "\<exists>r. makePush sz k E C m = Some r \<and> exec_post E V cr False m r"
    unfolding makePush_def Let_def d using p(1,3)
    by (simp add: push_val_def op_done_def stack_push_def exec_post_def frame_ok_def)
qed

section \<open>Memory\<close>

lemma mem_ready_at:
  assumes "lib_ok L" "mem_ready (Some (calcMem_at L i j)) st m"
  shows "operand_region st i j (length (store m))"
  using assms calcMem_at_region unfolding mem_ready_def by blast

lemma mem_ready_max:
  assumes "lib_ok L" "mem_ready (Some (calcMem_max L i j k l)) st m"
  shows "operand_region st i j (length (store m)) \<and> operand_region st k l (length (store m))"
proof -
  obtain v where "calcMem_max L i j k l st = Some (v, False)" "unat v \<le> length (store m)"
    using assms(2) unfolding mem_ready_def by blast
  from calcMem_max_region [OF assms(1) this] show ?thesis by simp
qed

lemma mem_ready_fixed:
  assumes "lib_ok L" "mem_ready (Some (calcMem_fixed L i n)) st m" "n \<noteq> 0" "i < length st"
  shows "unat (ucast (st ! i) :: u64) + unat n \<le> length (store m)"
  using assms calcMemSize64WithUint_region [OF assms(1) _ _ assms(3)]
  by (auto simp: mem_ready_def calcMem_fixed_def)

lemma operand_regionD:
  "operand_region st i j len \<Longrightarrow> region_ok (ucast (st ! i)) (ucast (st ! j)) len"
  "operand_region st i j len \<Longrightarrow> unat (st ! j) < 2 ^ 64"
  "operand_region st i j len \<Longrightarrow> unat (ucast (st ! j) :: u64) \<le> len"
  by (simp_all add: operand_region_def)

lemma frame_okD:
  assumes "frame_ok E V m"
  shows "length (store (m_mem m)) \<le> memLimit" "length (c_Input (m_con m)) < 2 ^ 63"
    "length (c_Code (m_con m)) < 2 ^ 63" "evm_ok E V (m_evm m)" "con_ok (e_lib E) (m_con m)"
    "v_inv V (m_db m)" "jd_ok (e_lib E) (jumpdests (m_evm m))"
  using assms by (simp_all add: frame_ok_def con_ok_def evm_ok_def)

lemma post_mem:
  assumes "frame_ok E V m" "length st \<le> 1024" "length (store mm) = length (store (m_mem m))" "h \<Longrightarrow> length res < 2 ^ 63"
  shows "exec_post E V cr h m (m\<lparr>m_stack := st, m_mem := mm\<rparr>, res, err)"
  using assms by (simp add: exec_post_def frame_ok_def)

lemma post_db:
  assumes "frame_ok E V m" "length st \<le> 1024" "db_rel E V (ro_mode E (m_evm m)) (m_db m) d"
    "h \<Longrightarrow> length res < 2 ^ 63"
  shows "exec_post E V cr h m ((set_db m d)\<lparr>m_stack := st\<rparr>, res, err)"
proof -
  from evm_rel_db [OF frame_okD(4) [OF assms(1)] assms(3)] have "evm_rel E V (m_evm m) ((m_evm m)\<lparr>StateDB := d\<rparr>)" .
  with evm_rel_ok [OF this] assms(1,2,4) show ?thesis
    by (simp add: exec_post_def frame_ok_def set_db_def)
qed

context evm_db
begin

lemma copy_data_ok:
  assumes "frame_ok E V m" "length src < 2 ^ 63" "length st \<le> 1024"
    and "operand_region (m_stack m) i j (length (store (m_mem m)))"
  shows "\<exists>r. copy_data E m src (m_stack m ! i) off (m_stack m ! j) st = Some r \<and> exec_post E V cr h m r"
proof -
  let ?sz = "ucast (m_stack m ! j) :: u64"
  note mem = frame_okD(1) [OF assms(1)]
  have "unat ?sz \<le> memLimit" using operand_regionD(3) [OF assms(4)] mem by simp
  then obtain d where "getData (e_lib E) src (if 2 ^ 64 \<le> unat off then 0xffffffffffffffff else ucast off) ?sz = Some d"
    using getData_ok [OF assms(2)] by blast
  moreover obtain mm where "mem_Set (m_mem m) (ucast (m_stack m ! i)) ?sz d = Some mm"
      "length (store mm) = length (store (m_mem m))"
    using mem_Set_ok [OF operand_regionD(1) [OF assms(4)] mem] by blast
  ultimately show ?thesis using assms(1,3)
    by (simp add: copy_data_def L Let_def op_done_def post_mem)
qed

lemma exec_copies:
  "exec_ok E V 3 0 w (Some (memoryCallDataCopy (e_lib E))) cr h opCallDataCopy"
  "exec_ok E V 3 0 w (Some (memoryCodeCopy (e_lib E))) cr h opCodeCopy"
proof -
  have copy: "\<exists>r. copy_data E m src x y z st = Some r \<and> exec_post E V cr h m r"
    if "frame_ok E V m" "length src < 2 ^ 63" "m_stack m = x # y # z # st"
      "mem_ready (Some (calcMem_at (e_lib E) 0 2)) (m_stack m) (m_mem m)" for m :: "'d mach" and src x y z st
  proof -
    have "length st \<le> 1024" using that(1,3) by (simp add: frame_ok_def)
    from copy_data_ok [OF that(1,2) this mem_ready_at [OF lib that(4)], of y cr h] that(3) show ?thesis by simp
  qed
  show "exec_ok E V 3 0 w (Some (memoryCallDataCopy (e_lib E))) cr h opCallDataCopy"
  proof (rule exec_okI)
    fix n C m assume "exec_pre E V n 3 0 w (Some (memoryCallDataCopy (e_lib E))) cr h m"
    note p = exec_preD [OF this]
    obtain x y z st where st: "m_stack m = x # y # z # st"
      using p(2) by (auto simp: numeral_3_eq_3 Suc_le_length_iff)
    from copy [OF p(1) frame_okD(2) [OF p(1)] st] p(5)
    show "\<exists>r. opCallDataCopy E C m = Some r \<and> exec_post E V cr h m r"
      by (simp add: opCallDataCopy_def memory_table_defs st)
  qed
  show "exec_ok E V 3 0 w (Some (memoryCodeCopy (e_lib E))) cr h opCodeCopy"
  proof (rule exec_okI)
    fix n C m assume "exec_pre E V n 3 0 w (Some (memoryCodeCopy (e_lib E))) cr h m"
    note p = exec_preD [OF this]
    obtain x y z st where st: "m_stack m = x # y # z # st"
      using p(2) by (auto simp: numeral_3_eq_3 Suc_le_length_iff)
    from copy [OF p(1) frame_okD(3) [OF p(1)] st] p(5)
    show "\<exists>r. opCodeCopy E C m = Some r \<and> exec_post E V cr h m r"
      by (simp add: opCodeCopy_def memory_table_defs st)
  qed
qed

lemma exec_opExtCodeCopy: "exec_ok E V 4 0 w (Some (memoryExtCodeCopy (e_lib E))) cr h opExtCodeCopy"
proof (rule exec_okI)
  fix n C m assume "exec_pre E V n 4 0 w (Some (memoryExtCodeCopy (e_lib E))) cr h m"
  note p = exec_preD [OF this]
  obtain a x y z st where st: "m_stack m = a # x # y # z # st"
    using p(2) by (auto simp: eval_nat_numeral Suc_le_length_iff)
  have "length st \<le> 1024" using p(1) st by (simp add: frame_ok_def)
  from copy_data_ok [OF p(1) GetCode_law [OF frame_okD(6) [OF p(1)]] this
      mem_ready_at [OF lib, of 1 3 "m_stack m"], of _ y cr h] p(5)
  show "\<exists>r. opExtCodeCopy E C m = Some r \<and> exec_post E V cr h m r"
    by (simp add: opExtCodeCopy_def memory_table_defs st)
qed

lemma exec_opCallDataLoad: "exec_ok E V 1 1 w ms cr h opCallDataLoad"
proof (rule exec_okI)
  fix n C m assume "exec_pre E V n 1 1 w ms cr h m"
  note p = exec_preD [OF this]
  obtain x st where st: "m_stack m = x # st" using p(2) by (cases "m_stack m") auto
  obtain d where "getData (e_lib E) (c_Input (m_con m)) (ucast x) 32 = Some d"
    using getData_ok [OF frame_okD(2) [OF p(1)], of 32] by auto
  with p(1,3) st show "\<exists>r. opCallDataLoad E C m = Some r \<and> exec_post E V cr h m r"
    by (cases "2 ^ 64 \<le> unat x") (simp_all add: opCallDataLoad_def L Let_def op_done_def post_pc)
qed

lemma exec_opReturnDataCopy:
  "exec_ok E V 3 0 w (Some (memoryReturnDataCopy (e_lib E))) cr h opReturnDataCopy"
proof (rule exec_okI)
  fix n C m assume "exec_pre E V n 3 0 w (Some (memoryReturnDataCopy (e_lib E))) cr h m"
  note p = exec_preD [OF this]
  obtain x y z st where st: "m_stack m = x # y # z # st"
    using p(2) by (auto simp: numeral_3_eq_3 Suc_le_length_iff)
  let ?data = "returnData (m_evm m)"
  have len: "length st \<le> 1024" using p(1) st by (simp add: frame_ok_def)
  have "operand_region (m_stack m) 0 2 (length (store (m_mem m)))"
    using p(5) by (intro mem_ready_at [OF lib]) (simp add: memory_table_defs)
  then have z: "region_ok (ucast x) (ucast z) (length (store (m_mem m)))" "unat z < 2 ^ 64"
    using operand_regionD [of "m_stack m" 0 2] st by auto
  obtain mm where mm: "mem_Set (m_mem m) (ucast x) (ucast z) d = Some (mm d)"
      "length (store (mm d)) = length (store (m_mem m))" for d
    using mem_Set_ok [OF z(1) frame_okD(1) [OF p(1)]] by metis
  have "\<exists>d. go_slice ?data (uint (ucast y :: u64)) (uint (ucast (y + z) :: u64)) = Some d"
    if y: "unat y < 2 ^ 64" "unat (y + z) < 2 ^ 64" "\<not> of_nat (length ?data) < (ucast (y + z) :: u64)"
  proof -
    have "unat (y + z) = unat y + unat z"
      using y(1) z(2) by (subst unat_add_lem [THEN iffD1]) auto
    then have "unat (ucast y :: u64) \<le> unat (ucast (y + z) :: u64)"
      using y(1,2) by (simp add: unat_ucast_256)
    moreover have "unat (ucast (y + z) :: u64) \<le> length ?data"
      using y(3) by (simp add: not_less word_le_nat_alt unat_of_nat)
    ultimately show ?thesis
      using go_slice_ok [OF uint_nat uint_nat, of "ucast y :: u64" "ucast (y + z) :: u64" ?data] by blast
  qed
  then show "\<exists>r. opReturnDataCopy E C m = Some r \<and> exec_post E V cr h m r"
    using p(1) len mm
    by (auto simp: opReturnDataCopy_def L st Let_def op_done_def op_fail_def not_le post_pc post_mem)
qed

lemma exec_opMload: "exec_ok E V 1 1 w (Some (memoryMLoad (e_lib E))) cr h opMload"
proof (rule exec_okI)
  fix n C m assume "exec_pre E V n 1 1 w (Some (memoryMLoad (e_lib E))) cr h m"
  note p = exec_preD [OF this]
  obtain x st where st: "m_stack m = x # st" using p(2) by (cases "m_stack m") auto
  have "unat (ucast (m_stack m ! 0) :: u64) + unat (32 :: u64) \<le> length (store (m_mem m))"
    using p(5) st by (intro mem_ready_fixed [OF lib]) (auto simp: memory_table_defs)
  then have "region_ok (ucast x) 32 (length (store (m_mem m)))" using st by (simp add: region_ok_def)
  from mem_GetPtr_ok [OF this frame_okD(1) [OF p(1)]] p(1,3) st
  show "\<exists>r. opMload E C m = Some r \<and> exec_post E V cr h m r"
    by (auto simp: opMload_def L op_done_def post_pc)
qed

lemma exec_opMstore: "exec_ok E V 2 0 w (Some (memoryMStore (e_lib E))) cr h opMstore"
proof (rule exec_okI)
  fix n C m assume "exec_pre E V n 2 0 w (Some (memoryMStore (e_lib E))) cr h m"
  note p = exec_preD [OF this]
  obtain x y st where st: "m_stack m = x # y # st"
    using p(2) by (auto simp: numeral_2_eq_2 Suc_le_length_iff)
  have "unat (ucast (m_stack m ! 0) :: u64) + unat (32 :: u64) \<le> length (store (m_mem m))"
    using p(5) st by (intro mem_ready_fixed [OF lib]) (auto simp: memory_table_defs)
  then have "unat (ucast x :: u64) + 32 \<le> length (store (m_mem m))" using st by simp
  from mem_Set32_ok [OF lib this frame_okD(1) [OF p(1)], of y] p(1,3) st
  show "\<exists>r. opMstore E C m = Some r \<and> exec_post E V cr h m r"
    by (auto simp: opMstore_def L op_done_def post_mem)
qed

lemma exec_opMstore8: "exec_ok E V 2 0 w (Some (memoryMStore8 (e_lib E))) cr h opMstore8"
proof (rule exec_okI)
  fix n C m assume "exec_pre E V n 2 0 w (Some (memoryMStore8 (e_lib E))) cr h m"
  note p = exec_preD [OF this]
  obtain x y st where st: "m_stack m = x # y # st"
    using p(2) by (auto simp: numeral_2_eq_2 Suc_le_length_iff)
  have "unat (ucast (m_stack m ! 0) :: u64) + unat (1 :: u64) \<le> length (store (m_mem m))"
    using p(5) st by (intro mem_ready_fixed [OF lib]) (auto simp: memory_table_defs)
  then have "unat (ucast x :: u64) < length (store (m_mem m))" using st by simp
  with p(1,3) st show "\<exists>r. opMstore8 E C m = Some r \<and> exec_post E V cr h m r"
    by (simp add: opMstore8_def L Let_def op_done_def post_mem)
qed

lemma exec_opSha3: "exec_ok E V 2 1 w (Some (memorySha3 (e_lib E))) cr h opSha3"
proof (rule exec_okI)
  fix n C m assume "exec_pre E V n 2 1 w (Some (memorySha3 (e_lib E))) cr h m"
  note p = exec_preD [OF this]
  obtain x y st where st: "m_stack m = x # y # st"
    using p(2) by (auto simp: numeral_2_eq_2 Suc_le_length_iff)
  have "operand_region (m_stack m) 0 1 (length (store (m_mem m)))"
    using p(5) by (intro mem_ready_at [OF lib]) (simp add: memory_table_defs)
  then have "region_ok (ucast x) (ucast y) (length (store (m_mem m)))"
    using operand_regionD(1) [of "m_stack m" 0 1] st by simp
  from mem_GetPtr_ok [OF this frame_okD(1) [OF p(1)]]
  obtain d where d: "mem_GetPtr (m_mem m) (ucast x) (ucast y) = Some d" by blast
  let ?h = "Keccak256 (e_lib E) d" and ?st = "u_SetBytes (e_lib E) (Keccak256 (e_lib E) d) # st"
  have upd: "db_rel E V (ro_mode E (m_evm m)) (m_db m) d'" if "AddPreimage (e_db E) (m_db m) ?h d = Some d'" for d'
    using AddPreimage_law [OF frame_okD(6) [OF p(1)] that] by (simp add: db_rel_upd)
  have "exec_post E V cr h m (m, [], Some Panicked)" "exec_post E V cr h m (m\<lparr>m_stack := ?st\<rparr>, [], None)"
    "\<And>d'. AddPreimage (e_db E) (m_db m) ?h d = Some d' \<Longrightarrow>
       exec_post E V cr h m ((set_db m d')\<lparr>m_stack := ?st\<rparr>, [], None)"
    using p(1,3) st upd by (auto intro!: post_db post_pc(3) simp: post_same)
  then show "\<exists>r. opSha3 E C m = Some r \<and> exec_post E V cr h m r"
    by (simp add: opSha3_def L Let_def st d op_done_def op_fail_def split: option.split)
qed

lemma exec_return_data:
  "exec_ok E V 2 0 w (Some (memoryReturn (e_lib E))) cr h opReturn"
  "exec_ok E V 2 0 w (Some (memoryRevert (e_lib E))) cr h opRevert"
proof -
  have "exec_ok E V 2 0 w (Some (calcMem_at (e_lib E) 0 1)) cr h return_data"
  proof (rule exec_okI)
    fix n C m assume "exec_pre E V n 2 0 w (Some (calcMem_at (e_lib E) 0 1)) cr h m"
    note p = exec_preD [OF this]
    obtain x y st where st: "m_stack m = x # y # st"
      using p(2) by (auto simp: numeral_2_eq_2 Suc_le_length_iff)
    have "region_ok (ucast x) (ucast y) (length (store (m_mem m)))"
      using operand_regionD(1) [OF mem_ready_at [OF lib p(5)]] st by simp
    from mem_GetPtr_ok [OF this frame_okD(1) [OF p(1)]] p(1,3) st
    show "\<exists>r. return_data E C m = Some r \<and> exec_post E V cr h m r"
      by (auto simp: return_data_def L post_pc)
  qed
  then show "exec_ok E V 2 0 w (Some (memoryReturn (e_lib E))) cr h opReturn"
    "exec_ok E V 2 0 w (Some (memoryRevert (e_lib E))) cr h opRevert"
    by (simp_all add: opReturn_def opRevert_def memory_table_defs)
qed

end

section \<open>Storage and flow\<close>

text \<open>Instructions that write: read-only mode excludes them.\<close>

lemma post_write:
  assumes "frame_ok E V m" "length st \<le> 1024" "db_upd V (m_db m) d" "\<not> ro_mode E (m_evm m)"
  shows "exec_post E V cr h m ((set_db m d)\<lparr>m_stack := st\<rparr>, [], None)"
  using assms by (intro post_db) (auto simp: db_rel_upd)

lemma db_upd_trans: "db_upd V d d' \<Longrightarrow> db_upd V d' d'' \<Longrightarrow> db_upd V d d''"
  by (simp add: db_upd_def)

lemma pop_topics_ok:
  "n \<le> length st \<Longrightarrow> \<exists>ts. pop_topics L n st = Some (ts, drop n st)"
proof (induction n arbitrary: st)
  case (Suc n)
  then obtain x st' where "st = x # st'" "n \<le> length st'" by (cases st) auto
  with Suc.IH [of st'] show ?case by auto
qed simp

context evm_db
begin

lemma exec_opSstore: "exec_ok E V 2 0 (\<lambda>_. True) ms cr h opSstore"
proof (rule exec_okI)
  fix n C m assume "exec_pre E V n 2 0 (\<lambda>_. True) ms cr h m"
  note p = exec_preD [OF this]
  obtain x y st where st: "m_stack m = x # y # st"
    using p(2) by (auto simp: numeral_2_eq_2 Suc_le_length_iff)
  with p(1,3,4) show "\<exists>r. opSstore E C m = Some r \<and> exec_post E V cr h m r"
    by (auto simp: opSstore_def op_done_def Let_def intro!: post_write SetState_law frame_okD(6))
qed

lemma exec_opSuicide: "exec_ok E V 1 0 (\<lambda>_. True) ms cr h opSuicide"
proof (rule exec_okI)
  fix n C m assume "exec_pre E V n 1 0 (\<lambda>_. True) ms cr h m"
  note p = exec_preD [OF this]
  obtain x st where st: "m_stack m = x # st" using p(2) by (cases "m_stack m") auto
  have "db_upd V d (snd (Suicide (e_db E) (MakeOngTransferLog (e_lib E) (e_db E) (AddBalance (e_db E) d a v) b c v') e))"
    if "v_inv V d" for d a b c e v v'
    using that AddBalance_law AddLog_law Suicide_law unfolding MakeOngTransferLog_def
    by (simp add: db_upd_def)
  from this [OF frame_okD(6) [OF p(1)]] p(1,3,4) st
  show "\<exists>r. opSuicide E C m = Some r \<and> exec_post E V cr h m r"
    by (auto simp: opSuicide_def op_done_def Let_def intro!: post_write)
qed

lemma exec_makeLog: "exec_ok E V (k + 2) 0 (\<lambda>_. True) (Some (memoryLog (e_lib E))) cr h (makeLog k)"
proof (rule exec_okI)
  fix n C m assume "exec_pre E V n (k + 2) 0 (\<lambda>_. True) (Some (memoryLog (e_lib E))) cr h m"
  note p = exec_preD [OF this]
  obtain x y st where st: "m_stack m = x # y # st" "k \<le> length st"
    using p(2) by (auto simp: Suc_le_length_iff)
  obtain ts where ts: "pop_topics (e_lib E) k st = Some (ts, drop k st)" using pop_topics_ok [OF st(2)] by blast
  have "operand_region (m_stack m) 0 1 (length (store (m_mem m)))"
    using p(5) by (intro mem_ready_at [OF lib]) (simp add: memory_table_defs)
  then have "region_ok (ucast x) (ucast y) (length (store (m_mem m)))"
    using operand_regionD(1) [of "m_stack m" 0 1] st by simp
  from mem_GetCopy_ok [OF this frame_okD(1) [OF p(1)]] p(1,3,4) st ts
  show "\<exists>r. makeLog k E C m = Some r \<and> exec_post E V cr h m r"
    by (auto simp: makeLog_def L Let_def op_done_def intro!: post_write AddLog_law frame_okD(6))
qed

lemma post_jump:
  assumes "frame_ok E V m" "length st \<le> 1024" "con_ok (e_lib E) ((m_con m)\<lparr>c_analysis := an\<rparr>)"
    "jd_ok (e_lib E) jd"
  shows "exec_post E V cr h m (m\<lparr>m_stack := st, m_con := (m_con m)\<lparr>c_analysis := an\<rparr>,
     m_evm := (m_evm m)\<lparr>jumpdests := jd\<rparr>, m_rstack := rs, m_pc := pc\<rparr>, [], err)"
proof -
  from evm_rel_jd [OF frame_okD(4) [OF assms(1)] assms(4)]
  have "evm_rel E V (m_evm m) ((m_evm m)\<lparr>jumpdests := jd\<rparr>)" .
  with evm_rel_ok [OF this] assms show ?thesis
    by (simp add: exec_post_def frame_ok_def)
qed

lemma jump_to_ok:
  assumes "frame_ok E V m" "length st \<le> 1024"
  shows "\<exists>r. jump_to E (m\<lparr>m_stack := st\<rparr>) pos = Some r \<and> exec_post E V cr h m r"
proof -
  obtain an jd v where v: "validJumpdest (e_lib E) (m_con m) (jumpdests (m_evm m)) pos =
      Some (v, (m_con m)\<lparr>c_analysis := an\<rparr>, jd)"
    "con_ok (e_lib E) ((m_con m)\<lparr>c_analysis := an\<rparr>)" "jd_ok (e_lib E) jd"
    using validJumpdest_ok [OF lib frame_okD(5,7) [OF assms(1)], of pos] by blast
  from post_jump [OF assms v(2,3), of cr h _ "m_rstack m"] show ?thesis
    using v(1) post_jump [OF assms v(2,3), of cr h "m_pc m" "m_rstack m"]
    by (cases v) (simp_all add: jump_to_def op_done_def op_fail_def)
qed

lemma exec_jumps: "exec_ok E V 1 0 w ms cr h opJump" "exec_ok E V 2 0 w ms cr h opJumpi"
proof -
  show "exec_ok E V 1 0 w ms cr h opJump"
  proof (rule exec_okI)
    fix n C m assume "exec_pre E V n 1 0 w ms cr h m"
    note p = exec_preD [OF this]
    obtain x st where st: "m_stack m = x # st" using p(2) by (cases "m_stack m") auto
    with p(3) jump_to_ok [OF p(1), of st x cr h] show "\<exists>r. opJump E C m = Some r \<and> exec_post E V cr h m r"
      by (simp add: opJump_def)
  qed
  show "exec_ok E V 2 0 w ms cr h opJumpi"
  proof (rule exec_okI)
    fix n C m assume "exec_pre E V n 2 0 w ms cr h m"
    note p = exec_preD [OF this]
    obtain x y st where st: "m_stack m = x # y # st"
      using p(2) by (auto simp: numeral_2_eq_2 Suc_le_length_iff)
    with p(1,3) jump_to_ok [OF p(1), of st x cr h] show "\<exists>r. opJumpi E C m = Some r \<and> exec_post E V cr h m r"
      by (simp add: opJumpi_def op_done_def post_pc)
  qed
qed

lemma exec_opJumpSub: "exec_ok E V 1 0 w ms cr h opJumpSub"
proof (rule exec_okI)
  fix n C m assume "exec_pre E V n 1 0 w ms cr h m"
  note p = exec_preD [OF this]
  obtain x st where st: "m_stack m = x # st" using p(2) by (cases "m_stack m") auto
  have len: "length st \<le> 1024" using p(1) st by (simp add: frame_ok_def)
  obtain an jd v where v: "validJumpSubdest (m_con m) (jumpdests (m_evm m)) (ucast x) =
      Some (v, (m_con m)\<lparr>c_analysis := an\<rparr>, jd)"
    "con_ok (e_lib E) ((m_con m)\<lparr>c_analysis := an\<rparr>)" "jd_ok (e_lib E) jd"
    using validJumpSubdest_ok [OF L(10) frame_okD(5,7) [OF p(1)], of "ucast x"] by blast
  note post = post_jump [OF p(1) len v(2,3), of cr h]
  from post [of "m_pc m" "m_rstack m"] post [of "ucast x + 1" "rstack_push (ucast (m_pc m)) (m_rstack m)"]
    v(1) p(1) len st
  show "\<exists>r. opJumpSub E C m = Some r \<and> exec_post E V cr h m r"
    by (cases v) (simp_all add: opJumpSub_def L Let_def op_done_def op_fail_def post_pc post_same)
qed

lemma exec_opReturnSub: "exec_ok E V 0 0 w ms cr h opReturnSub"
proof (rule exec_okI)
  fix n C m assume "exec_pre E V n 0 0 w ms cr h m"
  note p = exec_preD [OF this]
  have "length (m_stack m) \<le> 1024" using p(1) by (simp add: frame_ok_def)
  with p(1) show "\<exists>r. opReturnSub E C m = Some r \<and> exec_post E V cr h m r"
    by (cases "m_rstack m") (simp_all add: opReturnSub_def op_done_def op_fail_def exec_post_def frame_ok_def)
qed

end

section \<open>Creations and calls\<close>

lemma add_gas_le: "r \<le> (g :: u64) \<Longrightarrow> unat c + unat g < 2 ^ 64 \<Longrightarrow> unat (c + r) \<le> unat c + unat g"
  by (simp add: word_le_nat_alt unat_word_ariths)

lemma con_ok_gas [simp]: "con_ok L (c\<lparr>c_Gas := g\<rparr>) = con_ok L c"
  by (simp add: con_ok_def)

lemma calls_okD:
  assumes "calls_ok n E V C" "call_pre E V n input gas ev"
  shows "ro_mode E ev \<longrightarrow> value = 0 \<Longrightarrow>
       \<exists>r. to_Call C caller addr input gas value ev = Some r \<and> call_post E V ev gas r"
    "\<exists>r. to_CallCode C caller addr input gas value ev = Some r \<and> call_post E V ev gas r"
    "\<exists>r. to_DelegateCall C (con_ref c) addr input gas ev = Some r \<and> call_post E V ev gas r"
    "\<exists>r. to_StaticCall C caller addr input gas ev = Some r \<and> call_post E V ev gas r"
    "\<not> ro_mode E ev \<Longrightarrow> \<exists>r. to_Create C caller input gas value ev = Some r \<and> create_post E V ev gas r"
    "\<not> ro_mode E ev \<Longrightarrow> \<exists>r. to_Create2 C caller input gas value salt ev = Some r \<and> create_post E V ev gas r"
proof -
  note c = assms(1) [unfolded calls_ok_def]
  note c2 = conjunct2 [OF c] and c1 = conjunct1 [OF c]
  note c3 = conjunct2 [OF c2] and c2 = conjunct1 [OF c2]
  note c4 = conjunct2 [OF c3] and c3 = conjunct1 [OF c3]
  note c5 = conjunct2 [OF c4] and c4 = conjunct1 [OF c4]
  show "ro_mode E ev \<longrightarrow> value = 0 \<Longrightarrow>
       \<exists>r. to_Call C caller addr input gas value ev = Some r \<and> call_post E V ev gas r"
    using c1 assms(2) by simp
  show "\<exists>r. to_CallCode C caller addr input gas value ev = Some r \<and> call_post E V ev gas r"
    using c2 assms(2) by simp
  show "\<exists>r. to_DelegateCall C (con_ref c) addr input gas ev = Some r \<and> call_post E V ev gas r"
    using c3 assms(2) by simp
  show "\<exists>r. to_StaticCall C caller addr input gas ev = Some r \<and> call_post E V ev gas r"
    using c4 assms(2) by simp
  show "\<not> ro_mode E ev \<Longrightarrow> \<exists>r. to_Create C caller input gas value ev = Some r \<and> create_post E V ev gas r"
    using conjunct1 [OF c5] assms(2) by simp
  show "\<not> ro_mode E ev \<Longrightarrow> \<exists>r. to_Create2 C caller input gas value salt ev = Some r \<and> create_post E V ev gas r"
    using conjunct2 [OF c5] assms(2) by simp
qed

context evm_db
begin

lemma finish_call_ok:
  assumes "frame_ok E V m" "length st \<le> 1023" "call_post E V (m_evm m) gas r"
    and "unat (c_Gas (m_con m)) + unat gas < 2 ^ 64" "unat gas \<le> cr (m_stack m) (m_evm m)"
    and "region_ok (ucast retOffset) (ucast retSize) (length (store (m_mem m)))"
  shows "\<exists>r'. finish_call E m st retOffset retSize r = Some r' \<and> exec_post E V cr False m r'"
proof -
  obtain ret g err ev where r: "r = (ret, g, err, ev)" by (cases r)
  then have post: "g \<le> gas" "evm_rel E V (m_evm m) ev" using assms(3) by (simp_all add: call_post_def)
  note ok = evm_rel_ok [OF post(2)]
  have gas: "unat (c_Gas (m_con m) + g) \<le> unat (c_Gas (m_con m)) + cr (m_stack m) (m_evm m)"
    using add_gas_le [OF post(1) assms(4)] assms(5) by linarith
  obtain mm where mm: "(if err = None \<or> err = Some ErrExecutionReverted
         then mem_Set (m_mem m) (ucast retOffset) (ucast retSize) ret else Some (m_mem m)) = Some mm"
      "length (store mm) \<le> memLimit"
    using mem_Set_ok [OF assms(6) frame_okD(1) [OF assms(1)], of ret] frame_okD(1) [OF assms(1)]
    by (cases "err = None \<or> err = Some ErrExecutionReverted") auto
  show ?thesis
  proof (cases "err = Some Panicked")
    case True
    with ok post assms(1) show ?thesis
      by (simp add: finish_call_def r op_fail_def exec_post_def frame_ok_def)
  next
    case False
    then have "finish_call E m st retOffset retSize r = Some (add_gas (m\<lparr>m_stack :=
        stack_push (if err \<noteq> None then 0 else 1) st, m_mem := mm, m_evm := ev\<rparr>) g, ret, None)"
      unfolding finish_call_def r L Let_def prod.case mm(1) by simp
    with mm(2) ok post assms(1,2) gas show ?thesis
      by (simp add: exec_post_def frame_ok_def add_gas_def stack_push_def)
  qed
qed

lemma call_args:
  assumes "frame_ok E V m" "operand_region (m_stack m) i j (length (store (m_mem m)))"
  shows "\<exists>args. mem_GetPtr (m_mem m) (ucast (m_stack m ! i)) (ucast (m_stack m ! j)) = Some args \<and> length args < 2 ^ 63"
  using mem_GetPtr_ok [OF operand_regionD(1) [OF assms(2)] frame_okD(1) [OF assms(1)]] by fastforce

lemma value_gas:
  assumes "unat (c_Gas (m_con m)) + value_credit E (m_stack m) (m_evm m) < 2 ^ 64"
  shows "unat (if m_stack m ! 2 \<noteq> 0 then callGasTemp (m_evm m) + params (e_lib E) ''CallStipend''
     else callGasTemp (m_evm m)) = value_credit E (m_stack m) (m_evm m)"
  using assms by (cases "m_stack m ! 2 = 0") (simp_all add: value_credit_def unat_word_ariths)

lemma exec_opCall:
  "exec_ok E V 7 1 (\<lambda>st. st ! 2 \<noteq> 0) (Some (memoryCall (e_lib E))) (value_credit E) False opCall"
proof (rule exec_okI)
  fix n C m
  assume C: "calls_ok n E V C"
    and "exec_pre E V n 7 1 (\<lambda>st. st ! 2 \<noteq> 0) (Some (memoryCall (e_lib E))) (value_credit E) False m"
  note p = exec_preD [OF this(2)]
  obtain t a v io il ro rs st where st: "m_stack m = t # a # v # io # il # ro # rs # st"
    using p(2) by (auto simp: eval_nat_numeral Suc_le_length_iff)
  have reg: "operand_region (m_stack m) 5 6 (length (store (m_mem m)))" "operand_region (m_stack m) 3 4 (length (store (m_mem m)))"
    using mem_ready_max [OF lib] p(5) unfolding memory_table_defs by blast+
  obtain args where args: "mem_GetPtr (m_mem m) (ucast io) (ucast il) = Some args" "length args < 2 ^ 63"
    using call_args [OF p(1) reg(2)] st by auto
  define gas where "gas = (if v \<noteq> 0 then callGasTemp (m_evm m) + params (e_lib E) ''CallStipend'' else callGasTemp (m_evm m))"
  have gas: "unat gas = value_credit E (m_stack m) (m_evm m)"
    using value_gas [OF p(8)] st by (simp add: gas_def)
  then have pre: "call_pre E V n args gas (m_evm m)"
    using p(7) args(2) frame_okD(4) [OF p(1)] by (simp add: call_pre_def)
  have "ro_mode E (m_evm m) \<longrightarrow> big_value (e_lib E) v = 0"
    using p(4) st by (simp add: big_value_def L)
  from calls_okD(1) [OF C pre this] obtain r where
    r: "to_Call C (con_ref (m_con m)) (u_Bytes20 (e_lib E) a) args gas (big_value (e_lib E) v) (m_evm m) = Some r"
      "call_post E V (m_evm m) gas r" by blast
  have "length st \<le> 1023" using p(3) st by simp
  moreover have "opCall E C m = finish_call E m st ro rs r"
    by (simp add: opCall_def st L args r Let_def gas_def [symmetric] split del: if_split)
  moreover have "region_ok (ucast ro) (ucast rs) (length (store (m_mem m)))"
    using operand_regionD(1) [OF reg(1)] st by simp
  ultimately show "\<exists>r. opCall E C m = Some r \<and> exec_post E V (value_credit E) False m r"
    using finish_call_ok [OF p(1) _ r(2)] p(8) gas by simp
qed

lemma exec_opCallCode:
  "exec_ok E V 7 1 w (Some (memoryCall (e_lib E))) (value_credit E) False opCallCode"
proof (rule exec_okI)
  fix n C m
  assume C: "calls_ok n E V C"
    and "exec_pre E V n 7 1 w (Some (memoryCall (e_lib E))) (value_credit E) False m"
  note p = exec_preD [OF this(2)]
  obtain t a v io il ro rs st where st: "m_stack m = t # a # v # io # il # ro # rs # st"
    using p(2) by (auto simp: eval_nat_numeral Suc_le_length_iff)
  have reg: "operand_region (m_stack m) 5 6 (length (store (m_mem m)))" "operand_region (m_stack m) 3 4 (length (store (m_mem m)))"
    using mem_ready_max [OF lib] p(5) unfolding memory_table_defs by blast+
  obtain args where args: "mem_GetPtr (m_mem m) (ucast io) (ucast il) = Some args" "length args < 2 ^ 63"
    using call_args [OF p(1) reg(2)] st by auto
  define gas where "gas = (if v \<noteq> 0 then callGasTemp (m_evm m) + params (e_lib E) ''CallStipend'' else callGasTemp (m_evm m))"
  have gas: "unat gas = value_credit E (m_stack m) (m_evm m)"
    using value_gas [OF p(8)] st by (simp add: gas_def)
  then have pre: "call_pre E V n args gas (m_evm m)"
    using p(7) args(2) frame_okD(4) [OF p(1)] by (simp add: call_pre_def)
  from calls_okD(2) [OF C pre] obtain r where
    r: "to_CallCode C (con_ref (m_con m)) (u_Bytes20 (e_lib E) a) args gas (big_value (e_lib E) v) (m_evm m) = Some r"
      "call_post E V (m_evm m) gas r" by blast
  have "length st \<le> 1023" using p(3) st by simp
  moreover have "opCallCode E C m = finish_call E m st ro rs r"
    by (simp add: opCallCode_def st L args r Let_def gas_def [symmetric] split del: if_split)
  moreover have "region_ok (ucast ro) (ucast rs) (length (store (m_mem m)))"
    using operand_regionD(1) [OF reg(1)] st by simp
  ultimately show "\<exists>r. opCallCode E C m = Some r \<and> exec_post E V (value_credit E) False m r"
    using finish_call_ok [OF p(1) _ r(2)] p(8) gas by simp
qed

lemma exec_opDelegateCall: "exec_ok E V 6 1 w (Some (memoryDelegateCall (e_lib E))) plain_credit False opDelegateCall"
proof (rule exec_okI)
  fix n C m
  assume C: "calls_ok n E V C" and "exec_pre E V n 6 1 w (Some (memoryDelegateCall (e_lib E))) plain_credit False m"
  note p = exec_preD [OF this(2)]
  obtain t a io il ro rs st where st: "m_stack m = t # a # io # il # ro # rs # st"
    using p(2) by (auto simp: eval_nat_numeral Suc_le_length_iff)
  have reg: "operand_region (m_stack m) 4 5 (length (store (m_mem m)))" "operand_region (m_stack m) 2 3 (length (store (m_mem m)))"
    using mem_ready_max [OF lib] p(5) unfolding memory_table_defs by blast+
  obtain args where args: "mem_GetPtr (m_mem m) (ucast io) (ucast il) = Some args" "length args < 2 ^ 63"
    using call_args [OF p(1) reg(2)] st by auto
  have "call_pre E V n args (callGasTemp (m_evm m)) (m_evm m)"
    using p(7) args(2) frame_okD(4) [OF p(1)] by (simp add: call_pre_def plain_credit_def)
  from calls_okD(3) [OF C this] obtain r where
    r: "to_DelegateCall C (con_ref (m_con m)) (u_Bytes20 (e_lib E) a) args (callGasTemp (m_evm m)) (m_evm m) = Some r"
      "call_post E V (m_evm m) (callGasTemp (m_evm m)) r" by blast
  have "length st \<le> 1023" using p(3) st by simp
  moreover have "opDelegateCall E C m = finish_call E m st ro rs r"
    by (simp add: opDelegateCall_def st L args r Let_def)
  moreover have "region_ok (ucast ro) (ucast rs) (length (store (m_mem m)))"
    using operand_regionD(1) [OF reg(1)] st by simp
  ultimately show "\<exists>r. opDelegateCall E C m = Some r \<and> exec_post E V plain_credit False m r"
    using finish_call_ok [OF p(1) _ r(2)] p(8) by (simp add: plain_credit_def)
qed

lemma exec_opStaticCall: "exec_ok E V 6 1 w (Some (memoryStaticCall (e_lib E))) plain_credit False opStaticCall"
proof (rule exec_okI)
  fix n C m
  assume C: "calls_ok n E V C" and "exec_pre E V n 6 1 w (Some (memoryStaticCall (e_lib E))) plain_credit False m"
  note p = exec_preD [OF this(2)]
  obtain t a io il ro rs st where st: "m_stack m = t # a # io # il # ro # rs # st"
    using p(2) by (auto simp: eval_nat_numeral Suc_le_length_iff)
  have reg: "operand_region (m_stack m) 4 5 (length (store (m_mem m)))" "operand_region (m_stack m) 2 3 (length (store (m_mem m)))"
    using mem_ready_max [OF lib] p(5) unfolding memory_table_defs by blast+
  obtain args where args: "mem_GetPtr (m_mem m) (ucast io) (ucast il) = Some args" "length args < 2 ^ 63"
    using call_args [OF p(1) reg(2)] st by auto
  have "call_pre E V n args (callGasTemp (m_evm m)) (m_evm m)"
    using p(7) args(2) frame_okD(4) [OF p(1)] by (simp add: call_pre_def plain_credit_def)
  from calls_okD(4) [OF C this] obtain r where
    r: "to_StaticCall C (con_ref (m_con m)) (u_Bytes20 (e_lib E) a) args (callGasTemp (m_evm m)) (m_evm m) = Some r"
      "call_post E V (m_evm m) (callGasTemp (m_evm m)) r" by blast
  have "length st \<le> 1023" using p(3) st by simp
  moreover have "opStaticCall E C m = finish_call E m st ro rs r"
    by (simp add: opStaticCall_def st L args r Let_def)
  moreover have "region_ok (ucast ro) (ucast rs) (length (store (m_mem m)))"
    using operand_regionD(1) [OF reg(1)] st by simp
  ultimately show "\<exists>r. opStaticCall E C m = Some r \<and> exec_post E V plain_credit False m r"
    using finish_call_ok [OF p(1) _ r(2)] p(8) by (simp add: plain_credit_def)
qed

lemma finish_create_ok:
  assumes "frame_ok E V m" "length st \<le> 1023" "create_post E V (m_evm m) gas (res, addr, g, err, ev)"
    and "unat (c_Gas (m_con m)) + unat gas < 2 ^ 64"
    and "unat (c_Gas (m_con m)) + unat gas \<le> limit"
  shows "\<exists>m' res' err'. finish_create m st v res g err ev = Some (m', res', err') \<and> frame_ok E V m' \<and>
     evm_rel E V (m_evm m) (m_evm m') \<and> unat (c_Gas (m_con m')) \<le> limit"
proof -
  have post: "g \<le> gas" "evm_rel E V (m_evm m) ev" using assms(3) by (simp_all add: create_post_def)
  note ok = evm_rel_ok [OF post(2)]
  have gas: "unat (c_Gas (m_con m) + g) \<le> limit"
    using add_gas_le [OF post(1) assms(4)] assms(5) by linarith
  show ?thesis
    using ok post gas assms(1,2,5)
    by (simp add: finish_create_def op_fail_def op_done_def Let_def frame_ok_def add_gas_def stack_push_def)
qed

text \<open>The gas of a creation is taken from the frame before the call.\<close>

lemma use_gas_ok:
  assumes "g \<le> c_Gas (m_con m)"
  shows "use_gas m g = m\<lparr>m_con := (m_con m)\<lparr>c_Gas := c_Gas (m_con m) - g\<rparr>\<rparr>"
    "unat (c_Gas (m_con (use_gas m g))) + unat g = unat (c_Gas (m_con m))"
  using assms by (auto simp: use_gas_def UseGas_def unat_sub word_le_nat_alt word_less_nat_alt)

lemma create_gas: "(g :: u64) - g div 64 \<le> g"
  by (metis div_le_dividend unat_div word_le_nat_alt word_sub_le_iff)

lemma exec_opCreate: "exec_ok E V 3 1 (\<lambda>_. True) (Some (memoryCreate (e_lib E))) cr False opCreate"
proof (rule exec_okI)
  fix n C m
  assume C: "calls_ok n E V C" and "exec_pre E V n 3 1 (\<lambda>_. True) (Some (memoryCreate (e_lib E))) cr False m"
  note p = exec_preD [OF this(2)]
  obtain v x y st where st: "m_stack m = v # x # y # st"
    using p(2) by (auto simp: numeral_3_eq_3 Suc_le_length_iff)
  have "operand_region (m_stack m) 1 2 (length (store (m_mem m)))"
    using p(5) by (intro mem_ready_at [OF lib]) (simp add: memory_table_defs)
  then have "region_ok (ucast x) (ucast y) (length (store (m_mem m)))"
    using operand_regionD(1) [of "m_stack m" 1 2] st by simp
  from mem_GetCopy_ok [OF this frame_okD(1) [OF p(1)]] obtain input where
    input: "mem_GetCopy (m_mem m) (ucast x) (ucast y) = Some input" "length input < 2 ^ 63" by fastforce
  define gas where "gas = (if IsEIP150 (e_rules E) then c_Gas (m_con m) - c_Gas (m_con m) div 64 else c_Gas (m_con m))"
  have le: "gas \<le> c_Gas (m_con m)" using create_gas by (simp add: gas_def)
  define m1 where "m1 = use_gas m gas"
  note ug = use_gas_ok [OF le, folded m1_def]
  have m1: "frame_ok E V m1" "m_evm m1 = m_evm m" "m_mem m1 = m_mem m"
    using p(1) by (simp_all add: ug(1) frame_ok_def)
  have "call_pre E V n input gas (m_evm m1)"
    using p(7) input(2) frame_okD(4) [OF p(1)] le by (simp add: call_pre_def m1 word_le_nat_alt)
  from calls_okD(5) [OF C this] p(4) m1(2) obtain res addr g err ev where
    r: "to_Create C (con_ref (m_con m1)) input gas (big_value (e_lib E) v) (m_evm m1) = Some (res, addr, g, err, ev)"
      "create_post E V (m_evm m1) gas (res, addr, g, err, ev)" by (metis prod_cases5)
  define sv where "sv = (if IsHomestead (e_rules E) \<and> err = Some ErrCodeStoreOutOfGas then 0
       else if err \<noteq> None \<and> err \<noteq> Some ErrCodeStoreOutOfGas then 0 else u_SetBytes (e_lib E) addr)"
  have "opCreate E C m = finish_create m1 st sv res g err ev"
    by (simp add: opCreate_def st L input Let_def gas_def [symmetric] m1_def [symmetric] r sv_def [symmetric]
        split del: if_split)
  moreover have "length st \<le> 1023" using p(3) st by simp
  ultimately show "\<exists>r. opCreate E C m = Some r \<and> exec_post E V cr False m r"
    using finish_create_ok [OF m1(1) _ r(2), of st "unat (c_Gas (m_con m))" sv] ug(2) p(8)
    by (auto simp: exec_post_def m1)
qed

lemma exec_opCreate2: "exec_ok E V 4 1 (\<lambda>_. True) (Some (memoryCreate2 (e_lib E))) cr False opCreate2"
proof (rule exec_okI)
  fix n C m
  assume C: "calls_ok n E V C" and "exec_pre E V n 4 1 (\<lambda>_. True) (Some (memoryCreate2 (e_lib E))) cr False m"
  note p = exec_preD [OF this(2)]
  obtain v x y z st where st: "m_stack m = v # x # y # z # st"
    using p(2) by (auto simp: eval_nat_numeral Suc_le_length_iff)
  have "operand_region (m_stack m) 1 2 (length (store (m_mem m)))"
    using p(5) by (intro mem_ready_at [OF lib]) (simp add: memory_table_defs)
  then have "region_ok (ucast x) (ucast y) (length (store (m_mem m)))"
    using operand_regionD(1) [of "m_stack m" 1 2] st by simp
  from mem_GetCopy_ok [OF this frame_okD(1) [OF p(1)]] obtain input where
    input: "mem_GetCopy (m_mem m) (ucast x) (ucast y) = Some input" "length input < 2 ^ 63" by fastforce
  define gas where "gas = c_Gas (m_con m) - c_Gas (m_con m) div 64"
  have le: "gas \<le> c_Gas (m_con m)" using create_gas by (simp add: gas_def)
  define m1 where "m1 = use_gas m gas"
  note ug = use_gas_ok [OF le, folded m1_def]
  have m1: "frame_ok E V m1" "m_evm m1 = m_evm m" "m_mem m1 = m_mem m"
    using p(1) by (simp_all add: ug(1) frame_ok_def)
  have "call_pre E V n input gas (m_evm m1)"
    using p(7) input(2) frame_okD(4) [OF p(1)] le by (simp add: call_pre_def m1 word_le_nat_alt)
  from calls_okD(6) [OF C this] p(4) m1(2) obtain res addr g err ev where
    r: "to_Create2 C (con_ref (m_con m1)) input gas (big_value (e_lib E) v) z (m_evm m1) = Some (res, addr, g, err, ev)"
      "create_post E V (m_evm m1) gas (res, addr, g, err, ev)" by (metis prod_cases5)
  define sv where "sv = (if err \<noteq> None then 0 else u_SetBytes (e_lib E) addr)"
  have "opCreate2 E C m = finish_create m1 st sv res g err ev"
    by (simp add: opCreate2_def st L input Let_def gas_def [symmetric] m1_def [symmetric] r sv_def
        split del: if_split)
  moreover have "length st \<le> 1023" using p(3) st by simp
  ultimately show "\<exists>r. opCreate2 E C m = Some r \<and> exec_post E V cr False m r"
    using finish_create_ok [OF m1(1) _ r(2), of st "unat (c_Gas (m_con m))" sv] ug(2) p(8)
    by (auto simp: exec_post_def m1)
qed

end

end
