(* ===== verification/Evm_Tables.thy ===== *)
theory Evm_Tables
  imports Evm_Ops
begin

text \<open>
  Every operation of every jump table keeps the contract: its stack limits match what its
  instruction takes and leaves, its gas function covers the gas it grants, it costs gas unless it
  ends the run, and the operations that write are marked so. No table update meets a nil operation.
\<close>

section \<open>Operations\<close>

definition ends :: "'d operation \<Rightarrow> bool" where
  "ends oper \<longleftrightarrow> op_halts oper \<or> op_reverts oper"

definition writes_on :: "opcode \<Rightarrow> 'd operation \<Rightarrow> stack \<Rightarrow> bool" where
  "writes_on op oper st \<longleftrightarrow> op_writes oper \<or> (op = OP_CALL \<and> st ! 2 \<noteq> 0)"

definition limits_ok :: "nat \<Rightarrow> nat \<Rightarrow> 'd operation \<Rightarrow> bool" where
  "limits_ok pops pushes oper \<longleftrightarrow> op_minStack oper = int pops \<and> op_maxStack oper = 1024 + int pops - int pushes"

definition dynamic_ok :: "'d env \<Rightarrow> ('d, 's) db_view \<Rightarrow> nat \<Rightarrow> 'd credit \<Rightarrow> 'd operation \<Rightarrow> bool" where
  "dynamic_ok E V pops cr oper \<longleftrightarrow> (case dynamicGas oper of
     None \<Rightarrow> cr = no_credit \<and> memorySize oper = None \<and> (0 < constantGas oper \<or> ends oper)
   | Some f \<Rightarrow> (\<exists>mem pos. gas_ok E V pops (op_writes oper) mem pos cr f \<and>
       (memorySize oper \<noteq> None \<longrightarrow> mem) \<and> (0 < constantGas oper \<or> pos \<or> ends oper)))"

definition size_ok :: "nat \<Rightarrow> memorySizeFunc option \<Rightarrow> bool" where
  "size_ok pops ms \<longleftrightarrow> (\<forall>f st. ms = Some f \<longrightarrow> pops \<le> length st \<longrightarrow> f st \<noteq> None)"

definition oper_with :: "'d env \<Rightarrow> ('d, 's) db_view \<Rightarrow> opcode \<Rightarrow> nat \<Rightarrow> nat \<Rightarrow> 'd credit \<Rightarrow> 'd operation \<Rightarrow> bool" where
  "oper_with E V op pops pushes cr oper \<longleftrightarrow> limits_ok pops pushes oper \<and>
     exec_ok E V pops pushes (writes_on op oper) (memorySize oper) cr (ends oper) (execute oper) \<and>
     dynamic_ok E V pops cr oper \<and> size_ok pops (memorySize oper) \<and>
     (op = OP_CALL \<longrightarrow> 3 \<le> pops) \<and> (op = OP_STOP \<longrightarrow> ends oper) \<and>
     (op = OP_EXP \<or> op = OP_SSTORE \<longrightarrow> pops = 2 \<and> cr = no_credit \<and> memorySize oper = None) \<and>
     (op = OP_SSTORE \<longrightarrow> op_writes oper)"

definition oper_ok :: "'d env \<Rightarrow> ('d, 's) db_view \<Rightarrow> opcode \<Rightarrow> 'd operation \<Rightarrow> bool" where
  "oper_ok E V op oper \<longleftrightarrow> (\<exists>pops pushes cr. oper_with E V op pops pushes cr oper)"

definition table_ok :: "'d env \<Rightarrow> ('d, 's) db_view \<Rightarrow> 'd jump_table \<Rightarrow> bool" where
  "table_ok E V jt \<longleftrightarrow> (\<forall>op oper. jt op = Some oper \<longrightarrow> oper_ok E V op oper)"

text \<open>A table that may fail to be built.\<close>

definition built_ok :: "'d env \<Rightarrow> ('d, 's) db_view \<Rightarrow> 'd jump_table option \<Rightarrow> bool" where
  "built_ok E V r \<longleftrightarrow> (\<forall>jt. r = Some jt \<longrightarrow> table_ok E V jt)"

lemma built_ok_Some: "table_ok E V jt \<Longrightarrow> built_ok E V (Some jt)"
  by (simp add: built_ok_def)

lemma built_ok_bind:
  "built_ok E V r \<Longrightarrow> (\<And>jt. table_ok E V jt \<Longrightarrow> built_ok E V (k jt)) \<Longrightarrow> built_ok E V (r \<bind> k)"
  by (cases r) (simp_all add: built_ok_def)

lemma gas_okD:
  assumes "gas_ok E V k w mem pos cr f" "evm_ok E V ev" "k \<le> length st" "w \<longrightarrow> \<not> ro_mode E ev"
  shows "\<exists>r ev' m'. f E ev c st m sz = Some (r, ev', m') \<and> store m' = store m \<and> evm_rel E V ev ev' \<and>
     (\<forall>cost. r = Inr cost \<longrightarrow> (mem \<longrightarrow> unat sz \<le> memLimit) \<and> cr st ev' \<le> unat cost \<and>
        (pos \<longrightarrow> cr st ev' < unat cost))"
  using assms(1) [unfolded gas_ok_def, rule_format, OF assms(2,3)] assms(4) by simp

lemma gas_ok_mono:
  assumes "gas_ok E V k w mem pos cr f" "k \<le> k'" "w \<Longrightarrow> w'"
  shows "gas_ok E V k' w' mem pos cr f"
  by (rule gas_okI, rule gas_okD [OF assms(1)]) (use assms(2,3) in auto)

lemma size_ok_calc [simp]:
  "i < pops \<Longrightarrow> j < pops \<Longrightarrow> size_ok pops (Some (calcMem_at L i j))"
  "i < pops \<Longrightarrow> size_ok pops (Some (calcMem_fixed L i n))"
  "i < pops \<Longrightarrow> j < pops \<Longrightarrow> k < pops \<Longrightarrow> l < pops \<Longrightarrow> size_ok pops (Some (calcMem_max L i j k l))"
  "size_ok pops None"
  by (auto simp: size_ok_def calcMem_at_def calcMem_fixed_def calcMem_max_def split: prod.splits)

lemma table_ok_upd: "table_ok E V jt \<Longrightarrow> oper_ok E V op oper \<Longrightarrow> table_ok E V (jt(op \<mapsto> oper))"
  by (simp add: table_ok_def)

lemma table_ok_map_of: "list_all (\<lambda>(op, oper). oper_ok E V op oper) ops \<Longrightarrow> table_ok E V (map_of ops)"
  by (auto simp: table_ok_def list_all_iff dest: map_of_SomeD)

lemma dynamic_ok_constantGas:
  "dynamic_ok E V pops cr oper \<Longrightarrow> 0 < g \<Longrightarrow> dynamic_ok E V pops cr (oper\<lparr>constantGas := g\<rparr>)"
  by (auto simp: dynamic_ok_def split: option.splits)

lemma dynamicGas_fields [simp]:
  "limits_ok pops pushes (oper\<lparr>dynamicGas := f\<rparr>) = limits_ok pops pushes oper"
  "writes_on op (oper\<lparr>dynamicGas := f\<rparr>) = writes_on op oper"
  "ends (oper\<lparr>dynamicGas := f\<rparr>) = ends oper"
  by (simp_all add: limits_ok_def writes_on_def [abs_def] ends_def)

lemma constantGas_fields [simp]:
  "limits_ok pops pushes (oper\<lparr>constantGas := g\<rparr>) = limits_ok pops pushes oper"
  "writes_on op (oper\<lparr>constantGas := g\<rparr>) = writes_on op oper"
  "ends (oper\<lparr>constantGas := g\<rparr>) = ends oper"
  by (simp_all add: limits_ok_def writes_on_def [abs_def] ends_def)

lemma oper_ok_jumps: "oper_ok E V op oper \<Longrightarrow> oper_ok E V op (oper\<lparr>op_jumps := b\<rparr>)"
proof -
  have "limits_ok pops pushes (oper\<lparr>op_jumps := b\<rparr>) = limits_ok pops pushes oper"
    "writes_on op (oper\<lparr>op_jumps := b\<rparr>) = writes_on op oper" "ends (oper\<lparr>op_jumps := b\<rparr>) = ends oper"
    "dynamic_ok E V pops cr (oper\<lparr>op_jumps := b\<rparr>) = dynamic_ok E V pops cr oper" for pops pushes cr
    by (cases "dynamicGas oper"; simp add: limits_ok_def writes_on_def [abs_def] ends_def dynamic_ok_def)+
  then show "oper_ok E V op oper \<Longrightarrow> oper_ok E V op (oper\<lparr>op_jumps := b\<rparr>)"
    unfolding oper_ok_def oper_with_def by simp
qed

lemma oper_with_constantGas:
  "oper_with E V op pops pushes cr oper \<Longrightarrow> 0 < g \<Longrightarrow> oper_with E V op pops pushes cr (oper\<lparr>constantGas := g\<rparr>)"
  by (simp add: oper_with_def dynamic_ok_constantGas)

lemma oper_ok_constantGas: "oper_ok E V op oper \<Longrightarrow> 0 < g \<Longrightarrow> oper_ok E V op (oper\<lparr>constantGas := g\<rparr>)"
  unfolding oper_ok_def by (metis oper_with_constantGas)

lemma table_ok_constantGas:
  "table_ok E V jt \<Longrightarrow> set_constantGas op g jt = Some jt' \<Longrightarrow> 0 < g \<Longrightarrow> table_ok E V jt'"
  by (auto simp: set_constantGas_def table_ok_def oper_ok_constantGas split: if_splits)

lemma oper_ok_dynamicGas:
  assumes "oper_ok E V op oper" "op = OP_EXP \<or> op = OP_SSTORE" "gas_ok E V 2 (op = OP_SSTORE) False True no_credit f"
  shows "oper_ok E V op (oper\<lparr>dynamicGas := Some f\<rparr>)"
proof -
  obtain pushes where o: "limits_ok 2 pushes oper" "memorySize oper = None"
    "exec_ok E V 2 pushes (writes_on op oper) None no_credit (ends oper) (execute oper)"
    "op = OP_CALL \<longrightarrow> 3 \<le> (2 :: nat)" "op = OP_STOP \<longrightarrow> ends oper" "op = OP_SSTORE \<longrightarrow> op_writes oper"
    using assms(1,2) by (auto simp: oper_ok_def oper_with_def)
  then have "gas_ok E V 2 (op_writes oper) False True no_credit f"
    using assms(3) by (auto intro: gas_ok_mono)
  with o have "oper_with E V op 2 pushes no_credit (oper\<lparr>dynamicGas := Some f\<rparr>)"
    by (auto simp: oper_with_def dynamic_ok_def)
  then show ?thesis unfolding oper_ok_def by blast
qed

lemma table_ok_dynamicGas:
  "table_ok E V jt \<Longrightarrow> set_dynamicGas op f jt = Some jt' \<Longrightarrow> op = OP_EXP \<or> op = OP_SSTORE \<Longrightarrow>
     gas_ok E V 2 (op = OP_SSTORE) False True no_credit f \<Longrightarrow> table_ok E V jt'"
  by (auto simp: set_dynamicGas_def table_ok_def oper_ok_dynamicGas split: if_splits)

text \<open>An operation without a gas function, and one with.\<close>

lemma plain_oper:
  assumes "limits_ok pops pushes oper" "\<And>w. exec_ok E V pops pushes w None no_credit (ends oper) (execute oper)"
    and "dynamicGas oper = None" "memorySize oper = None" "0 < constantGas oper \<or> ends oper"
    and "op \<noteq> OP_CALL" "op = OP_STOP \<longrightarrow> ends oper" "op \<noteq> OP_EXP" "op \<noteq> OP_SSTORE"
  shows "oper_ok E V op oper"
proof -
  have "oper_with E V op pops pushes no_credit oper"
    using assms by (simp add: oper_with_def dynamic_ok_def)
  then show ?thesis unfolding oper_ok_def by blast
qed

lemma priced_oper:
  assumes "limits_ok pops pushes oper" "dynamicGas oper = Some f"
    and "exec_ok E V pops pushes (writes_on op oper) (memorySize oper) cr (ends oper) (execute oper)"
    and "gas_ok E V k w mem pos cr f" "k \<le> pops" "w \<longrightarrow> op_writes oper"
    and "0 < constantGas oper \<or> pos \<or> ends oper" "memorySize oper \<noteq> None \<longrightarrow> mem"
    and "size_ok pops (memorySize oper)" "op = OP_CALL \<longrightarrow> 3 \<le> pops" "op \<noteq> OP_STOP"
    and "op = OP_EXP \<or> op = OP_SSTORE \<longrightarrow> pops = 2 \<and> cr = no_credit \<and> memorySize oper = None"
    and "op = OP_SSTORE \<longrightarrow> op_writes oper"
  shows "oper_ok E V op oper"
proof -
  have "gas_ok E V pops (op_writes oper) mem pos cr f"
    using assms(4-6) by (auto intro: gas_ok_mono)
  with assms have "oper_with E V op pops pushes cr oper"
    by (auto simp: oper_with_def dynamic_ok_def)
  then show ?thesis unfolding oper_ok_def by blast
qed

section \<open>The tables\<close>

context evm_db
begin

lemma new_op_limits:
  "limits_ok pops pushes ((new_op (e_lib E) ex pops pushes)\<lparr>constantGas := g\<rparr>)"
  "limits_ok pops pushes oper \<Longrightarrow> limits_ok pops pushes (oper\<lparr>constantGas := g\<rparr>)"
  by (auto simp: limits_ok_def new_op_def minStack_def max_stack [OF lib])

lemma price: "c \<in> set price_params \<Longrightarrow> 0 < params (e_lib E) c"
  by (rule price_pos [OF lib])

lemma limits_new_op:
  "op_minStack oper = minStack pops pushes \<Longrightarrow> op_maxStack oper = maxStack (e_lib E) pops pushes \<Longrightarrow>
   limits_ok pops pushes oper"
  by (simp add: limits_ok_def minStack_def max_stack [OF lib])

lemmas gas_steps = GasQuickStep_def GasFastestStep_def GasFastStep_def GasMidStep_def GasSlowStep_def GasExtStep_def

lemma plain_new:
  assumes "\<And>w. exec_ok E V pops pushes w None no_credit False ex" "0 < g" "op \<notin> {OP_CALL, OP_STOP, OP_EXP, OP_SSTORE}"
  shows "oper_ok E V op ((new_op (e_lib E) ex pops pushes)\<lparr>constantGas := g\<rparr>)"
  by (rule plain_oper [OF new_op_limits(1)]) (use assms in \<open>simp_all add: new_op_def ends_def\<close>)

lemmas exec_plain = exec_arith exec_unary exec_ternary exec_context exec_opPop exec_nop exec_opPush1
  exec_opCallDataLoad exec_jumps exec_opJumpSub exec_opReturnSub

lemma step_price:
  "0 < GasQuickStep" "0 < GasFastestStep" "0 < GasFastStep" "0 < GasMidStep" "0 < GasSlowStep" "0 < GasExtStep"
  "0 < params (e_lib E) ''BalanceGasEIP150''" "0 < params (e_lib E) ''BalanceGasEIP1884''"
  "0 < params (e_lib E) ''BalanceGasFrontier''" "0 < params (e_lib E) ''CallGasEIP150''"
  "0 < params (e_lib E) ''CallGasFrontier''" "0 < params (e_lib E) ''Create2Gas''"
  "0 < params (e_lib E) ''CreateGas''" "0 < params (e_lib E) ''ExtcodeCopyBaseEIP150''"
  "0 < params (e_lib E) ''ExtcodeCopyBaseFrontier''" "0 < params (e_lib E) ''ExtcodeHashGasConstantinople''"
  "0 < params (e_lib E) ''ExtcodeHashGasEIP1884''" "0 < params (e_lib E) ''ExtcodeSizeGasEIP150''"
  "0 < params (e_lib E) ''ExtcodeSizeGasFrontier''" "0 < params (e_lib E) ''JumpdestGas''"
  "0 < params (e_lib E) ''Keccak256Gas''" "0 < params (e_lib E) ''SloadGasEIP150''"
  "0 < params (e_lib E) ''SloadGasEIP1884''" "0 < params (e_lib E) ''SloadGasEIP2200''"
  "0 < params (e_lib E) ''SloadGasFrontier''"
  by (simp_all add: GasQuickStep_def GasFastestStep_def GasFastStep_def GasMidStep_def GasSlowStep_def
      GasExtStep_def price price_params_def)

lemma priced_new:
  assumes "exec_ok E V pops pushes w ms cr h (execute oper)" "gas_ok E V k wg mem pos cr f"
    and "writes_on op oper = w" "memorySize oper = ms" "ends oper = h" "dynamicGas oper = Some f"
    and "op_minStack oper = minStack pops pushes" "op_maxStack oper = maxStack (e_lib E) pops pushes"
    and "k \<le> pops" "wg \<longrightarrow> op_writes oper" "0 < constantGas oper \<or> pos \<or> h" "ms \<noteq> None \<longrightarrow> mem"
    and "size_ok pops ms" "op = OP_CALL \<longrightarrow> 3 \<le> pops" "op \<noteq> OP_STOP"
    and "op = OP_EXP \<or> op = OP_SSTORE \<longrightarrow> pops = 2 \<and> cr = no_credit \<and> ms = None"
    and "op = OP_SSTORE \<longrightarrow> op_writes oper"
  shows "oper_ok E V op oper"
  by (rule priced_oper [OF limits_new_op [OF assms(7,8)] assms(6) _ assms(2,9,10)]) (use assms in simp_all)

lemma arith_ok: "list_all (\<lambda>(op, oper). oper_ok E V op oper) (frontier_arith (e_lib E))"
proof -
  have exp: "oper_ok E V OP_EXP ((new_op (e_lib E) opExp 2 1)\<lparr>dynamicGas := Some gasExpFrontier\<rparr>)"
    unfolding gasExpFrontier_def
    by (rule priced_new [OF _ gasExp_ok], simp add: new_op_def, rule exec_arith) (simp_all add: new_op_def opcode_defs)
  have stop: "oper_ok E V OP_STOP ((new_op (e_lib E) opStop 0 0)\<lparr>op_halts := True\<rparr>)"
    by (rule plain_oper [where pops = 0 and pushes = 0, OF limits_new_op])
      (simp_all add: new_op_def ends_def opcode_defs exec_nop)
  show ?thesis
    unfolding frontier_arith_def list.pred_inject prod.case
    by (intro conjI; (rule exp stop list.pred_inject(1) | rule plain_new, rule exec_plain, rule step_price, simp add: opcode_defs))
qed

text \<open>The operations with a gas function, for the record updates of the tables.\<close>

lemma context_ok: "list_all (\<lambda>(op, oper). oper_ok E V op oper) (frontier_context (e_lib E))"
proof -
  have sha3: "oper_ok E V OP_SHA3 ((new_op (e_lib E) opSha3 2 1)\<lparr>constantGas := params (e_lib E) ''Keccak256Gas'',
      dynamicGas := Some gasSha3, memorySize := Some (memorySha3 (e_lib E))\<rparr>)"
    unfolding gasSha3_def
    by (rule priced_new [OF _ hash_words_gas_ok [of 1]], simp add: new_op_def, rule exec_opSha3)
      (simp_all add: new_op_def opcode_defs step_price memory_table_defs)
  have calldata: "oper_ok E V OP_CALLDATACOPY ((new_op (e_lib E) opCallDataCopy 3 0)\<lparr>constantGas := GasFastestStep,
      dynamicGas := Some gasCallDataCopy, memorySize := Some (memoryCallDataCopy (e_lib E))\<rparr>)"
    unfolding gasCallDataCopy_def
    by (rule priced_new [OF _ memoryCopierGas_ok [of 2]], simp add: new_op_def, rule exec_copies)
      (simp_all add: new_op_def opcode_defs step_price memory_table_defs)
  have codecopy: "oper_ok E V OP_CODECOPY ((new_op (e_lib E) opCodeCopy 3 0)\<lparr>constantGas := GasFastestStep,
      dynamicGas := Some gasCodeCopy, memorySize := Some (memoryCodeCopy (e_lib E))\<rparr>)"
    unfolding gasCodeCopy_def
    by (rule priced_new [OF _ memoryCopierGas_ok [of 2]], simp add: new_op_def, rule exec_copies)
      (simp_all add: new_op_def opcode_defs step_price memory_table_defs)
  have extcode: "oper_ok E V OP_EXTCODECOPY ((new_op (e_lib E) opExtCodeCopy 4 0)\<lparr>
      constantGas := params (e_lib E) ''ExtcodeCopyBaseFrontier'',
      dynamicGas := Some gasExtCodeCopy, memorySize := Some (memoryExtCodeCopy (e_lib E))\<rparr>)"
    unfolding gasExtCodeCopy_def
    by (rule priced_new [OF _ memoryCopierGas_ok [of 3]], simp add: new_op_def, rule exec_opExtCodeCopy)
      (simp_all add: new_op_def opcode_defs step_price memory_table_defs)
  show ?thesis
    unfolding frontier_context_def list.pred_inject prod.case
    by (intro conjI; (rule sha3 calldata codecopy extcode list.pred_inject(1) |
          rule plain_new, rule exec_plain, rule step_price, simp add: opcode_defs))
qed

lemma flow_ok: "list_all (\<lambda>(op, oper). oper_ok E V op oper) (frontier_flow (e_lib E))"
proof -
  have mload: "oper_ok E V OP_MLOAD ((new_op (e_lib E) opMload 1 1)\<lparr>constantGas := GasFastestStep,
      dynamicGas := Some gasMLoad, memorySize := Some (memoryMLoad (e_lib E))\<rparr>)"
    unfolding gasMLoad_def
    by (rule priced_new [OF _ pureMemoryGascost_ok], simp add: new_op_def, rule exec_opMload)
      (simp_all add: new_op_def opcode_defs step_price memory_table_defs)
  have mstore: "oper_ok E V OP_MSTORE ((new_op (e_lib E) opMstore 2 0)\<lparr>constantGas := GasFastestStep,
      dynamicGas := Some gasMStore, memorySize := Some (memoryMStore (e_lib E))\<rparr>)"
    unfolding gasMStore_def
    by (rule priced_new [OF _ pureMemoryGascost_ok], simp add: new_op_def, rule exec_opMstore)
      (simp_all add: new_op_def opcode_defs step_price memory_table_defs)
  have mstore8: "oper_ok E V OP_MSTORE8 ((new_op (e_lib E) opMstore8 2 0)\<lparr>constantGas := GasFastestStep,
      dynamicGas := Some gasMStore8, memorySize := Some (memoryMStore8 (e_lib E))\<rparr>)"
    unfolding gasMStore8_def
    by (rule priced_new [OF _ pureMemoryGascost_ok], simp add: new_op_def, rule exec_opMstore8)
      (simp_all add: new_op_def opcode_defs step_price memory_table_defs)
  have sstore: "oper_ok E V OP_SSTORE ((new_op (e_lib E) opSstore 2 0)\<lparr>dynamicGas := Some gasSStore, op_writes := True\<rparr>)"
    unfolding new_op_def
    by (rule priced_new [OF _ gasSStore_ok], simp add: new_op_def, rule exec_opSstore)
      (simp_all add: new_op_def opcode_defs step_price memory_table_defs writes_on_def [abs_def])
  show ?thesis
    unfolding frontier_flow_def list.pred_inject prod.case
    by (intro conjI; (rule mload mstore mstore8 sstore list.pred_inject(1) |
          rule plain_new oper_ok_jumps [OF plain_new], rule exec_plain, rule step_price, simp add: opcode_defs))
qed

lemma ops_map_ok:
  "(\<And>n. n \<in> set xs \<Longrightarrow> oper_ok E V (f n) (g n)) \<Longrightarrow>
   list_all (\<lambda>(op, oper). oper_ok E V op oper) (map (\<lambda>n. (f n, g n)) xs)"
  by (simp add: list_all_iff)

lemma stack_ok:
  "list_all (\<lambda>(op, oper). oper_ok E V op oper) (frontier_push (e_lib E))"
  "list_all (\<lambda>(op, oper). oper_ok E V op oper) (frontier_dup (e_lib E))"
  "list_all (\<lambda>(op, oper). oper_ok E V op oper) (frontier_swap (e_lib E))"
proof -
  have range: "i < 32 \<Longrightarrow> OP_PUSH1 + of_nat i \<notin> {OP_CALL, OP_STOP, OP_EXP, OP_SSTORE}"
    "i < 16 \<Longrightarrow> OP_DUP1 + of_nat i \<notin> {OP_CALL, OP_STOP, OP_EXP, OP_SSTORE}"
    "i < 16 \<Longrightarrow> OP_SWAP1 + of_nat i \<notin> {OP_CALL, OP_STOP, OP_EXP, OP_SSTORE}" for i
  proof -
    have l: "list_all (\<lambda>i. OP_PUSH1 + of_nat i \<notin> {OP_CALL, OP_STOP, OP_EXP, OP_SSTORE}) [0..<32]"
      "list_all (\<lambda>i. OP_DUP1 + of_nat i \<notin> {OP_CALL, OP_STOP, OP_EXP, OP_SSTORE}) [0..<16]"
      "list_all (\<lambda>i. OP_SWAP1 + of_nat i \<notin> {OP_CALL, OP_STOP, OP_EXP, OP_SSTORE}) [0..<16]"
      by (simp_all add: opcode_defs upt_rec)
    show "i < 32 \<Longrightarrow> OP_PUSH1 + of_nat i \<notin> {OP_CALL, OP_STOP, OP_EXP, OP_SSTORE}"
      "i < 16 \<Longrightarrow> OP_DUP1 + of_nat i \<notin> {OP_CALL, OP_STOP, OP_EXP, OP_SSTORE}"
      "i < 16 \<Longrightarrow> OP_SWAP1 + of_nat i \<notin> {OP_CALL, OP_STOP, OP_EXP, OP_SSTORE}"
      using l unfolding list_all_iff set_upt by (meson atLeastLessThan_iff le0)+
  qed
  have "oper_ok E V (OP_PUSH1 + of_nat (n - 1)) ((new_op (e_lib E) (makePush (of_nat n) n) 0 1)\<lparr>constantGas := GasFastestStep\<rparr>)"
    if "n \<in> set [2..<33]" for n
    by (rule plain_new [OF exec_makePush step_price(2) range(1)]) (use that in auto)
  moreover have "oper_ok E V OP_PUSH1 ((new_op (e_lib E) opPush1 0 1)\<lparr>constantGas := GasFastestStep\<rparr>)"
    by (rule plain_new [OF exec_opPush1 step_price(2)]) (simp add: opcode_defs)
  ultimately show "list_all (\<lambda>(op, oper). oper_ok E V op oper) (frontier_push (e_lib E))"
    unfolding frontier_push_def list.pred_inject prod.case by (intro conjI ops_map_ok)
  have dup: "oper_ok E V op ((new_op (e_lib E) (makeDup n) 0 0)\<lparr>constantGas := GasFastestStep,
        op_minStack := minDupStack n, op_maxStack := maxDupStack (e_lib E) n\<rparr>)"
    if "op \<notin> {OP_CALL, OP_STOP, OP_EXP, OP_SSTORE}" "1 \<le> n" for n op
    by (rule plain_oper [where pops = "n" and pushes = "n + 1"])
      (use that exec_makeDup in \<open>simp_all add: limits_ok_def minDupStack_def maxDupStack_def
        minStack_def max_stack [OF lib] new_op_def step_price\<close>)
  show "list_all (\<lambda>(op, oper). oper_ok E V op oper) (frontier_dup (e_lib E))"
    unfolding frontier_dup_def
    by (rule ops_map_ok, rule dup [OF range(2)]) auto
  have swap: "oper_ok E V op ((new_op (e_lib E) (makeSwap n) 0 0)\<lparr>constantGas := GasFastestStep,
        op_minStack := minSwapStack (n + 1), op_maxStack := maxSwapStack (e_lib E) (n + 1)\<rparr>)"
    if "op \<notin> {OP_CALL, OP_STOP, OP_EXP, OP_SSTORE}" "1 \<le> n" for n op
    by (rule plain_oper [where pops = "n + 1" and pushes = "n + 1"])
      (use that exec_makeSwap in \<open>simp_all add: limits_ok_def minSwapStack_def maxSwapStack_def
        minStack_def max_stack [OF lib] new_op_def step_price\<close>)
  show "list_all (\<lambda>(op, oper). oper_ok E V op oper) (frontier_swap (e_lib E))"
    unfolding frontier_swap_def
    by (rule ops_map_ok, rule swap [OF range(3)]) auto
qed

lemma log_ok:
  assumes "op \<notin> {OP_CALL, OP_STOP, OP_EXP, OP_SSTORE}" "pops = k + 2"
  shows "oper_ok E V op ((new_op (e_lib E) (makeLog k) pops 0)\<lparr>dynamicGas := Some (makeGasLog n),
     memorySize := Some (memoryLog (e_lib E)), op_writes := True\<rparr>)"
  unfolding assms(2)
  by (rule priced_new [OF _ makeGasLog_ok], simp add: new_op_def, rule exec_makeLog [simplified])
    (use assms(1) in \<open>simp_all add: new_op_def memory_table_defs writes_on_def [abs_def]\<close>)

lemma system_ok: "list_all (\<lambda>(op, oper). oper_ok E V op oper) (frontier_system (e_lib E))"
proof -
  have create: "oper_ok E V OP_CREATE ((new_op (e_lib E) opCreate 3 1)\<lparr>constantGas := params (e_lib E) ''CreateGas'',
      dynamicGas := Some gasCreate, memorySize := Some (memoryCreate (e_lib E)), op_writes := True, op_returns := True\<rparr>)"
    unfolding gasCreate_def
    by (rule priced_new [OF _ pureMemoryGascost_ok], simp add: new_op_def, rule exec_opCreate)
      (simp_all add: new_op_def opcode_defs step_price memory_table_defs writes_on_def [abs_def] ends_def)
  have call: "oper_ok E V OP_CALL ((new_op (e_lib E) opCall 7 1)\<lparr>constantGas := params (e_lib E) ''CallGasFrontier'',
      dynamicGas := Some gasCall, memorySize := Some (memoryCall (e_lib E)), op_returns := True\<rparr>)"
    by (rule priced_new [OF _ gasCall_ok], simp add: new_op_def, rule exec_opCall)
      (simp_all add: new_op_def opcode_defs step_price memory_table_defs writes_on_def [abs_def] ends_def)
  have callcode: "oper_ok E V OP_CALLCODE ((new_op (e_lib E) opCallCode 7 1)\<lparr>constantGas := params (e_lib E) ''CallGasFrontier'',
      dynamicGas := Some gasCallCode, memorySize := Some (memoryCall (e_lib E)), op_returns := True\<rparr>)"
    by (rule priced_new [OF _ gasCallCode_ok], simp add: new_op_def, rule exec_opCallCode)
      (simp_all add: new_op_def opcode_defs step_price memory_table_defs ends_def)
  have ret: "oper_ok E V OP_RETURN ((new_op (e_lib E) opReturn 2 0)\<lparr>dynamicGas := Some gasReturn,
      memorySize := Some (memoryReturn (e_lib E)), op_halts := True\<rparr>)"
    unfolding gasReturn_def
    by (rule priced_new [OF _ pureMemoryGascost_ok], simp add: new_op_def, rule exec_return_data(1) [where h = True])
      (simp_all add: new_op_def opcode_defs step_price memory_table_defs ends_def)
  have destruct: "oper_ok E V OP_SELFDESTRUCT ((new_op (e_lib E) opSuicide 1 0)\<lparr>dynamicGas := Some gasSelfdestruct,
      op_halts := True, op_writes := True\<rparr>)"
    by (rule priced_new [OF _ gasSelfdestruct_ok], simp add: new_op_def, rule exec_opSuicide [where h = True and ms = None])
      (simp_all add: new_op_def opcode_defs step_price memory_table_defs writes_on_def [abs_def] ends_def)
  show ?thesis
    unfolding frontier_system_def list.pred_inject prod.case
    by (intro conjI; (rule create call callcode ret destruct list.pred_inject(1) | rule log_ok; simp add: opcode_defs))
qed

lemma frontier_ok: "table_ok E V (newFrontierInstructionSet (e_lib E))"
  unfolding newFrontierInstructionSet_def
  by (rule table_ok_map_of) (simp add: arith_ok context_ok flow_ok stack_ok system_ok)

lemma delegatecall_ok: "oper_ok E V OP_DELEGATECALL ((new_op (e_lib E) opDelegateCall 6 1)\<lparr>dynamicGas := Some gasDelegateCall,
    constantGas := params (e_lib E) ''CallGasFrontier'', memorySize := Some (memoryDelegateCall (e_lib E)), op_returns := True\<rparr>)"
  by (rule priced_new [OF _ gasDelegateCall_ok], simp add: new_op_def, rule exec_opDelegateCall)
    (simp_all add: new_op_def opcode_defs step_price memory_table_defs ends_def)

lemma staticcall_ok: "oper_ok E V OP_STATICCALL ((new_op (e_lib E) opStaticCall 6 1)\<lparr>constantGas := params (e_lib E) ''CallGasEIP150'',
    dynamicGas := Some gasStaticCall, memorySize := Some (memoryStaticCall (e_lib E)), op_returns := True\<rparr>)"
  by (rule priced_new [OF _ gasStaticCall_ok], simp add: new_op_def, rule exec_opStaticCall)
    (simp_all add: new_op_def opcode_defs step_price memory_table_defs ends_def)

lemma returndatacopy_ok: "oper_ok E V OP_RETURNDATACOPY ((new_op (e_lib E) opReturnDataCopy 3 0)\<lparr>constantGas := GasFastestStep,
    dynamicGas := Some gasReturnDataCopy, memorySize := Some (memoryReturnDataCopy (e_lib E))\<rparr>)"
  unfolding gasReturnDataCopy_def
  by (rule priced_new [OF _ memoryCopierGas_ok [of 2]], simp add: new_op_def, rule exec_opReturnDataCopy)
    (simp_all add: new_op_def opcode_defs step_price memory_table_defs)

lemma revert_ok: "oper_ok E V OP_REVERT ((new_op (e_lib E) opRevert 2 0)\<lparr>dynamicGas := Some gasRevert,
    memorySize := Some (memoryRevert (e_lib E)), op_reverts := True, op_returns := True\<rparr>)"
  unfolding gasRevert_def
  by (rule priced_new [OF _ pureMemoryGascost_ok], simp add: new_op_def, rule exec_return_data(2) [where h = True])
    (simp_all add: new_op_def opcode_defs step_price memory_table_defs ends_def)

lemma create2_ok: "oper_ok E V OP_CREATE2 ((new_op (e_lib E) opCreate2 4 1)\<lparr>constantGas := params (e_lib E) ''Create2Gas'',
    dynamicGas := Some gasCreate2, memorySize := Some (memoryCreate2 (e_lib E)), op_writes := True, op_returns := True\<rparr>)"
  unfolding gasCreate2_def
  by (rule priced_new [OF _ hash_words_gas_ok [of 2]], simp add: new_op_def, rule exec_opCreate2)
    (simp_all add: new_op_def opcode_defs step_price memory_table_defs writes_on_def [abs_def] ends_def)

lemma exp_gas_ok: "gas_ok E V 2 (OP_EXP = OP_SSTORE) False True no_credit gasExpEIP158"
  using gasExp_ok by (simp add: gasExpEIP158_def opcode_defs)

lemma homestead_ok: "table_ok E V (newHomesteadInstructionSet (e_lib E))"
  unfolding newHomesteadInstructionSet_def by (intro table_ok_upd frontier_ok delegatecall_ok)

lemma set_constantGas_ok: "table_ok E V jt \<Longrightarrow> 0 < g \<Longrightarrow> built_ok E V (set_constantGas op g jt)"
  by (auto simp: built_ok_def intro: table_ok_constantGas)

lemma set_dynamicGas_ok:
  "table_ok E V jt \<Longrightarrow> op = OP_EXP \<or> op = OP_SSTORE \<Longrightarrow>
   gas_ok E V 2 (op = OP_SSTORE) False True no_credit f \<Longrightarrow> built_ok E V (set_dynamicGas op f jt)"
  by (auto simp: built_ok_def intro: table_ok_dynamicGas)

lemma tangerine_ok: "built_ok E V (newTangerineWhistleInstructionSet (e_lib E))"
  unfolding newTangerineWhistleInstructionSet_def Let_def
  by (intro built_ok_bind set_constantGas_ok homestead_ok step_price; assumption)

lemma spurious_ok: "built_ok E V (newSpuriousDragonInstructionSet (e_lib E))"
  unfolding newSpuriousDragonInstructionSet_def
  by (intro built_ok_bind tangerine_ok set_dynamicGas_ok exp_gas_ok; simp)

lemma byzantium_ok: "built_ok E V (newByzantiumInstructionSet (e_lib E))"
  unfolding newByzantiumInstructionSet_def
  by (rule built_ok_bind [OF spurious_ok], rule built_ok_Some)
    (intro table_ok_upd staticcall_ok returndatacopy_ok revert_ok plain_new exec_plain step_price;
      simp add: opcode_defs)

lemma constantinople_ok: "built_ok E V (newConstantinopleInstructionSet (e_lib E))"
  unfolding newConstantinopleInstructionSet_def
  by (rule built_ok_bind [OF byzantium_ok], rule built_ok_Some)
    (intro table_ok_upd create2_ok plain_new exec_plain step_price; simp add: opcode_defs)

text \<open>The EIPs.\<close>

lemma enable_ok:
  assumes "table_ok E V jt"
  shows "built_ok E V (enable1884 (e_lib E) jt)" "built_ok E V (enable1344 (e_lib E) jt)"
    "built_ok E V (enable2200 (e_lib E) jt)" "built_ok E V (enable2315 (e_lib E) jt)"
proof -
  have new: "oper_ok E V OP_SELFBALANCE ((new_op (e_lib E) opSelfBalance 0 1)\<lparr>constantGas := GasFastStep\<rparr>)"
    "oper_ok E V OP_CHAINID ((new_op (e_lib E) opChainID 0 1)\<lparr>constantGas := GasQuickStep\<rparr>)"
    "oper_ok E V OP_BEGINSUB ((new_op (e_lib E) opBeginSub 0 0)\<lparr>constantGas := GasQuickStep\<rparr>)"
    "oper_ok E V OP_JUMPSUB ((new_op (e_lib E) opJumpSub 1 0)\<lparr>constantGas := GasSlowStep, op_jumps := True\<rparr>)"
    "oper_ok E V OP_RETURNSUB ((new_op (e_lib E) opReturnSub 0 0)\<lparr>constantGas := GasFastStep, op_jumps := True\<rparr>)"
    by (intro oper_ok_jumps plain_new exec_plain step_price; simp add: opcode_defs)+
  show "built_ok E V (enable1884 (e_lib E) jt)"
    unfolding enable1884_def
    by (intro built_ok_bind set_constantGas_ok built_ok_Some table_ok_upd new step_price assms; assumption)
  show "built_ok E V (enable1344 (e_lib E) jt)"
    unfolding enable1344_def by (intro built_ok_Some table_ok_upd new assms)
  show "built_ok E V (enable2200 (e_lib E) jt)"
    unfolding enable2200_def
    by (intro built_ok_bind set_constantGas_ok set_dynamicGas_ok step_price assms) (simp_all add: gasSStoreEIP2200_ok)
  show "built_ok E V (enable2315 (e_lib E) jt)"
    unfolding enable2315_def by (intro built_ok_Some table_ok_upd new assms)
qed

lemma istanbul_ok: "built_ok E V (newIstanbulInstructionSet (e_lib E))"
  unfolding newIstanbulInstructionSet_def
  by (intro built_ok_bind [OF constantinople_ok] built_ok_bind enable_ok; assumption)

lemma fork_table_ok: "built_ok E V (fork_table (e_lib E) r)"
  unfolding fork_table_def
  by (simp add: istanbul_ok constantinople_ok byzantium_ok spurious_ok tangerine_ok homestead_ok frontier_ok
      built_ok_Some)

lemma EnableEIP_ok:
  assumes "table_ok E V jt" "EnableEIP (e_lib E) n jt = Some (Inr jt')"
  shows "table_ok E V jt'"
proof -
  obtain f where f: "activators (e_lib E) n = Some f" "f jt = Some jt'"
    using assms(2) by (auto simp: EnableEIP_def split: option.splits)
  then have "f \<in> {enable2200 (e_lib E), enable1884 (e_lib E), enable1344 (e_lib E), enable2315 (e_lib E)}"
    by (auto simp: activators_def split: if_splits)
  with f(2) enable_ok [OF assms(1)] show ?thesis by (auto simp: built_ok_def)
qed

lemma enable_extra_ok:
  "table_ok E V jt \<Longrightarrow> enable_extra (e_lib E) k i arr len jt = Some (eips, jt') \<Longrightarrow> table_ok E V jt'"
proof (induction k arbitrary: i arr len jt)
  case (Suc k)
  then obtain r where r: "EnableEIP (e_lib E) (arr ! i) jt = Some r"
    by (auto simp: bind_eq_Some_conv)
  show ?case
  proof (cases r)
    case (Inl e)
    with r Suc show ?thesis by (auto split: if_splits)
  next
    case (Inr jt1)
    with r have "table_ok E V jt1" using EnableEIP_ok [OF Suc.prems(1)] by simp
    with r Inr Suc show ?thesis by auto
  qed
qed simp

lemma interpreter_table_ok:
  "NewEVMInterpreter (e_lib E) r Map.empty extra = Some jt \<Longrightarrow> table_ok E V jt"
  using fork_table_ok [of r] enable_extra_ok
  by (auto simp: NewEVMInterpreter_def bind_eq_Some_conv built_ok_def)

end

end
