(* ===== verification/Evm_Machine.thy ===== *)
theory Evm_Machine
  imports Evm_Tables
begin

text \<open>
  The machine as a whole. One turn of the loop keeps the frame invariant and costs gas unless it
  ends the run, so as many turns as there is gas, and one more, are enough for the run and for
  every call it makes. The entry points of the machine inherit the contract: they return, hand back
  at most the gas they were given, restore the saved state if they fail, and change nothing in
  read-only mode.
\<close>

section \<open>A turn of the loop\<close>

definition step_post :: "'d env \<Rightarrow> ('d, 's) db_view \<Rightarrow> 'd mach \<Rightarrow> 'd step_result \<Rightarrow> bool" where
  "step_post E V m r \<longleftrightarrow> (case r of
     Continue m' \<Rightarrow> frame_ok E V m' \<and> evm_rel E V (m_evm m) (m_evm m') \<and>
       unat (c_Gas (m_con m')) < unat (c_Gas (m_con m))
   | Finish ret err m' \<Rightarrow> evm_rel E V (m_evm m) (m_evm m') \<and> c_Gas (m_con m') \<le> c_Gas (m_con m) \<and>
       (err = None \<longrightarrow> length ret < 2 ^ 63))"

lemma step_fail_ok:
  "evm_rel E V (m_evm m) (m_evm m') \<Longrightarrow> c_Gas (m_con m') \<le> c_Gas (m_con m) \<Longrightarrow>
   \<exists>r. step_fail err m' = Some r \<and> step_post E V m r"
  by (simp add: step_fail_def step_post_def)

lemma UseGas_Some:
  assumes "UseGas c g = Some c'"
  shows "c' = c\<lparr>c_Gas := c_Gas c - g\<rparr>" "unat (c_Gas c') + unat g = unat (c_Gas c)" "c_Gas c' \<le> c_Gas c"
  using assms by (auto simp: UseGas_def word_less_nat_alt word_le_nat_alt unat_sub split: if_splits)

lemma GetOp_inside: "length (c_Code c) < 2 ^ 63 \<Longrightarrow> GetOp c n \<noteq> OP_STOP \<Longrightarrow> unat n < length (c_Code c)"
  by (auto simp: GetOp_def GetByte_def opcode_defs word_less_nat_alt unat_of_len split: if_splits)

lemma toWordSize_cover:
  assumes "unat (toWordSize v) * 32 < 2 ^ 64"
  shows "unat v \<le> unat (toWordSize v * 32)"
proof (cases "v > MaxUint64 - 31")
  case True
  then have "unat (toWordSize v) = 0x800000000000000" by (simp add: toWordSize_def)
  with assms show ?thesis by simp
next
  case False
  then have v: "unat v + 31 < 2 ^ 64" by (simp add: word_less_nat_alt)
  then have "unat (v + 31) = unat v + 31" by (simp add: unat_word_ariths)
  then have w: "unat (toWordSize v) = (unat v + 31) div 32"
    using False by (simp add: toWordSize_def unat_div)
  have "unat (toWordSize v * 32) = unat (toWordSize v) * 32"
    using assms by (simp add: unat_word_ariths)
  with w show ?thesis by linarith
qed

context evm_db
begin

lemma required_memory_ok:
  assumes "size_ok pops (memorySize oper)" "pops \<le> length st"
  shows "\<exists>r. required_memory E oper st = Some r \<and> (\<forall>sz. r = Inr sz \<longrightarrow>
     (\<forall>f. memorySize oper = Some f \<longrightarrow> (\<exists>v. f st = Some (v, False) \<and> unat v \<le> unat sz)) \<and>
     (memorySize oper = None \<longrightarrow> sz = 0))"
proof (cases "memorySize oper")
  case None
  then show ?thesis by (simp add: required_memory_def)
next
  case (Some f)
  then obtain v b where v: "f st = Some (v, b)"
    using assms by (cases "f st") (auto simp: size_ok_def)
  show ?thesis
  proof (cases b)
    case True
    with Some v show ?thesis by (simp add: required_memory_def)
  next
    case False
    with Some v toWordSize_cover [of v] show ?thesis
      by (auto simp: required_memory_def no_overflow_Inr L not_le)
  qed
qed

lemma charge_dynamic_ok:
  assumes "dynamic_ok E V pops cr oper" "evm_ok E V (m_evm m)" "pops \<le> length (m_stack m)"
    and "op_writes oper \<longrightarrow> \<not> ro_mode E (m_evm m)"
  shows "\<exists>err m'. charge_dynamic E oper m sz = Some (err, m') \<and>
     m_stack m' = m_stack m \<and> m_pc m' = m_pc m \<and> store (m_mem m') = store (m_mem m) \<and>
     m_con m' = (m_con m)\<lparr>c_Gas := c_Gas (m_con m')\<rparr> \<and> evm_rel E V (m_evm m) (m_evm m') \<and>
     c_Gas (m_con m') \<le> c_Gas (m_con m) \<and>
     (err = None \<longrightarrow> (memorySize oper \<noteq> None \<longrightarrow> unat sz \<le> memLimit) \<and>
        unat (c_Gas (m_con m')) + cr (m_stack m) (m_evm m') \<le> unat (c_Gas (m_con m)) \<and>
        (0 < constantGas oper \<or> ends oper \<or>
         unat (c_Gas (m_con m')) + cr (m_stack m) (m_evm m') < unat (c_Gas (m_con m))))"
proof (cases "dynamicGas oper")
  case None
  with assms show ?thesis by (auto simp: charge_dynamic_def dynamic_ok_def no_credit_def)
next
  case (Some f)
  then obtain mem pos where f: "gas_ok E V pops (op_writes oper) mem pos cr f"
      "memorySize oper \<noteq> None \<longrightarrow> mem" "0 < constantGas oper \<or> pos \<or> ends oper"
    using assms(1) by (auto simp: dynamic_ok_def)
  obtain r ev mm where r: "f E (m_evm m) (m_con m) (m_stack m) (m_mem m) sz = Some (r, ev, mm)"
      "store mm = store (m_mem m)" "evm_rel E V (m_evm m) ev"
      "\<And>cost. r = Inr cost \<Longrightarrow> (mem \<longrightarrow> unat sz \<le> memLimit) \<and> cr (m_stack m) ev \<le> unat cost \<and>
         (pos \<longrightarrow> cr (m_stack m) ev < unat cost)"
    using gas_okD [OF f(1) assms(2,3,4)] by blast
  show ?thesis
  proof (cases r)
    case (Inl e)
    with Some r show ?thesis by (simp add: charge_dynamic_def)
  next
    case (Inr cost)
    note cost = r(4) [OF Inr]
    show ?thesis
    proof (cases "UseGas (m_con m) cost")
      case None
      with Some r Inr show ?thesis by (simp add: charge_dynamic_def)
    next
      case use: (Some c)
      note u = UseGas_Some [OF use]
      have "unat (c_Gas c) + cr (m_stack m) ev \<le> unat (c_Gas (m_con m))" using u(2) cost by linarith
      moreover have "0 < constantGas oper \<or> ends oper \<or> unat (c_Gas c) + cr (m_stack m) ev < unat (c_Gas (m_con m))"
        using u(2) cost f(3) by linarith
      moreover have "charge_dynamic E oper m sz = Some (None, m\<lparr>m_evm := ev, m_mem := mm, m_con := c\<rparr>)"
        using Some r(1) Inr use by (simp add: charge_dynamic_def)
      ultimately show ?thesis using r(2,3) u cost f(2) by auto
    qed
  qed
qed

lemma write_forbidden_ok:
  assumes "op = OP_CALL \<longrightarrow> 3 \<le> length (m_stack m)"
  shows "\<exists>b. write_forbidden E op oper m = Some b \<and>
     (\<not> b \<longrightarrow> ro_mode E (m_evm m) \<longrightarrow> \<not> writes_on op oper (m_stack m))"
  using assms by (auto simp: write_forbidden_def ro_mode_def writes_on_def L)

lemma resize_ok:
  assumes "unat sz \<le> memLimit" "length (store m) \<le> memLimit"
  shows "length (store (mem_Resize m sz)) = max (length (store m)) (unat sz)"
proof -
  have u: "unat (of_nat (length (store m)) :: u64) = length (store m)"
    using assms(2) by (intro unat_of_len) simp
  show ?thesis
    by (auto simp: mem_Resize_def mem_Len_def word_less_nat_alt u unat_sub word_le_nat_alt max_def)
qed

lemma after_execute_ok:
  assumes "exec_post E V cr (ends oper) m1 r" "evm_rel E V (m_evm m) (m_evm m1)"
    and "unat (c_Gas (m_con m1)) + cr (m_stack m1) (m_evm m1) \<le> unat (c_Gas (m_con m))"
    and "ends oper \<or> unat (c_Gas (m_con m1)) + cr (m_stack m1) (m_evm m1) < unat (c_Gas (m_con m))"
  shows "step_post E V m (after_execute oper r)"
proof -
  obtain m' res err where r: "r = (m', res, err)" by (cases r)
  define m2 where "m2 = (if op_returns oper then m'\<lparr>m_evm := (m_evm m')\<lparr>returnData := res\<rparr>\<rparr> else m')"
  have p: "frame_ok E V m'" "evm_rel E V (m_evm m1) (m_evm m')"
    "unat (c_Gas (m_con m')) \<le> unat (c_Gas (m_con m1)) + cr (m_stack m1) (m_evm m1)"
    "ends oper \<Longrightarrow> length res < 2 ^ 63"
    using assms(1) by (simp_all add: exec_post_def r)
  have m2: "frame_ok E V m2" "evm_rel E V (m_evm m) (m_evm m2)" "m_con m2 = m_con m'"
    using p(1) evm_rel_trans [OF assms(2) p(2)] by (simp_all add: m2_def frame_ok_def)
  have g: "unat (c_Gas (m_con m')) \<le> unat (c_Gas (m_con m))"
    "\<not> ends oper \<Longrightarrow> unat (c_Gas (m_con m')) < unat (c_Gas (m_con m))"
    using p(3) assms(3,4) by linarith+
  have "frame_ok E V (m2\<lparr>m_pc := x\<rparr>)" for x using m2(1) by (simp add: frame_ok_def)
  moreover have "after_execute oper r = (case err of
       Some e \<Rightarrow> Finish [] (Some e) m2
     | None \<Rightarrow> if op_reverts oper then Finish res (Some ErrExecutionReverted) m2
         else if op_halts oper then Finish res None m2
         else if \<not> op_jumps oper then Continue (m2\<lparr>m_pc := m_pc m2 + 1\<rparr>)
         else Continue m2)"
    unfolding after_execute_def r prod.case m2_def Let_def ..
  ultimately show ?thesis using m2 g p(4)
    by (cases err) (auto simp: step_post_def ends_def word_le_nat_alt)
qed

text \<open>From the constant price on: the memory is sized, the dynamic price paid, the instruction run.\<close>

lemma charged_step_ok:
  assumes o: "oper_with E V op pops pushes cr oper" and C: "calls_ok n E V C" and fr: "frame_ok E V m"
    and gas: "unat (c_Gas (m_con m)) < Suc n"
    and len: "pops \<le> length (m_stack m)" "length (m_stack m) + pushes \<le> 1024 + pops"
    and ro: "ro_mode E (m_evm m) \<longrightarrow> \<not> writes_on op oper (m_stack m)"
    and pc: "ends oper \<or> unat (m_pc m) < length (c_Code (m_con m))"
    and use: "UseGas (m_con m) (constantGas oper) = Some c"
    and req: "\<forall>f. memorySize oper = Some f \<longrightarrow> (\<exists>v. f (m_stack m) = Some (v, False) \<and> unat v \<le> unat sz)"
      "memorySize oper = None \<Longrightarrow> sz = 0"
  shows "\<exists>r. do {
       (err, m) \<leftarrow> charge_dynamic E oper (m\<lparr>m_con := c\<rparr>) sz;
       case err of
         Some err \<Rightarrow> step_fail err m
       | None \<Rightarrow> do {
           let m = (if sz > 0 then m\<lparr>m_mem := mem_Resize (m_mem m) sz\<rparr> else m);
           r \<leftarrow> execute oper E C m;
           Some (after_execute oper r)
         }
     } = Some r \<and> step_post E V m r"
proof -
  note o = o [unfolded oper_with_def]
  note u = UseGas_Some [OF use]
  let ?m = "m\<lparr>m_con := c\<rparr>"
  have ev: "evm_ok E V (m_evm ?m)" using fr by (simp add: frame_ok_def)
  have w: "op_writes oper \<longrightarrow> \<not> ro_mode E (m_evm ?m)" using ro by (auto simp: writes_on_def)
  obtain err m1 where d: "charge_dynamic E oper ?m sz = Some (err, m1)" "m_stack m1 = m_stack m"
      "m_pc m1 = m_pc m" "store (m_mem m1) = store (m_mem m)" "m_con m1 = c\<lparr>c_Gas := c_Gas (m_con m1)\<rparr>"
      "evm_rel E V (m_evm m) (m_evm m1)" "c_Gas (m_con m1) \<le> c_Gas c"
    and paid: "err = None \<Longrightarrow> (memorySize oper \<noteq> None \<longrightarrow> unat sz \<le> memLimit) \<and>
        unat (c_Gas (m_con m1)) + cr (m_stack m) (m_evm m1) \<le> unat (c_Gas c) \<and>
        (0 < constantGas oper \<or> ends oper \<or>
         unat (c_Gas (m_con m1)) + cr (m_stack m) (m_evm m1) < unat (c_Gas c))"
    using charge_dynamic_ok [of pops cr oper ?m sz] o ev len(1) w by auto
  show ?thesis
  proof (cases err)
    case (Some e)
    with step_fail_ok [OF d(6), of e] d(1,7) u(3) show ?thesis by simp
  next
    case None
    note paid = paid [OF None]
    define m2 where "m2 = (if sz > 0 then m1\<lparr>m_mem := mem_Resize (m_mem m1) sz\<rparr> else m1)"
    have m2: "m_stack m2 = m_stack m" "m_pc m2 = m_pc m" "m_evm m2 = m_evm m1" "m_con m2 = m_con m1"
      using d(2,3) by (simp_all add: m2_def)
    have sz: "unat sz \<le> memLimit" using paid req(2) by (cases "memorySize oper") auto
    have "length (store (m_mem m)) \<le> memLimit" using fr by (simp add: frame_ok_def)
    then have mem: "length (store (m_mem m2)) \<le> memLimit" "unat sz \<le> length (store (m_mem m2))"
      using resize_ok [OF sz, of "m_mem m1"] d(4) sz by (auto simp: m2_def word_neq_0_conv [symmetric])
    have code: "m_con m1 = (m_con m)\<lparr>c_Gas := c_Gas (m_con m1)\<rparr>" using d(5) u(1) by simp
    have cost: "unat (c_Gas (m_con m1)) + cr (m_stack m) (m_evm m1) \<le> unat (c_Gas (m_con m))"
      "ends oper \<or> unat (c_Gas (m_con m1)) + cr (m_stack m) (m_evm m1) < unat (c_Gas (m_con m))"
      using paid u(2) by (auto simp: word_less_nat_alt)
    have "con_ok (e_lib E) (m_con m1)" using fr code con_ok_gas unfolding frame_ok_def by metis
    with fr mem(1) d(2) evm_rel_ok [OF d(6)] have "frame_ok E V m2"
      by (simp add: frame_ok_def m2)
    moreover have "mem_ready (memorySize oper) (m_stack m2) (m_mem m2)"
      unfolding mem_ready_def using req(1) mem(2) m2(1) by fastforce
    moreover have "ro_mode E (m_evm m2) \<longrightarrow> \<not> writes_on op oper (m_stack m2)"
      using ro ro_mode_rel [OF d(6)] m2 by simp
    moreover have "ends oper \<or> unat (m_pc m2) < length (c_Code (m_con m2))"
      using pc code m2 by (metis contract.select_convs(5) contract.surjective contract.update_convs(9))
    moreover have "unat (c_Gas (m_con m2)) + cr (m_stack m2) (m_evm m2) < min (if ends oper then 2 ^ 64 else n) (2 ^ 64)"
      using cost gas m2 unsigned_less [where 'a = nat, of "c_Gas (m_con m)"] by auto
    ultimately have "exec_pre E V n pops pushes (writes_on op oper) (memorySize oper) cr (ends oper) m2"
      using len m2 by (simp add: exec_pre_def)
    then obtain r where r: "execute oper E C m2 = Some r" "exec_post E V cr (ends oper) m2 r"
      using o C unfolding exec_ok_def by blast
    have "step_post E V m (after_execute oper r)"
      by (rule after_execute_ok [OF r(2)]) (use d(6) cost m2 in simp_all)
    with d(1) None r(1) show ?thesis by (simp add: m2_def [symmetric])
  qed
qed

lemma interp_step_ok:
  assumes tab: "table_ok E V jt" and C: "calls_ok n E V C" and fr: "frame_ok E V m"
    and gas: "unat (c_Gas (m_con m)) < Suc n"
  shows "\<exists>r. interp_step E jt C m = Some r \<and> step_post E V m r"
proof -
  define op where "op = GetOp (m_con m) (m_pc m)"
  let ?st = "m_stack m"
  have ev: "evm_ok E V (m_evm m)" using fr by (simp add: frame_ok_def)
  note same = step_fail_ok [where m = m and m' = m and V = V and E = E]
  show ?thesis
  proof (cases "jt op")
    case None
    with ev same show ?thesis by (simp add: interp_step_def op_def [symmetric] Let_def)
  next
    case (Some oper)
    then obtain pops pushes cr where w: "oper_with E V op pops pushes cr oper"
      using tab Some unfolding table_ok_def oper_ok_def by blast
    note o = w [unfolded oper_with_def limits_ok_def]
    show ?thesis
    proof (cases "int (length ?st) < op_minStack oper \<or> op_maxStack oper < int (length ?st)")
      case True
      with Some ev same show ?thesis by (auto simp: interp_step_def op_def [symmetric] Let_def)
    next
      case False
      then have len: "pops \<le> length ?st" "length ?st + pushes \<le> 1024 + pops" using o by linarith+
      obtain b where b: "write_forbidden E op oper m = Some b"
          "\<not> b \<longrightarrow> ro_mode E (m_evm m) \<longrightarrow> \<not> writes_on op oper ?st"
        using write_forbidden_ok [of op m oper] len o by auto
      show ?thesis
      proof (cases "b \<or> UseGas (m_con m) (constantGas oper) = None")
        case True
        with Some False b(1) ev same show ?thesis
          by (cases b) (auto simp: interp_step_def op_def [symmetric] Let_def)
      next
        case paid: False
        then obtain c where c: "UseGas (m_con m) (constantGas oper) = Some c" "\<not> b" by auto
        obtain req where req: "required_memory E oper ?st = Some req"
            "\<And>sz. req = Inr sz \<Longrightarrow> (\<forall>f. memorySize oper = Some f \<longrightarrow>
               (\<exists>v. f ?st = Some (v, False) \<and> unat v \<le> unat sz)) \<and> (memorySize oper = None \<longrightarrow> sz = 0)"
          using required_memory_ok [of pops oper ?st] o len by auto
        have pc: "ends oper \<or> unat (m_pc m) < length (c_Code (m_con m))"
          using GetOp_inside [OF frame_okD(3) [OF fr]] o by (auto simp: op_def)
        show ?thesis
        proof (cases req)
          case (Inl e)
          have "evm_rel E V (m_evm m) (m_evm (m\<lparr>m_con := c\<rparr>))" using ev by simp
          from step_fail_ok [OF this, of e] UseGas_Some(3) [OF c(1)] Some False b(1) c req(1) Inl show ?thesis
            by (auto simp: interp_step_def op_def [symmetric] Let_def)
        next
          case (Inr sz)
          have r: "\<forall>f. memorySize oper = Some f \<longrightarrow> (\<exists>v. f ?st = Some (v, False) \<and> unat v \<le> unat sz)"
            "memorySize oper = None \<Longrightarrow> sz = 0"
            using req(2) [OF Inr] by auto
          have "ro_mode E (m_evm m) \<longrightarrow> \<not> writes_on op oper ?st" using b(2) c(2) by simp
          from charged_step_ok [OF w C fr gas len this pc c(1) r] Some False b(1) c req(1) Inr show ?thesis
            unfolding interp_step_def op_def [symmetric] Let_def by simp
        qed
      qed
    qed
  qed
qed

lemma loop_turn_ok:
  assumes "table_ok E V jt" "calls_ok n E V C" "frame_ok E V m" "unat (c_Gas (m_con m)) < Suc n"
  shows "\<exists>r. loop_turn E jt C steps m = Some r \<and> step_post E V m r"
proof -
  obtain stop m1 where m1: "(if (steps + 1) mod 1000 = 0 then load_abort m else (False, m)) = (stop, m1)"
    by (cases "if (steps + 1) mod 1000 = 0 then load_abort m else (False, m)")
  then have c: "m_con m1 = m_con m" and ev: "evm_rel E V (m_evm m) (m_evm m1)" and fr: "frame_ok E V m1"
    using assms(3) by (auto simp: load_abort_def frame_ok_def split: if_splits list.splits)
  have "step_post E V m r" if "step_post E V m1 r" for r
    using that c evm_rel_trans [OF ev] by (auto simp: step_post_def split: step_result.splits)
  moreover have "\<exists>r. interp_step E jt C m1 = Some r \<and> step_post E V m1 r"
    using interp_step_ok [OF assms(1,2) fr] assms(4) c by simp
  ultimately show ?thesis
    using c ev unfolding loop_turn_def m1 Let_def prod.case by (auto simp: step_post_def)
qed

end

section \<open>Runs\<close>

definition loop_ok :: "nat \<Rightarrow> 'd env \<Rightarrow> ('d, 's) db_view \<Rightarrow> ('d mach \<Rightarrow> (bytes \<times> evm_err option \<times> 'd mach) option) \<Rightarrow> bool" where
  "loop_ok n E V loop \<longleftrightarrow> (\<forall>m. frame_ok E V m \<longrightarrow> unat (c_Gas (m_con m)) < n \<longrightarrow>
     (\<exists>ret err m'. loop m = Some (ret, err, m') \<and> evm_rel E V (m_evm m) (m_evm m') \<and>
        c_Gas (m_con m') \<le> c_Gas (m_con m) \<and> (err = None \<longrightarrow> length ret < 2 ^ 63)))"

text \<open>A run in a read-only frame, or one that is asked to be read-only, changes nothing.\<close>

definition run_rel :: "'d env \<Rightarrow> ('d, 's) db_view \<Rightarrow> bool \<Rightarrow> 'd evm \<Rightarrow> 'd evm \<Rightarrow> bool" where
  "run_rel E V ro ev ev' \<longleftrightarrow>
     db_rel E V ((readOnly ev \<or> ro) \<and> IsByzantium (e_rules E)) (StateDB ev) (StateDB ev') \<and>
     jd_ok (e_lib E) (jumpdests ev') \<and> depth ev' = depth ev \<and> readOnly ev' = readOnly ev"

definition run_ok :: "nat \<Rightarrow> 'd env \<Rightarrow> ('d, 's) db_view \<Rightarrow> 'd runner \<Rightarrow> bool" where
  "run_ok n E V run \<longleftrightarrow> (\<forall>c ev input ro. con_ok (e_lib E) c \<longrightarrow> evm_ok E V ev \<longrightarrow> length input < 2 ^ 63 \<longrightarrow>
     unat (c_Gas c) < n \<longrightarrow> (\<exists>ret err c' ev'. run c ev input ro = Some (ret, err, c', ev') \<and>
        c_Gas c' \<le> c_Gas c \<and> run_rel E V ro ev ev' \<and> (err = None \<longrightarrow> length ret < 2 ^ 63)))"

lemma run_okD:
  assumes "run_ok n E V run" "con_ok (e_lib E) c" "evm_ok E V ev" "length input < 2 ^ 63" "unat (c_Gas c) < n"
  shows "\<exists>ret err c' ev'. run c ev input ro = Some (ret, err, c', ev') \<and> c_Gas c' \<le> c_Gas c \<and>
     run_rel E V ro ev ev' \<and> (err = None \<longrightarrow> length ret < 2 ^ 63)"
  using assms(1) [unfolded run_ok_def, rule_format, OF assms(2-5)] .

lemma run_rel_refl: "evm_ok E V ev \<Longrightarrow> run_rel E V ro ev ev"
  by (simp add: run_rel_def evm_ok_def db_rel_refl)

lemma Run_with_ok:
  assumes "loop_ok n E V loop"
  shows "run_ok n E V (Run_with loop)"
  unfolding run_ok_def
proof (intro allI impI)
  fix c ev input ro
  assume a: "con_ok (e_lib E) c" "evm_ok E V ev" "length (input :: bytes) < 2 ^ 63" "unat (c_Gas c) < n"
  let ?ev = "ev\<lparr>depth := depth ev + 1, readOnly := (readOnly ev \<or> ro), returnData := []\<rparr>"
  let ?m = "\<lparr>m_pc = 0, m_stack = [], m_rstack = [], m_mem = NewMemory, m_con = c\<lparr>c_Input := input\<rparr>, m_evm = ?ev\<rparr>"
  show "\<exists>ret err c' ev'. Run_with loop c ev input ro = Some (ret, err, c', ev') \<and> c_Gas c' \<le> c_Gas c \<and>
     run_rel E V ro ev ev' \<and> (err = None \<longrightarrow> length ret < 2 ^ 63)"
  proof (cases "c_Code c = []")
    case True
    with a(2) show ?thesis
      by (auto simp: Run_with_def Let_def run_rel_def evm_ok_def db_rel_refl)
  next
    case False
    have "frame_ok E V ?m" using a by (simp add: frame_ok_def con_ok_def NewMemory_def)
    then obtain ret err m' where m': "loop ?m = Some (ret, err, m')" "evm_rel E V ?ev (m_evm m')"
        "c_Gas (m_con m') \<le> c_Gas c" "err = None \<longrightarrow> length ret < 2 ^ 63"
      using assms a(4) unfolding loop_ok_def by force
    with False show ?thesis
      by (auto simp: Run_with_def Let_def run_rel_def evm_rel_def ro_mode_def)
  qed
qed

section \<open>Calls\<close>

lemma precompiled_gas:
  "RunPrecompiledContract p input gas = (ret, g, err) \<Longrightarrow> g \<le> gas"
  by (auto simp: RunPrecompiledContract_def Let_def not_less word_sub_le_iff split: if_splits option.splits sum.splits)

context evm_db
begin

lemma run_code_ok:
  assumes "run_ok n E V run" "evm_ok E V ev" "length input < 2 ^ 63" "unat (c_Gas c) < n"
    and "c_analysis c = None" "c_Input c = []"
  shows "\<exists>ret g err ev'. run_code E run c addr input ro ev = Some (ret, g, err, ev') \<and> g \<le> c_Gas c \<and>
     run_rel E V ro ev ev'"
proof -
  let ?d = "StateDB ev"
  let ?c = "SetCallCode c addr (GetCodeHash (e_db E) ?d addr) (GetCode (e_db E) ?d addr)"
  have "v_inv V ?d" using assms(2) by (simp add: evm_ok_def)
  then have "con_ok (e_lib E) ?c"
    using GetCodeHash_law [of ?d addr] GetCode_law [of ?d addr] assms(5,6) by (auto simp: con_ok_def SetCallCode_def)
  then obtain ret err c' ev' where "run ?c ev input ro = Some (ret, err, c', ev')" "c_Gas c' \<le> c_Gas ?c"
      "run_rel E V ro ev ev'"
    using assms(1-4) unfolding run_ok_def by (fastforce simp: SetCallCode_def)
  then show ?thesis by (simp add: run_code_def Let_def SetCallCode_def)
qed

lemma new_contract_ok:
  assumes "evm_ok E V ev"
  obtains c jd where "new_contract caller object value gas ev = (c, ev\<lparr>jumpdests := jd\<rparr>)"
    "jd_ok (e_lib E) jd" "c_analysis c = None" "c_Input c = []" "c_Gas c = gas" "c_caller c = caller"
    "c_CodeHash c = zeroHash"
proof -
  have "jd_ok (e_lib E) (case caller of ParentContract a c v \<Rightarrow> jumpdests ev | AccountRef a \<Rightarrow> Map.empty)"
    using assms by (cases caller) (auto simp: evm_ok_def jd_ok_def)
  then show ?thesis by (intro that) (auto simp: new_contract_def NewContract_def)
qed

text \<open>The callee of a call: a precompiled contract or the code of an address.\<close>

lemma callee_ok:
  assumes "run_ok n E V run" "evm_ok E V ev" "length input < 2 ^ 63" "unat gas < n"
  shows "\<exists>ret g err ev'. (case p of
       Some p \<Rightarrow> (case RunPrecompiledContract p input gas of (ret, gas, err) \<Rightarrow> Some (ret, gas, err, ev))
     | None \<Rightarrow> let (c, ev) = new_contract caller object v gas ev in run_code E run c addr input ro ev) =
       Some (ret, g, err, ev') \<and> g \<le> gas \<and> run_rel E V ro ev ev'"
proof (cases p)
  case (Some q)
  obtain ret g err where "RunPrecompiledContract q input gas = (ret, g, err)"
    by (cases "RunPrecompiledContract q input gas")
  with Some precompiled_gas [OF this] run_rel_refl [OF assms(2)] show ?thesis by simp
next
  case None
  obtain c jd where c: "new_contract caller object v gas ev = (c, ev\<lparr>jumpdests := jd\<rparr>)"
    "jd_ok (e_lib E) jd" "c_analysis c = None" "c_Input c = []" "c_Gas c = gas"
    using new_contract_ok [OF assms(2)] by metis
  have "evm_ok E V (ev\<lparr>jumpdests := jd\<rparr>)" using assms(2) c(2) by (simp add: evm_ok_def)
  from run_code_ok [OF assms(1) this assms(3) _ c(3,4), of addr ro] assms(4) c(1,5) None show ?thesis
    by (auto simp: run_rel_def)
qed

lemma revert_on_error_ok:
  assumes "evm_ok E V ev" "Snapshot (e_db E) (StateDB ev) = (i, d)" "db_rel E V ro d (StateDB ev')"
    and "ro_mode E ev \<longrightarrow> ro" "jd_ok (e_lib E) (jumpdests ev')" "depth ev' = depth ev" "readOnly ev' = readOnly ev"
    and "g \<le> gas"
  shows "\<exists>r. revert_on_error E i ret g err ev' = Some r \<and> call_post E V ev gas r \<and>
     (ro \<longrightarrow> db_same E V (StateDB ev) (StateDB (snd (snd (snd r)))))"
proof -
  have inv: "v_inv V (StateDB ev)" using assms(1) by (simp add: evm_ok_def)
  note s = Snapshot_law [OF inv assms(2)]
  obtain zs where zs: "v_saved V (StateDB ev') = v_saved V (StateDB ev) @ v_core V (StateDB ev) # zs"
    using assms(3) s by (auto simp: db_rel_def)
  have inv': "v_inv V (StateDB ev')" using assms(3) by (simp add: db_rel_def)
  have same: "ro \<longrightarrow> db_same E V (StateDB ev) (StateDB ev')"
    using assms(3) s by (auto simp: db_rel_def db_same_def)
  show ?thesis
  proof (cases err)
    case None
    with inv' zs same assms show ?thesis
      by (auto simp: revert_on_error_def call_post_def evm_rel_def db_rel_def)
  next
    case (Some e)
    obtain d' where d': "RevertToSnapshot (e_db E) (StateDB ev') i = Some d'" "v_inv V d'"
        "v_saved V d' = v_saved V (StateDB ev)" "v_core V d' = v_core V (StateDB ev)"
        "GetBalance (e_db E) d' = GetBalance (e_db E) (StateDB ev')"
      using Revert_law [OF inv', of i] s zs by (auto simp: nth_append)
    then have "ro \<longrightarrow> db_same E V (StateDB ev) d'" using same by (simp add: db_same_def)
    with d' Some assms(4-8) show ?thesis
      by (auto simp: revert_on_error_def call_post_def evm_rel_def db_rel_def)
  qed
qed

text \<open>The state after the snapshot, which \<^verbatim>\<open>CreateAccount\<close>, \<^verbatim>\<open>Transfer\<close> and \<^verbatim>\<open>AddBalance\<close> may change.\<close>

lemma snapshot_ok:
  assumes "evm_ok E V ev" "Snapshot (e_db E) (StateDB ev) = (i, d)"
  shows "v_inv V d"
  using Snapshot_law [OF _ assms(2)] assms(1) by (simp add: evm_ok_def)

lemma run_rel_db: "run_rel E V ro (ev\<lparr>StateDB := d\<rparr>) ev' \<Longrightarrow> db_rel E V ((readOnly ev \<or> ro) \<and> IsByzantium (e_rules E)) d (StateDB ev') \<and>
    jd_ok (e_lib E) (jumpdests ev') \<and> depth ev' = depth ev \<and> readOnly ev' = readOnly ev"
  by (simp add: run_rel_def)

lemma EVM_Call_ok:
  assumes "run_ok n E V run" "call_pre E V n input gas ev" "ro_mode E ev \<longrightarrow> value = 0"
  shows "\<exists>r. EVM_Call E run caller addr input gas value ev = Some r \<and> call_post E V ev gas r"
proof -
  have ev: "evm_ok E V ev" and pre: "length input < 2 ^ 63" "unat gas < n"
    using assms(2) by (simp_all add: call_pre_def)
  have skip: "call_post E V ev gas ([], gas, err, ev)" for err using ev by (simp add: call_post_def)
  obtain i d where sn: "Snapshot (e_db E) (StateDB ev) = (i, d)" by (cases "Snapshot (e_db E) (StateDB ev)")
  note d = snapshot_ok [OF ev sn]
  let ?p = "e_precompile E addr"
  define d1 where "d1 = Transfer E (if \<not> Exist (e_db E) d addr then CreateAccount (e_db E) d addr else d)
     (ref_Address caller) addr value"
  let ?b = "case ?p of
       Some p \<Rightarrow> (case RunPrecompiledContract p input gas of (ret, gas, err) \<Rightarrow> Some (ret, gas, err, ev\<lparr>StateDB := d1\<rparr>))
     | None \<Rightarrow>
         if GetCode (e_db E) d1 addr = [] then Some ([], gas, None, ev\<lparr>StateDB := d1\<rparr>)
         else let (c, ev) = new_contract caller addr value gas (ev\<lparr>StateDB := d1\<rparr>)
           in run_code E run c addr input False ev"
  have d1: "db_rel E V (ro_mode E ev) d d1"
    using d assms(3) CreateAccount_law [OF d, of addr]
      Transfer_law [of "if \<not> Exist (e_db E) d addr then CreateAccount (e_db E) d addr else d"]
    by (auto simp: d1_def db_rel_def db_upd_def db_same_def)
  have ev1: "evm_ok E V (ev\<lparr>StateDB := d1\<rparr>)" using ev d1 by (simp add: evm_ok_def db_rel_def)
  have "\<exists>ret g err ev2. ?b = Some (ret, g, err, ev2) \<and> g \<le> gas \<and> run_rel E V False (ev\<lparr>StateDB := d1\<rparr>) ev2"
  proof (cases "?p = None \<and> GetCode (e_db E) d1 addr = []")
    case True
    with run_rel_refl [OF ev1] show ?thesis by simp
  next
    case False
    then have "?b = (case ?p of
       Some p \<Rightarrow> (case RunPrecompiledContract p input gas of (ret, gas, err) \<Rightarrow> Some (ret, gas, err, ev\<lparr>StateDB := d1\<rparr>))
     | None \<Rightarrow> let (c, ev) = new_contract caller addr value gas (ev\<lparr>StateDB := d1\<rparr>)
           in run_code E run c addr input False ev)" by (auto split: option.split)
    then show ?thesis using callee_ok [OF assms(1) ev1 pre, where p = ?p and caller = caller and object = addr and
        v = "value" and addr = addr and ro = False] by simp
  qed
  then obtain ret g err ev2 where body: "?b = Some (ret, g, err, ev2)" "g \<le> gas"
      "run_rel E V False (ev\<lparr>StateDB := d1\<rparr>) ev2" by blast
  have rel: "db_rel E V (ro_mode E ev) d (StateDB ev2)" "jd_ok (e_lib E) (jumpdests ev2)"
    "depth ev2 = depth ev" "readOnly ev2 = readOnly ev"
    using run_rel_db [OF body(3)] db_rel_trans [OF d1] by (auto simp: ro_mode_def)
  from revert_on_error_ok [OF ev sn rel(1) _ rel(2-4) body(2), of ret err] obtain r where
    r: "revert_on_error E i ret g err ev2 = Some r" "call_post E V ev gas r" by auto
  have "call_post E V ev gas ([], gas, None, ev\<lparr>StateDB := d\<rparr>)"
    using Snapshot_law [OF _ sn] ev by (auto simp: call_post_def evm_ok_def evm_rel_def db_rel_def)
  moreover have "?b \<bind> (\<lambda>(ret, gas, err, ev). revert_on_error E i ret gas err ev) = Some r"
    unfolding body(1) using r(1) by simp
  ultimately show ?thesis
    using skip r(2) unfolding EVM_Call_def Let_def sn prod.case d1_def [symmetric] by (cases r) auto
qed

lemma EVM_CallCode_ok:
  assumes "run_ok n E V run" "call_pre E V n input gas ev"
  shows "\<exists>r. EVM_CallCode E run caller addr input gas value ev = Some r \<and> call_post E V ev gas r"
proof -
  have ev: "evm_ok E V ev" and pre: "length input < 2 ^ 63" "unat gas < n"
    using assms(2) by (simp_all add: call_pre_def)
  have skip: "call_post E V ev gas ([], gas, err, ev)" for err using ev by (simp add: call_post_def)
  obtain i d where sn: "Snapshot (e_db E) (StateDB ev) = (i, d)" by (cases "Snapshot (e_db E) (StateDB ev)")
  have ev1: "evm_ok E V (ev\<lparr>StateDB := d\<rparr>)" using snapshot_ok [OF ev sn] ev by (simp add: evm_ok_def)
  note callee = callee_ok [OF assms(1) ev1 pre, where p = "e_precompile E addr" and caller = caller and
      object = "ref_Address caller" and v = "value" and addr = addr and ro = False]
  obtain ret g err ev2 where body: "(case e_precompile E addr of
       Some p \<Rightarrow> (case RunPrecompiledContract p input gas of (ret, gas, err) \<Rightarrow> Some (ret, gas, err, ev\<lparr>StateDB := d\<rparr>))
     | None \<Rightarrow> let (c, ev) = new_contract caller (ref_Address caller) value gas (ev\<lparr>StateDB := d\<rparr>)
         in run_code E run c addr input False ev) = Some (ret, g, err, ev2)"
    "g \<le> gas" "run_rel E V False (ev\<lparr>StateDB := d\<rparr>) ev2"
    using callee by blast
  have rel: "db_rel E V (ro_mode E ev) d (StateDB ev2)" "jd_ok (e_lib E) (jumpdests ev2)"
    "depth ev2 = depth ev" "readOnly ev2 = readOnly ev"
    using run_rel_db [OF body(3)] by (auto simp: ro_mode_def)
  from revert_on_error_ok [OF ev sn rel(1) _ rel(2-4) body(2), of ret err] obtain r where
    "revert_on_error E i ret g err ev2 = Some r" "call_post E V ev gas r" by auto
  with skip show ?thesis
    unfolding EVM_CallCode_def Let_def sn prod.case body(1) [unfolded Let_def] by (cases r) simp
qed

lemma EVM_DelegateCall_ok:
  assumes "run_ok n E V run" "call_pre E V n input gas ev"
  shows "\<exists>r. EVM_DelegateCall E run (con_ref co) addr input gas ev = Some r \<and> call_post E V ev gas r"
proof -
  have ev: "evm_ok E V ev" and pre: "length input < 2 ^ 63" "unat gas < n"
    using assms(2) by (simp_all add: call_pre_def)
  have skip: "call_post E V ev gas ([], gas, err, ev)" for err using ev by (simp add: call_post_def)
  obtain i d where sn: "Snapshot (e_db E) (StateDB ev) = (i, d)" by (cases "Snapshot (e_db E) (StateDB ev)")
  have ev1: "evm_ok E V (ev\<lparr>StateDB := d\<rparr>)" using snapshot_ok [OF ev sn] ev by (simp add: evm_ok_def)
  let ?b = "case e_precompile E addr of
       Some p \<Rightarrow> (case RunPrecompiledContract p input gas of (ret, gas, err) \<Rightarrow> Some (ret, gas, err, ev\<lparr>StateDB := d\<rparr>))
     | None \<Rightarrow> (case new_contract (con_ref co) (ref_Address (con_ref co)) 0 gas (ev\<lparr>StateDB := d\<rparr>) of (c, ev) \<Rightarrow>
         AsDelegate c \<bind> (\<lambda>c. run_code E run c addr input False ev))"
  have "\<exists>ret g err ev2. ?b = Some (ret, g, err, ev2) \<and> g \<le> gas \<and> run_rel E V False (ev\<lparr>StateDB := d\<rparr>) ev2"
  proof (cases "e_precompile E addr")
    case (Some p)
    with callee_ok [OF assms(1) ev1 pre, where p = "Some p" and ro = False] show ?thesis by simp
  next
    case None
    obtain c jd where c: "new_contract (con_ref co) (ref_Address (con_ref co)) 0 gas (ev\<lparr>StateDB := d\<rparr>) =
        (c, ev\<lparr>StateDB := d\<rparr>\<lparr>jumpdests := jd\<rparr>)"
      "jd_ok (e_lib E) jd" "c_analysis c = None" "c_Input c = []" "c_Gas c = gas" "c_caller c = con_ref co"
      using new_contract_ok [OF ev1] by metis
    obtain c' where c': "AsDelegate c = Some c'" "c_analysis c' = None" "c_Input c' = []" "c_Gas c' = gas"
      using c by (auto simp: AsDelegate_def con_ref_def)
    have "evm_ok E V (ev\<lparr>StateDB := d\<rparr>\<lparr>jumpdests := jd\<rparr>)" using ev1 c(2) by (simp add: evm_ok_def)
    from run_code_ok [OF assms(1) this pre(1) _ c'(2,3), of addr False] pre(2) c(1) c' None show ?thesis
      by (auto simp: run_rel_def)
  qed
  then obtain ret g err ev2 where body: "?b = Some (ret, g, err, ev2)" "g \<le> gas" "run_rel E V False (ev\<lparr>StateDB := d\<rparr>) ev2"
    by blast
  have rel: "db_rel E V (ro_mode E ev) d (StateDB ev2)" "jd_ok (e_lib E) (jumpdests ev2)"
    "depth ev2 = depth ev" "readOnly ev2 = readOnly ev"
    using run_rel_db [OF body(3)] by (auto simp: ro_mode_def)
  from revert_on_error_ok [OF ev sn rel(1) _ rel(2-4) body(2), of ret err] obtain r where
    "revert_on_error E i ret g err ev2 = Some r" "call_post E V ev gas r" by auto
  with skip show ?thesis
    unfolding EVM_DelegateCall_def Let_def sn prod.case body(1) by (cases r) simp
qed

lemma EVM_StaticCall_ok:
  assumes "run_ok n E V run" "call_pre E V n input gas ev"
  shows "\<exists>r. EVM_StaticCall E run caller addr input gas ev = Some r \<and> call_post E V ev gas r \<and>
     (IsByzantium (e_rules E) \<longrightarrow> db_same E V (StateDB ev) (StateDB (snd (snd (snd r)))))"
proof -
  have ev: "evm_ok E V ev" and pre: "length input < 2 ^ 63" "unat gas < n"
    using assms(2) by (simp_all add: call_pre_def)
  have skip: "call_post E V ev gas ([], gas, err, ev)" for err using ev by (simp add: call_post_def)
  obtain i d where sn: "Snapshot (e_db E) (StateDB ev) = (i, d)" by (cases "Snapshot (e_db E) (StateDB ev)")
  define d1 where "d1 = AddBalance (e_db E) d addr 0"
  have d1: "db_rel E V ro d d1" for ro
    using AddBalance_law [OF snapshot_ok [OF ev sn], of addr 0] by (simp add: d1_def db_rel_upd)
  have ev1: "evm_ok E V (ev\<lparr>StateDB := d1\<rparr>)" using d1 ev by (simp add: evm_ok_def db_rel_def)
  note callee = callee_ok [OF assms(1) ev1 pre, where p = "e_precompile E addr" and caller = caller and
      object = addr and v = 0 and addr = addr and ro = True]
  obtain ret g err ev2 where body: "(case e_precompile E addr of
       Some p \<Rightarrow> (case RunPrecompiledContract p input gas of (ret, gas, err) \<Rightarrow> Some (ret, gas, err, ev\<lparr>StateDB := d1\<rparr>))
     | None \<Rightarrow> let (c, ev) = new_contract caller addr 0 gas (ev\<lparr>StateDB := d1\<rparr>)
         in run_code E run c addr input True ev) = Some (ret, g, err, ev2)"
    "g \<le> gas" "run_rel E V True (ev\<lparr>StateDB := d1\<rparr>) ev2"
    using callee by blast
  have rel: "db_rel E V (IsByzantium (e_rules E)) d (StateDB ev2)" "jd_ok (e_lib E) (jumpdests ev2)"
    "depth ev2 = depth ev" "readOnly ev2 = readOnly ev"
    using run_rel_db [OF body(3)] db_rel_trans [OF d1] by auto
  from revert_on_error_ok [OF ev sn rel(1) _ rel(2-4) body(2), of ret err] obtain r where
    "revert_on_error E i ret g err ev2 = Some r" "call_post E V ev gas r"
    "IsByzantium (e_rules E) \<longrightarrow> db_same E V (StateDB ev) (StateDB (snd (snd (snd r))))" by (auto simp: ro_mode_def)
  with skip show ?thesis
    unfolding EVM_StaticCall_def Let_def sn prod.case d1_def [symmetric] body(1) [unfolded Let_def]
    by (cases r) (simp add: db_same_def)
qed

section \<open>Creations\<close>

text \<open>A reverted creation is back in the state of its snapshot, which keeps the earlier snapshots.\<close>

lemma creation_revert:
  assumes "v_inv V d" "Snapshot (e_db E) d = (i, d0)" "db_rel E V False d0 d1"
  shows "\<exists>d'. RevertToSnapshot (e_db E) d1 i = Some d' \<and> db_rel E V False d d'"
proof -
  note s = Snapshot_law [OF assms(1,2)]
  obtain zs where "v_saved V d1 = v_saved V d @ v_core V d # zs" using assms(3) s by (auto simp: db_rel_def)
  then show ?thesis
    using Revert_law [of d1 i] assms(3) s by (auto simp: db_rel_def)
qed

lemma finish_creation_ok:
  assumes "v_inv V d" "Snapshot (e_db E) d = (i, d0)" "db_rel E V False d0 (StateDB ev)"
    and "err = None \<longrightarrow> length ret < 2 ^ 63"
  shows "\<exists>err' g d'. finish_creation E i address ret err c ev = Some (ret, address, g, err', ev\<lparr>StateDB := d'\<rparr>) \<and>
     g \<le> c_Gas c \<and> db_rel E V False d d'"
proof -
  let ?max = "IsEIP158 (e_rules E) \<and> int (length ret) > sint (params (e_lib E) ''MaxCodeSize'')"
  define r where "r = (if err = None \<and> \<not> ?max
     then case UseGas c (of_nat (length ret) * params (e_lib E) ''CreateDataGas'') of
         Some c \<Rightarrow> (None, c, ev\<lparr>StateDB := SetCode (e_db E) (StateDB ev) address ret\<rparr>)
       | None \<Rightarrow> (Some ErrCodeStoreOutOfGas, c, ev)
     else (err, c, ev))"
  have inv: "v_inv V (StateDB ev)" using assms(3) by (simp add: db_rel_def)
  obtain err1 c1 d1 where r: "r = (err1, c1, ev\<lparr>StateDB := d1\<rparr>)" "c_Gas c1 \<le> c_Gas c" "db_rel E V False d0 d1"
  proof (cases "err = None \<and> \<not> ?max \<and> UseGas c (of_nat (length ret) * params (e_lib E) ''CreateDataGas'') \<noteq> None")
    case True
    then obtain c1 where c1: "UseGas c (of_nat (length ret) * params (e_lib E) ''CreateDataGas'') = Some c1" by auto
    have "db_rel E V False d0 (SetCode (e_db E) (StateDB ev) address ret)"
      using db_rel_trans [OF assms(3) db_rel_upd] SetCode_law [OF inv] True assms(4) by blast
    with c1 True UseGas_Some(3) [OF c1] show ?thesis by (intro that) (auto simp: r_def)
  next
    case False
    have "ev\<lparr>StateDB := StateDB ev\<rparr> = ev" by simp
    with False assms(3) show ?thesis by (intro that [of "fst r" c "StateDB ev"]) (auto simp: r_def)
  qed
  have keep: "db_rel E V False d d1"
    using r(3) Snapshot_law [OF assms(1,2)] by (auto simp: db_rel_def)
  obtain d2 where d2: "RevertToSnapshot (e_db E) d1 i = Some d2" "db_rel E V False d d2"
    using creation_revert [OF assms(1,2) r(3)] by blast
  have "finish_creation E i address ret err c ev = do {
       (c, ev) \<leftarrow> (if ?max \<or> (err1 \<noteq> None \<and> (IsHomestead (e_rules E) \<or> err1 \<noteq> Some ErrCodeStoreOutOfGas))
         then Some (if err1 \<noteq> Some ErrExecutionReverted then c1\<lparr>c_Gas := 0\<rparr> else c1, ev\<lparr>StateDB := d2\<rparr>)
         else Some (c1, ev\<lparr>StateDB := d1\<rparr>));
       Some (ret, address, c_Gas c, if ?max \<and> err1 = None then Some ErrMaxCodeSizeExceeded else err1, ev)
     }"
    unfolding finish_creation_def Let_def r_def [symmetric] r(1) prod.case
    by (auto simp: d2)
  then show ?thesis using r(2) keep d2(2) by (auto split: if_splits)
qed

lemma EVM_create_ok:
  assumes "run_ok n E V run" "call_pre E V n (ch_code ch) gas ev" "\<not> ro_mode E ev"
    and "ch_hash ch = zeroHash \<or> ch_hash ch = Keccak256 (e_lib E) (ch_code ch)"
  shows "\<exists>r. EVM_create E run caller ch gas value address ev = Some r \<and> create_post E V ev gas r"
proof -
  let ?S = "e_db E" and ?a = "ref_Address caller"
  have ev: "evm_ok E V ev" and pre: "length (ch_code ch) < 2 ^ 63" "unat gas < n"
    using assms(2) by (simp_all add: call_pre_def)
  have inv: "v_inv V (StateDB ev)" using ev by (simp add: evm_ok_def)
  define d where "d = SetNonce ?S (StateDB ev) ?a (GetNonce ?S (StateDB ev) ?a + 1)"
  have d: "db_upd V (StateDB ev) d" unfolding d_def by (rule SetNonce_law [OF inv])
  then have invd: "v_inv V d" by (simp add: db_upd_def)
  obtain i d0 where sn: "Snapshot ?S d = (i, d0)" by (cases "Snapshot ?S d")
  note s = Snapshot_law [OF invd sn]
  define d1 where "d1 = CreateAccount ?S d0 address"
  define d2 where "d2 = (if IsEIP158 (e_rules E) then SetNonce ?S d1 address 1 else d1)"
  define d3 where "d3 = Transfer E d2 ?a address value"
  have "db_upd V d0 d1" using CreateAccount_law s by (simp add: d1_def)
  moreover from this have "db_upd V d1 d2" using SetNonce_law by (auto simp: d2_def db_upd_def)
  moreover from this have "db_upd V d2 d3" using Transfer_law by (simp add: d3_def db_upd_def)
  ultimately have d3: "db_rel E V False d0 d3" by (auto intro: db_rel_upd db_upd_trans)
  have ev3: "evm_ok E V (ev\<lparr>StateDB := d3\<rparr>)" using ev d3 by (simp add: evm_ok_def db_rel_def)
  obtain c jd where c: "new_contract caller address value gas (ev\<lparr>StateDB := d3\<rparr>) = (c, ev\<lparr>StateDB := d3\<rparr>\<lparr>jumpdests := jd\<rparr>)"
    "jd_ok (e_lib E) jd" "c_analysis c = None" "c_Input c = []" "c_Gas c = gas"
    using new_contract_ok [OF ev3] by metis
  let ?ev = "ev\<lparr>StateDB := d3\<rparr>\<lparr>jumpdests := jd\<rparr>" and ?c = "SetCodeOptionalHash c address ch"
  have evj: "evm_ok E V ?ev" using ev3 c(2) by (simp add: evm_ok_def)
  have con: "con_ok (e_lib E) ?c" and gas: "c_Gas ?c = gas"
    using c assms(4) pre(1) by (auto simp: con_ok_def SetCodeOptionalHash_def)
  obtain ret err c' ev' where run: "run ?c ?ev [] False = Some (ret, err, c', ev')" "c_Gas c' \<le> gas"
      "run_rel E V False ?ev ev'" "err = None \<longrightarrow> length ret < 2 ^ 63"
    using run_okD [OF assms(1) con evj, of "[]" False] pre(2) unfolding gas by auto
  have rel: "db_rel E V False d0 (StateDB ev')" "jd_ok (e_lib E) (jumpdests ev')" "depth ev' = depth ev" "readOnly ev' = readOnly ev"
    using run(3) d3 by (auto simp: run_rel_def db_rel_def)
  from finish_creation_ok [OF invd sn rel(1) run(4), of address c'] obtain err' g d' where
    fin: "finish_creation E i address ret err c' ev' = Some (ret, address, g, err', ev'\<lparr>StateDB := d'\<rparr>)"
      "g \<le> c_Gas c'" "db_rel E V False d d'" by blast
  have "create_post E V ev gas ([], zeroAddress, gas, e, ev)" for e using ev by (simp add: create_post_def)
  moreover have "create_post E V ev gas ([], zeroAddress, 0, e, ev\<lparr>StateDB := d\<rparr>)" for e
    using ev d assms(3) by (simp add: create_post_def evm_rel_def evm_ok_def db_rel_upd)
  moreover have "create_post E V ev gas ([], address, gas, None, ?ev)"
    using d3 d s c(2) assms(3) by (auto simp: create_post_def evm_rel_def db_rel_def db_upd_def)
  moreover have "create_post E V ev gas (ret, address, g, err', ev'\<lparr>StateDB := d'\<rparr>)"
    using fin(2,3) run(2) d rel(2-4) assms(3)
    by (auto simp: create_post_def evm_rel_def db_rel_def db_upd_def)
  ultimately show ?thesis
    unfolding EVM_create_def Let_def d_def [symmetric] sn prod.case d1_def [symmetric] d2_def [symmetric]
      d3_def [symmetric] c(1)
    by (simp add: run(1) fin(1))
qed

lemma evm_calls_ok:
  assumes "run_ok n E V run"
  shows "calls_ok n E V (evm_calls E run)"
proof -
  have "\<exists>r. EVM_Create E run caller code gas value ev = Some r \<and> create_post E V ev gas r"
    if "call_pre E V n code gas ev" "\<not> ro_mode E ev" for caller code gas "value" ev
    unfolding EVM_Create_def Let_def by (rule EVM_create_ok [OF assms]) (use that in simp_all)
  note create = this
  have "\<exists>r. EVM_Create2 E run caller code gas value salt ev = Some r \<and> create_post E V ev gas r"
    if "call_pre E V n code gas ev" "\<not> ro_mode E ev" for caller code gas "value" salt ev
    unfolding EVM_Create2_def Let_def codeAndHash_Hash_def prod.case
    by (rule EVM_create_ok [OF assms]) (use that in simp_all)
  note create2 = this
  have static: "\<exists>r. EVM_StaticCall E run caller addr input gas ev = Some r \<and> call_post E V ev gas r"
    if "call_pre E V n input gas ev" for caller addr input gas ev
    using EVM_StaticCall_ok [OF assms that] by blast
  show ?thesis
    unfolding calls_ok_def evm_calls_def calls.simps
    by (intro conjI allI impI EVM_Call_ok [OF assms] EVM_CallCode_ok [OF assms] EVM_DelegateCall_ok [OF assms]
        static create create2) auto
qed

section \<open>Enough fuel\<close>

lemma interp_ok: "table_ok E V jt \<Longrightarrow> loop_ok n E V (interp n E jt steps)"
proof (induction n arbitrary: steps)
  case 0
  show ?case by (simp add: loop_ok_def)
next
  case (Suc n)
  let ?C = "evm_calls E (Run_with (interp n E jt 0))"
  have C: "calls_ok n E V ?C" by (rule evm_calls_ok [OF Run_with_ok [OF Suc.IH [OF Suc.prems]]])
  show ?case
    unfolding loop_ok_def
  proof (intro allI impI)
    fix m assume m: "frame_ok E V m" "unat (c_Gas (m_con m)) < Suc n"
    obtain r where r: "loop_turn E jt ?C steps m = Some r" "step_post E V m r"
      using loop_turn_ok [OF Suc.prems C m] by blast
    show "\<exists>ret err m'. interp (Suc n) E jt steps m = Some (ret, err, m') \<and> evm_rel E V (m_evm m) (m_evm m') \<and>
        c_Gas (m_con m') \<le> c_Gas (m_con m) \<and> (err = None \<longrightarrow> length ret < 2 ^ 63)"
    proof (cases r)
      case (Finish ret err m')
      with r show ?thesis by (simp add: step_post_def)
    next
      case (Continue m1)
      then have m1: "frame_ok E V m1" "evm_rel E V (m_evm m) (m_evm m1)" "unat (c_Gas (m_con m1)) < unat (c_Gas (m_con m))"
        using r(2) by (simp_all add: step_post_def)
      then obtain ret err m' where "interp n E jt (steps + 1) m1 = Some (ret, err, m')"
          "evm_rel E V (m_evm m1) (m_evm m')" "c_Gas (m_con m') \<le> c_Gas (m_con m1)" "err = None \<longrightarrow> length ret < 2 ^ 63"
        using Suc.IH [OF Suc.prems, of "steps + 1", unfolded loop_ok_def, rule_format, OF m1(1)] m(2) by auto
      with Continue r(1) m1 show ?thesis
        using evm_rel_trans [OF m1(2)] by (auto simp: word_le_nat_alt)
    qed
  qed
qed

lemma Run_ok: "table_ok E V jt \<Longrightarrow> run_ok n E V (Run n E jt)"
  unfolding Run_def by (rule Run_with_ok [OF interp_ok])

end

end
