(* ===== verification/Spec2Isabelle.thy ===== *)
theory Spec2Isabelle
  imports Prelude Merkle_Props Addr_Codec Role_Props Core_Props Native_Props Executor_Props Storage_Props Tx_Pool_Props Cons_Example Evm_Machine
begin

text \<open>
  A verification library of the SVP blockchain node.
\<close>

end
